(* ===== verification/Prelude.thy ===== *)
theory Prelude
  imports Complex_Main
begin

text \<open>
  What the components share: the result type of C++ code that may throw, traces of timed events,
  and the interface of a component whose permissions must be traceable to an event that granted
  them.
\<close>

subsection \<open>Exceptions as values\<close>

text \<open>The exception classes the modelled code throws and catches.\<close>

datatype exn = Invalid_argument | Out_of_range | Runtime_error string

type_synonym 'a result = "exn + 'a"

definition bind_res :: "'e + 'a \<Rightarrow> ('a \<Rightarrow> 'e + 'b) \<Rightarrow> 'e + 'b" where
  "bind_res r f = (case r of Inl e \<Rightarrow> Inl e | Inr a \<Rightarrow> f a)"

lemma bind_res_simps [simp]:
  "bind_res (Inl e) f = Inl e"
  "bind_res (Inr a) f = f a"
  by (simp_all add: bind_res_def)

lemma bind_res_Inr: "bind_res r f = Inr b \<longleftrightarrow> (\<exists>a. r = Inr a \<and> f a = Inr b)"
  by (cases r) auto

lemma bind_res_Inl: "bind_res r f = Inl e \<longleftrightarrow> r = Inl e \<or> (\<exists>a. r = Inr a \<and> f a = Inl e)"
  by (cases r) auto

subsection \<open>Traces\<close>

text \<open>The callbacks of a node run one at a time; a history is the list of its events with the
  clock reading each was handled at.\<close>

definition run_events :: "('e \<Rightarrow> 't \<Rightarrow> 's \<Rightarrow> 's) \<Rightarrow> ('e \<times> 't) list \<Rightarrow> 's \<Rightarrow> 's" where
  "run_events handle es s = foldl (\<lambda>s (e, t). handle e t s) s es"

lemma run_events_Nil [simp]: "run_events handle [] s = s"
  by (simp add: run_events_def)

lemma run_events_snoc [simp]:
  "run_events handle (es @ [(e, t)]) s = handle e t (run_events handle es s)"
  by (simp add: run_events_def)

lemma run_events_append:
  "run_events handle (es @ es') s = run_events handle es' (run_events handle es s)"
  by (simp add: run_events_def)

text \<open>What every event preserves holds after every history.\<close>

locale invariant =
  fixes handle :: "'e \<Rightarrow> 't \<Rightarrow> 's \<Rightarrow> 's" and inv :: "'s \<Rightarrow> bool"
  assumes step: "inv s \<Longrightarrow> inv (handle e t s)"
begin

lemma always: "inv s \<Longrightarrow> inv (run_events handle es s)"
  by (induction es rule: rev_induct) (auto intro: step)

end

text \<open>
  Permissions: \<open>live\<close> says the state holds one, \<open>dated\<close> with which content (a token, a time, a
  deadline), and \<open>renews\<close> which events may grant one at which time. If a step can only keep the
  permission it found or take the one its own event grants, then every permission a history ends
  with was granted by an event of the history.
\<close>

locale grant_log =
  fixes handle :: "'e \<Rightarrow> 't \<Rightarrow> 's \<Rightarrow> 's"
    and live :: "'s \<Rightarrow> bool"
    and dated :: "'s \<Rightarrow> 'd \<Rightarrow> bool"
    and renews :: "'e \<Rightarrow> 't \<Rightarrow> 'd \<Rightarrow> bool"
  assumes grant: "live (handle e t s) \<Longrightarrow> dated (handle e t s) d \<Longrightarrow>
    renews e t d \<or> (live s \<and> dated s d)"
begin

lemma traced:
  assumes "live (run_events handle es s)" "dated (run_events handle es s) d" "\<not> live s"
  shows "\<exists>e t. (e, t) \<in> set es \<and> renews e t d"
  using assms
proof (induction es rule: rev_induct)
  case (snoc x es)
  obtain e t where x: "x = (e, t)" by (cases x)
  from snoc.prems grant [of e t "run_events handle es s" d] snoc.IH show ?case
    by (auto simp: x)
qed simp

end

text \<open>The same for a permission without content.\<close>

locale flag_log =
  fixes handle :: "'e \<Rightarrow> 't \<Rightarrow> 's \<Rightarrow> 's"
    and flag :: "'s \<Rightarrow> bool"
    and sets :: "'e \<Rightarrow> bool"
  assumes flag: "flag (handle e t s) \<Longrightarrow> flag s \<or> sets e"

sublocale flag_log \<subseteq> grants: grant_log handle flag "\<lambda>s (d :: unit). True" "\<lambda>e t d. sets e"
  by unfold_locales (use flag in blast)

subsection \<open>Strings\<close>

text \<open>\<open>std::to_string\<close> of an integer.\<close>

fun nat_to_string :: "nat \<Rightarrow> string" where
  "nat_to_string n =
     (if n < 10 then [char_of (48 + n)] else nat_to_string (n div 10) @ [char_of (48 + n mod 10)])"

declare nat_to_string.simps [simp del]

definition int_to_string :: "int \<Rightarrow> string" where
  "int_to_string n = (if n < 0 then CHR ''-'' # nat_to_string (nat (- n)) else nat_to_string (nat n))"

text \<open>\<open>s.find(sub) != npos\<close>, and the prefix test of \<open>rfind(sub, 0) == 0\<close>.\<close>

fun starts_with :: "string \<Rightarrow> string \<Rightarrow> bool" where
  "starts_with [] s = True"
| "starts_with (c # cs) [] = False"
| "starts_with (c # cs) (d # ds) = (c = d \<and> starts_with cs ds)"

fun contains_sub :: "string \<Rightarrow> string \<Rightarrow> bool" where
  "contains_sub sub [] = (sub = [])"
| "contains_sub sub (c # cs) = (starts_with sub (c # cs) \<or> contains_sub sub cs)"

subsection \<open>JSON\<close>

text \<open>
  The JSON library is not part of the repository. What the components use of it is a record of
  functions over an abstract type of values; \<open>None\<close> is an exception of the library.
  \<open>j_string v k d\<close> is \<open>v.value(k, d)\<close> and \<open>j_at\<close> is \<open>v.at(k)\<close>.
\<close>

record ('j, 'n, 'w) json_api =
  j_parse :: "string \<Rightarrow> 'j option"
  j_string :: "'j \<Rightarrow> string \<Rightarrow> string \<Rightarrow> string option"
  j_at :: "'j \<Rightarrow> string \<Rightarrow> 'j option"
  j_as_string :: "'j \<Rightarrow> string option"
  j_as_bool :: "'j \<Rightarrow> bool option"
  j_as_number :: "'j \<Rightarrow> 'n option"
  j_is_unsigned :: "'j \<Rightarrow> bool"
  j_as_unsigned :: "'j \<Rightarrow> 'w option"

end
