(* ===== verification/Ieee_Double.thy ===== *)
theory Ieee_Double
  imports Prelude "HOL-Library.Log_Nat"
begin

text \<open>
  IEEE-754 binary64, the C++ \<open>double\<close> of every component: the finite values are the
  rationals they denote, an arithmetic operation rounds the exact result to 53 bits, nearest
  and ties to even, with gradual underflow at \<open>2 powi (- 1074)\<close> and overflow to an infinity
  at \<open>2 ^ 1024\<close>. Comparisons with NaN are false. Every definition computes, so a closed
  term over doubles is evaluated by \<open>code_simp\<close>.

  Two points of the standard are left out: both zeros are the one value \<open>Fin 0\<close> (the code
  never reads the sign of a zero), and the library functions \<open>sqrt\<close>, \<open>hypot\<close>, \<open>sin\<close>,
  \<open>cos\<close> and \<open>atan2\<close>, whose accuracy the standard does not fix, are parameters of the
  definitions that call them.
\<close>

subsection \<open>Rounding to 53 bits\<close>

definition flog2 :: "rat \<Rightarrow> int" where
  "flog2 q = (case quotient_of q of (n, d) \<Rightarrow>
     let e = bitlen n - bitlen d in if q < 2 powi e then e - 1 else e)"

definition rhe :: "rat \<Rightarrow> int" where
  "rhe q = (let f = \<lfloor>q\<rfloor>; r = q - of_int f in
     if r < 1 / 2 then f else if 1 / 2 < r then f + 1 else if even f then f else f + 1)"

definition ulp_exp :: "rat \<Rightarrow> int" where
  "ulp_exp q = max (flog2 \<bar>q\<bar> - 52) (- 1074)"

definition rnd64 :: "rat \<Rightarrow> rat" where
  "rnd64 q = (if q = 0 then 0 else let u = 2 powi ulp_exp q in of_int (rhe (q / u)) * u)"

lemma powi2_pos [simp]: "(0::rat) < 2 powi n"
  by simp

lemma powi2_mono: "m \<le> n \<Longrightarrow> (2::rat) powi m \<le> 2 powi n"
  by (rule power_int_increasing) auto

lemma powi2_strict: "m < n \<Longrightarrow> (2::rat) powi m < 2 powi n"
  by (rule power_int_strict_increasing) auto

lemma powi2_nat: "0 \<le> n \<Longrightarrow> (2::rat) powi n = of_int (2 ^ nat n)"
  by (simp add: power_int_def)

lemma powi2_diff: "(2::rat) powi m / 2 powi n = 2 powi (m - n)"
  by (simp add: power_int_diff)

lemma flog2_bounds:
  assumes "0 < q"
  shows "2 powi flog2 q \<le> q" "q < 2 powi (flog2 q + 1)"
proof -
  obtain n d where nd: "quotient_of q = (n, d)" by (cases "quotient_of q")
  have d: "0 < d" using nd by (rule quotient_of_denom_pos)
  have q: "q = of_int n / of_int d" using nd by (rule quotient_of_div)
  with assms d have n: "0 < n" by (simp add: zero_less_divide_iff)
  define e where "e = bitlen n - bitlen d"
  have b: "bitlen n \<ge> 1" "bitlen d \<ge> 1"
    using n d bitlen_eq_zero_iff bitlen_nonneg by (smt (verit))+
  have bn: "2 powi (bitlen n - 1) \<le> (of_int n :: rat)" "of_int n < (2::rat) powi bitlen n"
    using bitlen_bounds [OF n] b
    by (simp_all add: powi2_nat del: of_int_power)
  have bd: "2 powi (bitlen d - 1) \<le> (of_int d :: rat)" "of_int d < (2::rat) powi bitlen d"
    using bitlen_bounds [OF d] b
    by (simp_all add: powi2_nat del: of_int_power)
  have lo: "2 powi (e - 1) \<le> q"
  proof -
    have "2 powi (e - 1) = (2::rat) powi (bitlen n - 1) / 2 powi bitlen d"
      by (simp add: e_def powi2_diff algebra_simps)
    also have "\<dots> \<le> of_int n / of_int d"
      by (rule frac_le) (use bn bd n d in auto)
    finally show ?thesis by (simp add: q)
  qed
  have hi: "q < 2 powi (e + 1)"
  proof -
    have "of_int n / of_int d < (2::rat) powi bitlen n / 2 powi (bitlen d - 1)"
      by (rule frac_less) (use bn bd n d in auto)
    also have "\<dots> = 2 powi (e + 1)"
      by (simp add: e_def powi2_diff algebra_simps)
    finally show ?thesis by (simp add: q)
  qed
  have f: "flog2 q = (if q < 2 powi e then e - 1 else e)"
    by (simp add: flog2_def nd e_def Let_def)
  show "2 powi flog2 q \<le> q" "q < 2 powi (flog2 q + 1)"
    using lo hi by (auto simp: f not_less)
qed

lemma flog2_mono:
  assumes "0 < q" "q \<le> r"
  shows "flog2 q \<le> flog2 r"
proof (rule ccontr)
  assume "\<not> ?thesis"
  then have "(2::rat) powi (flog2 r + 1) \<le> 2 powi flog2 q" by (intro powi2_mono) simp
  with flog2_bounds [of q] flog2_bounds [of r] assms show False by simp
qed

lemma flog2_less:
  assumes "0 < q" "q < 2 powi k"
  shows "flog2 q < k"
  using flog2_bounds(1) [OF assms(1)] assms(2) powi2_mono [of k "flog2 q"] by linarith

lemma rhe_of_int [simp]: "rhe (of_int n) = n"
  by (simp add: rhe_def)

lemma rhe_bound: "\<bar>of_int (rhe q) - q\<bar> \<le> 1 / 2"
  using floor_correct [of q] by (auto simp: rhe_def Let_def abs_le_iff)

lemma rhe_mono:
  assumes "q \<le> r"
  shows "rhe q \<le> rhe r"
proof (cases "\<lfloor>q\<rfloor> = \<lfloor>r\<rfloor>")
  case True
  with assms show ?thesis by (auto simp: rhe_def Let_def)
next
  case False
  with assms have "\<lfloor>q\<rfloor> + 1 \<le> \<lfloor>r\<rfloor>" using floor_mono [OF assms] by linarith
  moreover have "rhe q \<le> \<lfloor>q\<rfloor> + 1" "\<lfloor>r\<rfloor> \<le> rhe r" by (auto simp: rhe_def Let_def)
  ultimately show ?thesis by linarith
qed

lemma rhe_minus: "rhe (- q) = - rhe q"
proof (cases "q = of_int \<lfloor>q\<rfloor>")
  case True
  then show ?thesis by (metis rhe_of_int of_int_minus)
next
  case False
  then have "\<lfloor>- q\<rfloor> = - \<lfloor>q\<rfloor> - 1" by linarith
  then show ?thesis using False by (auto simp: rhe_def Let_def)
qed

lemma rnd64_zero [simp]: "rnd64 0 = 0"
  by (simp add: rnd64_def)

lemma rnd64_minus [simp]: "rnd64 (- q) = - rnd64 q"
  by (simp add: rnd64_def ulp_exp_def Let_def rhe_minus)

lemma rnd64_ge_pow:
  assumes q: "2 powi k \<le> q" and k: "- 1074 \<le> k"
  shows "2 powi k \<le> rnd64 q"
proof -
  have q0: "0 < q" using q powi2_pos [of k] by linarith
  define j where "j = max k (flog2 q)"
  have j: "ulp_exp q \<le> j" "2 powi j \<le> q" "k \<le> j"
    using q0 q k flog2_bounds(1) [OF q0] by (auto simp: ulp_exp_def j_def max_def)
  define u where "u = (2::rat) powi ulp_exp q"
  have u: "0 < u" by (simp add: u_def)
  have "of_int (2 ^ nat (j - ulp_exp q)) = 2 powi j / u"
    using j by (simp add: u_def powi2_diff powi2_nat)
  also have "\<dots> \<le> q / u" using j u by (simp add: divide_right_mono)
  finally have "2 ^ nat (j - ulp_exp q) \<le> rhe (q / u)"
    using rhe_mono rhe_of_int by metis
  then have "(of_int (2 ^ nat (j - ulp_exp q)) :: rat) \<le> of_int (rhe (q / u))"
    by (simp only: of_int_le_iff)
  then have "of_int (2 ^ nat (j - ulp_exp q)) * u \<le> rnd64 q"
    using q0 u by (simp add: rnd64_def Let_def u_def [symmetric] mult_right_mono del: of_int_power)
  moreover have "of_int (2 ^ nat (j - ulp_exp q)) * u = 2 powi j"
    using j u by (simp add: u_def powi2_nat [symmetric] powi2_diff [symmetric] del: of_int_power)
  ultimately show ?thesis using powi2_mono [OF j(3)] by linarith
qed

lemma rnd64_le_pow:
  assumes q0: "0 < q" and q: "q \<le> 2 powi k" and k: "- 1074 \<le> k"
  shows "rnd64 q \<le> 2 powi k"
proof -
  have "ulp_exp q \<le> k"
  proof -
    have "(2::rat) powi flog2 q \<le> 2 powi k" using flog2_bounds(1) [OF q0] q by linarith
    then have "flog2 q \<le> k" using powi2_strict [of k "flog2 q"] by linarith
    with k q0 show ?thesis by (simp add: ulp_exp_def)
  qed
  define u where "u = (2::rat) powi ulp_exp q"
  have u: "0 < u" by (simp add: u_def)
  have e: "of_int (2 ^ nat (k - ulp_exp q)) = 2 powi k / u"
    using \<open>ulp_exp q \<le> k\<close> by (simp add: u_def powi2_diff powi2_nat)
  have "q / u \<le> of_int (2 ^ nat (k - ulp_exp q))"
    unfolding e using q u by (simp add: divide_right_mono)
  then have "rhe (q / u) \<le> 2 ^ nat (k - ulp_exp q)"
    using rhe_mono rhe_of_int by metis
  then have "(of_int (rhe (q / u)) :: rat) \<le> of_int (2 ^ nat (k - ulp_exp q))"
    by (simp only: of_int_le_iff)
  then have "rnd64 q \<le> of_int (2 ^ nat (k - ulp_exp q)) * u"
    using q0 u by (simp add: rnd64_def Let_def u_def [symmetric] mult_right_mono del: of_int_power)
  also have "\<dots> = 2 powi k" using u by (simp add: e del: of_int_power)
  finally show ?thesis .
qed

lemma rnd64_nonneg:
  assumes "0 \<le> q"
  shows "0 \<le> rnd64 q"
proof -
  have "rhe 0 \<le> rhe (q / 2 powi ulp_exp q)"
    by (rule rhe_mono) (use assms in simp)
  then have "0 \<le> rhe (q / 2 powi ulp_exp q)" using rhe_of_int [of 0] by simp
  then show ?thesis by (simp add: rnd64_def Let_def)
qed

lemma rnd64_mono_pos:
  assumes q: "0 < q" and qr: "q \<le> r"
  shows "rnd64 q \<le> rnd64 r"
proof (cases "ulp_exp q = ulp_exp r")
  case True
  then have "rhe (q / 2 powi ulp_exp q) \<le> rhe (r / 2 powi ulp_exp r)"
    using qr by (intro rhe_mono) (simp add: divide_right_mono)
  then show ?thesis using True q qr by (simp add: rnd64_def Let_def)
next
  case False
  have "flog2 q \<le> flog2 r" using q qr by (rule flog2_mono)
  with False q qr have lt: "flog2 q < flog2 r" "- 1022 < flog2 r"
    by (auto simp: ulp_exp_def max_def split: if_splits)
  have "q \<le> 2 powi max (flog2 q + 1) (- 1074)"
    using flog2_bounds(2) [OF q] powi2_mono [of "flog2 q + 1" "max (flog2 q + 1) (- 1074)"]
    by linarith
  then have "rnd64 q \<le> 2 powi max (flog2 q + 1) (- 1074)"
    using q by (intro rnd64_le_pow) auto
  also have "\<dots> \<le> 2 powi flog2 r" by (rule powi2_mono) (use lt in auto)
  also have "\<dots> \<le> rnd64 r"
    by (rule rnd64_ge_pow) (use flog2_bounds(1) [of r] q qr lt in auto)
  finally show ?thesis .
qed

lemma rnd64_mono:
  assumes "q \<le> r"
  shows "rnd64 q \<le> rnd64 r"
proof (cases "0 < q")
  case True
  then show ?thesis using assms by (rule rnd64_mono_pos)
next
  case q: False
  show ?thesis
  proof (cases "r < 0")
    case True
    then have "rnd64 (- r) \<le> rnd64 (- q)" using assms by (intro rnd64_mono_pos) auto
    then show ?thesis by simp
  next
    case False
    then have "0 \<le> rnd64 r" by (intro rnd64_nonneg) simp
    moreover have "0 \<le> rnd64 (- q)" using q by (intro rnd64_nonneg) simp
    ultimately show ?thesis by simp
  qed
qed

lemma rnd64_exact:
  assumes q: "q = of_int m * 2 powi e" and m: "\<bar>m\<bar> < 2 ^ 53" and e: "- 1074 \<le> e"
  shows "rnd64 q = q"
proof (cases "q = 0")
  case False
  have "\<bar>q\<bar> = of_int \<bar>m\<bar> * 2 powi e" using q by (simp add: abs_mult)
  also have "\<dots> < of_int (2 ^ 53) * 2 powi e"
    using m by (intro mult_strict_right_mono) (simp_all only: of_int_less_iff powi2_pos)
  also have "\<dots> = 2 powi (53 + e)" by (simp add: power_int_add)
  finally have "flog2 \<bar>q\<bar> < 53 + e" using False by (intro flog2_less) auto
  then have le: "ulp_exp q \<le> e" using e by (simp add: ulp_exp_def)
  define u where "u = (2::rat) powi ulp_exp q"
  have u: "0 < u" by (simp add: u_def)
  have "q / u = of_int m * (2 powi e / u)" by (simp add: q)
  also have "2 powi e / u = of_int (2 ^ nat (e - ulp_exp q))"
    using le by (simp add: u_def powi2_diff powi2_nat)
  finally have qu: "q / u = of_int (m * 2 ^ nat (e - ulp_exp q))" by simp
  then have "of_int (rhe (q / u)) = q / u" by (simp only: rhe_of_int)
  then show ?thesis using False u by (simp add: rnd64_def Let_def u_def [symmetric])
qed simp

lemma rnd64_int:
  assumes "\<bar>m\<bar> < 2 ^ 53"
  shows "rnd64 (of_int m) = of_int m"
  using rnd64_exact [of "of_int m" m 0] assms by simp

lemma rnd64_error:
  "\<bar>rnd64 q - q\<bar> \<le> 2 powi ulp_exp q / 2"
proof (cases "q = 0")
  case False
  define u where "u = (2::rat) powi ulp_exp q"
  have u: "0 < u" by (simp add: u_def)
  have "rnd64 q - q = (of_int (rhe (q / u)) - q / u) * u"
    using False u by (simp add: rnd64_def Let_def u_def [symmetric] algebra_simps)
  then have "\<bar>rnd64 q - q\<bar> = \<bar>of_int (rhe (q / u)) - q / u\<bar> * u"
    using u by (simp add: abs_mult)
  also have "\<dots> \<le> 1 / 2 * u" using rhe_bound u by (intro mult_right_mono) auto
  finally show ?thesis by (simp add: u_def)
qed simp


lemma rnd64_idem: "rnd64 (rnd64 q) = rnd64 q"
proof (cases "q = 0")
  case False
  define e where "e = ulp_exp q"
  define u where "u = (2::rat) powi e"
  define m where "m = rhe (q / u)"
  have u: "0 < u" by (simp add: u_def)
  have r: "rnd64 q = of_int m * 2 powi e"
    using False by (simp add: rnd64_def Let_def m_def u_def e_def)
  have e: "- 1074 \<le> e" "flog2 \<bar>q\<bar> + 1 \<le> e + 53" by (simp_all add: e_def ulp_exp_def)
  have "\<bar>q\<bar> < 2 powi (flog2 \<bar>q\<bar> + 1)" using False by (intro flog2_bounds) simp
  also have "\<dots> \<le> 2 powi (e + 53)" by (rule powi2_mono [OF e(2)])
  also have "\<dots> = of_int (2 ^ 53) * u" by (simp add: u_def power_int_add)
  finally have "\<bar>q / u\<bar> \<le> of_int (2 ^ 53)" using u by (simp add: divide_le_eq)
  then have "q / u \<le> of_int (2 ^ 53)" "of_int (- (2 ^ 53)) \<le> q / u" by (simp_all only: abs_le_iff of_int_minus minus_le_iff)
  from rhe_mono [OF this(1)] rhe_mono [OF this(2)] have "\<bar>m\<bar> \<le> 2 ^ 53"
    by (simp only: rhe_of_int m_def abs_le_iff minus_le_iff)
  then consider "\<bar>m\<bar> < 2 ^ 53" | "m = 2 ^ 53" | "m = - (2 ^ 53)" by linarith
  then show ?thesis
  proof cases
    case 1
    show ?thesis by (rule rnd64_exact [OF r 1 e(1)])
  next
    case 2
    then have "rnd64 q = of_int 1 * 2 powi (e + 53)" by (simp add: r power_int_add)
    then show ?thesis by (rule rnd64_exact) (use e(1) in auto)
  next
    case 3
    then have "rnd64 q = of_int (- 1) * 2 powi (e + 53)" by (simp add: r power_int_add)
    then show ?thesis by (rule rnd64_exact) (use e(1) in auto)
  qed
qed simp


subsection \<open>What the components need of a rounding\<close>

text \<open>
  The components' bounds only use that rounding is monotone, odd and fixes zero, so they are
  stated for any such function.
\<close>

locale rounding =
  fixes rd :: "rat \<Rightarrow> rat"
  assumes mono: "q \<le> r \<Longrightarrow> rd q \<le> rd r"
    and odd_fun: "rd (- q) = - rd q"
    and zero: "rd 0 = 0"
begin

lemma nonneg: "0 \<le> q \<Longrightarrow> 0 \<le> rd q"
  using mono [of 0 q] zero by simp

lemma nonpos: "q \<le> 0 \<Longrightarrow> rd q \<le> 0"
  using mono [of q 0] zero by simp

lemma abs_eq: "rd \<bar>q\<bar> = \<bar>rd q\<bar>"
  by (cases "0 \<le> q") (simp_all add: nonneg nonpos odd_fun)

lemma abs_le: "\<bar>q\<bar> \<le> r \<Longrightarrow> \<bar>rd q\<bar> \<le> rd r"
  using mono [of "\<bar>q\<bar>" r] by (simp add: abs_eq)

lemma abs_le_fixed: "\<bar>q\<bar> \<le> r \<Longrightarrow> rd r = r \<Longrightarrow> \<bar>rd q\<bar> \<le> r"
  using abs_le by metis

end

interpretation r64: rounding rnd64
  by unfold_locales (simp_all add: rnd64_mono)

subsection \<open>Doubles\<close>

datatype dbl = Fin rat | PInf | NInf | NaN

definition overflow64 :: rat where
  "overflow64 = 2 ^ 1024"

definition fl :: "rat \<Rightarrow> dbl" where
  "fl q = (let r = rnd64 q in
     if 1024 \<le> flog2 \<bar>r\<bar> then (if 0 < r then PInf else NInf) else Fin r)"

text \<open>A literal of the source, rounded as the compiler does, and the conversion of an integer.\<close>

definition i2d :: "int \<Rightarrow> dbl" where
  "i2d n = fl (of_int n)"

fun isfinite :: "dbl \<Rightarrow> bool" where
  "isfinite (Fin _) = True"
| "isfinite _ = False"

fun val :: "dbl \<Rightarrow> rat" where
  "val (Fin q) = q"
| "val _ = 0"

instantiation dbl :: "{zero, one, plus, uminus, minus, times, divide, abs, ord}"
begin

definition zero_dbl :: dbl where
  "0 = Fin 0"

definition one_dbl :: dbl where
  "1 = Fin 1"

fun plus_dbl :: "dbl \<Rightarrow> dbl \<Rightarrow> dbl" where
  "plus_dbl (Fin a) (Fin b) = fl (a + b)"
| "plus_dbl NaN _ = NaN"
| "plus_dbl _ NaN = NaN"
| "plus_dbl PInf NInf = NaN"
| "plus_dbl NInf PInf = NaN"
| "plus_dbl PInf _ = PInf"
| "plus_dbl _ PInf = PInf"
| "plus_dbl NInf _ = NInf"
| "plus_dbl _ NInf = NInf"

fun uminus_dbl :: "dbl \<Rightarrow> dbl" where
  "uminus_dbl (Fin a) = Fin (- a)"
| "uminus_dbl PInf = NInf"
| "uminus_dbl NInf = PInf"
| "uminus_dbl NaN = NaN"

definition minus_dbl :: "dbl \<Rightarrow> dbl \<Rightarrow> dbl" where
  "minus_dbl a b = a + (- b)"

fun times_dbl :: "dbl \<Rightarrow> dbl \<Rightarrow> dbl" where
  "times_dbl (Fin a) (Fin b) = fl (a * b)"
| "times_dbl NaN _ = NaN"
| "times_dbl _ NaN = NaN"
| "times_dbl (Fin a) PInf = (if a = 0 then NaN else if 0 < a then PInf else NInf)"
| "times_dbl (Fin a) NInf = (if a = 0 then NaN else if 0 < a then NInf else PInf)"
| "times_dbl PInf (Fin a) = (if a = 0 then NaN else if 0 < a then PInf else NInf)"
| "times_dbl NInf (Fin a) = (if a = 0 then NaN else if 0 < a then NInf else PInf)"
| "times_dbl PInf PInf = PInf"
| "times_dbl NInf NInf = PInf"
| "times_dbl _ _ = NInf"

fun divide_dbl :: "dbl \<Rightarrow> dbl \<Rightarrow> dbl" where
  "divide_dbl (Fin a) (Fin b) =
     (if b = 0 then (if a = 0 then NaN else if 0 < a then PInf else NInf) else fl (a / b))"
| "divide_dbl NaN _ = NaN"
| "divide_dbl _ NaN = NaN"
| "divide_dbl (Fin _) _ = Fin 0"
| "divide_dbl PInf (Fin b) = (if 0 \<le> b then PInf else NInf)"
| "divide_dbl NInf (Fin b) = (if 0 \<le> b then NInf else PInf)"
| "divide_dbl _ _ = NaN"

fun abs_dbl :: "dbl \<Rightarrow> dbl" where
  "abs_dbl (Fin a) = Fin \<bar>a\<bar>"
| "abs_dbl NaN = NaN"
| "abs_dbl _ = PInf"

fun less_eq_dbl :: "dbl \<Rightarrow> dbl \<Rightarrow> bool" where
  "less_eq_dbl (Fin a) (Fin b) = (a \<le> b)"
| "less_eq_dbl NaN _ = False"
| "less_eq_dbl _ NaN = False"
| "less_eq_dbl NInf _ = True"
| "less_eq_dbl _ PInf = True"
| "less_eq_dbl _ _ = False"

fun less_dbl :: "dbl \<Rightarrow> dbl \<Rightarrow> bool" where
  "less_dbl (Fin a) (Fin b) = (a < b)"
| "less_dbl NInf (Fin _) = True"
| "less_dbl NInf PInf = True"
| "less_dbl (Fin _) PInf = True"
| "less_dbl _ _ = False"

instance by standard

end

instantiation dbl :: inverse
begin

definition inverse_dbl :: "dbl \<Rightarrow> dbl" where
  "inverse a = (1 :: dbl) div a"

instance by standard

end

text \<open>The values a variable of type \<open>double\<close> can hold.\<close>

fun is_double :: "dbl \<Rightarrow> bool" where
  "is_double (Fin q) \<longleftrightarrow> rnd64 q = q \<and> \<bar>q\<bar> < overflow64"
| "is_double _ = True"

text \<open>The operator \<open>==\<close> on doubles: NaN equals nothing.\<close>

fun deq :: "dbl \<Rightarrow> dbl \<Rightarrow> bool" where
  "deq NaN _ = False"
| "deq a b = (a = b)"

text \<open>\<open>std::max\<close>, \<open>std::min\<close> and \<open>std::clamp\<close>, with the argument order of the library.\<close>

definition dmax :: "dbl \<Rightarrow> dbl \<Rightarrow> dbl" where
  "dmax a b = (if a < b then b else a)"

definition dmin :: "dbl \<Rightarrow> dbl \<Rightarrow> dbl" where
  "dmin a b = (if b < a then b else a)"

definition dclamp :: "dbl \<Rightarrow> dbl \<Rightarrow> dbl \<Rightarrow> dbl" where
  "dclamp v lo hi = (if v < lo then lo else if hi < v then hi else v)"

text \<open>\<open>std::lround\<close> and \<open>std::floor\<close> on a finite value.\<close>

definition lround :: "rat \<Rightarrow> int" where
  "lround q = (if 0 \<le> q then \<lfloor>q + 1 / 2\<rfloor> else - \<lfloor>1 / 2 - q\<rfloor>)"

text \<open>A conversion to an integer type drops the fraction.\<close>

definition trunc :: "rat \<Rightarrow> int" where
  "trunc q = (if 0 \<le> q then \<lfloor>q\<rfloor> else - \<lfloor>- q\<rfloor>)"

text \<open>\<open>std::fmod\<close>, which is exact on finite values.\<close>

fun dfmod :: "dbl \<Rightarrow> dbl \<Rightarrow> dbl" where
  "dfmod (Fin a) (Fin b) = (if b = 0 then NaN else Fin (a - of_int (trunc (a / b)) * b))"
| "dfmod (Fin a) PInf = Fin a"
| "dfmod (Fin a) NInf = Fin a"
| "dfmod _ _ = NaN"

text \<open>
  The monotonic clock counts nanoseconds; \<open>std::chrono::duration<double>(d).count()\<close> converts
  the count and divides it by one billion.
\<close>

type_synonym time_ns = int

definition secs :: "time_ns \<Rightarrow> dbl" where
  "secs n = i2d n / Fin 1000000000"


subsection \<open>Order and arithmetic of doubles\<close>

lemma overflow64_pos [simp]: "0 < overflow64" "\<not> overflow64 \<le> 0"
  by (simp_all add: overflow64_def)

lemma flog2_overflow: "1024 \<le> flog2 \<bar>r\<bar> \<longleftrightarrow> overflow64 \<le> \<bar>r\<bar>"
proof (cases "r = 0")
  case True
  then show ?thesis by (simp add: flog2_def bitlen_def floorlog_def Let_def)
next
  case False
  then have r: "0 < \<bar>r\<bar>" by simp
  have o: "overflow64 = 2 powi 1024" by (simp add: overflow64_def power_int_def)
  show ?thesis
  proof
    assume "1024 \<le> flog2 \<bar>r\<bar>"
    then have "overflow64 \<le> 2 powi flog2 \<bar>r\<bar>" unfolding o by (rule powi2_mono)
    also have "\<dots> \<le> \<bar>r\<bar>" using r by (rule flog2_bounds)
    finally show "overflow64 \<le> \<bar>r\<bar>" .
  next
    assume "overflow64 \<le> \<bar>r\<bar>"
    then have "\<not> \<bar>r\<bar> < 2 powi 1024" by (simp only: o not_less)
    then show "1024 \<le> flog2 \<bar>r\<bar>"
      using flog2_bounds(2) [OF r] powi2_mono [of "flog2 \<bar>r\<bar> + 1" 1024] by linarith
  qed
qed

lemma fl_alt: "fl q = (let r = rnd64 q in
     if overflow64 \<le> r then PInf else if r \<le> - overflow64 then NInf else Fin r)"
proof -
  have "overflow64 \<le> \<bar>r\<bar> \<longleftrightarrow> overflow64 \<le> r \<or> r \<le> - overflow64"
    "overflow64 \<le> r \<Longrightarrow> 0 < r" "r \<le> - overflow64 \<Longrightarrow> r < 0" for r
    using overflow64_pos(1) by linarith+
  then show ?thesis by (auto simp: fl_def flog2_overflow Let_def)
qed

lemma isfinite_iff: "isfinite d \<longleftrightarrow> (\<exists>q. d = Fin q)"
  by (cases d) auto

lemma dbl_not_less_iff: "a \<noteq> NaN \<Longrightarrow> b \<noteq> NaN \<Longrightarrow> \<not> a < b \<longleftrightarrow> (b::dbl) \<le> a"
  by (cases a; cases b) auto

lemma dbl_less_imp_le: "a < b \<Longrightarrow> (a::dbl) \<le> b"
  by (cases a; cases b) auto

lemma dbl_le_trans: "a \<le> b \<Longrightarrow> b \<le> c \<Longrightarrow> (a::dbl) \<le> c"
  by (cases a; cases b; cases c) auto

lemma dbl_less_le_trans: "a < b \<Longrightarrow> b \<le> c \<Longrightarrow> (a::dbl) < c"
  by (cases a; cases b; cases c) auto

lemma dbl_le_less_trans: "a \<le> b \<Longrightarrow> b < c \<Longrightarrow> (a::dbl) < c"
  by (cases a; cases b; cases c) auto

lemma dbl_le_not_less: "(a::dbl) \<le> b \<Longrightarrow> \<not> b < a"
  by (cases a; cases b) auto

lemma dbl_refl: "d \<noteq> NaN \<Longrightarrow> (d::dbl) \<le> d"
  by (cases d) auto

lemma dbl_nan [simp]:
  "\<not> NaN < d" "\<not> d < NaN" "\<not> NaN \<le> d" "\<not> d \<le> NaN" "NaN + d = NaN" "d + NaN = NaN"
  by (cases d; simp)+

lemma dbl_minus_nan [simp]: "NaN - d = NaN" "d - NaN = (NaN::dbl)"
  by (simp_all add: minus_dbl_def)

lemma dbl_minus_Fin [simp]: "Fin a - Fin b = fl (a - b)"
  by (simp add: minus_dbl_def)

lemma fl_cases: "fl q = PInf \<or> fl q = NInf \<or> fl q = Fin (rnd64 q)"
  by (simp add: fl_alt Let_def)

lemma fl_not_nan [simp]: "fl q \<noteq> NaN"
  using fl_cases [of q] by auto

lemma fl_mono: "q \<le> r \<Longrightarrow> fl q \<le> fl r"
  using r64.mono [of q r] by (auto simp: fl_alt Let_def)

lemma fl_range [simp]: "NInf \<le> fl q" "fl q \<le> PInf"
  using fl_cases [of q] by auto

lemma fl_exact: "rnd64 q = q \<Longrightarrow> \<bar>q\<bar> < overflow64 \<Longrightarrow> fl q = Fin q"
  by (auto simp: fl_alt Let_def)

lemma fl_zero [simp]: "fl 0 = Fin 0"
  by (simp add: fl_alt Let_def)

lemma is_double_fl: "is_double (Fin q) \<Longrightarrow> fl q = Fin q \<and> fl (- q) = Fin (- q)"
  using fl_exact [of q] fl_exact [of "- q"] by (simp add: r64.odd_fun)

lemma is_double_fl_result [simp]: "is_double (fl q)"
  by (auto simp: fl_alt Let_def rnd64_idem)

lemma is_double_arith [simp]:
  "is_double (a + b)" "is_double (a * b)" "is_double (a / b)" "is_double (i2d n)"
  by (cases a; cases b; simp; fail)+ (simp add: i2d_def)

lemma is_double_sign:
  "is_double a \<Longrightarrow> isfinite a \<Longrightarrow> s = Fin 1 \<or> s = Fin (- 1) \<Longrightarrow> isfinite (a * s)"
  by (cases a) (auto simp del: is_double.simps simp: is_double_fl)

lemma is_double_add:
  assumes "is_double a" "isfinite a" "0 \<le> q"
  shows "a \<le> a + Fin q"
proof -
  obtain p where p: "a = Fin p" "fl p = Fin p" using assms by (cases a) (auto simp: is_double_fl)
  then show ?thesis using fl_mono [of p "p + q"] assms(3) by simp
qed

lemma fl_int:
  assumes "\<bar>m\<bar> < 2 ^ 53"
  shows "fl (of_int m) = Fin (of_int m)"
proof (rule fl_exact)
  have "\<bar>of_int m\<bar> < (of_int (2 ^ 53) :: rat)"
    using assms by (simp only: of_int_abs [symmetric] of_int_less_iff)
  also have "\<dots> \<le> overflow64" by (simp add: overflow64_def)
  finally show "\<bar>of_int m\<bar> < overflow64" .
qed (rule rnd64_int [OF assms])

lemma fl_abs_le:
  assumes "\<bar>q\<bar> \<le> r" "fl r = Fin r"
  shows "\<exists>p. fl q = Fin p \<and> \<bar>p\<bar> \<le> r"
proof -
  have r: "rnd64 r = r" "r < overflow64"
    using assms(2) overflow64_pos(1) by (auto simp: fl_alt Let_def split: if_split_asm)
  have "\<bar>rnd64 q\<bar> \<le> r" using assms(1) r(1) by (rule r64.abs_le_fixed)
  then have "\<bar>rnd64 q\<bar> < overflow64" using r(2) by simp
  then show ?thesis using \<open>\<bar>rnd64 q\<bar> \<le> r\<close> by (auto simp: fl_alt Let_def abs_less_iff)
qed

text \<open>Up to 8 an operation errs by at most \<open>eps64\<close>.\<close>

definition eps64 :: rat where
  "eps64 = 1 / 2 ^ 50"

lemma eps64: "0 < eps64" "eps64 \<le> 1 / 1000000000000"
  by (simp_all add: eps64_def)

lemma fl_near:
  assumes "\<bar>q\<bar> \<le> 8"
  shows "\<exists>p. fl q = Fin p \<and> \<bar>p - q\<bar> \<le> eps64"
proof -
  have "flog2 \<bar>q\<bar> < 4" if "q \<noteq> 0"
    by (rule flog2_less) (use assms that in auto)
  then have "ulp_exp q \<le> - 49" if "q \<noteq> 0"
    using that by (simp add: ulp_exp_def)
  then have "2 powi ulp_exp q \<le> (2::rat) powi (- 49)" if "q \<noteq> 0"
    using that by (intro powi2_mono) simp
  moreover have "(2::rat) powi (- 49) = 1 / 2 ^ 49" by (simp add: power_int_minus field_simps)
  ultimately have e: "\<bar>rnd64 q - q\<bar> \<le> 1 / 2 ^ 50"
    using rnd64_error [of q] by (cases "q = 0") (auto simp: power_divide)
  have "(16 :: rat) \<le> 2 ^ 1024" by (rule order_trans [of _ "2 ^ 4"]) (simp, rule power_increasing, auto)
  moreover have "\<bar>rnd64 q\<bar> \<le> 9" proof -
    have "(1 :: rat) / 2 ^ 50 \<le> 1" by simp
    then show ?thesis using e assms by linarith
  qed
  ultimately have "\<bar>rnd64 q\<bar> < overflow64" unfolding overflow64_def by linarith
  then show ?thesis using e by (auto simp: fl_alt Let_def abs_less_iff eps64_def)
qed

lemma i2d_small: "\<bar>m\<bar> < 2 ^ 53 \<Longrightarrow> i2d m = Fin (of_int m)"
  by (simp add: i2d_def fl_int)

lemma i2d_mono: "m \<le> n \<Longrightarrow> i2d m \<le> i2d n"
  by (simp add: i2d_def fl_mono)

lemma i2d_not_nan [simp]: "i2d n \<noteq> NaN"
  by (simp add: i2d_def)

lemma dbl_diff_self: "isfinite a \<Longrightarrow> a - a = Fin 0"
  by (auto simp: isfinite_iff)

lemma dbl_diff_nonneg:
  assumes "a \<le> b" "isfinite a \<or> isfinite b"
  shows "Fin 0 \<le> b - a"
  using assms fl_mono [of 0]
  by (cases a; cases b) (auto simp: minus_dbl_def)

lemma dbl_diff_mono:
  assumes "b \<le> c" "isfinite a"
  shows "b - a \<le> c - a"
  using assms by (cases a; cases b; cases c) (auto simp: minus_dbl_def intro!: fl_mono)

lemma dbl_divide_mono:
  assumes "a \<le> b" "0 < c"
  shows "a / Fin c \<le> b / Fin c"
  using assms by (cases a; cases b) (auto intro!: fl_mono divide_right_mono)

lemma dbl_times_mono:
  assumes "a \<le> b" "0 < c"
  shows "a * Fin c \<le> b * Fin c"
  using assms by (cases a; cases b) (auto intro!: fl_mono mult_right_mono)

lemma secs_not_nan [simp]: "secs n \<noteq> NaN"
  by (cases "i2d n") (auto simp: secs_def)

lemma secs_mono:
  assumes "m \<le> n"
  shows "secs m \<le> secs n"
  unfolding secs_def by (rule dbl_divide_mono [OF i2d_mono [OF assms]]) simp

lemma is_double_secs [simp]: "is_double (secs n)"
  by (simp add: secs_def)

lemma secs_zero [simp]: "secs 0 = Fin 0"
  by (simp add: secs_def i2d_def)

lemma secs_nonneg: "0 \<le> n \<Longrightarrow> Fin 0 \<le> secs n"
  using secs_mono [of 0 n] by simp

lemma dmax_ge: "a \<noteq> NaN \<Longrightarrow> b \<noteq> NaN \<Longrightarrow> a \<le> dmax a b \<and> b \<le> dmax a b"
  by (cases a; cases b) (auto simp: dmax_def)

lemma dmin_le: "a \<noteq> NaN \<Longrightarrow> b \<noteq> NaN \<Longrightarrow> dmin a b \<le> a \<and> dmin a b \<le> b"
  by (cases a; cases b) (auto simp: dmin_def)

lemma dclamp_bounds:
  assumes "v \<noteq> NaN" "lo \<le> hi"
  shows "lo \<le> dclamp v lo hi \<and> dclamp v lo hi \<le> hi"
  using assms by (cases v; cases lo; cases hi) (auto simp: dclamp_def)

lemma lround_mono: "q \<le> r \<Longrightarrow> lround q \<le> lround r"
  unfolding lround_def
  by (auto simp: not_le intro: floor_mono) (linarith | smt (verit) floor_less_zero zero_le_floor)+

lemma lround_of_int [simp]: "lround (of_int n) = n"
  by (auto simp: lround_def) linarith+

lemma lround_minus: "lround (- q) = - lround q"
proof (cases "q = 0")
  case True
  then show ?thesis using lround_of_int [of 0] by simp
qed (auto simp: lround_def add.commute)

lemma lround_error: "\<bar>of_int (lround q) - q\<bar> \<le> 1 / 2"
proof (cases "0 \<le> q")
  case True
  then have "lround q = \<lfloor>q + 1 / 2\<rfloor>" by (simp add: lround_def)
  then show ?thesis using floor_correct [of "q + 1 / 2"] by linarith
next
  case False
  then have "lround q = - \<lfloor>1 / 2 - q\<rfloor>" by (simp add: lround_def)
  then show ?thesis using floor_correct [of "1 / 2 - q"] by linarith
qed

lemma trunc_of_int [simp]: "trunc (of_int n) = n"
proof -
  have "\<lfloor>- of_int n :: rat\<rfloor> = - n" using floor_of_int [of "- n"] by (metis of_int_minus)
  then show ?thesis by (simp add: trunc_def)
qed

lemma trunc_minus: "trunc (- q) = - trunc q"
  by (cases "q = 0") (auto simp: trunc_def)

lemma trunc_nonneg: "0 \<le> q \<Longrightarrow> 0 \<le> trunc q"
  by (simp add: trunc_def)

lemma trunc_le: "0 \<le> q \<Longrightarrow> of_int (trunc q) \<le> q"
  by (simp add: trunc_def)

lemma trunc_gt: "0 \<le> q \<Longrightarrow> q < of_int (trunc q) + 1"
  using floor_correct [of q] by (simp add: trunc_def)

lemma trunc_abs_le: "\<bar>of_int (trunc q)\<bar> \<le> \<bar>q\<bar>"
  using trunc_le [of q] trunc_le [of "- q"] trunc_nonneg [of q] trunc_nonneg [of "- q"]
  by (cases "0 \<le> q") (auto simp: trunc_minus)

lemma trunc_abs_gt: "\<bar>q\<bar> - 1 < \<bar>of_int (trunc q)\<bar>"
  using trunc_gt [of q] trunc_gt [of "- q"]
  by (cases "0 \<le> q") (auto simp: trunc_minus)

lemma trunc_between:
  assumes "of_int lo \<le> q" "q \<le> of_int hi"
  shows "lo \<le> trunc q \<and> trunc q \<le> hi"
  using assms floor_correct [of q] floor_correct [of "- q"] by (auto simp: trunc_def) linarith+

end
