(* ===== verification/Rosmaster_Protocol.thy ===== *)
theory Rosmaster_Protocol
  imports Ieee_Double "HOL-Library.Word" "HOL-Library.Monad_Syntax"
begin

text \<open>
  The serial protocol of the Rosmaster board, \<open>carcar_hardware/src/rosmaster_protocol.cpp\<close>:
  the streaming parser of the reports (\<open>RosmasterProtocolParser\<close>) and the builders of the
  commands. Bytes, checksums and counters have their C++ widths. A read of the byte buffer is an
  option, \<open>None\<close> outside the bytes held, so a memory error of the parser would be a value of
  the model; that it never happens is a theorem.
\<close>

unbundle bit_operations_syntax

subsection \<open>Constants and little-endian reads\<close>

type_synonym byte = "8 word"

definition kCommandHead :: byte where "kCommandHead = 0xFF"
definition kCommandDevice :: byte where "kCommandDevice = 0xFC"
definition kReportDevice :: byte where "kReportDevice = 0xFB"
definition kChecksumComplement :: byte where "kChecksumComplement = 5"
definition kFunctionAutoReport :: byte where "kFunctionAutoReport = 0x01"
definition kFunctionBeep :: byte where "kFunctionBeep = 0x02"
definition kFunctionPwmServo :: byte where "kFunctionPwmServo = 0x03"
definition kFunctionRgb :: byte where "kFunctionRgb = 0x05"
definition kFunctionRgbEffect :: byte where "kFunctionRgbEffect = 0x06"
definition kFunctionReportMpuRaw :: byte where "kFunctionReportMpuRaw = 0x0B"
definition kFunctionReportEncoder :: byte where "kFunctionReportEncoder = 0x0D"
definition kFunctionReportIcmRaw :: byte where "kFunctionReportIcmRaw = 0x0E"
definition kFunctionMotor :: byte where "kFunctionMotor = 0x10"
definition kFunctionMotion :: byte where "kFunctionMotion = 0x12"
definition kMaximumReportLength :: nat where "kMaximumReportLength = 64"

lemmas protocol_constants =
  kCommandHead_def kCommandDevice_def kReportDevice_def kChecksumComplement_def
  kFunctionAutoReport_def kFunctionBeep_def kFunctionPwmServo_def kFunctionRgb_def
  kFunctionRgbEffect_def kFunctionReportMpuRaw_def kFunctionReportEncoder_def
  kFunctionReportIcmRaw_def kFunctionMotor_def kFunctionMotion_def kMaximumReportLength_def

definition byte_at :: "byte list \<Rightarrow> nat \<Rightarrow> byte option" where
  "byte_at xs i = (if i < length xs then Some (xs ! i) else None)"

definition read_i16_le :: "byte list \<Rightarrow> nat \<Rightarrow> 16 word option" where
  "read_i16_le d off = do {
     b0 \<leftarrow> byte_at d off;
     b1 \<leftarrow> byte_at d (off + 1);
     Some (ucast b0 OR push_bit 8 (ucast b1))}"

definition read_i32_le :: "byte list \<Rightarrow> nat \<Rightarrow> 32 word option" where
  "read_i32_le d off = do {
     b0 \<leftarrow> byte_at d off;
     b1 \<leftarrow> byte_at d (off + 1);
     b2 \<leftarrow> byte_at d (off + 2);
     b3 \<leftarrow> byte_at d (off + 3);
     Some (ucast b0 OR push_bit 8 (ucast b1) OR push_bit 16 (ucast b2) OR push_bit 24 (ucast b3))}"

subsection \<open>The parser's state\<close>

record proto_state =
  encoders :: "32 word list"
  angular_velocity :: "dbl list"
  linear_acceleration :: "dbl list"
  encoder_sequence :: "64 word"
  imu_sequence :: "64 word"
  valid_frame_sequence :: "64 word"

definition proto_init :: proto_state where
  "proto_init = \<lparr>encoders = [0, 0, 0, 0], angular_velocity = [0, 0, 0],
     linear_acceleration = [0, 0, 0], encoder_sequence = 0, imu_sequence = 0,
     valid_frame_sequence = 0\<rparr>"

record parser =
  rx_buffer :: "byte list"
  pstate :: proto_state

definition parser_reset :: parser where
  "parser_reset = \<lparr>rx_buffer = [], pstate = proto_init\<rparr>"

subsection \<open>One payload\<close>

definition read_all :: "(byte list \<Rightarrow> nat \<Rightarrow> 'a option) \<Rightarrow> nat \<Rightarrow> nat \<Rightarrow> byte list \<Rightarrow> 'a list option" where
  "read_all rd width count payload = those (map (\<lambda>i. rd payload (i * width)) [0..<count])"

definition scaled :: "16 word list \<Rightarrow> nat \<Rightarrow> dbl \<Rightarrow> dbl" where
  "scaled xs i k = i2d (sint (xs ! i)) * k"

definition parse_payload ::
  "byte \<Rightarrow> byte list \<Rightarrow> nat \<Rightarrow> proto_state \<Rightarrow> proto_state option" where
  "parse_payload fn payload payload_size st =
     (if fn = kFunctionReportEncoder \<and> 16 \<le> payload_size then do {
        es \<leftarrow> read_all read_i32_le 4 4 payload;
        Some (st\<lparr>encoders := es, encoder_sequence := encoder_sequence st + 1\<rparr>)}
      else if fn = kFunctionReportMpuRaw \<and> 12 \<le> payload_size then do {
        xs \<leftarrow> read_all read_i16_le 2 6 payload;
        let g = Fin 1 / fl 3754.9;
        let a = Fin 1 / fl 1671.84;
        Some (st\<lparr>angular_velocity := [scaled xs 0 g, scaled xs 1 (- g), scaled xs 2 (- g)],
          linear_acceleration := [scaled xs 3 a, scaled xs 4 a, scaled xs 5 a],
          imu_sequence := imu_sequence st + 1\<rparr>)}
      else if fn = kFunctionReportIcmRaw \<and> 12 \<le> payload_size then do {
        xs \<leftarrow> read_all read_i16_le 2 6 payload;
        let r = Fin 1 / Fin 1000;
        Some (st\<lparr>angular_velocity := map (\<lambda>i. scaled xs i r) [0..<3],
          linear_acceleration := map (\<lambda>i. scaled xs (3 + i) r) [0..<3],
          imu_sequence := imu_sequence st + 1\<rparr>)}
      else Some st)"

subsection \<open>The receive loop\<close>

definition low_byte :: "32 word \<Rightarrow> byte" where
  "low_byte c = ucast (c AND 0xFF)"

definition report_checksum :: "byte list \<Rightarrow> nat \<Rightarrow> 32 word" where
  "report_checksum b frame_size =
     foldl (\<lambda>c i. c + ucast (b ! i)) (ucast (b ! 2) + ucast (b ! 3)) [4..<frame_size - 1]"

text \<open>
  One round of \<open>while (true)\<close>: wait for more bytes, drop bytes and look again, or take a frame.
  \<open>payload_size\<close> is the \<open>size_t\<close> subtraction of the code.
\<close>

datatype round =
    Wait "byte list"
  | Skip "byte list"
  | Frame byte "byte list" nat "byte list"

definition round_at :: "byte list \<Rightarrow> round" where
  "round_at b =
     (if length b < 2 then Wait b
      else if b ! 1 \<noteq> kReportDevice then Skip (tl b)
      else if length b < 4 then Wait b
      else let extended_length = unat (b ! 2) in
      if extended_length < 2 \<or> kMaximumReportLength < extended_length then Skip (tl b)
      else let frame_size = extended_length + 2 in
      if length b < frame_size then Wait b
      else if low_byte (report_checksum b frame_size) \<noteq> b ! (frame_size - 1) then Skip (tl b)
      else let payload_size = unat (of_nat frame_size - 5 :: 64 word) in
      Frame (b ! 3) (drop 4 b) payload_size (drop frame_size b))"

abbreviation sync :: "byte list \<Rightarrow> byte list" where
  "sync buf \<equiv> dropWhile (\<lambda>x. x \<noteq> kCommandHead) buf"

definition feed_round :: "byte list \<Rightarrow> round" where
  "feed_round buf = (let b = sync buf in if b = [] then Wait [] else round_at b)"

text \<open>What a round has established when it takes a frame, and when it waits.\<close>

lemma round_at_Frame:
  assumes "round_at b = Frame f d n b'"
  shows "b ! 1 = kReportDevice" "2 \<le> unat (b ! 2)" "unat (b ! 2) \<le> 64"
    "unat (b ! 2) + 2 \<le> length b" "f = b ! 3" "d = drop 4 b" "b' = drop (unat (b ! 2) + 2) b"
    "low_byte (report_checksum b (unat (b ! 2) + 2)) = b ! (unat (b ! 2) + 1)"
    "n = unat (of_nat (unat (b ! 2) + 2) - 5 :: 64 word)"
  using assms
  by (simp_all add: round_at_def Let_def kMaximumReportLength_def split: if_split_asm)

lemma round_at_Wait: "round_at b = Wait b' \<Longrightarrow> b' = b \<and> length b \<le> 65"
  by (simp add: round_at_def Let_def kMaximumReportLength_def split: if_split_asm)

lemma round_at_Skip: "round_at b = Skip b' \<Longrightarrow> b' = tl b \<and> 2 \<le> length b"
  by (simp add: round_at_def Let_def split: if_split_asm)

lemma length_dropWhile_le': "length (dropWhile P xs) \<le> length xs"
  by (induction xs) auto

lemma feed_round_shorter:
  "feed_round buf = Skip b' \<Longrightarrow> length b' < length buf"
  "feed_round buf = Frame f d n b' \<Longrightarrow> length b' < length buf"
proof -
  have le: "length (sync buf) \<le> length buf" by (rule length_dropWhile_le')
  show "feed_round buf = Skip b' \<Longrightarrow> length b' < length buf"
    using le by (auto simp: feed_round_def Let_def dest: round_at_Skip split: if_split_asm)
  assume "feed_round buf = Frame f d n b'"
  then have "round_at (sync buf) = Frame f d n b'" and ne: "sync buf \<noteq> []"
    by (simp_all add: feed_round_def Let_def split: if_split_asm)
  from round_at_Frame [OF this(1)] ne have "length b' < length (sync buf)" by simp
  with le show "length b' < length buf" by simp
qed

function feed_loop :: "byte list \<Rightarrow> proto_state \<Rightarrow> (byte list \<times> proto_state) option" where
  "feed_loop buf st =
     (case feed_round buf of
        Wait b \<Rightarrow> Some (b, st)
      | Skip b \<Rightarrow> feed_loop b st
      | Frame fn data payload_size b \<Rightarrow> do {
          st' \<leftarrow> parse_payload fn data payload_size st;
          feed_loop b (st'\<lparr>valid_frame_sequence := valid_frame_sequence st' + 1\<rparr>)})"
  by pat_completeness auto
termination
  by (relation "measure (\<lambda>(b, _). length b)") (auto dest: feed_round_shorter)

declare feed_loop.simps [simp del]

text \<open>\<open>feed\<close>: a null pointer or a size of zero is the empty list.\<close>

definition feed :: "parser \<Rightarrow> byte list \<Rightarrow> parser option" where
  "feed p data =
     (if data = [] then Some p
      else map_option (\<lambda>(b, st). \<lparr>rx_buffer = b, pstate = st\<rparr>)
        (feed_loop (rx_buffer p @ data) (pstate p)))"

subsection \<open>Checksums\<close>

lemma unat_byte_of_word: "unat (ucast w :: byte) = unat (w :: 32 word) mod 256"
  by (simp add: unsigned_ucast_eq take_bit_eq_mod)

lemma and_byte_mask: "ucast (w AND 0xFF) = (ucast (w :: 32 word) :: byte)"
proof -
  have "(0xFF :: 32 word) = mask 8" by (simp add: mask_eq_exp_minus_1)
  then have "w AND 0xFF = take_bit 8 w" by (simp only: take_bit_eq_mask)
  then show ?thesis by (simp only:) (rule bit_word_eqI, simp add: bit_simps)
qed

lemma low_byte_add: "low_byte (c + ucast v) = low_byte c + v"
proof -
  have v: "unat (ucast v :: 32 word) = unat v" 
    by (simp add: unsigned_ucast_eq take_bit_nat_eq_self_iff) (rule less_trans [OF unsigned_less], simp)
  have "unat (low_byte (c + ucast v)) = (unat c + unat v) mod 2 ^ 32 mod 256"
    by (simp add: low_byte_def and_byte_mask unat_byte_of_word unat_word_ariths v)
  also have "\<dots> = (unat c mod 256 + unat v) mod 256"
    by (simp add: mod_mod_cancel mod_simps)
  also have "\<dots> = unat (low_byte c + v)"
    by (simp add: low_byte_def and_byte_mask unat_byte_of_word unat_word_ariths)
  finally show ?thesis by (simp only: word_unat_eq_iff)
qed

lemma low_byte_ucast: "low_byte (ucast v) = v"
  using low_byte_add [of 0 v] by (simp add: low_byte_def)

lemma low_byte_foldl:
  "low_byte (foldl (\<lambda>c i. c + ucast (f i)) c is) = low_byte c + sum_list (map f is)"
  by (induction "is" arbitrary: c) (auto simp: low_byte_add)

lemma low_byte_report_checksum:
  "low_byte (report_checksum b n) = b ! 2 + b ! 3 + sum_list (map ((!) b) [4..<n - 1])"
  by (simp add: report_checksum_def low_byte_foldl low_byte_add low_byte_ucast)

subsection \<open>Rounds\<close>

lemma checksum_four:
  assumes "unat (b ! 2) = 2"
  shows "low_byte (report_checksum b 4) \<noteq> (b ! 3)"
proof -
  have "b ! 2 = 2" using assms by (simp add: word_unat_eq_iff)
  then show ?thesis by (simp add: low_byte_report_checksum)
qed

lemma payload_size_eq:
  "5 \<le> n \<Longrightarrow> n \<le> 66 \<Longrightarrow> unat (of_nat n - 5 :: 64 word) = n - 5"
  by (simp add: unat_sub word_le_nat_alt unat_of_nat)

lemma round_at_payload:
  assumes "round_at b = Frame f d n b'"
  shows "n = unat (b ! 2) - 3" "3 \<le> unat (b ! 2)" "n < length d" "n \<le> 61"
proof -
  note fr = round_at_Frame [OF assms]
  have "unat (b ! 2) \<noteq> 2"
  proof
    assume "unat (b ! 2) = 2"
    with fr show False using checksum_four [of b] by simp
  qed
  with fr have 3: "3 \<le> unat (b ! 2)" by simp
  show n: "n = unat (b ! 2) - 3"
    unfolding fr(9) using 3 fr(3) by (subst payload_size_eq) auto
  show "3 \<le> unat (b ! 2)" by fact
  show "n < length d" "n \<le> 61" using n 3 fr by simp_all
qed

lemma report_checksum_append:
  "4 \<le> n \<Longrightarrow> n \<le> length b \<Longrightarrow> report_checksum (b @ ys) n = report_checksum b n"
  unfolding report_checksum_def
  by (rule foldl_cong) (auto simp: nth_append)

lemma round_at_append:
  assumes "\<nexists>b'. round_at b = Wait b'"
  shows "round_at (b @ ys) = (case round_at b of Wait b' \<Rightarrow> Wait b' | Skip b' \<Rightarrow> Skip (b' @ ys)
    | Frame f d n b' \<Rightarrow> Frame f (d @ ys) n (b' @ ys))"
proof -
  have 2: "\<not> length b < 2" using assms by (auto simp: round_at_def)
  then have e1: "(b @ ys) ! 1 = b ! 1" "b \<noteq> []" by (auto simp: nth_append)
  show ?thesis
  proof (cases "b ! 1 = kReportDevice")
    case False
    with 2 e1 show ?thesis by (simp add: round_at_def)
  next
    case dev: True
    with 2 assms have 4: "\<not> length b < 4" by (auto simp: round_at_def)
    then have e: "(b @ ys) ! 2 = b ! 2" "(b @ ys) ! 3 = b ! 3" by (auto simp: nth_append)
    show ?thesis
    proof (cases "unat (b ! 2) < 2 \<or> kMaximumReportLength < unat (b ! 2)")
      case True
      with 2 4 e1 e dev show ?thesis by (simp add: round_at_def Let_def)
    next
      case len: False
      with 2 4 dev assms have fs: "\<not> length b < unat (b ! 2) + 2"
        by (auto simp: round_at_def Let_def)
      with len have "(b @ ys) ! (unat (b ! 2) + 2 - 1) = b ! (unat (b ! 2) + 2 - 1)"
        "report_checksum (b @ ys) (unat (b ! 2) + 2) = report_checksum b (unat (b ! 2) + 2)"
        by (auto simp: nth_append report_checksum_append)
      with 2 4 e1 e dev len fs show ?thesis by (simp add: round_at_def Let_def)
    qed
  qed
qed

lemma sync_append: "sync buf \<noteq> [] \<Longrightarrow> sync (buf @ ys) = sync buf @ ys"
  by (induction buf) auto

lemma sync_idem: "sync (sync buf @ ys) = sync (buf @ ys)"
  by (induction buf) auto

lemma feed_round_append:
  assumes "\<nexists>b'. feed_round buf = Wait b'"
  shows "feed_round (buf @ ys) = (case feed_round buf of Wait b' \<Rightarrow> Wait b'
    | Skip b' \<Rightarrow> Skip (b' @ ys) | Frame f d n b' \<Rightarrow> Frame f (d @ ys) n (b' @ ys))"
proof -
  have "sync buf \<noteq> []"
    using assms by (auto simp: feed_round_def simp del: dropWhile_eq_Nil_conv)
  then have "feed_round buf = round_at (sync buf)"
    "feed_round (buf @ ys) = round_at (sync buf @ ys)"
    by (simp_all add: feed_round_def sync_append del: dropWhile_eq_Nil_conv)
  with assms show ?thesis by (simp add: round_at_append)
qed

lemma feed_round_Wait:
  assumes "feed_round buf = Wait b"
  shows "b = sync buf" "length b \<le> 65" "feed_round (b @ ys) = feed_round (buf @ ys)"
proof -
  show "b = sync buf" "length b \<le> 65"
    using assms
    by (auto simp: feed_round_def Let_def simp del: dropWhile_eq_Nil_conv
      dest!: round_at_Wait split: if_split_asm)
  then show "feed_round (b @ ys) = feed_round (buf @ ys)"
    by (simp add: feed_round_def sync_idem)
qed

lemma feed_round_Frame:
  assumes "feed_round buf = Frame f d n b'"
  shows "n < length d" "n \<le> 61"
  using assms round_at_payload by (auto simp: feed_round_def Let_def split: if_split_asm)


subsection \<open>Payloads\<close>

lemma read_i16_append:
  "i + 1 < length d \<Longrightarrow> read_i16_le (d @ ys) i = read_i16_le d i \<and> read_i16_le d i \<noteq> None"
  by (simp add: read_i16_le_def byte_at_def nth_append)

lemma read_i32_append:
  "i + 3 < length d \<Longrightarrow> read_i32_le (d @ ys) i = read_i32_le d i \<and> read_i32_le d i \<noteq> None"
  by (simp add: read_i32_le_def byte_at_def nth_append)

lemma those_Some_iff: "those xs \<noteq> None \<longleftrightarrow> None \<notin> set xs"
  by (induction xs) (auto split: option.splits)

lemma read_all_append:
  assumes "\<And>i. i < count \<Longrightarrow> rd (d @ ys) (i * width) = rd d (i * width) \<and> rd d (i * width) \<noteq> None"
  shows "read_all rd width count (d @ ys) = read_all rd width count d"
    and "read_all rd width count d \<noteq> None"
proof -
  show "read_all rd width count (d @ ys) = read_all rd width count d"
    unfolding read_all_def using assms by (intro arg_cong [where f = those] map_cong) auto
  have "None \<notin> set (map (\<lambda>i. rd d (i * width)) [0..<count])" using assms by force
  then show "read_all rd width count d \<noteq> None" unfolding read_all_def those_Some_iff .
qed

lemma read_all_i32:
  assumes "16 \<le> length d"
  shows "read_all read_i32_le 4 4 (d @ ys) = read_all read_i32_le 4 4 d"
    "read_all read_i32_le 4 4 d \<noteq> None"
  by (intro read_all_append read_i32_append; use assms in simp)+

lemma read_all_i16:
  assumes "12 \<le> length d"
  shows "read_all read_i16_le 2 6 (d @ ys) = read_all read_i16_le 2 6 d"
    "read_all read_i16_le 2 6 d \<noteq> None"
  by (intro read_all_append read_i16_append; use assms in simp)+

lemma parse_payload_append:
  assumes "n \<le> length d"
  shows "parse_payload f (d @ ys) n st = parse_payload f d n st"
    and "parse_payload f d n st \<noteq> None"
  using assms read_all_i32 [of d] read_all_i16 [of d]
  by (auto simp: parse_payload_def Let_def)

subsection \<open>The loop: no fault, any chunking\<close>

lemma feed_loop_total: "feed_loop buf st \<noteq> None"
proof (induction buf st rule: feed_loop.induct)
  case (1 buf st)
  show ?case
  proof (cases "feed_round buf")
    case (Frame f d n b)
    have "n \<le> length d" using feed_round_Frame [OF Frame] by simp
    then obtain st' where "parse_payload f d n st = Some st'"
      using parse_payload_append(2) [of n d f st] by auto
    with 1 Frame show ?thesis by (subst feed_loop.simps) simp
  qed (use 1 in \<open>simp_all add: feed_loop.simps [of buf]\<close>)
qed

lemma feed_loop_append:
  "feed_loop (buf @ ys) st = Option.bind (feed_loop buf st) (\<lambda>(b, st'). feed_loop (b @ ys) st')"
proof (induction buf st rule: feed_loop.induct)
  case (1 buf st)
  show ?case
  proof (cases "feed_round buf")
    case (Wait b)
    then show ?thesis
      using feed_round_Wait(3) [OF Wait, of ys]
      by (simp add: feed_loop.simps [of buf] feed_loop.simps [of "b @ ys"]
        feed_loop.simps [of "buf @ ys"])
  next
    case (Skip b)
    then have "feed_round (buf @ ys) = Skip (b @ ys)" by (simp add: feed_round_append)
    with 1 Skip show ?thesis by (simp add: feed_loop.simps [of buf] feed_loop.simps [of "buf @ ys"])
  next
    case (Frame f d n b)
    then have a: "feed_round (buf @ ys) = Frame f (d @ ys) n (b @ ys)"
      by (simp add: feed_round_append)
    have n: "n \<le> length d" using feed_round_Frame [OF Frame] by simp
    then obtain st' where p: "parse_payload f d n st = Some st'"
      using parse_payload_append(2) [of n d f st] by auto
    then have "parse_payload f (d @ ys) n st = Some st'"
      using parse_payload_append(1) [OF n] by simp
    with 1 Frame a p show ?thesis
      by (simp add: feed_loop.simps [of buf] feed_loop.simps [of "buf @ ys"])
  qed
qed

lemma feed_loop_residue:
  "feed_loop buf st = Some (b, st') \<Longrightarrow> length b \<le> 65 \<and> (b = [] \<or> hd b = kCommandHead)"
proof (induction buf st rule: feed_loop.induct)
  case (1 buf st)
  show ?case
  proof (cases "feed_round buf")
    case (Wait c)
    with 1 have "c = b" by (simp add: feed_loop.simps [of buf])
    then show ?thesis
      using feed_round_Wait(1,2) [OF Wait] hd_dropWhile [of "\<lambda>x. x \<noteq> kCommandHead" buf]
      by (auto simp del: dropWhile_eq_Nil_conv)
  next
    case (Skip c)
    with 1 show ?thesis by (simp add: feed_loop.simps [of buf])
  next
    case (Frame f d n c)
    with 1 show ?thesis
      by (auto simp: feed_loop.simps [of buf] bind_eq_Some_conv)
  qed
qed

text \<open>Feeding nothing more to a buffer the parser left behind changes nothing.\<close>

lemma feed_loop_residue_stable:
  "feed_loop buf st = Some (b, st') \<Longrightarrow> feed_loop b st' = Some (b, st')"
  using feed_loop_append [of buf "[]" st] by simp


subsection \<open>Report frames\<close>

text \<open>
  The frames the board sends: head, device, length, function, payload and the low byte of the sum
  from the length on. This is the specification the parser is checked against.
\<close>

definition report_frame :: "byte \<Rightarrow> byte list \<Rightarrow> byte list" where
  "report_frame fn payload =
     (let len = of_nat (length payload + 3) in
      [kCommandHead, kReportDevice, len, fn] @ payload @ [len + fn + sum_list payload])"

lemma length_report_frame: "length (report_frame fn payload) = length payload + 5"
  by (simp add: report_frame_def Let_def)

lemma report_frame_round:
  assumes "length payload \<le> 61"
  shows "feed_round (report_frame fn payload @ rest) =
    Frame fn (payload @ (of_nat (length payload + 3) + fn + sum_list payload) # rest) (length payload) rest"
proof -
  define len :: byte where "len = of_nat (length payload + 3)"
  define b where "b = report_frame fn payload @ rest"
  have ulen: "unat len = length payload + 3"
    unfolding len_def unat_of_nat using assms by simp
  have b: "b = kCommandHead # kReportDevice # len # fn # payload @ (len + fn + sum_list payload) # rest"
    by (simp add: b_def report_frame_def len_def Let_def)
  have at: "b ! 1 = kReportDevice" "b ! 2 = len" "b ! 3 = fn" "sync b = b" "b \<noteq> []"
    by (simp_all add: b numeral_2_eq_2 numeral_3_eq_3)
  have lenb: "length b = length payload + 5 + length rest" by (simp add: b)
  have last: "b ! (length payload + 4) = len + fn + sum_list payload"
    by (simp add: b nth_append eval_nat_numeral)
  have "map ((!) b) [4..<length payload + 4] = take (length payload) (drop 4 b)"
    using lenb by (intro nth_equalityI) (auto simp: add.commute)
  also have "\<dots> = payload" by (simp add: b)
  finally have sum: "low_byte (report_checksum b (length payload + 5)) = len + fn + sum_list payload"
    by (simp add: low_byte_report_checksum at add.commute)
  have ps: "unat (of_nat (length payload + 5) - 5 :: 64 word) = length payload"
    using assms by (subst payload_size_eq) auto
  have "round_at b = Frame (b ! 3) (drop 4 b) (length payload) (drop (length payload + 5) b)"
    unfolding round_at_def Let_def at ulen kMaximumReportLength_def
    using assms lenb sum last ps by (simp add: eval_nat_numeral)
  moreover have "drop (length payload + 5) b = rest"
    by (simp only: b_def drop_append length_report_frame) (simp add: length_report_frame)
  moreover have "drop 4 b = payload @ (of_nat (length payload + 3) + fn + sum_list payload) # rest"
    by (simp add: b len_def)
  ultimately show ?thesis using at by (simp add: feed_round_def b_def [symmetric])
qed

lemma feed_loop_report_frame:
  assumes "length payload \<le> 61"
  shows "feed_loop (report_frame fn payload @ rest) st = do {
     st' \<leftarrow> parse_payload fn payload (length payload) st;
     feed_loop rest (st'\<lparr>valid_frame_sequence := valid_frame_sequence st' + 1\<rparr>)}"
  by (subst feed_loop.simps) (simp add: report_frame_round [OF assms] parse_payload_append)

lemma feed_loop_Nil: "feed_loop [] st = Some ([], st)"
  by (subst feed_loop.simps) (simp add: feed_round_def)

text \<open>Bytes without a head byte are noise and are dropped.\<close>

lemma feed_loop_noise:
  assumes "kCommandHead \<notin> set noise"
  shows "feed_loop (noise @ rest) st = feed_loop rest st"
proof -
  have "sync (noise @ rest) = sync rest"
    using assms by (intro dropWhile_append2) auto
  then have "feed_round (noise @ rest) = feed_round rest" by (simp add: feed_round_def)
  then show ?thesis by (simp add: feed_loop.simps [of "noise @ rest"] feed_loop.simps [of rest])
qed

definition i32_bytes :: "32 word \<Rightarrow> byte list" where
  "i32_bytes w = [ucast w, ucast (drop_bit 8 w), ucast (drop_bit 16 w), ucast (drop_bit 24 w)]"

lemma read_i32_bytes: "read_i32_le (i32_bytes w @ ys) 0 = Some w"
proof -
  have "(ucast (ucast w :: byte) OR push_bit 8 (ucast (ucast (drop_bit 8 w) :: byte)) OR
     push_bit 16 (ucast (ucast (drop_bit 16 w) :: byte)) OR
     push_bit 24 (ucast (ucast (drop_bit 24 w) :: byte)) :: 32 word) = w"
  proof (rule bit_word_eqI)
    fix n
    assume "n < LENGTH(32)"
    then consider "n < 8" | "8 \<le> n" "n < 16" | "16 \<le> n" "n < 24" | "24 \<le> n" "n < 32"
      by fastforce
    then show "bit (ucast (ucast w :: byte) OR push_bit 8 (ucast (ucast (drop_bit 8 w) :: byte)) OR
     push_bit 16 (ucast (ucast (drop_bit 16 w) :: byte)) OR
     push_bit 24 (ucast (ucast (drop_bit 24 w) :: byte)) :: 32 word) n = bit w n"
      by cases (auto simp: bit_simps)
  qed
  then show ?thesis
    by (simp add: read_i32_le_def i32_bytes_def byte_at_def eval_nat_numeral)
qed

lemma read_i32_drop: "read_i32_le (xs @ ys) (length xs + k) = read_i32_le ys k"
  by (simp add: read_i32_le_def byte_at_def nth_append add.assoc)


subsection \<open>Commands\<close>

text \<open>
  \<open>finish_command\<close> fills in the length at index 2 and appends the checksum; the callers pass
  at least four bytes.
\<close>

definition finish_command :: "byte list \<Rightarrow> byte list" where
  "finish_command command =
     (let command' = command[2 := of_nat (length command) - 1];
          checksum = foldl (\<lambda>c v. c + ucast v) (ucast kChecksumComplement :: 32 word) command'
      in command' @ [low_byte checksum])"

definition append_scaled_i16 :: "byte list \<Rightarrow> dbl \<Rightarrow> byte list result" where
  "append_scaled_i16 command v =
     (if \<not> isfinite v then Inl Invalid_argument
      else let scaled = v * Fin 1000 in
      if scaled < Fin (- 32768) \<or> Fin 32767 < scaled then Inl Out_of_range
      else let raw = word_of_int (trunc (val scaled)) :: 16 word in
      Inr (command @ [ucast (raw AND 0xFF), ucast (drop_bit 8 raw AND 0xFF)]))"

definition make_auto_report_command :: "bool \<Rightarrow> byte list" where
  "make_auto_report_command enable = finish_command
     [kCommandHead, kCommandDevice, 0, kFunctionAutoReport, (if enable then 1 else 0), 0]"

definition make_motor_command :: "byte list \<Rightarrow> byte list" where
  "make_motor_command motor_pwm = finish_command
     [kCommandHead, kCommandDevice, 0, kFunctionMotor,
      motor_pwm ! 0, motor_pwm ! 1, motor_pwm ! 2, motor_pwm ! 3]"

definition make_zero_motor_command :: "byte list" where
  "make_zero_motor_command = make_motor_command [0, 0, 0, 0]"

definition make_motion_command :: "byte \<Rightarrow> dbl \<Rightarrow> dbl \<Rightarrow> dbl \<Rightarrow> byte list result" where
  "make_motion_command car_type linear_x linear_y angular_z =
     bind_res (append_scaled_i16
       [kCommandHead, kCommandDevice, 0, kFunctionMotion, car_type] linear_x) (\<lambda>c1.
     bind_res (append_scaled_i16 c1 linear_y) (\<lambda>c2.
     bind_res (append_scaled_i16 c2 angular_z) (\<lambda>c3.
     Inr (finish_command c3))))"

definition make_zero_motion_command :: "byte \<Rightarrow> byte list result" where
  "make_zero_motion_command car_type = make_motion_command car_type (Fin 0) (Fin 0) (Fin 0)"

definition make_beep_command :: "16 word \<Rightarrow> byte list" where
  "make_beep_command on_time_ms = finish_command
     [kCommandHead, kCommandDevice, 0, kFunctionBeep,
      ucast (on_time_ms AND 0xFF), ucast (drop_bit 8 on_time_ms AND 0xFF)]"

definition pwm_command_angle_from_physical :: "dbl \<Rightarrow> byte result" where
  "pwm_command_angle_from_physical angle =
     (if \<not> isfinite angle then Inl Invalid_argument
      else if angle < Fin 0 \<or> Fin 270 < angle then Inl Out_of_range
      else Inr (word_of_int (lround (val (angle * Fin 180 / Fin 270)))))"

definition pwm_command_angle_from_physical_int :: "32 word \<Rightarrow> byte result" where
  "pwm_command_angle_from_physical_int angle =
     pwm_command_angle_from_physical (i2d (sint angle))"

definition make_pwm_servo_command :: "byte \<Rightarrow> byte \<Rightarrow> byte list result" where
  "make_pwm_servo_command servo_id command_angle =
     (if servo_id < 1 \<or> 4 < servo_id \<or> 180 < command_angle then Inl Out_of_range
      else Inr (finish_command
        [kCommandHead, kCommandDevice, 0, kFunctionPwmServo, servo_id, command_angle]))"

definition make_rgb_command :: "byte \<Rightarrow> byte \<Rightarrow> byte \<Rightarrow> byte \<Rightarrow> byte list" where
  "make_rgb_command led_id red green blue = finish_command
     [kCommandHead, kCommandDevice, 0, kFunctionRgb, led_id, red, green, blue]"

definition make_rgb_effect_command :: "byte \<Rightarrow> byte \<Rightarrow> byte \<Rightarrow> byte list" where
  "make_rgb_effect_command effect speed parm = finish_command
     [kCommandHead, kCommandDevice, 0, kFunctionRgbEffect, effect, speed, parm]"

text \<open>Every command frame has the layout of a report, with the host's device byte.\<close>

definition command_frame :: "byte \<Rightarrow> byte list \<Rightarrow> byte list" where
  "command_frame fn args =
     (let len = of_nat (length args + 3) in
      [kCommandHead, kCommandDevice, len, fn] @ args @ [len + fn + sum_list args])"

lemma foldl_bytes: "low_byte (foldl (\<lambda>c v. c + ucast v) c xs) = low_byte c + sum_list xs"
  by (induction xs arbitrary: c) (auto simp: low_byte_add)

lemma finish_command_frame:
  "finish_command (kCommandHead # kCommandDevice # 0 # fn # args) = command_frame fn args"
proof -
  have "kChecksumComplement + (kCommandHead + (kCommandDevice + x)) = x" for x
    by (simp add: protocol_constants)
  then show ?thesis
    by (simp add: finish_command_def command_frame_def Let_def foldl_bytes low_byte_ucast
      low_byte_add algebra_simps eval_nat_numeral)
qed

definition wire :: "dbl \<Rightarrow> int" where
  "wire v = trunc (val (v * Fin 1000))"

definition i16_bytes :: "int \<Rightarrow> byte list" where
  "i16_bytes n = [ucast (word_of_int n :: 16 word), ucast (drop_bit 8 (word_of_int n :: 16 word))]"

lemma append_scaled_i16_Inr:
  "append_scaled_i16 c v = Inr c' \<longleftrightarrow> isfinite v \<and> \<not> v * Fin 1000 < Fin (- 32768) \<and>
     \<not> Fin 32767 < v * Fin 1000 \<and> c' = c @ i16_bytes (wire v)"
proof -
  have b: "ucast (r AND 0xFF) = (ucast (r :: 16 word) :: byte)" for r
  proof -
    have "(0xFF :: 16 word) = mask 8" by (simp add: mask_eq_exp_minus_1)
    then have "r AND 0xFF = take_bit 8 r" by (simp only: take_bit_eq_mask)
    then show ?thesis by (simp only:) (rule bit_word_eqI, simp add: bit_simps)
  qed
  show ?thesis
    by (auto simp: append_scaled_i16_def Let_def i16_bytes_def wire_def b)
qed

lemma wire_range:
  assumes "isfinite v" "\<not> v * Fin 1000 < Fin (- 32768)" "\<not> Fin 32767 < v * Fin 1000"
  shows "- 32768 \<le> wire v" "wire v \<le> 32767" "isfinite (v * Fin 1000)"
proof -
  obtain q where q: "v * Fin 1000 = Fin q" "- 32768 \<le> q" "q \<le> 32767"
    using assms by (cases "v * Fin 1000"; cases v) auto
  then show "- 32768 \<le> wire v" "wire v \<le> 32767" "isfinite (v * Fin 1000)"
    using trunc_between [of "- 32768" q 32767] by (auto simp: wire_def)
qed

lemma read_i16_bytes: "read_i16_le (i16_bytes n @ ys) 0 = Some (word_of_int n)"
proof -
  have "(ucast (ucast w :: byte) OR push_bit 8 (ucast (ucast (drop_bit 8 w) :: byte)) :: 16 word) = w" for w
  proof (rule bit_word_eqI)
    fix n
    assume "n < LENGTH(16)"
    then consider "n < 8" | "8 \<le> n" "n < 16" by fastforce
    then show "bit (ucast (ucast w :: byte) OR push_bit 8 (ucast (ucast (drop_bit 8 w) :: byte)) :: 16 word) n
      = bit w n"
      by cases (auto simp: bit_simps)
  qed
  then show ?thesis
    by (simp add: read_i16_le_def i16_bytes_def byte_at_def eval_nat_numeral)
qed

lemma read_i16_drop: "read_i16_le (xs @ ys) (length xs + k) = read_i16_le ys k"
  by (simp add: read_i16_le_def byte_at_def nth_append add.assoc)

lemma sint_word_of_int_16:
  "- 32768 \<le> n \<Longrightarrow> n \<le> 32767 \<Longrightarrow> sint (word_of_int n :: 16 word) = n"
  by (simp add: sint_sbintrunc' signed_take_bit_int_eq_self)

lemma make_motion_command_Inr:
  "make_motion_command ct x y z = Inr f \<Longrightarrow>
     f = command_frame kFunctionMotion (ct # i16_bytes (wire x) @ i16_bytes (wire y) @ i16_bytes (wire z))"
  by (auto simp: make_motion_command_def bind_res_Inr append_scaled_i16_Inr finish_command_frame)

lemma make_motion_command_total:
  assumes "\<forall>v \<in> {x, y, z}. isfinite v \<and> \<not> v * Fin 1000 < Fin (- 32768) \<and> \<not> Fin 32767 < v * Fin 1000"
  shows "\<exists>f. make_motion_command ct x y z = Inr f"
proof -
  have "append_scaled_i16 c v = Inr (c @ i16_bytes (wire v))" if "v \<in> {x, y, z}" for c v
    using assms that by (subst append_scaled_i16_Inr) auto
  then show ?thesis by (simp add: make_motion_command_def)
qed

lemma pwm_angle_bound:
  assumes "isfinite a" "Fin 0 \<le> a" "a \<le> Fin 270"
  obtains q where "a * Fin 180 / Fin 270 = Fin q" "0 \<le> lround q" "lround q \<le> 180"
    "pwm_command_angle_from_physical a = Inr (word_of_int (lround q))"
proof -
  have e: "Fin 270 * Fin 180 = Fin 48600" "Fin 48600 / Fin 270 = Fin 180" "Fin 0 * Fin 180 = Fin 0"
    using fl_int [of 48600] fl_int [of 180] by simp_all
  have "a * Fin 180 / Fin 270 \<le> Fin 180"
    using dbl_divide_mono [OF dbl_times_mono [OF assms(3), of 180], of 270] e by simp
  moreover have "Fin 0 \<le> a * Fin 180 / Fin 270"
    using dbl_divide_mono [OF dbl_times_mono [OF assms(2), of 180], of 270] e by simp
  ultimately obtain q where q: "a * Fin 180 / Fin 270 = Fin q" "0 \<le> q" "q \<le> 180"
    by (cases "a * Fin 180 / Fin 270") auto
  have "0 \<le> lround q" "lround q \<le> 180"
    using lround_mono [OF q(2)] lround_mono [OF q(3)] lround_of_int [of 0] lround_of_int [of 180]
    by simp_all
  moreover have "\<not> a < Fin 0" "\<not> Fin 270 < a" using assms dbl_le_not_less by blast+
  ultimately show thesis
    using assms(1) q(1) that [of q] by (auto simp: pwm_command_angle_from_physical_def)
qed

lemma byte_of_int_le:
  "0 \<le> m \<Longrightarrow> m \<le> n \<Longrightarrow> n \<le> 255 \<Longrightarrow> (word_of_int m :: byte) \<le> word_of_int n"
  by (simp add: word_le_def unsigned_of_int take_bit_int_eq_self)

subsection \<open>Streams\<close>

text \<open>
  The serial port delivers the stream in arbitrary pieces. A receiver whose result does not depend
  on how the stream was cut is an incremental decoder.
\<close>

locale incremental_decoder =
  fixes run :: "'p \<Rightarrow> 'x list \<Rightarrow> 'p option"
  assumes run_Nil: "run p [] = Some p"
    and run_append: "run p (xs @ ys) = Option.bind (run p xs) (\<lambda>p'. run p' ys)"
begin

lemma run_chunks:
  "foldl (\<lambda>r c. Option.bind r (\<lambda>p. run p c)) (run p xs) chunks = run p (xs @ concat chunks)"
  by (induction chunks arbitrary: xs) (simp_all add: run_append [symmetric])

lemma run_from: "foldl (\<lambda>r c. Option.bind r (\<lambda>p. run p c)) (Some p) chunks = run p (concat chunks)"
  using run_chunks [of p "[]" chunks] by (simp add: run_Nil)

end

lemma feed_append: "feed p (xs @ ys) = Option.bind (feed p xs) (\<lambda>p'. feed p' ys)"
proof (cases "xs = [] \<or> ys = []")
  case True
  then show ?thesis by (cases "feed p xs") (auto simp: feed_def)
next
  case False
  then show ?thesis
    using feed_loop_append [of "rx_buffer p @ xs" ys "pstate p"]
    by (cases "feed_loop (rx_buffer p @ xs) (pstate p)") (auto simp: feed_def)
qed

interpretation rx: incremental_decoder feed
  by unfold_locales (simp_all add: feed_append, simp add: feed_def)

text \<open>The successive reads of a session.\<close>

definition feed_all :: "parser \<Rightarrow> byte list list \<Rightarrow> parser option" where
  "feed_all p chunks = foldl (\<lambda>r c. Option.bind r (\<lambda>p. feed p c)) (Some p) chunks"

lemma feed_idle:
  "rx_buffer p = [] \<Longrightarrow> feed p bs =
     map_option (\<lambda>(b, st). \<lparr>rx_buffer = b, pstate = st\<rparr>) (feed_loop bs (pstate p))"
  by (cases p) (simp add: feed_def feed_loop_Nil)

text \<open>The board's side of a stream: frames with noise before each of them.\<close>

definition frame_stream :: "(byte list \<times> byte \<times> byte list) list \<Rightarrow> byte list" where
  "frame_stream fs = concat (map (\<lambda>(noise, fn, payload). noise @ report_frame fn payload) fs)"

definition accept_frame :: "proto_state \<Rightarrow> byte list \<times> byte \<times> byte list \<Rightarrow> proto_state" where
  "accept_frame st f = (case f of (noise, fn, payload) \<Rightarrow>
     let st' = the (parse_payload fn payload (length payload) st)
     in st'\<lparr>valid_frame_sequence := valid_frame_sequence st' + 1\<rparr>)"

lemma feed_loop_frame_stream:
  assumes "\<forall>(noise, fn, payload) \<in> set fs. kCommandHead \<notin> set noise \<and> length payload \<le> 61"
  shows "feed_loop (frame_stream fs @ rest) st = feed_loop rest (foldl accept_frame st fs)"
  using assms
proof (induction fs arbitrary: st)
  case Nil
  then show ?case by (simp add: frame_stream_def)
next
  case (Cons f fs)
  obtain noise fn payload where f: "f = (noise, fn, payload)" by (cases f)
  have "parse_payload fn payload (length payload) st \<noteq> None"
    by (rule parse_payload_append) simp
  moreover have "feed_loop (frame_stream (f # fs) @ rest) st
      = feed_loop (report_frame fn payload @ frame_stream fs @ rest) st"
    using Cons.prems by (simp add: f frame_stream_def feed_loop_noise)
  ultimately show ?case
    using Cons by (auto simp: f feed_loop_report_frame accept_frame_def Let_def)
qed

subsection \<open>Properties\<close>

text \<open>C19. However the serial port cuts the stream into reads, the parser ends in the same state as
  if the whole stream had arrived at once.\<close>

theorem feed_chunking: "feed_all p chunks = feed p (concat chunks)"
  unfolding feed_all_def by (rule rx.run_from)

text \<open>Memory safety and boundedness: no sequence of reads after \<open>reset\<close>, whatever its bytes,
  makes the parser read outside its buffer, and what it keeps between reads is at most 65 bytes
  and starts with the head byte.\<close>

theorem feed_safe: "\<exists>p. feed_all parser_reset chunks = Some p \<and> length (rx_buffer p) \<le> 65 \<and>
  (rx_buffer p = [] \<or> hd (rx_buffer p) = kCommandHead)"
proof -
  obtain b st where "feed_loop (concat chunks) proto_init = Some (b, st)"
    using feed_loop_total [of "concat chunks" proto_init] by auto
  then show ?thesis
    using feed_loop_residue by (auto simp: feed_all_def rx.run_from feed_idle parser_reset_def)
qed

text \<open>C14. A stream of well-formed report frames, with noise free of head bytes before each, is
  decoded frame by frame, in order and completely.\<close>

theorem feed_decodes_frames:
  assumes "rx_buffer p = []"
    and "\<forall>(noise, fn, payload) \<in> set fs. kCommandHead \<notin> set noise \<and> length payload \<le> 61"
  shows "feed p (frame_stream fs) =
    Some \<lparr>rx_buffer = [], pstate = foldl accept_frame (pstate p) fs\<rparr>"
  using feed_loop_frame_stream [OF assms(2), of "[]" "pstate p"]
  by (simp add: feed_idle assms(1) feed_loop_Nil)

theorem feed_decodes_frames_witness:
  "feed parser_reset (frame_stream [([1, 2], 0x0D, replicate 16 7), ([], 0x42, [0xFF])]) =
    Some \<lparr>rx_buffer = [], pstate = foldl accept_frame proto_init
      [([1, 2], 0x0D, replicate 16 7), ([], 0x42, [0xFF])]\<rparr>"
  using feed_decodes_frames [of parser_reset "[([1, 2], 0x0D, replicate 16 7), ([], 0x42, [0xFF])]"]
  by (simp add: parser_reset_def protocol_constants)

text \<open>C22. An encoder report carries its four 32-bit counts through the codec unchanged, counts one
  encoder update and one frame, and leaves every other field alone.\<close>

theorem feed_encoder_roundtrip:
  assumes "rx_buffer p = []" and "kCommandHead \<notin> set noise"
  shows "feed p (noise @ report_frame kFunctionReportEncoder
      (i32_bytes a @ i32_bytes b @ i32_bytes c @ i32_bytes d)) =
    Some (p\<lparr>pstate := (pstate p)\<lparr>encoders := [a, b, c, d],
      encoder_sequence := encoder_sequence (pstate p) + 1,
      valid_frame_sequence := valid_frame_sequence (pstate p) + 1\<rparr>\<rparr>)"
proof -
  let ?pl = "i32_bytes a @ i32_bytes b @ i32_bytes c @ i32_bytes d"
  have len: "length (i32_bytes w) = 4" for w by (simp add: i32_bytes_def)
  have "read_i32_le ?pl 0 = Some a" by (rule read_i32_bytes)
  moreover have "read_i32_le ?pl 4 = Some b"
    using read_i32_drop [of "i32_bytes a" "i32_bytes b @ i32_bytes c @ i32_bytes d" 0]
    by (simp add: len read_i32_bytes)
  moreover have "read_i32_le ?pl 8 = Some c"
    using read_i32_drop [of "i32_bytes a @ i32_bytes b" "i32_bytes c @ i32_bytes d" 0]
    by (simp add: len read_i32_bytes)
  moreover have "read_i32_le ?pl 12 = Some d"
    using read_i32_drop [of "i32_bytes a @ i32_bytes b @ i32_bytes c" "i32_bytes d" 0]
      read_i32_bytes [of d "[]"]
    by (simp add: len)
  ultimately have "read_all read_i32_le 4 4 ?pl = Some [a, b, c, d]"
    by (simp add: read_all_def upt_rec)
  then show ?thesis
    using assms
    by (simp add: feed_idle feed_loop_noise
      feed_loop_report_frame [where rest = "[]", simplified] len parse_payload_def
      feed_loop_Nil)
qed

theorem feed_encoder_roundtrip_witness:
  "feed parser_reset ([0] @ report_frame kFunctionReportEncoder
      (i32_bytes 1 @ i32_bytes (- 1) @ i32_bytes 255 @ i32_bytes 65536)) =
    Some (parser_reset\<lparr>pstate := (pstate parser_reset)\<lparr>encoders := [1, - 1, 255, 65536],
      encoder_sequence := encoder_sequence (pstate parser_reset) + 1,
      valid_frame_sequence := valid_frame_sequence (pstate parser_reset) + 1\<rparr>\<rparr>)"
  by (rule feed_encoder_roundtrip) (simp_all add: parser_reset_def protocol_constants)

text \<open>C18. A motion command is built exactly when the three components are finite and within the
  16-bit range in thousandths, and the frame then carries each of them truncated towards zero: the
  board never receives a component of larger magnitude than requested.\<close>

definition sendable :: "dbl \<Rightarrow> bool" where
  "sendable v \<longleftrightarrow> isfinite v \<and> \<not> v * Fin 1000 < Fin (- 32768) \<and> \<not> Fin 32767 < v * Fin 1000"

definition carries :: "byte list \<Rightarrow> nat \<Rightarrow> dbl \<Rightarrow> bool" where
  "carries f i v \<longleftrightarrow> (\<exists>w. read_i16_le f i = Some w \<and> sint w = trunc (val (v * Fin 1000)) \<and>
     \<bar>of_int (sint w)\<bar> \<le> \<bar>val (v * Fin 1000)\<bar>)"

lemma motion_command_carries:
  assumes "sendable v" "read_i16_le f i = Some (word_of_int (wire v))"
  shows "carries f i v"
proof -
  have "sint (word_of_int (wire v) :: 16 word) = wire v"
    using assms(1) wire_range [of v] by (intro sint_word_of_int_16) (auto simp: sendable_def)
  then show ?thesis
    unfolding carries_def
    by (intro exI [of _ "word_of_int (wire v)"] conjI assms(2))
      (simp_all del: of_int_sint add: wire_def trunc_abs_le)
qed

lemma append_scaled_i16_cases:
  "append_scaled_i16 c v = (if sendable v then Inr (c @ i16_bytes (wire v))
     else Inl (if isfinite v then Out_of_range else Invalid_argument))"
  using append_scaled_i16_Inr [of c v "c @ i16_bytes (wire v)"]
  by (auto simp: sendable_def append_scaled_i16_def Let_def)

theorem motion_command_spec:
  "case make_motion_command car_type x y z of
     Inr f \<Rightarrow> sendable x \<and> sendable y \<and> sendable z \<and> length f = 12 \<and>
       f ! 4 = car_type \<and> carries f 5 x \<and> carries f 7 y \<and> carries f 9 z
   | Inl e \<Rightarrow> e = (if isfinite (if \<not> sendable x then x else if \<not> sendable y then y else z)
       then Out_of_range else Invalid_argument) \<and> \<not> (sendable x \<and> sendable y \<and> sendable z)"
proof (cases "sendable x \<and> sendable y \<and> sendable z")
  case False
  then show ?thesis by (auto simp: make_motion_command_def append_scaled_i16_cases)
next
  case True
  let ?f = "command_frame kFunctionMotion (car_type # i16_bytes (wire x) @ i16_bytes (wire y) @ i16_bytes (wire z))"
  obtain h cs where f: "?f = h @ i16_bytes (wire x) @ i16_bytes (wire y) @ i16_bytes (wire z) @ [cs]"
    and h: "length h = 5" "h ! 4 = car_type"
    by (rule that [of "[_, _, _, _, _]"]) (auto simp: command_frame_def Let_def)
  have len: "length (i16_bytes n) = 2" for n by (simp add: i16_bytes_def)
  have "read_i16_le ?f 5 = Some (word_of_int (wire x))"
    using read_i16_drop [of h _ 0] by (simp add: f h read_i16_bytes)
  moreover have "read_i16_le ?f 7 = Some (word_of_int (wire y))"
    using read_i16_drop [of "h @ i16_bytes (wire x)" _ 0] by (simp add: f h len read_i16_bytes)
  moreover have "read_i16_le ?f 9 = Some (word_of_int (wire z))"
    using read_i16_drop [of "h @ i16_bytes (wire x) @ i16_bytes (wire y)" _ 0]
    by (simp add: f h len read_i16_bytes)
  moreover have "make_motion_command car_type x y z = Inr ?f"
    using True
    by (simp add: make_motion_command_def append_scaled_i16_cases finish_command_frame)
  moreover have "length ?f = 12" "?f ! 4 = car_type" using h by (simp_all add: f len nth_append)
  ultimately show ?thesis using True by (simp add: motion_command_carries)
qed

text \<open>Every physical angle the servo has, 0 to 270 degrees, gives a command the frame builder
  accepts for each of the four servos: at most 180, and never smaller for a larger angle.\<close>

theorem pwm_servo_total:
  assumes "isfinite a" "isfinite b" "Fin 0 \<le> a" "a \<le> b" "b \<le> Fin 270"
    and "1 \<le> servo" "servo \<le> 4"
  shows "\<exists>m n. pwm_command_angle_from_physical a = Inr m \<and>
    pwm_command_angle_from_physical b = Inr n \<and> m \<le> n \<and> n \<le> 180 \<and>
    make_pwm_servo_command servo n = Inr (command_frame kFunctionPwmServo [servo, n])"
proof -
  obtain p where p: "a * Fin 180 / Fin 270 = Fin p" "0 \<le> lround p"
    "pwm_command_angle_from_physical a = Inr (word_of_int (lround p))"
    using assms pwm_angle_bound [of a] dbl_le_trans by metis
  obtain q where q: "b * Fin 180 / Fin 270 = Fin q" "lround q \<le> 180"
    "pwm_command_angle_from_physical b = Inr (word_of_int (lround q))"
    using assms pwm_angle_bound [of b] dbl_le_trans by metis
  have "Fin p \<le> Fin q"
    using dbl_divide_mono [OF dbl_times_mono [OF assms(4), of 180], of 270] p q by simp
  then have "lround p \<le> lround q" by (simp add: lround_mono)
  then have "(word_of_int (lround p) :: byte) \<le> word_of_int (lround q)"
    using p q by (intro byte_of_int_le) auto
  moreover have "(word_of_int (lround q) :: byte) \<le> word_of_int 180"
    using \<open>lround p \<le> lround q\<close> p(2) q(2) by (intro byte_of_int_le) auto
  then have "(word_of_int (lround q) :: byte) \<le> 180" by simp
  ultimately show ?thesis
    using assms(6,7) p q
    by (auto simp: make_pwm_servo_command_def finish_command_frame not_less [symmetric])
qed

theorem pwm_servo_total_witness:
  "\<exists>m n. pwm_command_angle_from_physical (Fin 0) = Inr m \<and>
    pwm_command_angle_from_physical (Fin 270) = Inr n \<and> m \<le> n \<and> n \<le> 180 \<and>
    make_pwm_servo_command 4 n = Inr (command_frame kFunctionPwmServo [4, n])"
  by (rule pwm_servo_total) simp_all

end
