(* ===== verification/Differential_Drive.thy ===== *)
theory Differential_Drive
  imports Ieee_Double
begin

text \<open>
  The kinematics of the two-wheel base, \<open>carcar_hardware/src/differential_drive.cpp\<close>, and the
  camera servo's angle helpers and state node, \<open>camera_servo_safety.hpp\<close> and
  \<open>camera_servo_state.cpp\<close>. All arithmetic is binary64, in the order the code evaluates it.
\<close>

subsection \<open>Wheel kinematics\<close>

definition kTwoPi :: dbl where "kTwoPi = fl 6.28318530717958647692"

definition require_positive_finite :: "dbl \<Rightarrow> unit result" where
  "require_positive_finite v = (if \<not> isfinite v \<or> v \<le> Fin 0 then Inl Invalid_argument else Inr ())"

definition require_sign :: "int \<Rightarrow> unit result" where
  "require_sign v = (if v \<noteq> - 1 \<and> v \<noteq> 1 then Inl Invalid_argument else Inr ())"

definition clamp_symmetric :: "dbl \<Rightarrow> dbl \<Rightarrow> dbl" where
  "clamp_symmetric v limit = dclamp v (- limit) limit"

record body_motion =
  linear_x :: dbl
  angular_z :: dbl

definition wheel_velocity_to_body_motion ::
  "dbl \<Rightarrow> dbl \<Rightarrow> dbl \<Rightarrow> dbl \<Rightarrow> int \<Rightarrow> int \<Rightarrow> dbl \<Rightarrow> dbl \<Rightarrow> body_motion result" where
  "wheel_velocity_to_body_motion left_velocity right_velocity wheel_radius wheel_separation
     left_command_sign right_command_sign max_linear_x max_angular_z =
     (if \<not> isfinite left_velocity \<or> \<not> isfinite right_velocity then Inl Invalid_argument
      else bind_res (require_positive_finite wheel_radius) (\<lambda>_.
      bind_res (require_positive_finite wheel_separation) (\<lambda>_.
      bind_res (require_positive_finite max_linear_x) (\<lambda>_.
      bind_res (require_positive_finite max_angular_z) (\<lambda>_.
      bind_res (require_sign left_command_sign) (\<lambda>_.
      bind_res (require_sign right_command_sign) (\<lambda>_.
      let corrected_left = left_velocity * i2d left_command_sign;
          corrected_right = right_velocity * i2d right_command_sign
      in Inr \<lparr>
        linear_x = clamp_symmetric
          (wheel_radius * (corrected_left + corrected_right) * fl 0.5) max_linear_x,
        angular_z = clamp_symmetric
          (wheel_radius * (corrected_right - corrected_left) / wheel_separation)
          max_angular_z\<rparr>)))))))"

definition encoder_count_to_position :: "int \<Rightarrow> dbl \<Rightarrow> int \<Rightarrow> dbl result" where
  "encoder_count_to_position relative_count counts_per_revolution encoder_sign =
     bind_res (require_positive_finite counts_per_revolution) (\<lambda>_.
     bind_res (require_sign encoder_sign) (\<lambda>_.
     Inr (i2d relative_count * kTwoPi / counts_per_revolution * i2d encoder_sign)))"

definition encoder_rate_to_velocity :: "dbl \<Rightarrow> dbl \<Rightarrow> int \<Rightarrow> dbl result" where
  "encoder_rate_to_velocity counts_per_second counts_per_revolution encoder_sign =
     (if \<not> isfinite counts_per_second then Inl Invalid_argument
      else bind_res (require_positive_finite counts_per_revolution) (\<lambda>_.
      bind_res (require_sign encoder_sign) (\<lambda>_.
      Inr (counts_per_second * kTwoPi / counts_per_revolution * i2d encoder_sign))))"

subsection \<open>The camera servo\<close>

definition kCameraServoMinAngle :: int where "kCameraServoMinAngle = 85"
definition kCameraServoMaxAngle :: int where "kCameraServoMaxAngle = 160"
definition kCameraServoLevelAngle :: dbl where "kCameraServoLevelAngle = fl 140.5"

definition camera_tilt_from_board_command :: "int \<Rightarrow> dbl" where
  "camera_tilt_from_board_command board_angle =
     i2d (board_angle - 94) * fl 1.5 * fl 3.14159265358979323846 / Fin 180"

definition clamp_camera_servo_angle :: "dbl \<Rightarrow> dbl" where
  "clamp_camera_servo_angle angle =
     (if angle < i2d kCameraServoMinAngle then i2d kCameraServoMinAngle
      else if i2d kCameraServoMaxAngle < angle then i2d kCameraServoMaxAngle else angle)"

definition clamp_camera_servo_angle_int :: "int \<Rightarrow> int" where
  "clamp_camera_servo_angle_int angle =
     (if angle < kCameraServoMinAngle then kCameraServoMinAngle
      else if kCameraServoMaxAngle < angle then kCameraServoMaxAngle else angle)"

record servo_node =
  sn_received :: bool
  sn_angle :: dbl

definition servo_node_init :: servo_node where
  "servo_node_init = \<lparr>sn_received = False, sn_angle = Fin 0\<rparr>"

text \<open>The subscription callback, and the position the timer publishes, when it does.\<close>

definition servo_on_command :: "int \<Rightarrow> servo_node \<Rightarrow> servo_node" where
  "servo_on_command data s =
     (if data < 57 \<or> 107 < data then s
      else s\<lparr>sn_angle := camera_tilt_from_board_command data, sn_received := True\<rparr>)"

definition servo_on_timer :: "servo_node \<Rightarrow> dbl option" where
  "servo_on_timer s = (if \<not> sn_received s then None else Some (sn_angle s))"

subsection \<open>Lemmas\<close>

lemma require_positive_finite_Inr:
  "require_positive_finite v = Inr u \<longleftrightarrow> (\<exists>q > 0. v = Fin q)"
  by (cases v) (auto simp: require_positive_finite_def)

lemma require_sign_Inr: "require_sign v = Inr u \<longleftrightarrow> v = - 1 \<or> v = 1"
  by (auto simp: require_sign_def)

lemma i2d_sign: "require_sign v = Inr u \<Longrightarrow> i2d v = Fin (of_int v) \<and> (i2d v = Fin 1 \<or> i2d v = Fin (- 1))"
  by (auto simp: require_sign_Inr i2d_small)

text \<open>Sums, differences and scalings by a positive number of values that are not NaN and not
  opposite infinities are not NaN.\<close>

lemma dbl_add_not_nan: "isfinite a \<or> isfinite b \<Longrightarrow> a \<noteq> NaN \<Longrightarrow> b \<noteq> NaN \<Longrightarrow> a + b \<noteq> (NaN::dbl)"
  by (cases a; cases b) auto

lemma dbl_minus_not_nan:
  "isfinite a \<or> isfinite b \<Longrightarrow> a \<noteq> NaN \<Longrightarrow> b \<noteq> NaN \<Longrightarrow> a - b \<noteq> (NaN::dbl)"
  by (cases a; cases b) (auto simp: minus_dbl_def)

lemma dbl_pos_times_not_nan: "0 < q \<Longrightarrow> d \<noteq> NaN \<Longrightarrow> Fin q * d \<noteq> NaN \<and> d * Fin q \<noteq> NaN"
  by (cases d) auto

lemma dbl_pos_divide_not_nan: "0 < q \<Longrightarrow> d \<noteq> NaN \<Longrightarrow> d / Fin q \<noteq> NaN"
  by (cases d) auto

lemma clamp_symmetric_bounds:
  assumes "v \<noteq> NaN" "0 < q"
  shows "\<exists>r. clamp_symmetric v (Fin q) = Fin r \<and> \<bar>r\<bar> \<le> q"
proof -
  have "- Fin q \<le> clamp_symmetric v (Fin q) \<and> clamp_symmetric v (Fin q) \<le> Fin q"
    unfolding clamp_symmetric_def using assms by (intro dclamp_bounds) auto
  then show ?thesis by (cases "clamp_symmetric v (Fin q)") (auto simp: abs_le_iff)
qed

text \<open>
  With finite commands and the positive parameters the plugin accepts the conversion never fails,
  and neither overflow of an intermediate value nor rounding takes the result over a limit.
\<close>

lemma body_motion_bounds:
  assumes cmd: "isfinite l" "isfinite r" "is_double l" "is_double r"
    and pos: "require_positive_finite radius = Inr ()" "require_positive_finite sep = Inr ()"
    and lim: "0 < mx" "0 < mz"
    and sign: "require_sign sl = Inr ()" "require_sign sr = Inr ()"
  shows "\<exists>x z. wheel_velocity_to_body_motion l r radius sep sl sr (Fin mx) (Fin mz) =
    Inr \<lparr>linear_x = Fin x, angular_z = Fin z\<rparr> \<and> \<bar>x\<bar> \<le> mx \<and> \<bar>z\<bar> \<le> mz"
proof -
  obtain qr where qr: "radius = Fin qr" "0 < qr" using pos by (auto simp: require_positive_finite_Inr)
  obtain qs where qs: "sep = Fin qs" "0 < qs" using pos by (auto simp: require_positive_finite_Inr)
  have ok: "require_positive_finite (Fin mx) = Inr ()" "require_positive_finite (Fin mz) = Inr ()"
    using lim by (auto simp: require_positive_finite_Inr)
  define cl cr where "cl = l * i2d sl" and "cr = r * i2d sr"
  have fin: "isfinite cl" "isfinite cr"
    unfolding cl_def cr_def using cmd sign by (auto intro!: is_double_sign dest: i2d_sign)
  then have nn: "cl + cr \<noteq> NaN" "cr - cl \<noteq> NaN"
    by (auto intro!: dbl_add_not_nan dbl_minus_not_nan simp: isfinite_iff)
  have half: "fl 0.5 = Fin (1 / 2)" by code_simp
  have "radius * (cl + cr) * fl 0.5 \<noteq> NaN" "radius * (cr - cl) / sep \<noteq> NaN"
    unfolding half qr qs using nn qr qs by (simp_all add: dbl_pos_times_not_nan dbl_pos_divide_not_nan)
  from clamp_symmetric_bounds [OF this(1) lim(1)] clamp_symmetric_bounds [OF this(2) lim(2)]
  obtain x z where xz: "clamp_symmetric (radius * (cl + cr) * fl 0.5) (Fin mx) = Fin x" "\<bar>x\<bar> \<le> mx"
    "clamp_symmetric (radius * (cr - cl) / sep) (Fin mz) = Fin z" "\<bar>z\<bar> \<le> mz"
    by blast
  show ?thesis
    using cmd(1,2) pos sign ok xz
    by (simp add: wheel_velocity_to_body_motion_def cl_def [symmetric] cr_def [symmetric] Let_def)
qed

lemma clamp_camera_servo_angle_int_bounds:
  "85 \<le> clamp_camera_servo_angle_int n \<and> clamp_camera_servo_angle_int n \<le> 160"
  by (simp add: clamp_camera_servo_angle_int_def kCameraServoMinAngle_def kCameraServoMaxAngle_def)

lemma encoder_rate_to_velocity_ok:
  "isfinite cps \<Longrightarrow> require_positive_finite cpr = Inr () \<Longrightarrow> require_sign sg = Inr () \<Longrightarrow>
     \<exists>v. encoder_rate_to_velocity cps cpr sg = Inr v"
  by (simp add: encoder_rate_to_velocity_def)

lemma encoder_count_to_position_ok:
  "require_positive_finite cpr = Inr () \<Longrightarrow> require_sign sg = Inr () \<Longrightarrow>
     \<exists>v. encoder_count_to_position n cpr sg = Inr v"
  by (simp add: encoder_count_to_position_def)

lemma clamp_camera_servo_angle_bounds:
  assumes "a \<noteq> NaN"
  shows "Fin 85 \<le> clamp_camera_servo_angle a \<and> clamp_camera_servo_angle a \<le> Fin 160"
proof -
  have "i2d 85 = Fin 85" "i2d 160 = Fin 160" by (simp_all add: i2d_small)
  then show ?thesis
    using assms
    by (cases a) (auto simp: clamp_camera_servo_angle_def kCameraServoMinAngle_def kCameraServoMaxAngle_def)
qed

end
