(* ===== verification/Rosmaster_System.thy ===== *)
theory Rosmaster_System
  imports Rosmaster_Protocol Differential_Drive "HOL-Library.Sublist"
begin

text \<open>
  The ros2_control plugin, \<open>carcar_hardware/src/rosmaster_system.cpp\<close>: parameter parsing, the
  lifecycle callbacks, and the periodic \<open>read\<close> and \<open>write\<close>. What the operating system answers is
  a script of results: each \<open>::read\<close> and \<open>::write\<close> takes the next one, and a call that would still
  be waiting when the script ends is \<open>None\<close>. The bytes the port accepts are recorded in \<open>sent\<close>.
  The monotonic clock's readings are arguments. Members that only suppress repeated log messages
  (\<open>reported_motion_lock_\<close>, \<open>reported_first_*\<close>) are left out; \<open>reported_waiting_for_encoder_\<close>
  decides what is sent and is kept. \<open>std::stod\<close> depends on the locale and is the parameter
  \<open>stod\<close>: the value and the number of characters used, \<open>None\<close> when it throws.
\<close>

subsection \<open>Hardware description\<close>

record component =
  comp_name :: string
  state_interfaces :: "string list"
  command_interfaces :: "string list"

record hardware_info =
  hardware_parameters :: "string \<Rightarrow> string option"
  joints :: "component list"
  sensors :: "component list"

definition kEncoderCountInterface :: string where "kEncoderCountInterface = ''encoder_count''"
definition kEncoderVelocityInterface :: string where "kEncoderVelocityInterface = ''encoder_velocity''"
definition kMotorPwmInterface :: string where "kMotorPwmInterface = ''motor_pwm''"
definition HW_IF_POSITION :: string where "HW_IF_POSITION = ''position''"
definition HW_IF_VELOCITY :: string where "HW_IF_VELOCITY = ''velocity''"

definition kImuInterfaces :: "string list" where
  "kImuInterfaces =
     [''orientation.x'', ''orientation.y'', ''orientation.z'', ''orientation.w'',
      ''angular_velocity.x'', ''angular_velocity.y'', ''angular_velocity.z'',
      ''linear_acceleration.x'', ''linear_acceleration.y'', ''linear_acceleration.z'']"

definition has_state_interface :: "component \<Rightarrow> string \<Rightarrow> bool" where
  "has_state_interface c n = list_ex (\<lambda>i. i = n) (state_interfaces c)"

definition has_command_interface :: "component \<Rightarrow> string \<Rightarrow> bool" where
  "has_command_interface c n = list_ex (\<lambda>i. i = n) (command_interfaces c)"

subsection \<open>State\<close>

record config =
  serial_port :: string
  car_type :: byte
  wheel_count :: nat
  command_mode :: bool
  raw_motor_command_mode :: bool
  standard_wheel_state_mode :: bool
  motion_enabled :: bool
  wheel_radius :: dbl
  wheel_separation :: dbl
  counts_per_revolution :: dbl
  max_linear_x :: dbl
  max_angular_z :: dbl
  encoder_timeout :: dbl
  max_motor_pwm :: int
  left_command_sign :: int
  right_command_sign :: int
  left_encoder_sign :: int
  right_encoder_sign :: int

record hw =
  cfg :: config
  wheel_joint_names :: "string list"
  imu_sensor_name :: string
  serial_fd :: int
  hw_parser :: parser
  observed_encoder_sequence :: "64 word"
  observed_imu_sequence :: "64 word"
  reported_waiting_for_encoder :: bool
  output_stopped :: bool
  have_previous_encoder_sample :: bool
  previous_encoders :: "32 word list"
  previous_encoder_time :: time_ns
  configure_time :: time_ns
  relative_encoder_counts :: "64 word list"
  encoder_count :: "dbl list"
  encoder_velocity :: "dbl list"
  wheel_position :: "dbl list"
  wheel_velocity :: "dbl list"
  wheel_command :: "dbl list"
  hw_angular_velocity :: "dbl list"
  hw_linear_acceleration :: "dbl list"

definition config_init :: config where
  "config_init = \<lparr>serial_port = ''/dev/myserial'', car_type = 1, wheel_count = 0,
     command_mode = False, raw_motor_command_mode = False, standard_wheel_state_mode = False,
     motion_enabled = False, wheel_radius = Fin 0, wheel_separation = Fin 0,
     counts_per_revolution = Fin 0, max_linear_x = Fin 0, max_angular_z = Fin 0,
     encoder_timeout = fl 0.25, max_motor_pwm = 20, left_command_sign = 1,
     right_command_sign = 1, left_encoder_sign = 1, right_encoder_sign = 1\<rparr>"

definition hw_init :: hw where
  "hw_init = \<lparr>cfg = config_init, wheel_joint_names = replicate 4 [], imu_sensor_name = [],
     serial_fd = - 1, hw_parser = parser_reset, observed_encoder_sequence = 0,
     observed_imu_sequence = 0, reported_waiting_for_encoder = False, output_stopped = True,
     have_previous_encoder_sample = False, previous_encoders = [0, 0, 0, 0],
     previous_encoder_time = 0, configure_time = 0, relative_encoder_counts = [0, 0, 0, 0],
     encoder_count = replicate 4 (Fin 0), encoder_velocity = replicate 4 (Fin 0),
     wheel_position = replicate 4 (Fin 0), wheel_velocity = replicate 4 (Fin 0),
     wheel_command = replicate 4 (Fin 0), hw_angular_velocity = replicate 3 (Fin 0),
     hw_linear_acceleration = replicate 3 (Fin 0)\<rparr>"

subsection \<open>Parameters\<close>

text \<open>\<open>std::stoi\<close> and \<open>std::stoul\<close> in base ten: white space, a sign, digits; the value and the
  number of characters used.\<close>

definition is_space :: "char \<Rightarrow> bool" where
  "is_space c = (c \<in> {CHR '' '', CHR 0x09, CHR 0x0A, CHR 0x0B, CHR 0x0C, CHR 0x0D})"

definition is_digit :: "char \<Rightarrow> bool" where
  "is_digit c = (of_char c \<ge> (48 :: nat) \<and> of_char c \<le> (57 :: nat))"

definition digits_value :: "string \<Rightarrow> int" where
  "digits_value ds = foldl (\<lambda>v c. 10 * v + (of_char c - 48)) 0 ds"

definition scan_int :: "string \<Rightarrow> (int \<times> nat) option" where
  "scan_int s =
     (let sp = takeWhile is_space s;
          r = dropWhile is_space s;
          signed = (r \<noteq> [] \<and> hd r \<in> {CHR ''+'', CHR ''-''});
          r' = (if signed then tl r else r);
          ds = takeWhile is_digit r';
          v = digits_value ds
      in if ds = [] then None
         else Some (if signed \<and> hd r = CHR ''-'' then - v else v,
           length sp + (if signed then 1 else 0) + length ds))"

definition stoi :: "string \<Rightarrow> (int \<times> nat) result" where
  "stoi s = (case scan_int s of
       None \<Rightarrow> Inl Invalid_argument
     | Some (v, n) \<Rightarrow> if v < - (2 ^ 31) \<or> 2 ^ 31 \<le> v then Inl Out_of_range else Inr (v, n))"

definition stoul :: "string \<Rightarrow> int result" where
  "stoul s = (case scan_int s of
       None \<Rightarrow> Inl Invalid_argument
     | Some (v, n) \<Rightarrow> if 2 ^ 64 \<le> \<bar>v\<bar> then Inl Out_of_range else Inr (v mod 2 ^ 64))"

definition parse_positive_parameter ::
  "(string \<Rightarrow> (dbl \<times> nat) option) \<Rightarrow> (string \<Rightarrow> string option) \<Rightarrow> string \<Rightarrow> dbl result" where
  "parse_positive_parameter stod parameters name = (case parameters name of
       None \<Rightarrow> Inl Invalid_argument
     | Some item \<Rightarrow> (case stod item of
         None \<Rightarrow> Inl Invalid_argument
       | Some (v, parsed_length) \<Rightarrow>
           if parsed_length \<noteq> length item \<or> \<not> isfinite v \<or> v \<le> Fin 0 then Inl Invalid_argument
           else Inr v))"

definition parse_sign_parameter :: "(string \<Rightarrow> string option) \<Rightarrow> string \<Rightarrow> int result" where
  "parse_sign_parameter parameters name = (case parameters name of
       None \<Rightarrow> Inl Invalid_argument
     | Some item \<Rightarrow> bind_res (stoi item) (\<lambda>(v, parsed_length).
         if parsed_length \<noteq> length item \<or> (v \<noteq> - 1 \<and> v \<noteq> 1) then Inl Invalid_argument
         else Inr v))"

definition parse_motion_enabled :: "(string \<Rightarrow> string option) \<Rightarrow> bool result" where
  "parse_motion_enabled parameters = (case parameters ''motion_enabled'' of
       None \<Rightarrow> Inr False
     | Some v \<Rightarrow>
         if v = ''false'' \<or> v = ''0'' then Inr False
         else if v = ''true'' \<or> v = ''1'' then Inr True
         else Inl Invalid_argument)"

definition encoder_delta :: "32 word \<Rightarrow> 32 word \<Rightarrow> 32 word" where
  "encoder_delta current previous = current - previous"

subsection \<open>Initialisation\<close>

text \<open>
  The body of the \<open>try\<close> block is a list of steps on the members; the first exception ends it and
  leaves the members as they are.
\<close>

fun run_steps :: "('s \<Rightarrow> 's \<times> exn option) list \<Rightarrow> 's \<Rightarrow> 's \<times> exn option" where
  "run_steps [] s = (s, None)"
| "run_steps (f # fs) s = (case f s of (s', None) \<Rightarrow> run_steps fs s' | (s', Some e) \<Rightarrow> (s', Some e))"

definition assign :: "'a result \<Rightarrow> ('a \<Rightarrow> 's \<Rightarrow> 's) \<Rightarrow> 's \<Rightarrow> 's \<times> exn option" where
  "assign r upd s = (case r of Inl e \<Rightarrow> (s, Some e) | Inr v \<Rightarrow> (upd v s, None))"

definition check :: "('s \<Rightarrow> bool) \<Rightarrow> 's \<Rightarrow> 's \<times> exn option" where
  "check ok s = (s, if ok s then None else Some Out_of_range)"

definition init_car_type :: "hardware_info \<Rightarrow> config \<Rightarrow> config \<times> exn option" where
  "init_car_type info c = (case hardware_parameters info ''car_type'' of
       None \<Rightarrow> (c, None)
     | Some v \<Rightarrow> assign (bind_res (stoul v) (\<lambda>p. if 255 < p then Inl Out_of_range else Inr p))
         (\<lambda>p. car_type_update (\<lambda>_. word_of_int p)) c)"

definition init_modes :: "hardware_info \<Rightarrow> config \<Rightarrow> config" where
  "init_modes info c =
     (let c = c\<lparr>wheel_count := length (joints info)\<rparr>; j = hd (joints info) in
      if wheel_count c = 2 then
        c\<lparr>command_mode := has_command_interface j HW_IF_VELOCITY,
          standard_wheel_state_mode :=
            has_state_interface j HW_IF_POSITION \<and> has_state_interface j HW_IF_VELOCITY\<rparr>
      else if wheel_count c = 4 then
        c\<lparr>raw_motor_command_mode := has_command_interface j kMotorPwmInterface,
          command_mode := has_command_interface j kMotorPwmInterface\<rparr>
      else c)"

text \<open>\<open>static_cast<int>\<close> of a positive double, saturating as the target's conversion does.\<close>

definition double_to_int :: "dbl \<Rightarrow> int" where
  "double_to_int d = min (trunc (val d)) (2 ^ 31 - 1)"

definition init_parameters :: "(string \<Rightarrow> (dbl \<times> nat) option) \<Rightarrow> hardware_info \<Rightarrow> config \<Rightarrow> config \<times> exn option" where
  "init_parameters stod info c =
     (let ps = hardware_parameters info;
          pos = parse_positive_parameter stod ps;
          sgn = parse_sign_parameter ps
      in run_steps
       ((if command_mode c then
           [assign (parse_motion_enabled ps) (\<lambda>v. motion_enabled_update (\<lambda>_. v)),
            assign (pos ''encoder_timeout'') (\<lambda>v. encoder_timeout_update (\<lambda>_. v))] else []) @
        (if raw_motor_command_mode c then
           [assign (pos ''max_motor_pwm'') (\<lambda>v. max_motor_pwm_update (\<lambda>_. double_to_int v)),
            check (\<lambda>c. \<not> 20 < max_motor_pwm c)]
         else if command_mode c then
           [assign (pos ''wheel_radius'') (\<lambda>v. wheel_radius_update (\<lambda>_. v)),
            assign (pos ''wheel_separation'') (\<lambda>v. wheel_separation_update (\<lambda>_. v)),
            assign (pos ''encoder_counts_per_revolution'') (\<lambda>v. counts_per_revolution_update (\<lambda>_. v)),
            assign (pos ''max_linear_x'') (\<lambda>v. config.max_linear_x_update (\<lambda>_. v)),
            assign (pos ''max_angular_z'') (\<lambda>v. config.max_angular_z_update (\<lambda>_. v)),
            assign (sgn ''left_wheel_command_sign'') (\<lambda>v. left_command_sign_update (\<lambda>_. v)),
            assign (sgn ''right_wheel_command_sign'') (\<lambda>v. right_command_sign_update (\<lambda>_. v)),
            assign (sgn ''left_wheel_encoder_sign'') (\<lambda>v. left_encoder_sign_update (\<lambda>_. v)),
            assign (sgn ''right_wheel_encoder_sign'') (\<lambda>v. right_encoder_sign_update (\<lambda>_. v)),
            check (\<lambda>c. \<not> (fl 32.767 < max_linear_x c \<or> fl 32.767 < max_angular_z c))]
         else [])) c)"

definition validate_joint :: "config \<Rightarrow> component \<Rightarrow> bool" where
  "validate_joint c joint =
     (let has_expected_command = has_command_interface joint
            (if raw_motor_command_mode c then kMotorPwmInterface else HW_IF_VELOCITY);
          has_position_state = has_state_interface joint HW_IF_POSITION;
          has_velocity_state = has_state_interface joint HW_IF_VELOCITY
      in if command_mode c \<and> (length (command_interfaces joint) \<noteq> 1 \<or> \<not> has_expected_command)
         then False
         else if \<not> command_mode c \<and> command_interfaces joint \<noteq> [] then False
         else if \<not> has_state_interface joint kEncoderCountInterface \<or>
           \<not> has_state_interface joint kEncoderVelocityInterface then False
         else if command_mode c \<and> \<not> raw_motor_command_mode c \<and>
           (\<not> has_position_state \<or> \<not> has_velocity_state) then False
         else if (\<not> command_mode c \<or> raw_motor_command_mode c) \<and>
           (has_position_state \<or> has_velocity_state) then False
         else True)"

definition validate_description :: "config \<Rightarrow> hardware_info \<Rightarrow> bool" where
  "validate_description c info =
     (if wheel_count c \<noteq> 2 \<and> wheel_count c \<noteq> 4 then False
      else if \<not> list_all (validate_joint c) (joints info) then False
      else if length (sensors info) \<noteq> 1 then False
      else list_all (has_state_interface (hd (sensors info))) kImuInterfaces)"

text \<open>\<open>base_ok\<close>: what \<open>SystemInterface::on_init\<close> answers. The result says \<open>SUCCESS\<close>.\<close>

definition on_init :: "(string \<Rightarrow> (dbl \<times> nat) option) \<Rightarrow> bool \<Rightarrow> hardware_info \<Rightarrow> hw \<Rightarrow> bool \<times> hw" where
  "on_init stod base_ok info s =
     (if \<not> base_ok then (False, s)
      else let c = (case hardware_parameters info ''serial_port'' of
               None \<Rightarrow> cfg s
             | Some port \<Rightarrow> if port = [] then cfg s else (cfg s)\<lparr>serial_port := port\<rparr>)
      in case run_steps [init_car_type info, \<lambda>c. (init_modes info c, None),
             init_parameters stod info] c of
           (c, Some e) \<Rightarrow> (False, s\<lparr>cfg := c\<rparr>)
         | (c, None) \<Rightarrow>
             if \<not> validate_description c info then (False, s\<lparr>cfg := c\<rparr>)
             else (True, s\<lparr>cfg := c,
               wheel_joint_names := map comp_name (joints info) @
                 drop (wheel_count c) (wheel_joint_names s),
               imu_sensor_name := comp_name (hd (sensors info))\<rparr>))"

subsection \<open>The serial port\<close>

datatype read_result = Bytes "byte list" | Read_nothing | Read_again | Read_interrupted | Read_failed

datatype write_result = Written nat | Write_interrupted | Write_again (poll_ready: bool) | Write_failed

record port =
  reads :: "read_result list"
  writes :: "write_result list"
  sent :: "byte list"

text \<open>The loop of \<open>write_frame\<close> on what is left of the frame.\<close>

fun write_loop :: "write_result list \<Rightarrow> byte list \<Rightarrow> (bool \<times> write_result list \<times> byte list) option" where
  "write_loop ws [] = Some (True, ws, [])"
| "write_loop [] frame = None"
| "write_loop (Written n # ws) frame =
     (if 0 < n then map_option (\<lambda>(r, ws', out). (r, ws', take n frame @ out))
        (write_loop ws (drop n frame))
      else Some (False, ws, []))"
| "write_loop (Write_interrupted # ws) frame = write_loop ws frame"
| "write_loop (Write_again ready # ws) frame =
     (if ready then write_loop ws frame else Some (False, ws, []))"
| "write_loop (Write_failed # ws) frame = Some (False, ws, [])"

definition write_frame :: "hw \<Rightarrow> byte list \<Rightarrow> port \<Rightarrow> (bool \<times> port) option" where
  "write_frame s frame p =
     (if serial_fd s < 0 then Some (False, p)
      else map_option (\<lambda>(r, ws, out). (r, p\<lparr>writes := ws, sent := sent p @ out\<rparr>))
        (write_loop (writes p) frame))"

text \<open>The zero motion frame; the builder never throws for zeros (\<open>zero_motion_frame_eq\<close>).\<close>

definition zero_motion_frame :: "byte \<Rightarrow> byte list" where
  "zero_motion_frame ct = (case make_zero_motion_command ct of Inr f \<Rightarrow> f | Inl e \<Rightarrow> [])"

definition send_zero_output :: "hw \<Rightarrow> port \<Rightarrow> (bool \<times> port) option" where
  "send_zero_output s p = do {
     (ok, p) \<leftarrow> write_frame s make_zero_motor_command p;
     if ok then write_frame s (zero_motion_frame (car_type (cfg s))) p else Some (False, p)}"

definition stop_and_close :: "hw \<Rightarrow> port \<Rightarrow> (hw \<times> port) option" where
  "stop_and_close s p =
     (if serial_fd s < 0 then Some (s, p)
      else do {
        (_, p) \<leftarrow> send_zero_output s p;
        let s = s\<lparr>output_stopped := True\<rparr>;
        (_, p) \<leftarrow> write_frame s (make_auto_report_command False) p;
        Some (s\<lparr>serial_fd := - 1\<rparr>, p)})"

text \<open>\<open>open_serial\<close>: the descriptor \<open>open\<close> returns and whether the terminal calls succeed.\<close>

definition open_serial :: "int \<Rightarrow> bool \<Rightarrow> bool \<Rightarrow> hw \<Rightarrow> port \<Rightarrow> (bool \<times> hw \<times> port) option" where
  "open_serial fd tcgetattr_ok tcsetattr_ok s p =
     (let s = s\<lparr>serial_fd := fd\<rparr> in
      if fd < 0 then Some (False, s, p)
      else if \<not> tcgetattr_ok then map_option (\<lambda>(s, p). (False, s, p)) (stop_and_close s p)
      else if \<not> tcsetattr_ok then map_option (\<lambda>(s, p). (False, s, p)) (stop_and_close s p)
      else Some (True, s, p))"

subsection \<open>Lifecycle\<close>

definition configure_reset :: "time_ns \<Rightarrow> hw \<Rightarrow> hw" where
  "configure_reset now s = s\<lparr>hw_parser := parser_reset, observed_encoder_sequence := 0,
     observed_imu_sequence := 0, reported_waiting_for_encoder := False, output_stopped := True,
     have_previous_encoder_sample := False, relative_encoder_counts := replicate 4 0,
     encoder_count := replicate 4 (Fin 0), encoder_velocity := replicate 4 (Fin 0),
     wheel_position := replicate 4 (Fin 0), wheel_velocity := replicate 4 (Fin 0),
     wheel_command := replicate 4 (Fin 0), hw_angular_velocity := replicate 3 (Fin 0),
     hw_linear_acceleration := replicate 3 (Fin 0), configure_time := now\<rparr>"

definition on_configure ::
  "time_ns \<Rightarrow> int \<Rightarrow> bool \<Rightarrow> bool \<Rightarrow> hw \<Rightarrow> port \<Rightarrow> (bool \<times> hw \<times> port) option" where
  "on_configure now fd tcgetattr_ok tcsetattr_ok s p = do {
     (opened, s, p) \<leftarrow> open_serial fd tcgetattr_ok tcsetattr_ok (configure_reset now s) p;
     if \<not> opened then Some (False, s, p)
     else do {
       (zeroed, p) \<leftarrow> send_zero_output s p;
       (reporting, p) \<leftarrow> (if zeroed then write_frame s (make_auto_report_command True) p
         else Some (False, p));
       if \<not> reporting then map_option (\<lambda>(s, p). (False, s, p)) (stop_and_close s p)
       else Some (True, s, p)}}"

definition on_cleanup :: "hw \<Rightarrow> port \<Rightarrow> (bool \<times> hw \<times> port) option" where
  "on_cleanup s p = map_option (\<lambda>(s, p). (True, s, p)) (stop_and_close s p)"

definition on_activate :: "hw \<Rightarrow> port \<Rightarrow> (bool \<times> hw \<times> port) option" where
  "on_activate s p =
     (let s = s\<lparr>wheel_command := replicate 4 (Fin 0)\<rparr> in
      if serial_fd s < 0 then Some (False, s, p)
      else do {
        (ok, p) \<leftarrow> send_zero_output s p;
        if \<not> ok then Some (False, s, p) else Some (True, s\<lparr>output_stopped := True\<rparr>, p)})"

definition on_deactivate :: "hw \<Rightarrow> port \<Rightarrow> (bool \<times> hw \<times> port) option" where
  "on_deactivate s p =
     (let s = s\<lparr>wheel_command := replicate 4 (Fin 0)\<rparr> in do {
        (stopped, p) \<leftarrow> send_zero_output s p;
        Some (stopped, s\<lparr>output_stopped := stopped\<rparr>, p)})"

definition on_shutdown :: "hw \<Rightarrow> port \<Rightarrow> (bool \<times> hw \<times> port) option" where
  "on_shutdown s p = map_option (\<lambda>(s, p). (True, s, p)) (stop_and_close s p)"

definition on_error :: "hw \<Rightarrow> port \<Rightarrow> (bool \<times> hw \<times> port) option" where
  "on_error s p = map_option (\<lambda>(s, p). (True, s, p)) (stop_and_close s p)"

text \<open>The exported interfaces: owner, name and the array and index the handle points to.\<close>

datatype member = M_position | M_velocity | M_count | M_encoder_velocity | M_orientation
  | M_angular_velocity | M_linear_acceleration | M_command

definition export_state_interfaces :: "hw \<Rightarrow> (string \<times> string \<times> member \<times> nat) list" where
  "export_state_interfaces s =
     concat (map (\<lambda>i. let n = wheel_joint_names s ! i in
       (if standard_wheel_state_mode (cfg s) then
          [(n, HW_IF_POSITION, M_position, i), (n, HW_IF_VELOCITY, M_velocity, i)] else []) @
       [(n, kEncoderCountInterface, M_count, i),
        (n, kEncoderVelocityInterface, M_encoder_velocity, i)]) [0..<wheel_count (cfg s)]) @
     map (\<lambda>i. (imu_sensor_name s, kImuInterfaces ! i, M_orientation, i)) [0..<4] @
     map (\<lambda>i. (imu_sensor_name s, kImuInterfaces ! (4 + i), M_angular_velocity, i)) [0..<3] @
     map (\<lambda>i. (imu_sensor_name s, kImuInterfaces ! (7 + i), M_linear_acceleration, i)) [0..<3]"

definition export_command_interfaces :: "hw \<Rightarrow> (string \<times> string \<times> member \<times> nat) list" where
  "export_command_interfaces s =
     (if \<not> command_mode (cfg s) then []
      else map (\<lambda>i. (wheel_joint_names s ! i,
          if raw_motor_command_mode (cfg s) then kMotorPwmInterface else HW_IF_VELOCITY,
          M_command, i)) [0..<wheel_count (cfg s)])"

subsection \<open>The control cycle\<close>

definition fill_velocities :: "hw \<Rightarrow> hw" where
  "fill_velocities s =
     s\<lparr>wheel_velocity := replicate 4 (Fin 0), encoder_velocity := replicate 4 (Fin 0)\<rparr>"

text \<open>The part of \<open>update_exported_state\<close> for a new encoder report: counts, differences from the
  previous report with the board's 32-bit wrap-around, and rates.\<close>

definition accumulate_encoders :: "time_ns \<Rightarrow> proto_state \<Rightarrow> hw \<Rightarrow> hw" where
  "accumulate_encoders now st s =
     (let n = wheel_count (cfg s);
          s = s\<lparr>encoder_count := map (\<lambda>i. if i < n then i2d (sint (encoders st ! i))
            else encoder_count s ! i) [0..<4]\<rparr>
      in if have_previous_encoder_sample s then
           let elapsed = secs (now - previous_encoder_time s);
               delta = (\<lambda>i. encoder_delta (encoders st ! i) (previous_encoders s ! i))
           in s\<lparr>relative_encoder_counts := map (\<lambda>i. if i < n
                  then relative_encoder_counts s ! i + scast (delta i)
                  else relative_encoder_counts s ! i) [0..<4],
                encoder_velocity := map (\<lambda>i. if i < n \<and> Fin 0 < elapsed
                  then i2d (sint (delta i)) / elapsed
                  else encoder_velocity s ! i) [0..<4]\<rparr>
         else s\<lparr>encoder_velocity := replicate 4 (Fin 0), have_previous_encoder_sample := True\<rparr>)"

definition update_wheels :: "hw \<Rightarrow> hw result" where
  "update_wheels s =
     (let cpr = counts_per_revolution (cfg s); ls = left_encoder_sign (cfg s);
          rs = right_encoder_sign (cfg s); rel = (\<lambda>i. sint (relative_encoder_counts s ! i)) in
      if \<not> standard_wheel_state_mode (cfg s) then Inr s
      else bind_res (encoder_count_to_position (rel 0) cpr ls) (\<lambda>p0.
      bind_res (encoder_count_to_position (rel 1) cpr rs) (\<lambda>p1.
      bind_res (encoder_rate_to_velocity (encoder_velocity s ! 0) cpr ls) (\<lambda>v0.
      bind_res (encoder_rate_to_velocity (encoder_velocity s ! 1) cpr rs) (\<lambda>v1.
      Inr (s\<lparr>wheel_position := (wheel_position s)[0 := p0, 1 := p1],
        wheel_velocity := (wheel_velocity s)[0 := v0, 1 := v1]\<rparr>))))))"

definition update_exported_state :: "time_ns \<Rightarrow> hw \<Rightarrow> hw result" where
  "update_exported_state now s =
     (let st = pstate (hw_parser s) in
      bind_res
        (if encoder_sequence st \<noteq> observed_encoder_sequence s then
           bind_res (update_wheels (accumulate_encoders now st s)) (\<lambda>s.
           Inr (s\<lparr>previous_encoders := encoders st, previous_encoder_time := now,
             observed_encoder_sequence := encoder_sequence st,
             reported_waiting_for_encoder := False\<rparr>))
         else Inr s) (\<lambda>s.
      Inr (if imu_sequence st \<noteq> observed_imu_sequence s
        then s\<lparr>hw_angular_velocity := angular_velocity st,
          hw_linear_acceleration := linear_acceleration st,
          observed_imu_sequence := imu_sequence st\<rparr>
        else s)))"

definition encoder_feedback_is_fresh :: "time_ns \<Rightarrow> hw \<Rightarrow> bool" where
  "encoder_feedback_is_fresh now s =
     (let reference = (if have_previous_encoder_sample s then previous_encoder_time s
        else configure_time s)
      in secs (now - reference) \<le> encoder_timeout (cfg s))"

text \<open>The loop over \<open>::read\<close>. \<open>feed\<close> is never \<open>None\<close> (\<open>feed_safe\<close>).\<close>

fun read_loop :: "read_result list \<Rightarrow> parser \<Rightarrow> (bool \<times> read_result list \<times> parser) option" where
  "read_loop [] ps = None"
| "read_loop (Bytes bs # rs) ps = do {ps \<leftarrow> feed ps bs; read_loop rs ps}"
| "read_loop (Read_nothing # rs) ps = Some (True, rs, ps)"
| "read_loop (Read_again # rs) ps = Some (True, rs, ps)"
| "read_loop (Read_interrupted # rs) ps = read_loop rs ps"
| "read_loop (Read_failed # rs) ps = Some (False, rs, ps)"

datatype ret = Ret_OK | Ret_ERROR

text \<open>\<open>read\<close>: an exception of \<open>update_exported_state\<close> leaves the method; with the parameters
  \<open>on_init\<close> accepts there is none.\<close>

definition hw_read :: "time_ns \<Rightarrow> time_ns \<Rightarrow> hw \<Rightarrow> port \<Rightarrow> (ret result \<times> hw \<times> port) option" where
  "hw_read t_update t_fresh s p =
     (if serial_fd s < 0 then Some (Inr Ret_ERROR, s, p)
      else do {
        (ok, rs, ps) \<leftarrow> read_loop (reads p) (hw_parser s);
        let s = s\<lparr>hw_parser := ps\<rparr>;
        let p = p\<lparr>reads := rs\<rparr>;
        if \<not> ok then Some (Inr Ret_ERROR, s, p)
        else (case update_exported_state t_update s of
            Inl e \<Rightarrow> Some (Inl e, s, p)
          | Inr s \<Rightarrow>
              if command_mode (cfg s) \<and> motion_enabled (cfg s) \<and>
                \<not> encoder_feedback_is_fresh t_fresh s then do {
                let s = fill_velocities s;
                (_, p) \<leftarrow> send_zero_output s p;
                Some (Inr Ret_ERROR, s\<lparr>output_stopped := True\<rparr>, p)}
              else Some (Inr Ret_OK, s, p))})"

text \<open>The raw motor commands: each must be finite and within the limit before it is rounded.\<close>

definition motor_pwm_of :: "int \<Rightarrow> dbl list \<Rightarrow> int list result" where
  "motor_pwm_of limit commands =
     (if list_ex (\<lambda>v. \<not> isfinite v \<or> i2d limit < abs v) commands then Inl Out_of_range
      else Inr (map (\<lambda>v. lround (val v)) commands))"

definition force_zero :: "hw \<Rightarrow> port \<Rightarrow> (ret \<times> hw \<times> port) option" where
  "force_zero s p = do {
     (_, p) \<leftarrow> send_zero_output s p;
     Some (Ret_ERROR, s\<lparr>output_stopped := True\<rparr>, p)}"

definition write_raw :: "hw \<Rightarrow> port \<Rightarrow> (ret \<times> hw \<times> port) option" where
  "write_raw s p = (case motor_pwm_of (max_motor_pwm (cfg s)) (wheel_command s) of
       Inl e \<Rightarrow> force_zero s p
     | Inr pwm \<Rightarrow> do {
         (ok, p) \<leftarrow> write_frame s (make_motor_command (map word_of_int pwm)) p;
         if \<not> ok then force_zero s p
         else Some (Ret_OK, s\<lparr>output_stopped := list_all (\<lambda>n. n = 0) pwm\<rparr>, p)})"

definition write_motion :: "hw \<Rightarrow> port \<Rightarrow> (ret \<times> hw \<times> port) option" where
  "write_motion s p =
     (let c = cfg s;
          r = bind_res (wheel_velocity_to_body_motion (wheel_command s ! 0) (wheel_command s ! 1)
                (wheel_radius c) (wheel_separation c) (left_command_sign c)
                (right_command_sign c) (max_linear_x c) (max_angular_z c)) (\<lambda>command.
              bind_res (make_motion_command (car_type c) (linear_x command) (Fin 0)
                (angular_z command)) (\<lambda>frame. Inr (command, frame)))
      in case r of
        Inl e \<Rightarrow> force_zero s p
      | Inr (command, frame) \<Rightarrow> do {
          (ok, p) \<leftarrow> write_frame s frame p;
          if \<not> ok then force_zero s p
          else Some (Ret_OK, s\<lparr>output_stopped :=
            deq (linear_x command) (Fin 0) \<and> deq (angular_z command) (Fin 0)\<rparr>, p)})"

definition hw_write :: "time_ns \<Rightarrow> hw \<Rightarrow> port \<Rightarrow> (ret \<times> hw \<times> port) option" where
  "hw_write now s p =
     (if \<not> command_mode (cfg s) then Some (Ret_OK, s, p)
      else if \<not> motion_enabled (cfg s) then Some (Ret_OK, s, p)
      else if \<not> have_previous_encoder_sample s then do {
        (ok, s, p) \<leftarrow>
          (if \<not> output_stopped s \<or> \<not> reported_waiting_for_encoder s then do {
             (ok, p) \<leftarrow> send_zero_output s p;
             Some (ok, if ok then s\<lparr>output_stopped := True\<rparr> else s, p)}
           else Some (True, s, p));
        if \<not> ok then Some (Ret_ERROR, s, p)
        else Some (Ret_OK, s\<lparr>reported_waiting_for_encoder := True\<rparr>, p)}
      else if \<not> encoder_feedback_is_fresh now s then force_zero s p
      else if raw_motor_command_mode (cfg s) then write_raw s p
      else write_motion s p)"

subsection \<open>What reaches the port\<close>

lemma write_loop_sent:
  "write_loop ws frame = Some (r, ws', out) \<Longrightarrow> prefix out frame \<and> (r \<longrightarrow> out = frame)"
proof (induction ws frame arbitrary: r ws' out rule: write_loop.induct)
  case (3 n ws v va)
  show ?case
  proof (cases "0 < n")
    case True
    with 3 obtain o' where o: "write_loop ws (drop n (v # va)) = Some (r, ws', o')"
      and out: "out = take n (v # va) @ o'"
      by (auto simp: map_option_case split: option.splits)
    from 3 (1) [OF True o] have "prefix o' (drop n (v # va))" "r \<longrightarrow> o' = drop n (v # va)" by auto
    then show ?thesis
      unfolding out by (metis append_take_drop_id same_prefix_prefix)
  qed (use 3 in auto)
qed (auto split: if_split_asm)

lemma write_frame_sent:
  assumes "write_frame s frame p = Some (r, p')"
  obtains out where "sent p' = sent p @ out" "prefix out frame" "r \<Longrightarrow> out = frame"
    "serial_fd s < 0 \<Longrightarrow> out = [] \<and> \<not> r"
  using assms by (auto simp: write_frame_def split: if_split_asm dest: write_loop_sent)

definition zero_output :: "hw \<Rightarrow> byte list" where
  "zero_output s = make_zero_motor_command @ zero_motion_frame (car_type (cfg s))"

lemma send_zero_output_sent:
  assumes "send_zero_output s p = Some (r, p')"
  obtains out where "sent p' = sent p @ out" "prefix out (zero_output s)" "r \<Longrightarrow> out = zero_output s"
    "serial_fd s < 0 \<Longrightarrow> out = []"
proof -
  from assms obtain ok p1 where 1: "write_frame s make_zero_motor_command p = Some (ok, p1)"
    and 2: "(if ok then write_frame s (zero_motion_frame (car_type (cfg s))) p1 else Some (False, p1))
      = Some (r, p')"
    by (auto simp: send_zero_output_def bind_eq_Some_conv split: prod.splits)
  from 1 obtain o1 where o1: "sent p1 = sent p @ o1" "prefix o1 make_zero_motor_command"
    "ok \<Longrightarrow> o1 = make_zero_motor_command" "serial_fd s < 0 \<Longrightarrow> o1 = [] \<and> \<not> ok"
    by (rule write_frame_sent) blast
  show thesis
  proof (cases ok)
    case False
    then show thesis using 2 o1 that [of o1] by (simp add: zero_output_def prefix_prefix)
  next
    case True
    with 2 have "write_frame s (zero_motion_frame (car_type (cfg s))) p1 = Some (r, p')" by simp
    then obtain o2 where "sent p' = sent p1 @ o2" "prefix o2 (zero_motion_frame (car_type (cfg s)))"
      "r \<Longrightarrow> o2 = zero_motion_frame (car_type (cfg s))" "serial_fd s < 0 \<Longrightarrow> o2 = [] \<and> \<not> r"
      by (rule write_frame_sent) blast
    then show thesis using o1 True that [of "o1 @ o2"] by (auto simp: zero_output_def)
  qed
qed

text \<open>A port that takes every write whole.\<close>

lemma write_loop_whole:
  "frame \<noteq> [] \<Longrightarrow> length frame \<le> n \<Longrightarrow> write_loop (Written n # ws) frame = Some (True, ws, frame)"
  by (cases frame) (auto simp: Suc_le_eq)

lemma write_frame_whole:
  assumes "0 \<le> serial_fd s" "writes p = Written n # ws" "frame \<noteq> []" "length frame \<le> n"
  shows "write_frame s frame p = Some (True, p\<lparr>writes := ws, sent := sent p @ frame\<rparr>)"
  using assms by (simp add: write_frame_def write_loop_whole)

lemma zero_motion_frame_eq:
  "make_zero_motion_command ct = Inr (zero_motion_frame ct)"
  "zero_motion_frame ct = command_frame kFunctionMotion [ct, 0, 0, 0, 0, 0, 0]"
proof -
  have z: "wire (Fin 0) = 0" by (simp add: wire_def trunc_def)
  have b: "i16_bytes 0 = [0, 0]" by (simp add: i16_bytes_def)
  have s: "sendable (Fin 0)" by (simp add: sendable_def)
  have "make_zero_motion_command ct = Inr (command_frame kFunctionMotion [ct, 0, 0, 0, 0, 0, 0])"
    by (simp add: make_zero_motion_command_def make_motion_command_def append_scaled_i16_cases
      s z b finish_command_frame)
  then show "make_zero_motion_command ct = Inr (zero_motion_frame ct)"
    "zero_motion_frame ct = command_frame kFunctionMotion [ct, 0, 0, 0, 0, 0, 0]"
    by (simp_all add: zero_motion_frame_def)
qed

subsection \<open>Parameters\<close>

lemma parse_positive_parameter_Inr:
  "parse_positive_parameter stod ps n = Inr v \<Longrightarrow> require_positive_finite v = Inr ()"
  by (auto simp: parse_positive_parameter_def require_positive_finite_def
    split: option.splits prod.splits if_split_asm)

lemma parse_sign_parameter_Inr: "parse_sign_parameter ps n = Inr v \<Longrightarrow> require_sign v = Inr ()"
  by (auto simp: parse_sign_parameter_def require_sign_def bind_res_Inr
    split: option.splits prod.splits if_split_asm)

lemma assign_None: "assign r upd s = (s', None) \<longleftrightarrow> (\<exists>v. r = Inr v \<and> s' = upd v s)"
  by (cases r) (auto simp: assign_def)

lemma check_None: "check ok s = (s', None) \<longleftrightarrow> s' = s \<and> ok s"
  by (auto simp: check_def)

lemma run_steps_None:
  "run_steps (f # fs) s = (s', None) \<longleftrightarrow> (\<exists>s1. f s = (s1, None) \<and> run_steps fs s1 = (s', None))"
  by (cases "f s"; cases "snd (f s)") auto

declare run_steps.simps(2) [simp del]

definition valid_limit :: "dbl \<Rightarrow> bool" where
  "valid_limit v \<longleftrightarrow> require_positive_finite v = Inr () \<and> \<not> fl 32.767 < v"

definition valid_kinematics :: "config \<Rightarrow> bool" where
  "valid_kinematics c \<longleftrightarrow> require_positive_finite (wheel_radius c) = Inr () \<and>
     require_positive_finite (wheel_separation c) = Inr () \<and>
     require_positive_finite (counts_per_revolution c) = Inr () \<and>
     valid_limit (max_linear_x c) \<and> valid_limit (max_angular_z c) \<and>
     require_sign (left_command_sign c) = Inr () \<and> require_sign (right_command_sign c) = Inr () \<and>
     require_sign (left_encoder_sign c) = Inr () \<and> require_sign (right_encoder_sign c) = Inr ()"

definition valid_config :: "config \<Rightarrow> bool" where
  "valid_config c \<longleftrightarrow> (wheel_count c = 2 \<or> wheel_count c = 4) \<and>
     (raw_motor_command_mode c \<longrightarrow> command_mode c \<and> wheel_count c = 4 \<and> max_motor_pwm c \<le> 20) \<and>
     (standard_wheel_state_mode c \<longleftrightarrow> command_mode c \<and> \<not> raw_motor_command_mode c) \<and>
     (command_mode c \<and> \<not> raw_motor_command_mode c \<longrightarrow> wheel_count c = 2 \<and> valid_kinematics c) \<and>
     (command_mode c \<longrightarrow> require_positive_finite (encoder_timeout c) = Inr ()) \<and>
     (motion_enabled c \<longrightarrow> command_mode c)"

lemma init_car_type_None:
  "init_car_type info c = (c', None) \<Longrightarrow> \<exists>t. c' = c\<lparr>car_type := t\<rparr>"
  by (auto simp: init_car_type_def assign_None split: option.splits)
    (metis config.surjective config.update_convs(2))+

lemma init_parameters_standard:
  assumes "init_parameters stod info c = (c', None)" "command_mode c" "\<not> raw_motor_command_mode c"
  shows "valid_kinematics c'" "require_positive_finite (encoder_timeout c') = Inr ()"
    "wheel_count c' = wheel_count c" "command_mode c' = command_mode c"
    "raw_motor_command_mode c' = raw_motor_command_mode c"
    "standard_wheel_state_mode c' = standard_wheel_state_mode c"
  using assms
  by (auto simp: init_parameters_def Let_def run_steps_None assign_None check_None
    valid_kinematics_def valid_limit_def
    dest!: parse_positive_parameter_Inr parse_sign_parameter_Inr)

lemma init_parameters_raw:
  assumes "init_parameters stod info c = (c', None)" "command_mode c" "raw_motor_command_mode c"
  shows "max_motor_pwm c' \<le> 20" "require_positive_finite (encoder_timeout c') = Inr ()"
    "wheel_count c' = wheel_count c" "command_mode c' = command_mode c"
    "raw_motor_command_mode c' = raw_motor_command_mode c"
    "standard_wheel_state_mode c' = standard_wheel_state_mode c"
  using assms
  by (auto simp: init_parameters_def Let_def run_steps_None assign_None check_None
    dest!: parse_positive_parameter_Inr)

lemma init_parameters_read_only:
  assumes "init_parameters stod info c = (c', None)" "\<not> command_mode c" "\<not> raw_motor_command_mode c"
  shows "c' = c"
  using assms by (auto simp: init_parameters_def Let_def)


lemma on_init_valid:
  assumes "on_init stod ok info s = (True, s')" "cfg s = config_init"
  shows "valid_config (cfg s')"
proof -
  define c0 where "c0 = (case hardware_parameters info ''serial_port'' of None \<Rightarrow> cfg s
    | Some port \<Rightarrow> if port = [] then cfg s else (cfg s)\<lparr>serial_port := port\<rparr>)"
  have c0: "command_mode c0 = False" "raw_motor_command_mode c0 = False"
      "standard_wheel_state_mode c0 = False" "motion_enabled c0 = False"
    using assms(2) by (auto simp: c0_def config_init_def split: option.split)
  obtain c e where r: "run_steps [init_car_type info, \<lambda>c. (init_modes info c, None),
             init_parameters stod info] c0 = (c, e)" by fastforce
  have run: "run_steps [init_car_type info, \<lambda>c. (init_modes info c, None),
             init_parameters stod info] c0 = (c, None)"
    and val: "validate_description c info" and s': "cfg s' = c"
    using assms(1) r unfolding on_init_def Let_def c0_def [symmetric]
    by (auto split: if_split_asm option.splits)
  from run obtain t where par: "init_parameters stod info (init_modes info (c0\<lparr>car_type := t\<rparr>)) = (c, None)"
    by (auto simp: run_steps_None dest!: init_car_type_None)
  define m where "m = init_modes info (c0\<lparr>car_type := t\<rparr>)"
  have m: "wheel_count m = length (joints info)" "raw_motor_command_mode m \<Longrightarrow> command_mode m \<and> wheel_count m = 4"
    "command_mode m \<Longrightarrow> raw_motor_command_mode m \<or> wheel_count m = 2"
    "standard_wheel_state_mode m \<longleftrightarrow> wheel_count m = 2 \<and>
       has_state_interface (hd (joints info)) HW_IF_POSITION \<and>
       has_state_interface (hd (joints info)) HW_IF_VELOCITY"
    "motion_enabled m = False"
    using c0 by (auto simp: m_def init_modes_def Let_def split: if_split_asm)
  have wc: "wheel_count c = 2 \<or> wheel_count c = 4" and js: "list_all (validate_joint c) (joints info)"
    using val by (auto simp: validate_description_def split: if_split_asm)
  consider (std) "command_mode m" "\<not> raw_motor_command_mode m" | (raw) "raw_motor_command_mode m"
    | (ro) "\<not> command_mode m" "\<not> raw_motor_command_mode m" using m by blast
  then show ?thesis
  proof cases
    case std
    note p = init_parameters_standard [OF par [folded m_def] std]
    have "joints info \<noteq> []" using wc p m by auto
    then have "validate_joint c (hd (joints info))" using js by (cases "joints info") auto
    then show ?thesis unfolding s' valid_config_def
      using p m std wc by (auto simp: validate_joint_def Let_def split: if_split_asm)
  next
    case raw
    note p = init_parameters_raw [OF par [folded m_def] m(2) [THEN conjunct1, OF raw] raw]
    then show ?thesis unfolding s' valid_config_def
      using m raw wc by auto
  next
    case ro
    have c: "c = m" using init_parameters_read_only [OF par [folded m_def] ro] .
    have "joints info \<noteq> []" using wc m c by auto
    then have "validate_joint c (hd (joints info))" using js by (cases "joints info") auto
    then show ?thesis unfolding s' valid_config_def
      using c m ro wc by (auto simp: validate_joint_def Let_def split: if_split_asm)
  qed
qed

subsection \<open>Encoders\<close>

text \<open>The accumulated count of wheel \<open>i\<close> is the true count \<open>c\<close> less the count \<open>c0\<close> at the first
  report, and the board's last 32-bit count is the true one modulo its range.\<close>

definition tracks :: "hw \<Rightarrow> nat \<Rightarrow> int \<Rightarrow> int \<Rightarrow> bool" where
  "tracks s i c0 c \<longleftrightarrow> have_previous_encoder_sample s \<and>
     previous_encoders s ! i = word_of_int c \<and>
     relative_encoder_counts s ! i = word_of_int (c - c0)"

lemma sint_word_of_int_32:
  "- (2 ^ 31) \<le> n \<Longrightarrow> n < 2 ^ 31 \<Longrightarrow> sint (word_of_int n :: 32 word) = n"
  by (simp add: sint_sbintrunc' signed_take_bit_int_eq_self)

lemma update_wheels_encoders:
  "update_wheels s = Inr s' \<Longrightarrow> have_previous_encoder_sample s' = have_previous_encoder_sample s \<and>
     relative_encoder_counts s' = relative_encoder_counts s"
  by (auto simp: update_wheels_def Let_def bind_res_Inr split: if_split_asm)

lemma accumulate_encoders_step:
  assumes "tracks s i c0 c" "i < wheel_count (cfg s)" "i < 4"
    and "encoders st ! i = word_of_int c'" "- (2 ^ 31) \<le> c' - c" "c' - c < 2 ^ 31"
  shows "have_previous_encoder_sample (accumulate_encoders now st s)"
    "relative_encoder_counts (accumulate_encoders now st s) ! i = word_of_int (c' - c0)"
proof -
  have "word_of_int (c - c0) + scast (word_of_int c' - word_of_int c :: 32 word) =
    (word_of_int (c - c0) + word_of_int (c' - c) :: 64 word)"
    using sint_word_of_int_32 [OF assms(5,6)]
    by (metis of_int_sint scast_eq wi_hom_sub)
  also have "\<dots> = word_of_int (c' - c0)" by simp
  finally have "word_of_int (c - c0) + scast (word_of_int c' - word_of_int c :: 32 word) =
    (word_of_int (c' - c0) :: 64 word)" .
  then show "relative_encoder_counts (accumulate_encoders now st s) ! i = word_of_int (c' - c0)"
    "have_previous_encoder_sample (accumulate_encoders now st s)"
    using assms by (simp_all add: tracks_def accumulate_encoders_def Let_def encoder_delta_def
      del: upt_Suc)
qed

text \<open>The limits below \<open>32.767\<close> that are safe with the rounding of the product by 1000.\<close>

lemma motion_within_limits_sendable:
  assumes "\<bar>r\<bar> \<le> q" "Fin q \<le> fl 32.766"
  shows "sendable (Fin r)"
proof -
  have l2: "\<not> Fin 32767 < fl 32.766 * Fin 1000" by code_simp
  have l3: "\<not> (- fl 32.766) * Fin 1000 < Fin (- 32768)" by code_simp
  have "isfinite (fl 32.766)" by code_simp
  then obtain h where h: "fl 32.766 = Fin h" by (auto simp: isfinite_iff)
  have a: "Fin r \<le> fl 32.766" "- fl 32.766 \<le> Fin r" using assms unfolding h by auto
  have "Fin r * Fin 1000 \<le> fl 32.766 * Fin 1000" "(- fl 32.766) * Fin 1000 \<le> Fin r * Fin 1000"
    using dbl_times_mono [OF a(1), of 1000] dbl_times_mono [OF a(2), of 1000] by auto
  with l2 l3 have "\<not> Fin 32767 < Fin r * Fin 1000" "\<not> Fin r * Fin 1000 < Fin (- 32768)"
    using dbl_less_le_trans dbl_le_less_trans by blast+
  then show ?thesis unfolding sendable_def by simp
qed

text \<open>Rates are finite: the shortest positive interval the clock measures is a nanosecond.\<close>

lemma encoder_rate_finite:
  assumes "Fin 0 < secs n" "\<bar>d\<bar> \<le> 2 ^ 31"
  shows "isfinite (i2d d / secs n)"
proof (cases "secs n")
  case (Fin q)
  have "0 < n" using assms(1) secs_mono [of n 0] by (cases "0 < n") (auto dest: dbl_le_not_less)
  then have "secs 1 \<le> secs n" by (intro secs_mono) simp
  moreover have "Fin (1 / 2000000000) \<le> secs 1" by code_simp
  ultimately have q: "1 / 2000000000 \<le> q" using Fin dbl_le_trans by fastforce
  have d: "i2d d = Fin (of_int d)" using assms(2) by (intro i2d_small) auto
  have "\<bar>of_int d / q\<bar> \<le> (2 ^ 31) / (1 / 2000000000)"
  proof -
    have "\<bar>of_int d\<bar> \<le> (of_int (2 ^ 31) :: rat)"
      using assms(2) by (simp only: of_int_abs [symmetric] of_int_le_iff)
    then show ?thesis unfolding abs_divide using q by (intro frac_le) auto
  qed
  from abs_le_D1 [OF this] abs_le_D2 [OF this]
  have b: "of_int d / q \<le> of_int 4294967296000000000" "of_int (- 4294967296000000000) \<le> of_int d / q"
    by simp_all
  have "isfinite (fl (of_int 4294967296000000000))" "isfinite (fl (of_int (- 4294967296000000000)))"
    by code_simp+
  then have "isfinite (fl (of_int d / q))"
    using fl_mono [OF b(1)] fl_mono [OF b(2)]
    by (cases "fl (of_int d / q)") (auto simp: isfinite_iff)
  then show ?thesis using q by (simp add: Fin d)
qed (use assms i2d_small [of d] in auto)

lemma encoder_delta_rate: "Fin 0 < secs n \<Longrightarrow> isfinite (i2d (sint (w :: 32 word)) / secs n)"
  using sint_ge [of w] sint_lt [of w] by (intro encoder_rate_finite) auto


text \<open>What \<open>on_init\<close> establishes and the cycle keeps, and what excludes exceptions from it.\<close>

definition hw_ok :: "hw \<Rightarrow> bool" where
  "hw_ok s \<longleftrightarrow> valid_config (cfg s) \<and> length (encoder_velocity s) = 4 \<and>
     list_all isfinite (encoder_velocity s)"

lemma list_all_nth_4: "length xs = 4 \<Longrightarrow> list_all P xs \<longleftrightarrow> P (xs ! 0) \<and> P (xs ! 1) \<and> P (xs ! 2) \<and> P (xs ! 3)"
  by (auto simp: list_all_length numeral_eq_Suc less_Suc_eq)

lemma accumulate_encoders_velocity:
  assumes "length (encoder_velocity s) = 4" "list_all isfinite (encoder_velocity s)"
  shows "length (encoder_velocity (accumulate_encoders now st s)) = 4"
    "list_all isfinite (encoder_velocity (accumulate_encoders now st s))"
    "cfg (accumulate_encoders now st s) = cfg s"
  using assms
  by (simp_all add: accumulate_encoders_def Let_def list_all_length
    encoder_delta_rate del: upt_rec_numeral)

lemma update_wheels_total:
  assumes "hw_ok s"
  shows "\<exists>s'. update_wheels s = Inr s' \<and> cfg s' = cfg s \<and> encoder_velocity s' = encoder_velocity s"
proof (cases "standard_wheel_state_mode (cfg s)")
  case True
  then have k: "valid_kinematics (cfg s)" and f: "isfinite (encoder_velocity s ! 0)" "isfinite (encoder_velocity s ! 1)"
    using assms by (auto simp: hw_ok_def valid_config_def list_all_nth_4)
  then show ?thesis
    by (auto simp: update_wheels_def Let_def True valid_kinematics_def encoder_count_to_position_def
      encoder_rate_to_velocity_def)
qed (simp add: update_wheels_def)

lemma update_exported_state_total:
  assumes "hw_ok s"
  shows "\<exists>s'. update_exported_state now s = Inr s' \<and> cfg s' = cfg s \<and> hw_ok s'"
proof -
  let ?a = "accumulate_encoders now (pstate (hw_parser s)) s"
  have a: "hw_ok ?a" "cfg ?a = cfg s"
    using assms accumulate_encoders_velocity [of s] by (simp_all add: hw_ok_def)
  from update_wheels_total [OF a(1)] obtain s1 where "update_wheels ?a = Inr s1" "cfg s1 = cfg s"
    "encoder_velocity s1 = encoder_velocity ?a" using a by auto
  then show ?thesis
    using assms a by (auto simp: update_exported_state_def Let_def hw_ok_def)
qed

subsection \<open>Properties\<close>

definition enabled :: "time_ns \<Rightarrow> hw \<Rightarrow> bool" where
  "enabled now s \<longleftrightarrow> command_mode (cfg s) \<and> motion_enabled (cfg s) \<and>
     have_previous_encoder_sample s \<and> encoder_feedback_is_fresh now s"

lemma force_zero_sent:
  assumes "force_zero s p = Some (r, s', p')"
  obtains out where "r = Ret_ERROR" "output_stopped s'" "sent p' = sent p @ out" "prefix out (zero_output s)"
  using assms by (auto simp: force_zero_def bind_eq_Some_conv elim!: send_zero_output_sent)

text \<open>C18. The motion lock: whatever the port does, a \<open>write\<close> without command mode, without the
  motion permission, before the first encoder report or with stale encoder feedback sends nothing
  but (a prefix of) the zero motor and zero motion frames.\<close>

theorem hw_write_gated:
  assumes "hw_write now s p = Some (r, s', p')" "\<not> enabled now s"
  shows "\<exists>out. sent p' = sent p @ out \<and> prefix out (zero_output s)"
proof (cases "command_mode (cfg s) \<and> motion_enabled (cfg s)")
  case False
  then show ?thesis using assms by (auto simp: hw_write_def split: if_split_asm)
next
  case on: True
  show ?thesis
  proof (cases "have_previous_encoder_sample s")
    case True
    then have "force_zero s p = Some (r, s', p')"
      using assms on by (auto simp: hw_write_def enabled_def)
    then show ?thesis by (auto elim: force_zero_sent)
  next
    case False
    then show ?thesis
      using assms on by (auto simp: hw_write_def bind_eq_Some_conv split: if_split_asm
        elim!: send_zero_output_sent)
  qed
qed

definition demo_config :: config where
  "demo_config = config_init\<lparr>wheel_count := 2, command_mode := True, standard_wheel_state_mode := True,
     motion_enabled := True, wheel_radius := Fin (1 / 16), wheel_separation := Fin (1 / 2),
     counts_per_revolution := Fin 1024, max_linear_x := Fin 1, max_angular_z := Fin 2\<rparr>"

definition demo_hw :: hw where
  "demo_hw = hw_init\<lparr>cfg := demo_config, serial_fd := 3, have_previous_encoder_sample := True,
     wheel_command := [Fin 4, Fin 8, Fin 0, Fin 0]\<rparr>"

definition demo_port :: port where
  "demo_port = \<lparr>reads = [Bytes [0xFF], Read_again], writes = [Written 100, Written 3, Written 100], sent = []\<rparr>"

theorem hw_write_gated_witness:
  "let (r, s', p') = the (hw_write 1000000000 demo_hw demo_port) in
   \<exists>out. sent p' = sent demo_port @ out \<and> prefix out (zero_output demo_hw)"
proof -
  have e: "hw_write 1000000000 demo_hw demo_port \<noteq> None" by code_simp
  then obtain r s' p' where h: "hw_write 1000000000 demo_hw demo_port = Some (r, s', p')" by auto
  have "\<not> enabled 1000000000 demo_hw" by code_simp
  from hw_write_gated [OF h this] show ?thesis by (simp add: h)
qed

text \<open>A description \<open>on_init\<close> accepts gives one of the three consistent set-ups: read-only, four
  raw motors with a PWM limit of at most 20, or two wheels with velocity commands, standard states,
  positive finite parameters, unit signs and limits the protocol check admits.\<close>

theorem on_init_accepts:
  assumes "on_init stod ok info hw_init = (True, s')"
  shows "valid_config (cfg s') \<and> hw_ok s' \<and> serial_fd s' = - 1"
proof -
  have v: "valid_config (cfg s')" using on_init_valid [OF assms] by (simp add: hw_init_def)
  moreover have "encoder_velocity s' = encoder_velocity hw_init" "serial_fd s' = serial_fd hw_init"
    using assms by (auto simp: on_init_def Let_def split: if_split_asm prod.splits option.splits)
  ultimately show ?thesis by (simp add: hw_ok_def hw_init_def list_all_nth_4)
qed

definition demo_joint :: "string \<Rightarrow> component" where
  "demo_joint n = \<lparr>comp_name = n,
     state_interfaces = [HW_IF_POSITION, HW_IF_VELOCITY, kEncoderCountInterface, kEncoderVelocityInterface],
     command_interfaces = [HW_IF_VELOCITY]\<rparr>"

definition demo_info :: hardware_info where
  "demo_info = \<lparr>hardware_parameters = map_of
     ([(''car_type'', ''4''), (''motion_enabled'', ''true'')] @
      map (\<lambda>n. (n, ''x'')) [''encoder_timeout'', ''wheel_radius'', ''wheel_separation'',
        ''encoder_counts_per_revolution'', ''max_linear_x'', ''max_angular_z''] @
      map (\<lambda>n. (n, '' -1'')) [''left_wheel_command_sign'', ''right_wheel_command_sign'',
        ''left_wheel_encoder_sign'', ''right_wheel_encoder_sign'']),
     joints = [demo_joint ''left'', demo_joint ''right''],
     sensors = [\<lparr>comp_name = ''imu'', state_interfaces = kImuInterfaces, command_interfaces = []\<rparr>]\<rparr>"

definition demo_stod :: "string \<Rightarrow> (dbl \<times> nat) option" where
  "demo_stod s = (if s = ''x'' then Some (Fin 3, 1) else None)"

theorem on_init_accepts_witness:
  "let (ok, s) = on_init demo_stod True demo_info hw_init in
   ok \<and> valid_config (cfg s) \<and> hw_ok s \<and> serial_fd s = - 1"
proof -
  have "fst (on_init demo_stod True demo_info hw_init) = True" by code_simp
  then obtain s where "on_init demo_stod True demo_info hw_init = (True, s)"
    by (cases "on_init demo_stod True demo_info hw_init") auto
  with on_init_accepts [OF this] show ?thesis by simp
qed

text \<open>A \<open>read\<close> on a well-formed plugin never ends in an exception, keeps it well-formed, writes
  nothing but zero commands, and reports \<open>OK\<close> with motion enabled only on fresh encoder feedback.\<close>

theorem hw_read_safe:
  assumes "hw_read t1 t2 s p = Some (r, s', p')" "hw_ok s"
  shows "hw_ok s' \<and> r \<in> {Inr Ret_OK, Inr Ret_ERROR} \<and>
    (\<exists>out. sent p' = sent p @ out \<and> prefix out (zero_output s)) \<and>
    (r = Inr Ret_OK \<and> command_mode (cfg s') \<and> motion_enabled (cfg s') \<longrightarrow> encoder_feedback_is_fresh t2 s')"
proof (cases "serial_fd s < 0")
  case True
  then show ?thesis using assms by (auto simp: hw_read_def)
next
  case False
  with assms(1) obtain ok rs ps where rl: "read_loop (reads p) (hw_parser s) = Some (ok, rs, ps)"
    by (auto simp: hw_read_def bind_eq_Some_conv)
  have ok1: "hw_ok (s\<lparr>hw_parser := ps\<rparr>)" using assms(2) by (simp add: hw_ok_def)
  from update_exported_state_total [OF ok1, of t1] obtain s2 where
    s2: "update_exported_state t1 (s\<lparr>hw_parser := ps\<rparr>) = Inr s2" "cfg s2 = cfg s" "hw_ok s2" by auto
  have z: "zero_output (fill_velocities s2) = zero_output s" "hw_ok (fill_velocities s2)"
    using s2(2,3) by (simp_all add: fill_velocities_def zero_output_def hw_ok_def list_all_nth_4)
  show ?thesis
    using assms False rl s2 z
    by (auto simp: hw_read_def bind_eq_Some_conv Let_def split: if_split_asm elim!: send_zero_output_sent
      simp: hw_ok_def)
qed

theorem hw_read_safe_witness:
  "let (r, s', p') = the (hw_read 0 1000000000 demo_hw demo_port) in
    hw_ok s' \<and> r \<in> {Inr Ret_OK, Inr Ret_ERROR} \<and>
    (\<exists>out. sent p' = sent demo_port @ out \<and> prefix out (zero_output demo_hw)) \<and>
    (r = Inr Ret_OK \<and> command_mode (cfg s') \<and> motion_enabled (cfg s') \<longrightarrow>
      encoder_feedback_is_fresh 1000000000 s')"
proof -
  have "hw_read 0 1000000000 demo_hw demo_port \<noteq> None" by code_simp
  then obtain r s' p' where h: "hw_read 0 1000000000 demo_hw demo_port = Some (r, s', p')" by auto
  have "hw_ok demo_hw" by code_simp
  from hw_read_safe [OF h this] show ?thesis by (simp add: h)
qed

text \<open>C20. Encoder counts survive the board's 32-bit wrap-around: if the true count moves by less
  than half the range between reports, the accumulated count stays the true displacement since the
  first report.\<close>

theorem encoder_unwrap:
  assumes "tracks s i c0 c" "i < wheel_count (cfg s)" "i < 4"
    and "encoder_sequence (pstate (hw_parser s)) \<noteq> observed_encoder_sequence s"
    and "encoders (pstate (hw_parser s)) ! i = word_of_int c'"
    and "\<bar>c' - c\<bar> < 2 ^ 31" "\<bar>c' - c0\<bar> < 2 ^ 63"
    and "update_exported_state now s = Inr s'"
  shows "tracks s' i c0 c' \<and> sint (relative_encoder_counts s' ! i) = c' - c0"
proof -
  let ?a = "accumulate_encoders now (pstate (hw_parser s)) s"
  from assms(4,8) obtain s1 where u: "update_wheels ?a = Inr s1"
    and s': "previous_encoders s' = encoders (pstate (hw_parser s))"
      "have_previous_encoder_sample s' = have_previous_encoder_sample s1"
      "relative_encoder_counts s' = relative_encoder_counts s1"
    by (auto simp: update_exported_state_def Let_def bind_res_Inr)
  have "- (2 ^ 31) \<le> c' - c" "c' - c < 2 ^ 31" using assms(6) by (simp_all add: abs_less_iff)
  note a = accumulate_encoders_step [OF assms(1-3,5) this, of now]
  have t: "tracks s' i c0 c'"
    using a update_wheels_encoders [OF u] assms(5) by (simp add: tracks_def s')
  moreover have "sint (word_of_int (c' - c0) :: 64 word) = c' - c0"
    unfolding sint_sbintrunc' using assms(7) by (intro signed_take_bit_int_eq_self) (auto simp: abs_less_iff)
  ultimately show ?thesis by (simp add: tracks_def)
qed

theorem encoder_unwrap_witness:
  "let s = demo_hw\<lparr>previous_encoders := [0x7FFFFFFF, 0, 0, 0], relative_encoder_counts := [7, 0, 0, 0],
       hw_parser := \<lparr>rx_buffer = [], pstate = proto_init\<lparr>encoders := [0x80000004, 0, 0, 0],
         encoder_sequence := 1\<rparr>\<rparr>\<rparr>;
     s' = (case update_exported_state 5 s of Inr s' \<Rightarrow> s' | Inl _ \<Rightarrow> s)
   in tracks s' 0 (2 ^ 31 - 8) (2 ^ 31 + 4) \<and> sint (relative_encoder_counts s' ! 0) = 12"
proof -
  define s where "s = demo_hw\<lparr>previous_encoders := [0x7FFFFFFF, 0, 0, 0], relative_encoder_counts := [7, 0, 0, 0],
       hw_parser := \<lparr>rx_buffer = [], pstate = proto_init\<lparr>encoders := [0x80000004, 0, 0, 0],
         encoder_sequence := 1\<rparr>\<rparr>\<rparr>"
  have "hw_ok demo_hw" by code_simp
  then have "hw_ok s" by (simp add: s_def hw_ok_def)
  then obtain s' where s': "update_exported_state 5 s = Inr s'" using update_exported_state_total by blast
  have "tracks s' 0 (2 ^ 31 - 8) (2 ^ 31 + 4) \<and>
      sint (relative_encoder_counts s' ! 0) = (2 ^ 31 + 4) - (2 ^ 31 - 8)"
    by (rule encoder_unwrap [where c = "2 ^ 31 - 1", OF _ _ _ _ _ _ _ s'])
      (simp_all add: s_def tracks_def demo_hw_def demo_config_def hw_init_def proto_init_def)
  then show ?thesis by (simp add: s_def [symmetric] s')
qed

text \<open>A limit of exactly 32.767, which \<open>on_init\<close> accepts, is refused by the command builder:
  the product with 1000 rounds to just above 32767.\<close>

theorem limit_refused:
  "valid_limit (fl 32.767) \<and> make_motion_command ct (fl 32.767) (Fin 0) (Fin 0) = Inl Out_of_range"
proof -
  have "valid_limit (fl 32.767)" by code_simp
  moreover have "isfinite (fl 32.767)" "\<not> sendable (fl 32.767)" by code_simp+
  ultimately show ?thesis by (simp add: make_motion_command_def append_scaled_i16_cases)
qed


text \<open>C13. With motion enabled, fresh feedback and a port that takes the frame, every finite pair of
  wheel commands becomes one motion frame whose two components respect the configured limits (up to
  32.766): the command path has no exception and no overflow.\<close>

theorem hw_write_motion_ok:
  assumes "hw_ok s" "enabled now s" "\<not> raw_motor_command_mode (cfg s)"
    and "max_linear_x (cfg s) \<le> fl 32.766" "max_angular_z (cfg s) \<le> fl 32.766"
    and "\<forall>i < 2. isfinite (wheel_command s ! i) \<and> is_double (wheel_command s ! i)"
    and "0 \<le> serial_fd s" "writes p = Written n # ws" "12 \<le> n"
  shows "\<exists>x z frame s'. hw_write now s p =
      Some (Ret_OK, s', p\<lparr>writes := ws, sent := sent p @ frame\<rparr>) \<and>
    make_motion_command (car_type (cfg s)) (Fin x) (Fin 0) (Fin z) = Inr frame \<and>
    \<bar>x\<bar> \<le> val (max_linear_x (cfg s)) \<and> \<bar>z\<bar> \<le> val (max_angular_z (cfg s))"
proof -
  have k: "valid_kinematics (cfg s)" and c: "command_mode (cfg s)" "motion_enabled (cfg s)"
    using assms(1-3) by (auto simp: hw_ok_def valid_config_def enabled_def)
  obtain mx mz where m: "max_linear_x (cfg s) = Fin mx" "0 < mx" "max_angular_z (cfg s) = Fin mz" "0 < mz"
    using k by (auto simp: valid_kinematics_def valid_limit_def require_positive_finite_Inr)
  have w: "isfinite (wheel_command s ! 0)" "isfinite (wheel_command s ! 1)"
    "is_double (wheel_command s ! 0)" "is_double (wheel_command s ! 1)" using assms(6) by simp_all
  obtain x z where xz: "wheel_velocity_to_body_motion (wheel_command s ! 0) (wheel_command s ! 1)
      (wheel_radius (cfg s)) (wheel_separation (cfg s)) (left_command_sign (cfg s))
      (right_command_sign (cfg s)) (Fin mx) (Fin mz) = Inr \<lparr>linear_x = Fin x, angular_z = Fin z\<rparr>"
    "\<bar>x\<bar> \<le> mx" "\<bar>z\<bar> \<le> mz"
    using body_motion_bounds [OF w(1,2,3,4) _ _ m(2,4), of "wheel_radius (cfg s)" "wheel_separation (cfg s)"
      "left_command_sign (cfg s)" "right_command_sign (cfg s)"] k
    by (auto simp: valid_kinematics_def)
  have sx: "sendable (Fin x)" "sendable (Fin z)" "sendable (Fin 0)"
    using motion_within_limits_sendable [OF xz(2)] motion_within_limits_sendable [OF xz(3)]
      assms(4,5) by (simp_all add: m sendable_def)
  define frame where "frame = command_frame kFunctionMotion
     (car_type (cfg s) # i16_bytes (wire (Fin x)) @ i16_bytes (wire (Fin 0)) @ i16_bytes (wire (Fin z)))"
  have f: "make_motion_command (car_type (cfg s)) (Fin x) (Fin 0) (Fin z) = Inr frame"
    using sx by (simp add: make_motion_command_def append_scaled_i16_cases finish_command_frame frame_def)
  have "length frame = 12" "frame \<noteq> []"
    by (simp_all add: frame_def command_frame_def Let_def i16_bytes_def)
  then have wf: "write_frame s frame p = Some (True, p\<lparr>writes := ws, sent := sent p @ frame\<rparr>)"
    using assms(7-9) by (intro write_frame_whole) auto
  have "hw_write now s p = write_motion s p"
    using assms(2,3) by (simp add: hw_write_def enabled_def)
  then show ?thesis
    using wf f xz by (auto simp: write_motion_def Let_def m)
qed

theorem hw_write_motion_ok_witness:
  "\<exists>x z frame s'. hw_write 1000 demo_hw (demo_port\<lparr>writes := [Written 12]\<rparr>) =
      Some (Ret_OK, s', demo_port\<lparr>writes := [], sent := frame\<rparr>) \<and>
    make_motion_command 1 (Fin x) (Fin 0) (Fin z) = Inr frame \<and> \<bar>x\<bar> \<le> 1 \<and> \<bar>z\<bar> \<le> 2"
proof -
  have "hw_ok demo_hw" "enabled 1000 demo_hw" "\<not> raw_motor_command_mode (cfg demo_hw)" by code_simp+
  moreover have "max_linear_x (cfg demo_hw) \<le> fl 32.766" by code_simp
  moreover have "max_angular_z (cfg demo_hw) \<le> fl 32.766" by code_simp
  moreover have "\<forall>i < 2. isfinite (wheel_command demo_hw ! i) \<and> is_double (wheel_command demo_hw ! i)"
    using rnd64_int [of 4] rnd64_int [of 8] by (auto simp: demo_hw_def less_2_cases_iff overflow64_def)
  ultimately show ?thesis
    using hw_write_motion_ok [of demo_hw 1000 "demo_port\<lparr>writes := [Written 12]\<rparr>" 12 "[]"]
    by (simp add: demo_hw_def demo_config_def config_init_def demo_port_def)
qed

end
