(* ===== verification/Motion_Gate.thy ===== *)
theory Motion_Gate
  imports Ieee_Double "HOL-Library.Word"
begin

text \<open>
  The final velocity interlock of the navigation stack: the class \<open>MotionGate\<close>
  (\<open>carcar_navigation/motion_gate.hpp\<close>) and the node around it
  (\<open>navigation_motion_gate.hpp\<close>), with the monotonic clock's readings as arguments.
\<close>

subsection \<open>The gate\<close>

record twist =
  lin_x :: dbl
  lin_y :: dbl
  lin_z :: dbl
  ang_x :: dbl
  ang_y :: dbl
  ang_z :: dbl

definition zero_twist :: twist where
  "zero_twist = \<lparr>lin_x = Fin 0, lin_y = Fin 0, lin_z = Fin 0,
     ang_x = Fin 0, ang_y = Fin 0, ang_z = Fin 0\<rparr>"

definition twist_values :: "twist \<Rightarrow> dbl list" where
  "twist_values c = [lin_x c, lin_y c, lin_z c, ang_x c, ang_y c, ang_z c]"

record gate =
  token :: "64 word"
  permit_time :: dbl
  command_time :: dbl
  lease :: dbl
  command_age :: dbl
  perception_timeout :: dbl
  perception_time :: dbl
  require_perception :: bool
  have_command :: bool
  perception_ok :: bool
  gate_command :: twist

definition motion_gate :: "dbl \<Rightarrow> dbl \<Rightarrow> bool \<Rightarrow> dbl \<Rightarrow> gate" where
  "motion_gate l age require timeout = \<lparr>token = 0, permit_time = Fin 0, command_time = Fin 0,
     lease = l, command_age = age, perception_timeout = timeout, perception_time = NInf,
     require_perception = require, have_command = False, perception_ok = (\<not> require),
     gate_command = zero_twist\<rparr>"

definition expire :: "dbl \<Rightarrow> gate \<Rightarrow> gate" where
  "expire now g =
     (let g = (if require_perception g \<and>
          (perception_timeout g < now - perception_time g \<or> now < perception_time g)
        then g\<lparr>perception_ok := False, token := 0, have_command := False\<rparr> else g)
      in if lease g < now - permit_time g \<or> now < permit_time g
         then g\<lparr>token := 0, have_command := False\<rparr> else g)"

definition permit :: "64 word \<Rightarrow> dbl \<Rightarrow> gate \<Rightarrow> gate" where
  "permit tok now g =
     (let g = expire now g in
      if require_perception g \<and> \<not> perception_ok g then g\<lparr>token := 0\<rparr>
      else let g = (if tok = 0 \<or> tok \<noteq> token g then g\<lparr>have_command := False\<rparr> else g)
      in g\<lparr>token := tok, permit_time := now\<rparr>)"

definition command :: "twist \<Rightarrow> dbl \<Rightarrow> gate \<Rightarrow> gate" where
  "command c now g =
     (let g = expire now g in
      if require_perception g \<and> \<not> perception_ok g then g
      else if token g = 0 then g
      else if \<not> list_all isfinite (twist_values c) then g\<lparr>have_command := False\<rparr>
      else g\<lparr>gate_command := c, command_time := now, have_command := True\<rparr>)"

definition perception_allowed :: "bool \<Rightarrow> gate \<Rightarrow> gate" where
  "perception_allowed allowed g =
     (let g = g\<lparr>perception_ok := allowed\<rparr> in if \<not> allowed then g\<lparr>have_command := False\<rparr> else g)"

definition perception_heartbeat :: "bool \<Rightarrow> dbl \<Rightarrow> gate \<Rightarrow> gate" where
  "perception_heartbeat allowed now g =
     (let g = expire now g;
          g = (if require_perception g \<and> allowed \<noteq> perception_ok g
            then g\<lparr>token := 0, have_command := False\<rparr> else g);
          g = perception_allowed allowed (g\<lparr>perception_time := now\<rparr>)
      in if require_perception g \<and> \<not> allowed then g\<lparr>token := 0\<rparr> else g)"

definition gate_output :: "dbl \<Rightarrow> gate \<Rightarrow> twist \<times> gate" where
  "gate_output now g =
     (let g = expire now g in
      (if perception_ok g \<and> token g \<noteq> 0 \<and> have_command g \<and> now - command_time g \<le> command_age g
       then gate_command g else zero_twist, g))"

definition gate_enabled :: "dbl \<Rightarrow> gate \<Rightarrow> bool \<times> gate" where
  "gate_enabled now g = (let g = expire now g in (perception_ok g \<and> token g \<noteq> 0, g))"

subsection \<open>The node\<close>

record gate_status =
  gs_message :: string
  gs_level :: nat

record gate_node =
  gn_gate :: gate
  last_enabled :: bool
  last_diag :: dbl

definition timeout_ok :: "dbl \<Rightarrow> dbl \<Rightarrow> bool" where
  "timeout_ok limit v \<longleftrightarrow> \<not> (\<not> isfinite v \<or> v \<le> Fin 0 \<or> limit < v)"

text \<open>The constructor, with the parameters' values.\<close>

definition gate_node_init :: "dbl \<Rightarrow> dbl \<Rightarrow> bool \<Rightarrow> dbl \<Rightarrow> gate_node result" where
  "gate_node_init l age require timeout =
     (if \<not> timeout_ok (fl 0.20) l \<or> \<not> timeout_ok (fl 0.30) age \<or> \<not> timeout_ok (fl 0.30) timeout
      then Inl Invalid_argument
      else Inr \<lparr>gn_gate = motion_gate l age require timeout, last_enabled = False, last_diag = Fin 0\<rparr>)"

text \<open>The timer: the command published, and the status when one is due.\<close>

definition gate_tick :: "dbl \<Rightarrow> gate_node \<Rightarrow> twist \<times> gate_status option \<times> gate_node" where
  "gate_tick now n =
     (let (out, g) = gate_output now (gn_gate n);
          (en, g) = gate_enabled now g;
          n = n\<lparr>gn_gate := g\<rparr>
      in if en \<noteq> last_enabled n \<or> Fin 1 \<le> now - last_diag n then
           (out,
            Some \<lparr>gs_message = (if en then ''OPEN'' else if perception_ok g then ''CLOSED''
                else ''PERCEPTION_SWITCH_STOP''),
              gs_level = (if en then 0 else 1)\<rparr>,
            n\<lparr>last_enabled := en, last_diag := now\<rparr>)
         else (out, None, n))"

definition gate_stop :: "dbl \<Rightarrow> gate_node \<Rightarrow> twist \<times> gate_node" where
  "gate_stop now n = (zero_twist, n\<lparr>gn_gate := permit 0 now (gn_gate n)\<rparr>)"

datatype gate_event = Permit "64 word" | Command twist | Heartbeat bool | Tick

fun gate_handle :: "gate_event \<Rightarrow> dbl \<Rightarrow> gate_node \<Rightarrow> gate_node" where
  "gate_handle (Permit tok) now n = n\<lparr>gn_gate := permit tok now (gn_gate n)\<rparr>"
| "gate_handle (Command c) now n = n\<lparr>gn_gate := command c now (gn_gate n)\<rparr>"
| "gate_handle (Heartbeat a) now n = n\<lparr>gn_gate := perception_heartbeat a now (gn_gate n)\<rparr>"
| "gate_handle Tick now n = snd (snd (gate_tick now n))"

subsection \<open>Lemmas\<close>

lemmas gate_defs = expire_def permit_def command_def perception_allowed_def perception_heartbeat_def
  gate_output_def gate_enabled_def Let_def

lemma expire_fields [simp]:
  "permit_time (expire now g) = permit_time g" "command_time (expire now g) = command_time g"
  "lease (expire now g) = lease g" "command_age (expire now g) = command_age g"
  "gate_command (expire now g) = gate_command g"
  "perception_timeout (expire now g) = perception_timeout g"
  "perception_time (expire now g) = perception_time g"
  "require_perception (expire now g) = require_perception g"
  by (simp_all add: expire_def Let_def)

definition perception_expired :: "dbl \<Rightarrow> gate \<Rightarrow> bool" where
  "perception_expired now g \<longleftrightarrow> require_perception g \<and>
     (perception_timeout g < now - perception_time g \<or> now < perception_time g)"

definition expired :: "dbl \<Rightarrow> gate \<Rightarrow> bool" where
  "expired now g \<longleftrightarrow> perception_expired now g \<or> lease g < now - permit_time g \<or> now < permit_time g"

lemma expire_flags [simp]:
  "token (expire now g) = (if expired now g then 0 else token g)"
  "have_command (expire now g) \<longleftrightarrow> have_command g \<and> \<not> expired now g"
  "perception_ok (expire now g) \<longleftrightarrow> perception_ok g \<and> \<not> perception_expired now g"
  by (auto simp: expire_def Let_def perception_expired_def expired_def)

lemma gate_tick_gate: "gn_gate (snd (snd (gate_tick now n))) = expire now (expire now (gn_gate n))"
  by (auto simp: gate_tick_def gate_output_def gate_enabled_def Let_def split: prod.splits)

lemma gate_tick_output: "fst (gate_tick now n) = fst (gate_output now (gn_gate n))"
  by (auto simp: gate_tick_def gate_output_def gate_enabled_def Let_def split: prod.splits)

interpretation gate_permits: grant_log gate_handle
  "\<lambda>n. token (gn_gate n) \<noteq> 0" "\<lambda>n d. (token (gn_gate n), permit_time (gn_gate n)) = d"
  "\<lambda>e t d. d = (fst d, t) \<and> e = Permit (fst d)"
proof
  fix e :: gate_event and t s d
  show "token (gn_gate (gate_handle e t s)) \<noteq> 0 \<Longrightarrow>
    (token (gn_gate (gate_handle e t s)), permit_time (gn_gate (gate_handle e t s))) = d \<Longrightarrow>
    d = (fst d, t) \<and> e = Permit (fst d) \<or>
      token (gn_gate s) \<noteq> 0 \<and> (token (gn_gate s), permit_time (gn_gate s)) = d"
    by (cases e; simp add: gate_tick_gate)
      (auto simp: permit_def command_def perception_heartbeat_def perception_allowed_def Let_def split: if_split_asm)
qed

interpretation gate_commands: grant_log gate_handle
  "\<lambda>n. have_command (gn_gate n)"
  "\<lambda>n d. (gate_command (gn_gate n), command_time (gn_gate n)) = d"
  "\<lambda>e t d. d = (fst d, t) \<and> e = Command (fst d) \<and> list_all isfinite (twist_values (fst d))"
proof
  fix e :: gate_event and t s d
  show "have_command (gn_gate (gate_handle e t s)) \<Longrightarrow>
    (gate_command (gn_gate (gate_handle e t s)), command_time (gn_gate (gate_handle e t s))) = d \<Longrightarrow>
    (d = (fst d, t) \<and> e = Command (fst d) \<and> list_all isfinite (twist_values (fst d))) \<or>
      have_command (gn_gate s) \<and> (gate_command (gn_gate s), command_time (gn_gate s)) = d"
    by (cases e; simp add: gate_tick_gate)
      (auto simp: permit_def command_def perception_heartbeat_def perception_allowed_def Let_def split: if_split_asm)
qed

interpretation gate_heartbeats: grant_log gate_handle
  "\<lambda>n. require_perception (gn_gate n) \<and> perception_ok (gn_gate n)"
  "\<lambda>n u. perception_time (gn_gate n) = u" "\<lambda>e t u. e = Heartbeat True \<and> u = t"
proof
  fix e :: gate_event and t s u
  show "require_perception (gn_gate (gate_handle e t s)) \<and> perception_ok (gn_gate (gate_handle e t s)) \<Longrightarrow>
    perception_time (gn_gate (gate_handle e t s)) = u \<Longrightarrow>
    e = Heartbeat True \<and> u = t \<or>
     (require_perception (gn_gate s) \<and> perception_ok (gn_gate s)) \<and> perception_time (gn_gate s) = u"
    by (cases e; simp add: gate_tick_gate)
      (auto simp: permit_def command_def perception_heartbeat_def perception_allowed_def Let_def split: if_split_asm)
qed

text \<open>The timeouts never change.\<close>

definition same_limits :: "gate_node \<Rightarrow> gate_node \<Rightarrow> bool" where
  "same_limits n0 n \<longleftrightarrow> lease (gn_gate n) = lease (gn_gate n0) \<and>
     command_age (gn_gate n) = command_age (gn_gate n0) \<and>
     perception_timeout (gn_gate n) = perception_timeout (gn_gate n0) \<and>
     require_perception (gn_gate n) = require_perception (gn_gate n0)"

interpretation gate_limits: invariant gate_handle "same_limits n0" for n0
proof
  show "same_limits n0 s \<Longrightarrow> same_limits n0 (gate_handle e t s)" for e t s
    by (cases e) (auto simp: same_limits_def gate_tick_gate permit_def command_def
      perception_heartbeat_def perception_allowed_def Let_def)
qed

subsection \<open>Properties\<close>

text \<open>Without perception there is no pending command.\<close>

interpretation gate_pending: invariant gate_handle
  "\<lambda>n. require_perception (gn_gate n) \<and> have_command (gn_gate n) \<longrightarrow> perception_ok (gn_gate n)"
proof
  fix e :: gate_event and t s
  show "require_perception (gn_gate s) \<and> have_command (gn_gate s) \<longrightarrow> perception_ok (gn_gate s) \<Longrightarrow>
    require_perception (gn_gate (gate_handle e t s)) \<and> have_command (gn_gate (gate_handle e t s)) \<longrightarrow> perception_ok (gn_gate (gate_handle e t s))"
    by (cases e; simp add: gate_tick_gate)
      (auto simp: permit_def command_def perception_heartbeat_def perception_allowed_def Let_def
        expired_def split: if_split_asm)
qed

lemma gate_tick_open:
  assumes "fst (gate_tick now n) \<noteq> zero_twist"
  shows "perception_ok (gn_gate n)" "token (gn_gate n) \<noteq> 0" "have_command (gn_gate n)"
    "\<not> expired now (gn_gate n)" "now - command_time (gn_gate n) \<le> command_age (gn_gate n)"
    "fst (gate_tick now n) = gate_command (gn_gate n)"
  using assms by (auto simp: gate_tick_output gate_output_def Let_def split: if_split_asm)

lemma timeout_okD: "timeout_ok limit v \<Longrightarrow> limit \<noteq> NaN \<Longrightarrow> isfinite v \<and> Fin 0 < v \<and> v \<le> limit"
  by (cases v; cases limit) (auto simp: timeout_ok_def)

text \<open>C1. The dead-man rule of the navigation interlock: a node the constructor accepted publishes a
  command other than zero only if a permit with a non-zero token was received within the lease (at
  most 0.2 s), that very command, finite in every component, was received within the command
  timeout (at most 0.3 s), and, when perception health is required, a positive heartbeat was
  received within its timeout. A permit or a heartbeat from the future never counts; for the command
  only its age is bounded, so that it is from the past if no event is from the future, which the
  steady clock ensures.\<close>

theorem gate_output_traced:
  assumes "gate_node_init l age req timeout = Inr n0"
    and "n = run_events gate_handle es n0"
    and "c = fst (gate_tick now n)" "c \<noteq> zero_twist"
  shows "\<exists>tok u v. tok \<noteq> 0 \<and> (Permit tok, u) \<in> set es \<and> \<not> l < now - u \<and> \<not> now < u \<and> l \<le> fl 0.20 \<and>
    (Command c, v) \<in> set es \<and> now - v \<le> age \<and> age \<le> fl 0.30 \<and> list_all isfinite (twist_values c) \<and>
    ((\<forall>(e, x) \<in> set es. \<not> now < x) \<longrightarrow> \<not> now < v) \<and>
    (req \<longrightarrow> (\<exists>w. (Heartbeat True, w) \<in> set es \<and> \<not> timeout < now - w \<and> \<not> now < w))"
proof -
  have n0: "gn_gate n0 = motion_gate l age req timeout" and ok: "timeout_ok (fl 0.20) l" "timeout_ok (fl 0.30) age"
    using assms(1) by (auto simp: gate_node_init_def split: if_split_asm)
  have lim: "same_limits n0 n" unfolding assms(2) by (rule gate_limits.always) (simp add: same_limits_def)
  note op = gate_tick_open [OF assms(4) [unfolded assms(3)]]
  have cl: "\<not> token (gn_gate n0) \<noteq> 0" "\<not> have_command (gn_gate n0)"
    "req \<Longrightarrow> \<not> (require_perception (gn_gate n0) \<and> perception_ok (gn_gate n0))"
    by (simp_all add: n0 motion_gate_def)
  define tok u v w where "tok = token (gn_gate n)" and "u = permit_time (gn_gate n)"
    and "v = command_time (gn_gate n)" and "w = perception_time (gn_gate n)"
  note d = tok_def u_def v_def w_def
  have tok: "tok \<noteq> 0" "(Permit tok, u) \<in> set es"
  proof -
    show "tok \<noteq> 0" using op(2) by (simp only: d not_False_eq_True)
    have "\<exists>e t. (e, t) \<in> set es \<and> (tok, u) = (fst (tok, u), t) \<and> e = Permit (fst (tok, u))"
      by (rule gate_permits.traced [of es n0 "(tok, u)", folded assms(2), OF op(2) _ cl(1)])
        (simp only: d simp_thms)
    then show "(Permit tok, u) \<in> set es" by auto
  qed
  have v: "(Command c, v) \<in> set es" "list_all isfinite (twist_values c)"
  proof -
    have "\<exists>e t. (e, t) \<in> set es \<and> (c, v) = (fst (c, v), t) \<and> e = Command (fst (c, v)) \<and>
      list_all isfinite (twist_values (fst (c, v)))"
      by (rule gate_commands.traced [of es n0 "(c, v)", folded assms(2), OF op(3) _ cl(2)])
        (simp only: d simp_thms assms(3) op(6))
    then show "(Command c, v) \<in> set es" "list_all isfinite (twist_values c)" by auto
  qed
  have req: "require_perception (gn_gate n) = req"
    using lim by (simp add: same_limits_def n0 motion_gate_def)
  have hb: "(Heartbeat True, w) \<in> set es" if req
  proof -
    have "\<exists>e t. (e, t) \<in> set es \<and> e = Heartbeat True \<and> w = t"
      by (rule gate_heartbeats.traced [of es n0 w, folded assms(2), OF _ _ cl(3) [OF that]])
        (use op(1) req that in \<open>simp_all only: d simp_thms\<close>)
    then show ?thesis by blast
  qed
  have l: "l \<le> fl 0.20" "age \<le> fl 0.30" using timeout_okD [OF ok(1) fl_not_nan] timeout_okD [OF ok(2) fl_not_nan] by blast+
  have fresh: "\<not> l < now - u" "\<not> now < u" "now - v \<le> age"
    using op lim by (auto simp: expired_def same_limits_def n0 motion_gate_def d)
  have heard: "\<exists>w. (Heartbeat True, w) \<in> set es \<and> \<not> timeout < now - w \<and> \<not> now < w" if req
    using hb [OF that] op lim that
    by (auto simp: expired_def perception_expired_def same_limits_def n0 motion_gate_def d)
  have past: "\<not> now < v" if "\<forall>(e, x) \<in> set es. \<not> now < x" using that v(1) by blast
  show ?thesis
    by (intro exI [of _ tok] exI [of _ u] exI [of _ v] conjI impI tok fresh l v past heard)
qed

text \<open>Closing is final: after \<open>stop\<close>, the node publishes zero until a permit with a non-zero token
  and a command have both been received again; after a negative perception heartbeat, with health
  required, it publishes zero until a positive one.\<close>

theorem gate_closed_until_reopened:
  assumes "gate_node_init l age req timeout = Inr n0" and "n = run_events gate_handle es0 n0"
    and "n1 = (if stop then snd (gate_stop t n) else gate_handle (Heartbeat False) t n)"
    and "req \<or> stop"
    and "fst (gate_tick now (run_events gate_handle es n1)) \<noteq> zero_twist"
  shows "if stop then (\<exists>tok u. tok \<noteq> 0 \<and> (Permit tok, u) \<in> set es) \<and> (\<exists>c v. (Command c, v) \<in> set es)
    else (\<exists>w. (Heartbeat True, w) \<in> set es)"
proof -
  let ?n = "run_events gate_handle es n1"
  note op = gate_tick_open [OF assms(5)]
  have n0: "gn_gate n0 = motion_gate l age req timeout"
    using assms(1) by (auto simp: gate_node_init_def split: if_split_asm)
  have pend: "require_perception (gn_gate n) \<and> have_command (gn_gate n) \<longrightarrow> perception_ok (gn_gate n)"
    unfolding assms(2) by (rule gate_pending.always) (simp add: n0 motion_gate_def)
  have reqn: "require_perception (gn_gate n) = req"
    using gate_limits.always [of n0 n0 es0] by (simp add: same_limits_def n0 motion_gate_def assms(2))
  show ?thesis
  proof (cases stop)
    case True
    then have closed: "token (gn_gate n1) = 0" "\<not> have_command (gn_gate n1)"
      using pend by (auto simp: assms(3) gate_stop_def permit_def Let_def expired_def)
    from gate_permits.traced [of es n1 "(token (gn_gate ?n), permit_time (gn_gate ?n))"]
      gate_commands.traced [of es n1 "(gate_command (gn_gate ?n), command_time (gn_gate ?n))"] op closed True
    show ?thesis by auto
  next
    case False
    then have closed: "\<not> perception_ok (gn_gate n1)" and req: "require_perception (gn_gate n1)"
      using assms(4) reqn by (auto simp: assms(3) perception_heartbeat_def perception_allowed_def Let_def)
    have "require_perception (gn_gate ?n)"
      using gate_limits.always [of n1 n1 es] req by (simp add: same_limits_def)
    with gate_heartbeats.traced [of es n1 "perception_time (gn_gate ?n)"] op closed False
    show ?thesis by auto
  qed
qed

definition demo_twist :: twist where
  "demo_twist = zero_twist\<lparr>lin_x := Fin 1\<rparr>"

definition demo_driving :: "(gate_event \<times> dbl) list" where
  "demo_driving = [(Heartbeat True, Fin 1), (Permit 7, Fin 1), (Command demo_twist, Fin 1)]"

theorem gate_output_traced_witness:
  "\<exists>tok u v. tok \<noteq> 0 \<and> (Permit tok, u) \<in> set demo_driving \<and> \<not> Fin (1 / 8) < Fin 1 - u \<and> \<not> Fin 1 < u \<and>
    (Command demo_twist, v) \<in> set demo_driving \<and> Fin 1 - v \<le> Fin (1 / 8) \<and> \<not> Fin 1 < v \<and>
    (\<exists>w. (Heartbeat True, w) \<in> set demo_driving \<and> \<not> Fin (1 / 8) < Fin 1 - w \<and> \<not> Fin 1 < w)"
proof -
  have i: "gate_node_init (Fin (1 / 8)) (Fin (1 / 8)) True (Fin (1 / 8)) =
    Inr \<lparr>gn_gate = motion_gate (Fin (1 / 8)) (Fin (1 / 8)) True (Fin (1 / 8)),
      last_enabled = False, last_diag = Fin 0\<rparr>"
    by code_simp
  have c: "demo_twist = fst (gate_tick (Fin 1) (run_events gate_handle demo_driving
      \<lparr>gn_gate = motion_gate (Fin (1 / 8)) (Fin (1 / 8)) True (Fin (1 / 8)),
      last_enabled = False, last_diag = Fin 0\<rparr>))"
    by code_simp
  have z: "demo_twist \<noteq> zero_twist" by code_simp
  have past: "\<forall>(e, x) \<in> set demo_driving. \<not> Fin 1 < x" by (simp add: demo_driving_def)
  show ?thesis using gate_output_traced [OF i refl c z] past by blast
qed

theorem gate_closed_until_reopened_witness:
  "\<exists>w. (Heartbeat True, w) \<in> set [(Heartbeat True, Fin 1), (Permit 7, Fin 1), (Command demo_twist, Fin 1)]"
proof -
  define n where "n = \<lparr>gn_gate = motion_gate (Fin (1 / 8)) (Fin (1 / 8)) True (Fin (1 / 8)),
      last_enabled = False, last_diag = Fin 0\<rparr>"
  have "fst (gate_tick (Fin 1) (run_events gate_handle
      [(Heartbeat True, Fin 1), (Permit 7, Fin 1), (Command demo_twist, Fin 1)]
      (gate_handle (Heartbeat False) (Fin 1) n))) \<noteq> zero_twist"
    unfolding n_def by code_simp
  moreover have "gate_node_init (Fin (1 / 8)) (Fin (1 / 8)) True (Fin (1 / 8)) = Inr n"
    unfolding n_def by code_simp
  ultimately show ?thesis
    using gate_closed_until_reopened [of "Fin (1 / 8)" "Fin (1 / 8)" True "Fin (1 / 8)" n n "[]"
      "gate_handle (Heartbeat False) (Fin 1) n" False "Fin 1" "Fin 1"]
    by simp
qed

end
