(* ===== verification/Teleop_Safety.thy ===== *)
theory Teleop_Safety
  imports Ieee_Double "HOL-Library.Word" "HOL-Library.Monad_Syntax"
begin

text \<open>
  Manual driving from the web page: the class \<open>Safety\<close>
  (\<open>carcar_mapping_console/safety.hpp\<close>) and the node \<open>TeleopGuard\<close> (\<open>teleop_guard.cpp\<close>). Times
  are seconds of the monotonic clock, passed by the caller. The reasons shown to the operator are
  a datatype, one constructor per message of the source. \<open>std::hypot\<close> is the parameter \<open>hypot\<close>,
  and the JSON library the record of \<open>Prelude\<close>.
\<close>

subsection \<open>State\<close>

datatype reason =
    Not_enabled | Connected | Client_gone | Released | Enabled_hold | Driving
  | Direction_invalid | Video_stale | Joystick_invalid | Gear_changed | Lease_expired
  | Topology_bad | Session_not_ready | Scan_stale | Odom_stale | Camera_stale
  | Page_stop string | Sequence_invalid | Message_invalid | Session_message_bad

definition control_lease_seconds :: dbl where "control_lease_seconds = Fin 1"

record safety =
  session :: string
  sreason :: reason
  gear :: string
  armed :: bool
  require_video :: bool
  gateway_at :: dbl
  scan_at :: dbl
  odom_at :: dbl
  video_at :: dbl
  session_ready :: bool
  topology_ok :: bool
  frames :: "(string \<times> dbl) list"
  sequence :: "64 word"
  accepted_sequence :: "64 word"
  rejected_requests :: "64 word"
  request_result :: string
  deadline :: dbl
  presence_deadline :: dbl
  pressed :: bool
  input_x :: dbl
  input_yaw :: dbl
  last_request_at :: dbl
  request_gap :: dbl
  challenge_age :: dbl
  displayed :: string
  challenges :: "(string \<times> dbl) list"

definition safety_init :: safety where
  "safety_init = \<lparr>session = [], sreason = Not_enabled, gear = ''slow'', armed = False,
     require_video = False, gateway_at = Fin (- 1000000000), scan_at = Fin (- 1000000000),
     odom_at = Fin (- 1000000000), video_at = Fin (- 1000000000), session_ready = False,
     topology_ok = True, frames = [], sequence = 0, accepted_sequence = 0, rejected_requests = 0,
     request_result = ''none'', deadline = Fin (- 1), presence_deadline = Fin (- 1),
     pressed = False, input_x = Fin 0, input_yaw = Fin 0, last_request_at = Fin (- 1),
     request_gap = Fin (- 1), challenge_age = Fin (- 1), displayed = [], challenges = []\<rparr>"

subsection \<open>Operations\<close>

definition stop :: "reason \<Rightarrow> safety \<Rightarrow> safety" where
  "stop why s = s\<lparr>armed := False, pressed := False, challenges := [], sreason := why\<rparr>"

definition release_motion :: "reason \<Rightarrow> safety \<Rightarrow> safety" where
  "release_motion why s = s\<lparr>pressed := False, input_x := Fin 0, input_yaw := Fin 0, sreason := why\<rparr>"

definition connect :: "string \<Rightarrow> safety \<Rightarrow> safety" where
  "connect cid s =
     (if cid = [] \<or> cid = session s then s
      else stop Connected (s\<lparr>session := cid, sequence := 0, accepted_sequence := 0,
        rejected_requests := 0, last_request_at := Fin (- 1), request_gap := Fin (- 1),
        challenge_age := Fin (- 1), request_result := ''none'', gear := ''slow''\<rparr>))"

definition disconnect :: "string \<Rightarrow> safety \<Rightarrow> safety" where
  "disconnect cid s = (if session s = cid then (stop Client_gone s)\<lparr>session := []\<rparr> else s)"

definition release :: "string \<Rightarrow> 64 word \<Rightarrow> safety \<Rightarrow> bool \<times> safety" where
  "release cid seq s =
     (if cid \<noteq> session s \<or> seq \<le> sequence s then (False, s)
      else (True, s\<lparr>sequence := seq, pressed := False,
        sreason := if armed s then Released else Not_enabled\<rparr>))"

text \<open>Both deques drop their oldest entries after two seconds.\<close>

definition prune :: "dbl \<Rightarrow> safety \<Rightarrow> safety" where
  "prune now s = s\<lparr>challenges := dropWhile (\<lambda>c. Fin 2 < now - snd c) (challenges s)\<rparr>"

definition challenge :: "string \<Rightarrow> dbl \<Rightarrow> safety \<Rightarrow> safety" where
  "challenge tok now s =
     (let cs = challenges (prune now s) @ [(tok, now)]
      in s\<lparr>challenges := drop (length cs - 16) cs\<rparr>)"

definition frame :: "string \<Rightarrow> dbl \<Rightarrow> safety \<Rightarrow> safety" where
  "frame fid now s =
     (if frames s \<noteq> [] \<and> fst (last (frames s)) = fid then s
      else s\<lparr>frames := dropWhile (\<lambda>f. Fin 2 < now - snd f) (frames s @ [(fid, now)]), video_at := now\<rparr>)"

definition frame_fresh :: "string \<Rightarrow> dbl \<Rightarrow> safety \<Rightarrow> bool" where
  "frame_fresh fid now s = (case map_of (frames s) fid of
       None \<Rightarrow> False | Some t \<Rightarrow> now - t < Fin 1)"

definition health :: "dbl \<Rightarrow> safety \<Rightarrow> reason option" where
  "health now s =
     (if \<not> topology_ok s then Some Topology_bad
      else if \<not> session_ready s \<or> fl 0.30 < now - gateway_at s then Some Session_not_ready
      else if fl 0.50 < now - scan_at s then Some Scan_stale
      else if fl 0.50 < now - odom_at s then Some Odom_stale
      else if require_video s \<and> Fin 1 \<le> now - video_at s then Some Camera_stale
      else None)"

definition enable :: "string \<Rightarrow> string \<Rightarrow> dbl \<Rightarrow> safety \<Rightarrow> bool \<times> safety" where
  "enable cid shown now s =
     (if cid \<noteq> session s \<or> cid = [] then (False, s)
      else if health now s \<noteq> None \<or> (require_video s \<and> \<not> frame_fresh shown now s) then
        (False, stop (case health now s of None \<Rightarrow> Video_stale | Some e \<Rightarrow> e) s)
      else (True, s\<lparr>armed := True, pressed := False,
        presence_deadline := now + control_lease_seconds, sreason := Enabled_hold\<rparr>))"

definition note_request :: "dbl \<Rightarrow> safety \<Rightarrow> safety" where
  "note_request now s = s\<lparr>
     request_gap := (if last_request_at s < Fin 0 then Fin (- 1) else now - last_request_at s),
     last_request_at := now\<rparr>"

definition token_deadline :: "string \<Rightarrow> dbl \<Rightarrow> safety \<Rightarrow> safety" where
  "token_deadline tok now s =
     (let sign_time = (case map_of (challenges s) tok of None \<Rightarrow> Fin (- 1) | Some t \<Rightarrow> t)
      in prune now (s\<lparr>challenge_age := if sign_time < Fin 0 then Fin (- 1) else now - sign_time\<rparr>))"

definition heartbeat :: "string \<Rightarrow> 64 word \<Rightarrow> string \<Rightarrow> dbl \<Rightarrow> safety \<Rightarrow> bool \<times> safety" where
  "heartbeat cid seq tok now s =
     (if \<not> armed s \<or> cid \<noteq> session s \<or> seq \<le> sequence s then (False, s)
      else (True, (token_deadline tok now ((note_request now s)\<lparr>sequence := seq\<rparr>))
        \<lparr>presence_deadline := now, accepted_sequence := seq, request_result := ''heartbeat_accepted''\<rparr>))"

definition drive :: "(dbl \<Rightarrow> dbl \<Rightarrow> dbl) \<Rightarrow> string \<Rightarrow> 64 word \<Rightarrow> string \<Rightarrow> dbl \<Rightarrow> dbl \<Rightarrow> string \<Rightarrow> dbl
    \<Rightarrow> safety \<Rightarrow> bool \<times> safety" where
  "drive hypot cid seq tok x yaw shown now s =
     (if \<not> armed s \<or> cid \<noteq> session s \<or> seq \<le> sequence s then (False, s)
      else let s = token_deadline tok now ((note_request now s)\<lparr>sequence := seq\<rparr>) in
      if require_video s \<and> \<not> frame_fresh shown now s then (False, stop Video_stale s)
      else (case health now s of
        Some e \<Rightarrow> (False, stop e s)
      | None \<Rightarrow>
          if \<not> isfinite x \<or> \<not> isfinite yaw \<or> Fin 1 < abs x \<or> Fin 1 < abs yaw then
            (False, stop Joystick_invalid s)
          else let norm = dmax (Fin 1) (hypot x yaw) in
            (True, s\<lparr>input_x := x / norm, input_yaw := yaw / norm,
              presence_deadline := now + control_lease_seconds, accepted_sequence := seq,
              request_result := ''drive_accepted'', displayed := shown,
              deadline := now + control_lease_seconds, pressed := True, sreason := Driving\<rparr>)))"

definition intent :: "(dbl \<Rightarrow> dbl \<Rightarrow> dbl) \<Rightarrow> string \<Rightarrow> 64 word \<Rightarrow> string \<Rightarrow> string \<Rightarrow> string \<Rightarrow> dbl
    \<Rightarrow> safety \<Rightarrow> bool \<times> safety" where
  "intent hypot cid seq tok direction shown now s =
     (if direction \<notin> {''forward'', ''backward'', ''left'', ''right''} then
        (False, if cid = session s then stop Direction_invalid s else s)
      else drive hypot cid seq tok
        (if direction = ''forward'' then Fin 1 else if direction = ''backward'' then Fin (- 1) else Fin 0)
        (if direction = ''left'' then Fin 1 else if direction = ''right'' then Fin (- 1) else Fin 0)
        shown now s)"

definition change_gear :: "string \<Rightarrow> safety \<Rightarrow> safety" where
  "change_gear v s =
     (if v \<noteq> ''slow'' \<and> v \<noteq> ''normal'' \<and> v \<noteq> ''fast'' then s
      else stop Gear_changed (s\<lparr>gear := v\<rparr>))"

definition tick_safety :: "dbl \<Rightarrow> safety \<Rightarrow> safety" where
  "tick_safety now s =
     (if armed s then (case health now s of
          Some e \<Rightarrow> stop e s
        | None \<Rightarrow>
            if pressed s \<and> require_video s \<and> \<not> frame_fresh (displayed s) now s then stop Video_stale s
            else if pressed s \<and> deadline s \<le> now then release_motion Lease_expired s
            else s)
      else s)"

definition gear_x :: "string \<Rightarrow> dbl" where
  "gear_x g = (if g = ''slow'' then fl 0.05 else if g = ''normal'' then fl 0.10 else fl 0.18)"

definition gear_yaw :: "string \<Rightarrow> dbl" where
  "gear_yaw g = (if g = ''slow'' then fl 0.10 else if g = ''normal'' then fl 0.20 else fl 0.36)"

text \<open>\<open>tick\<close>: the velocity as (x, yaw), and the state.\<close>

definition tick :: "dbl \<Rightarrow> safety \<Rightarrow> (dbl \<times> dbl) \<times> safety" where
  "tick now s =
     (let s = tick_safety now s in
      (if \<not> armed s \<or> \<not> pressed s then (Fin 0, Fin 0)
       else (input_x s * gear_x (gear s), input_yaw s * gear_yaw (gear s)), s))"

record timing =
  tm_gateway_age :: dbl
  tm_scan_age :: dbl
  tm_odom_age :: dbl
  tm_lease_remaining :: dbl
  tm_presence_remaining :: dbl
  tm_challenge_age :: dbl
  tm_request_gap :: dbl
  tm_sequence :: "64 word"
  tm_accepted :: "64 word"
  tm_rejected :: "64 word"
  tm_pressed :: bool
  tm_result :: string

definition timing_of :: "dbl \<Rightarrow> safety \<Rightarrow> timing" where
  "timing_of now s = \<lparr>tm_gateway_age = now - gateway_at s, tm_scan_age = now - scan_at s,
     tm_odom_age = now - odom_at s, tm_lease_remaining = deadline s - now,
     tm_presence_remaining = presence_deadline s - now, tm_challenge_age = challenge_age s,
     tm_request_gap = request_gap s, tm_sequence = sequence s, tm_accepted = accepted_sequence s,
     tm_rejected = rejected_requests s, tm_pressed = pressed s, tm_result = request_result s\<rparr>"

subsection \<open>The guard node\<close>

type_synonym transition_key = "bool \<times> reason \<times> string \<times> reason option"

record transition_event =
  te_action :: string
  te_now :: dbl
  te_armed :: bool
  te_reason :: reason
  te_health :: "reason option"
  te_gear :: string
  te_timing :: timing

record guard =
  g_safety :: safety
  state_at :: dbl
  topology_at :: dbl
  last_frame_stamp :: int
  control_revision :: "64 word"
  tick_at :: dbl
  timer_gap_ms :: dbl
  was_armed :: bool
  transition_key :: "transition_key option"
  last_stop :: "transition_event option"

definition guard_init :: "bool \<Rightarrow> guard" where
  "guard_init video = \<lparr>g_safety = safety_init\<lparr>require_video := video\<rparr>, state_at = Fin 0,
     topology_at = Fin 0, last_frame_stamp = 0, control_revision = 0, tick_at = Fin 0,
     timer_gap_ms = Fin 0, was_armed = False, transition_key = None, last_stop = None\<rparr>"

definition log_transition :: "string \<Rightarrow> dbl \<Rightarrow> guard \<Rightarrow> guard" where
  "log_transition action now g =
     (let s = g_safety g; key = (armed s, sreason s, gear s, health now s) in
      if Some key = transition_key g then g
      else let event = \<lparr>te_action = action, te_now = now, te_armed = armed s, te_reason = sreason s,
             te_health = health now s, te_gear = gear s, te_timing = timing_of now s\<rparr>
      in g\<lparr>last_stop := if was_armed g \<and> \<not> armed s then Some event else last_stop g,
           was_armed := armed s, transition_key := Some key\<rparr>)"

type_synonym 'j api = "('j, dbl, 64 word) json_api"

text \<open>
  The requests, after parsing: what the body of the callback does to \<open>Safety\<close>. \<open>None\<close> is an
  exception of the JSON library; \<open>Some (s, logged)\<close> says whether \<open>log_transition(action)\<close> is reached.
\<close>

definition sequenced :: "'j api \<Rightarrow> 'j \<Rightarrow> safety \<Rightarrow> (64 word \<Rightarrow> safety option) \<Rightarrow> (safety \<times> bool) option" where
  "sequenced api v s act = do {
     sq \<leftarrow> j_at api v ''sequence'';
     if \<not> j_is_unsigned api sq then Some (stop Sequence_invalid s, False)
     else do {
       seq \<leftarrow> j_as_unsigned api sq;
       s \<leftarrow> act seq;
       Some (s, True)}}"

definition act_request :: "(dbl \<Rightarrow> dbl \<Rightarrow> dbl) \<Rightarrow> 'j api \<Rightarrow> 'j \<Rightarrow> string \<Rightarrow> string \<Rightarrow> dbl \<Rightarrow> safety
    \<Rightarrow> (safety \<times> bool) option" where
  "act_request hypot api v cid action now s =
     (if action = ''connect'' then Some (connect cid s, True)
      else if cid \<noteq> session s \<or> cid = [] then Some (s, False)
      else if action = ''disconnect'' then Some (disconnect cid s, True)
      else if action = ''stop'' then do {
        cause \<leftarrow> j_string api v ''cause'' ''manual'';
        Some (stop (Page_stop (take 64 cause)) s, True)}
      else if action = ''gear'' then do {
        g \<leftarrow> j_string api v ''gear'' [];
        Some (change_gear g s, True)}
      else if action = ''enable'' then do {
        f \<leftarrow> j_string api v ''frame'' [];
        Some (snd (enable cid f now s), True)}
      else if action = ''release'' then
        sequenced api v s (\<lambda>seq. Some (snd (release cid seq s)))
      else if action = ''heartbeat'' then
        sequenced api v s (\<lambda>seq. do {
          tok \<leftarrow> j_string api v ''challenge'' [];
          Some (snd (heartbeat cid seq tok now s))})
      else if action = ''drive'' then
        sequenced api v s (\<lambda>seq. do {
          tok \<leftarrow> j_string api v ''challenge'' [];
          jx \<leftarrow> j_at api v ''x'';
          x \<leftarrow> j_as_number api jx;
          jyaw \<leftarrow> j_at api v ''yaw'';
          yaw \<leftarrow> j_as_number api jyaw;
          f \<leftarrow> j_string api v ''frame'' [];
          Some (snd (drive hypot cid seq tok x yaw f now s))})
      else if action = ''intent'' then
        sequenced api v s (\<lambda>seq. do {
          tok \<leftarrow> j_string api v ''challenge'' [];
          d \<leftarrow> j_string api v ''direction'' [];
          f \<leftarrow> j_string api v ''frame'' [];
          Some (snd (intent hypot cid seq tok d f now s))})
      else Some (s, True))"

definition on_request :: "(dbl \<Rightarrow> dbl \<Rightarrow> dbl) \<Rightarrow> 'j api \<Rightarrow> string \<Rightarrow> dbl \<Rightarrow> guard \<Rightarrow> guard" where
  "on_request hypot api data now g =
     (if 2048 < length data then g
      else case (do {
          v \<leftarrow> j_parse api data;
          cid \<leftarrow> j_string api v ''session'' [];
          action \<leftarrow> j_string api v ''action'' [];
          (s, logged) \<leftarrow> act_request hypot api v cid action now (g_safety g);
          Some (s, logged, action)}) of
        None \<Rightarrow> log_transition ''invalid_request'' now
          (g\<lparr>g_safety := stop Message_invalid (g_safety g)\<rparr>)
      | Some (s, logged, action) \<Rightarrow>
          let g = g\<lparr>g_safety := s\<rparr> in if logged then log_transition action now g else g)"

definition on_readiness :: "'j api \<Rightarrow> string \<Rightarrow> dbl \<Rightarrow> guard \<Rightarrow> guard" where
  "on_readiness api data now g =
     (case (do {v \<leftarrow> j_parse api data; r \<leftarrow> j_at api v ''ready''; j_as_bool api r}) of
        None \<Rightarrow> g\<lparr>g_safety := (stop Session_message_bad (g_safety g))\<lparr>session_ready := False\<rparr>\<rparr>
      | Some ready \<Rightarrow> g\<lparr>g_safety := (g_safety g)\<lparr>session_ready := ready, gateway_at := now\<rparr>\<rparr>)"

text \<open>\<open>fresh\<close> on the age in seconds of a message's stamp.\<close>

definition fresh_age :: "dbl \<Rightarrow> bool" where
  "fresh_age age \<longleftrightarrow> isfinite age \<and> fl (- 0.1) \<le> age \<and> age \<le> fl 0.5"

definition on_scan :: "bool \<Rightarrow> dbl \<Rightarrow> dbl \<Rightarrow> guard \<Rightarrow> guard" where
  "on_scan ranges_empty age now g =
     (if \<not> ranges_empty \<and> fresh_age age then g\<lparr>g_safety := (g_safety g)\<lparr>scan_at := now\<rparr>\<rparr> else g)"

definition on_odom :: "dbl \<Rightarrow> dbl \<Rightarrow> guard \<Rightarrow> guard" where
  "on_odom age now g =
     (if fresh_age age then g\<lparr>g_safety := (g_safety g)\<lparr>odom_at := now\<rparr>\<rparr> else g)"

definition frame_id :: "int \<Rightarrow> int \<Rightarrow> string" where
  "frame_id sec nano = int_to_string sec @ '':'' @ int_to_string nano"

definition on_image :: "bool \<Rightarrow> string \<Rightarrow> int \<Rightarrow> int \<Rightarrow> dbl \<Rightarrow> dbl \<Rightarrow> guard \<Rightarrow> guard" where
  "on_image data_empty format sec nano age now g =
     (let stamp = sec * 1000000000 + nano in
      if \<not> data_empty \<and> contains_sub ''jpeg'' format \<and> fresh_age age \<and> last_frame_stamp g < stamp
      then g\<lparr>last_frame_stamp := stamp, g_safety := frame (frame_id sec nano) now (g_safety g)\<rparr>
      else g)"

record guard_state =
  st_challenge :: string
  st_armed :: bool
  st_reason :: reason
  st_gear :: string
  st_velocity :: "dbl \<times> dbl"
  st_health :: "reason option"
  st_session :: string
  st_require_video :: bool
  st_revision :: "64 word"
  st_timing :: timing
  st_last_stop :: "transition_event option"

text \<open>
  The timer. \<open>graph_ok\<close> is what the topology query finds when it is made, \<open>fresh_nonce\<close> the
  challenge. The results are the velocity published and the state message, when one is due.
\<close>

definition on_timer :: "bool \<Rightarrow> string \<Rightarrow> dbl \<Rightarrow> guard \<Rightarrow> (dbl \<times> dbl) \<times> guard_state option \<times> guard" where
  "on_timer graph_ok fresh_nonce now g =
     (let g = g\<lparr>timer_gap_ms := (if deq (tick_at g) (Fin 0) then Fin 0 else (now - tick_at g) * Fin 1000),
            tick_at := now\<rparr>;
          g = (if fl 0.5 < now - topology_at g
            then g\<lparr>topology_at := now, g_safety := (g_safety g)\<lparr>topology_ok := graph_ok\<rparr>\<rparr> else g);
          (velocity, s) = tick now (g_safety g);
          g = log_transition ''tick'' now (g\<lparr>g_safety := s\<rparr>)
      in if fl 0.05 \<le> now - state_at g then
           let g = g\<lparr>state_at := now, g_safety := challenge fresh_nonce now (g_safety g),
                 control_revision := control_revision g + 1\<rparr>;
               s = g_safety g
           in (velocity, Some \<lparr>st_challenge = fresh_nonce, st_armed = armed s, st_reason = sreason s,
                st_gear = gear s, st_velocity = velocity, st_health = health now s,
                st_session = session s, st_require_video = require_video s,
                st_revision = control_revision g, st_timing = timing_of now s,
                st_last_stop = last_stop g\<rparr>, g)
         else (velocity, None, g))"

text \<open>The node's callbacks.\<close>

datatype guard_event =
    Request string
  | Readiness string
  | Scan bool dbl
  | Odom dbl
  | Image bool string int int dbl
  | Timer bool string

fun guard_handle :: "(dbl \<Rightarrow> dbl \<Rightarrow> dbl) \<Rightarrow> 'j api \<Rightarrow> guard_event \<Rightarrow> dbl \<Rightarrow> guard \<Rightarrow> guard" where
  "guard_handle hypot api (Request data) now g = on_request hypot api data now g"
| "guard_handle hypot api (Readiness data) now g = on_readiness api data now g"
| "guard_handle hypot api (Scan e age) now g = on_scan e age now g"
| "guard_handle hypot api (Odom age) now g = on_odom age now g"
| "guard_handle hypot api (Image e f sec nano age) now g = on_image e f sec nano age now g"
| "guard_handle hypot api (Timer ok nonce) now g = snd (snd (on_timer ok nonce now g))"

subsection \<open>Lemmas\<close>

lemma safety_unchanged [simp]:
  "input_x (prune now s) = input_x s" "input_yaw (prune now s) = input_yaw s"
  "input_x (token_deadline tok now s) = input_x s" "input_yaw (token_deadline tok now s) = input_yaw s"
  "input_x (note_request now s) = input_x s" "input_yaw (note_request now s) = input_yaw s"
  "input_x (challenge tok now s) = input_x s" "input_yaw (challenge tok now s) = input_yaw s"
  "input_x (frame f now s) = input_x s" "input_yaw (frame f now s) = input_yaw s"
  "armed (prune now s) = armed s" "pressed (prune now s) = pressed s" "deadline (prune now s) = deadline s"
  "armed (token_deadline tok now s) = armed s" "pressed (token_deadline tok now s) = pressed s"
  "deadline (token_deadline tok now s) = deadline s"
  "armed (note_request now s) = armed s" "pressed (note_request now s) = pressed s"
  "deadline (note_request now s) = deadline s"
  "armed (challenge tok now s) = armed s" "pressed (challenge tok now s) = pressed s"
  "deadline (challenge tok now s) = deadline s"
  "armed (frame f now s) = armed s" "pressed (frame f now s) = pressed s"
  "deadline (frame f now s) = deadline s"
  by (simp_all add: prune_def token_deadline_def note_request_def challenge_def frame_def Let_def)

text \<open>How each operation can keep or grant the permission to move and the pressed stick.\<close>

definition held :: "safety \<Rightarrow> dbl \<times> dbl \<times> dbl" where
  "held s = (deadline s, input_x s, input_yaw s)"

definition keeps :: "safety \<Rightarrow> safety \<Rightarrow> bool" where
  "keeps s s' \<longleftrightarrow> (armed s' \<longrightarrow> armed s) \<and> (pressed s' \<longrightarrow> pressed s \<and> held s' = held s)"

text \<open>A stick position within the unit square.\<close>

definition unit_dbl :: "dbl \<Rightarrow> bool" where
  "unit_dbl d \<longleftrightarrow> (\<exists>p. d = Fin p \<and> \<bar>p\<bar> \<le> 1)"

definition granted :: "dbl \<Rightarrow> safety \<Rightarrow> bool" where
  "granted now s' \<longleftrightarrow> deadline s' = now + control_lease_seconds \<and>
     unit_dbl (input_x s') \<and> unit_dbl (input_yaw s')"

lemma unit_divide:
  assumes "isfinite x" "\<not> Fin 1 < abs x"
  shows "unit_dbl (x / dmax (Fin 1) h)"
proof -
  obtain a where a: "x = Fin a" "\<bar>a\<bar> \<le> 1" using assms by (auto simp: isfinite_iff)
  have one: "fl 1 = Fin 1" using fl_int [of 1] by simp
  consider "dmax (Fin 1) h = PInf" | m where "dmax (Fin 1) h = Fin m" "1 \<le> m"
    by (cases h; cases "Fin 1 < h") (auto simp: dmax_def)
  then show ?thesis
  proof cases
    case 2
    then have "\<bar>a / m\<bar> \<le> 1" using a(2) by (simp add: divide_le_eq)
    from fl_abs_le [OF this one] 2 a show ?thesis by (auto simp: unit_dbl_def)
  qed (simp add: a unit_dbl_def)
qed

lemma keeps_simps [simp]:
  "keeps s s" "keeps s (stop why s')" "keeps s (release_motion why s)" "keeps s (connect cid s)"
  "keeps s (disconnect cid s)" "keeps s (snd (release cid seq s))" "keeps s (change_gear v s)"
  "keeps s (tick_safety now s)" "keeps s (snd (heartbeat cid seq tok now s))"
  by (auto simp: keeps_def held_def stop_def release_motion_def connect_def disconnect_def release_def
    change_gear_def tick_safety_def heartbeat_def Let_def split: option.splits)

lemma enable_effect:
  "pressed (snd (enable cid f now s)) \<Longrightarrow> pressed s \<and> held (snd (enable cid f now s)) = held s"
  by (auto simp: enable_def stop_def held_def split: if_split_asm)

definition drives :: "dbl \<Rightarrow> safety \<Rightarrow> safety \<Rightarrow> bool" where
  "drives now s s' \<longleftrightarrow> (armed s' \<longrightarrow> armed s) \<and>
     (pressed s' \<longrightarrow> granted now s' \<or> pressed s \<and> held s' = held s)"

lemma drives_stop: "drives now s (stop why s')" "drives now s s"
  by (simp_all add: drives_def stop_def)

lemma drive_effect: "drives now s (snd (drive hypot cid seq tok x yaw f now s))"
proof -
  have "unit_dbl (x / dmax (Fin 1) (hypot x yaw))" "unit_dbl (yaw / dmax (Fin 1) (hypot x yaw))"
    if "isfinite x \<and> isfinite yaw \<and> \<not> Fin 1 < abs x \<and> \<not> Fin 1 < abs yaw"
    using that unit_divide by blast+
  then show ?thesis
    by (auto simp: drive_def Let_def drives_stop split: option.splits)
      (auto simp: drives_def granted_def)
qed

definition direction_ok :: "string \<Rightarrow> bool" where
  "direction_ok d \<longleftrightarrow> d \<in> {''forward'', ''backward'', ''left'', ''right''}"

lemma intent_effect: "drives now s (snd (intent hypot cid seq tok d f now s))"
proof (cases "direction_ok d")
  case True
  then show ?thesis unfolding intent_def direction_ok_def
    by (simp only: not_not simp_thms if_False) (rule drive_effect)
next
  case False
  then have "snd (intent hypot cid seq tok d f now s) = (if cid = session s then stop Direction_invalid s else s)"
    unfolding intent_def direction_ok_def by (simp only: not_False_eq_True if_True snd_conv)
  then show ?thesis by (simp add: drives_stop)
qed

lemma sequenced_Some:
  assumes "sequenced api v s act = Some (s', l)"
  shows "s' = stop Sequence_invalid s \<or> (\<exists>seq. act seq = Some s')"
  using assms
  by (cases "j_at api v ''sequence''"; simp add: sequenced_def split: if_split_asm)
    (auto simp: bind_eq_Some_conv)

definition effect :: "string \<Rightarrow> dbl \<Rightarrow> safety \<Rightarrow> safety \<Rightarrow> bool" where
  "effect action now s s' \<longleftrightarrow> (armed s' \<longrightarrow> armed s \<or> action = ''enable'') \<and>
    (pressed s' \<longrightarrow> pressed s \<and> held s' = held s \<or>
      (action = ''drive'' \<or> action = ''intent'') \<and> granted now s')"

lemma effect_keeps: "keeps s s' \<Longrightarrow> effect action now s s'"
  by (auto simp: keeps_def effect_def)

lemma effect_enable: "effect ''enable'' now s (snd (enable cid f now s))"
  using enable_effect [of cid f now s] by (auto simp: effect_def)

lemma effect_drive: "effect ''drive'' now s (snd (drive hypot cid seq tok x yaw f now s))"
  using drive_effect [of now s hypot cid seq tok x yaw f] by (auto simp: effect_def drives_def)

lemma effect_intent: "effect ''intent'' now s (snd (intent hypot cid seq tok d f now s))"
  using intent_effect [of now s hypot cid seq tok d f] by (auto simp: effect_def drives_def)

lemma effect_sequenced:
  assumes "sequenced api v s act = Some (s', l)" "\<And>seq s'. act seq = Some s' \<Longrightarrow> effect action now s s'"
  shows "effect action now s s'"
  using assms sequenced_Some [OF assms(1)] effect_keeps by auto

lemma if_SomeE:
  "(if b then x else y) = Some z \<Longrightarrow> (b \<Longrightarrow> x = Some z \<Longrightarrow> P) \<Longrightarrow> (y = Some z \<Longrightarrow> P) \<Longrightarrow> P"
  by (cases b) auto

lemma act_request_effect:
  assumes "act_request hypot api v cid action now s = Some (s', l)"
  shows "effect action now s s'"
  using assms unfolding act_request_def
  by (elim if_SomeE)
    (auto simp: bind_eq_Some_conv effect_keeps effect_enable effect_drive effect_intent
      elim!: effect_sequenced)

text \<open>A request whose action is one of \<open>acts\<close>.\<close>

definition asks :: "'j api \<Rightarrow> string set \<Rightarrow> guard_event \<Rightarrow> bool" where
  "asks api acts e \<longleftrightarrow> (\<exists>data v a. e = Request data \<and> length data \<le> 2048 \<and> j_parse api data = Some v \<and>
     j_string api v ''action'' [] = Some a \<and> a \<in> acts)"

lemma log_transition_safety [simp]: "g_safety (log_transition a now g) = g_safety g"
  by (simp add: log_transition_def Let_def)

lemma on_request_effect:
  "(armed (g_safety (on_request hypot api data now g)) \<longrightarrow> armed (g_safety g) \<or> asks api {''enable''} (Request data)) \<and>
   (pressed (g_safety (on_request hypot api data now g)) \<longrightarrow>
     pressed (g_safety g) \<and> held (g_safety (on_request hypot api data now g)) = held (g_safety g) \<or>
     asks api {''drive'', ''intent''} (Request data) \<and> granted now (g_safety (on_request hypot api data now g)))"
proof (cases "2048 < length data \<or> (do {
          v \<leftarrow> j_parse api data;
          cid \<leftarrow> j_string api v ''session'' [];
          action \<leftarrow> j_string api v ''action'' [];
          (s, logged) \<leftarrow> act_request hypot api v cid action now (g_safety g);
          Some (s, logged, action)}) = None")
  case True
  then show ?thesis by (auto simp: on_request_def stop_def)
next
  case False
  then obtain v cid action s' l where p: "j_parse api data = Some v" "j_string api v ''session'' [] = Some cid"
    "j_string api v ''action'' [] = Some action" "act_request hypot api v cid action now (g_safety g) = Some (s', l)"
    by (auto simp: bind_eq_None_conv)
  have "g_safety (on_request hypot api data now g) = s'"
    using False p by (simp add: on_request_def Let_def)
  moreover have "asks api acts (Request data) \<longleftrightarrow> action \<in> acts" for acts
    using False p by (auto simp: asks_def)
  ultimately show ?thesis using act_request_effect [OF p(4)] by (auto simp: effect_def)
qed

lemma on_timer_safety:
  "\<exists>ok. keeps ((g_safety g)\<lparr>topology_ok := ok\<rparr>) (g_safety (snd (snd (on_timer graph_ok n now g))))"
proof -
  have "keeps s (challenge n now (tick_safety now s))" for s
    using keeps_simps(8) [of s now] by (simp add: keeps_def held_def)
  then show ?thesis
    by (auto simp: on_timer_def Let_def tick_def intro: exI [of _ graph_ok] exI [of _ "topology_ok (g_safety g)"])
qed


lemma guard_permission:
  "(armed (g_safety (guard_handle hypot api e t g)) \<longrightarrow> armed (g_safety g) \<or> asks api {''enable''} e) \<and>
   (pressed (g_safety (guard_handle hypot api e t g)) \<longrightarrow>
     pressed (g_safety g) \<and> held (g_safety (guard_handle hypot api e t g)) = held (g_safety g) \<or>
     asks api {''drive'', ''intent''} e \<and> granted t (g_safety (guard_handle hypot api e t g)))"
proof (cases e)
  case (Request data)
  then show ?thesis using on_request_effect [of hypot api data t g] by simp
next
  case (Timer ok n)
  then show ?thesis using on_timer_safety [of g ok n t] by (auto simp: keeps_def held_def)
qed (auto simp: on_readiness_def stop_def on_scan_def on_odom_def on_image_def held_def Let_def
  split: option.splits)

interpretation guard_armed: flag_log "guard_handle hypot api" "\<lambda>g. armed (g_safety g)" "asks api {''enable''}"
  for hypot :: "dbl \<Rightarrow> dbl \<Rightarrow> dbl" and api :: "'j api"
  by unfold_locales (use guard_permission in blast)

definition stick_ok :: "dbl \<times> dbl \<times> dbl \<Rightarrow> bool" where
  "stick_ok h \<longleftrightarrow> unit_dbl (fst (snd h)) \<and> unit_dbl (snd (snd h))"

interpretation guard_pressed: grant_log "guard_handle hypot api" "\<lambda>g. pressed (g_safety g)"
  "\<lambda>g d. held (g_safety g) = d"
  "\<lambda>e t d. asks api {''drive'', ''intent''} e \<and> fst d = t + control_lease_seconds \<and> stick_ok d"
  for hypot :: "dbl \<Rightarrow> dbl \<Rightarrow> dbl" and api :: "'j api"
proof
  fix e t g d
  assume p: "pressed (g_safety (guard_handle hypot api e t g))"
    and d: "held (g_safety (guard_handle hypot api e t g)) = d"
  show "(asks api {''drive'', ''intent''} e \<and> fst d = t + control_lease_seconds \<and> stick_ok d) \<or>
    pressed (g_safety g) \<and> held (g_safety g) = d"
    unfolding d [symmetric] using guard_permission [of hypot api e t g] p
    by (auto simp: granted_def stick_ok_def held_def)
qed

text \<open>The times of the last scan, odometry and session message; before the first they are the
  constructor's value.\<close>

lemma safety_sensors [simp]:
  "scan_at (stop why s) = scan_at s" "odom_at (stop why s) = odom_at s" "gateway_at (stop why s) = gateway_at s"
  by (simp_all add: stop_def)

definition sensors :: "safety \<Rightarrow> dbl \<times> dbl \<times> dbl \<times> bool" where
  "sensors s = (scan_at s, odom_at s, gateway_at s, session_ready s)"

lemma sensors_simps [simp]:
  "sensors (stop why s) = sensors s" "sensors (release_motion why s) = sensors s"
  "sensors (connect cid s) = sensors s" "sensors (disconnect cid s) = sensors s"
  "sensors (snd (release cid seq s)) = sensors s" "sensors (change_gear v s) = sensors s"
  "sensors (prune now s) = sensors s" "sensors (token_deadline tok now s) = sensors s"
  "sensors (note_request now s) = sensors s" "sensors (challenge tok now s) = sensors s"
  "sensors (frame f now s) = sensors s" "sensors (tick_safety now s) = sensors s"
  "sensors (snd (heartbeat cid seq tok now s)) = sensors s"
  "sensors (snd (enable cid f now s)) = sensors s"
  by (auto simp: sensors_def stop_def release_motion_def connect_def disconnect_def release_def
    change_gear_def prune_def token_deadline_def note_request_def challenge_def frame_def
    tick_safety_def heartbeat_def enable_def Let_def split: option.splits)


lemma sensors_drive [simp]:
  "sensors (snd (drive hypot cid seq tok x yaw f now s)) = sensors s"
  by (auto simp: sensors_def drive_def stop_def token_deadline_def note_request_def prune_def Let_def
    split: option.splits)

lemma sensors_update [simp]:
  "sensors (s\<lparr>sreason := r\<rparr>) = sensors s" "sensors (s\<lparr>topology_ok := b\<rparr>) = sensors s"
  by (simp_all add: sensors_def)

lemma sensors_intent [simp]: "sensors (snd (intent hypot cid seq tok d f now s)) = sensors s"
proof (cases "direction_ok d")
  case True
  then show ?thesis unfolding intent_def direction_ok_def
    by (simp only: not_not simp_thms if_False sensors_drive)
next
  case False
  then have "snd (intent hypot cid seq tok d f now s) = (if cid = session s then stop Direction_invalid s else s)"
    unfolding intent_def direction_ok_def by (simp only: not_False_eq_True if_True snd_conv)
  then show ?thesis by simp
qed

lemma act_request_sensors:
  assumes "act_request hypot api v cid action now s = Some (s', l)"
  shows "sensors s' = sensors s"
  using assms unfolding act_request_def
  by (elim if_SomeE) (auto simp: bind_eq_Some_conv dest!: sequenced_Some)

lemma on_request_sensors [simp]:
  "sensors (g_safety (on_request hypot api data now g)) = sensors (g_safety g)"
  by (auto simp: on_request_def Let_def bind_eq_Some_conv split: option.splits dest!: act_request_sensors)

lemma on_timer_sensors [simp]:
  "sensors (g_safety (snd (snd (on_timer ok n now g)))) = sensors (g_safety g)"
  by (simp add: on_timer_def Let_def tick_def)

definition ready_message :: "'j api \<Rightarrow> guard_event \<Rightarrow> bool" where
  "ready_message api e \<longleftrightarrow> (\<exists>data v r. e = Readiness data \<and> j_parse api data = Some v \<and>
     j_at api v ''ready'' = Some r \<and> j_as_bool api r = Some True)"

lemma guard_sensors:
  "sensors (g_safety (guard_handle hypot api e t g)) = (case e of
      Readiness data \<Rightarrow> (case (do {v \<leftarrow> j_parse api data; r \<leftarrow> j_at api v ''ready''; j_as_bool api r}) of
          None \<Rightarrow> (scan_at (g_safety g), odom_at (g_safety g), gateway_at (g_safety g), False)
        | Some r \<Rightarrow> (scan_at (g_safety g), odom_at (g_safety g), t, r))
    | Scan emp age \<Rightarrow> if \<not> emp \<and> fresh_age age
        then (t, odom_at (g_safety g), gateway_at (g_safety g), session_ready (g_safety g))
        else sensors (g_safety g)
    | Odom age \<Rightarrow> if fresh_age age
        then (scan_at (g_safety g), t, gateway_at (g_safety g), session_ready (g_safety g))
        else sensors (g_safety g)
    | _ \<Rightarrow> sensors (g_safety g))"
proof (cases e)
  case (Image em f sec nano age)
  have "sensors (frame i t (g_safety g)) = sensors (g_safety g)" for i by simp
  then show ?thesis by (simp add: Image on_image_def Let_def)
next
  case (Readiness data)
  then show ?thesis by (auto simp: on_readiness_def sensors_def stop_def split: option.splits)
qed (simp_all add: on_scan_def on_odom_def, simp_all add: sensors_def)


interpretation guard_scans: grant_log "guard_handle hypot api"
  "\<lambda>g. scan_at (g_safety g) \<noteq> Fin (- 1000000000)" "\<lambda>g u. scan_at (g_safety g) = u"
  "\<lambda>e t u. (\<exists>age. e = Scan False age \<and> fresh_age age) \<and> u = t"
  for hypot :: "dbl \<Rightarrow> dbl \<Rightarrow> dbl" and api :: "'j api"
proof
  fix e t g u
  assume "scan_at (g_safety (guard_handle hypot api e t g)) \<noteq> Fin (- 1000000000)"
    "scan_at (g_safety (guard_handle hypot api e t g)) = u"
  then show "(\<exists>age. e = Scan False age \<and> fresh_age age) \<and> u = t \<or>
    scan_at (g_safety g) \<noteq> Fin (- 1000000000) \<and> scan_at (g_safety g) = u"
    using guard_sensors [of hypot api e t g]
    by (cases e) (auto simp: sensors_def split: option.splits if_split_asm)
qed

interpretation guard_odoms: grant_log "guard_handle hypot api"
  "\<lambda>g. odom_at (g_safety g) \<noteq> Fin (- 1000000000)" "\<lambda>g u. odom_at (g_safety g) = u"
  "\<lambda>e t u. (\<exists>age. e = Odom age \<and> fresh_age age) \<and> u = t"
  for hypot :: "dbl \<Rightarrow> dbl \<Rightarrow> dbl" and api :: "'j api"
proof
  fix e t g u
  assume "odom_at (g_safety (guard_handle hypot api e t g)) \<noteq> Fin (- 1000000000)"
    "odom_at (g_safety (guard_handle hypot api e t g)) = u"
  then show "(\<exists>age. e = Odom age \<and> fresh_age age) \<and> u = t \<or>
    odom_at (g_safety g) \<noteq> Fin (- 1000000000) \<and> odom_at (g_safety g) = u"
    using guard_sensors [of hypot api e t g]
    by (cases e) (auto simp: sensors_def split: option.splits if_split_asm)
qed

interpretation guard_sessions: grant_log "guard_handle hypot api"
  "\<lambda>g. session_ready (g_safety g)" "\<lambda>g u. gateway_at (g_safety g) = u"
  "\<lambda>e t u. ready_message api e \<and> u = t"
  for hypot :: "dbl \<Rightarrow> dbl \<Rightarrow> dbl" and api :: "'j api"
proof
  fix e t g u
  assume "session_ready (g_safety (guard_handle hypot api e t g))"
    "gateway_at (g_safety (guard_handle hypot api e t g)) = u"
  then show "ready_message api e \<and> u = t \<or> session_ready (g_safety g) \<and> gateway_at (g_safety g) = u"
    using guard_sensors [of hypot api e t g]
    by (cases e) (auto simp: sensors_def ready_message_def bind_eq_Some_conv split: option.splits if_split_asm)
qed

text \<open>What a timer that moves the robot has checked.\<close>

lemma tick_moves:
  assumes "fst (tick now s) \<noteq> (Fin 0, Fin 0)"
  shows "armed s" "pressed s" "health now s = None" "\<not> deadline s \<le> now"
    "fst (tick now s) = (input_x s * gear_x (gear s), input_yaw s * gear_yaw (gear s))"
  using assms
  by (auto simp: tick_def tick_safety_def stop_def release_motion_def Let_def split: option.splits if_split_asm)

lemma on_timer_tick:
  "\<exists>b. fst (on_timer ok n now g) = fst (tick now ((g_safety g)\<lparr>topology_ok := b\<rparr>))"
proof -
  have "g_safety g = (g_safety g)\<lparr>topology_ok := topology_ok (g_safety g)\<rparr>" by simp
  then show ?thesis
    by (cases "fl 0.5 < now - topology_at g")
      (auto simp: on_timer_def Let_def split: prod.splits intro: exI [of _ ok] exI [of _ "topology_ok (g_safety g)"])
qed

lemma on_timer_moves:
  assumes "fst (on_timer ok n now g) \<noteq> (Fin 0, Fin 0)"
  shows "armed (g_safety g)" "pressed (g_safety g)" "\<not> deadline (g_safety g) \<le> now"
    "session_ready (g_safety g)" "\<not> fl 0.30 < now - gateway_at (g_safety g)"
    "\<not> fl 0.50 < now - scan_at (g_safety g)" "\<not> fl 0.50 < now - odom_at (g_safety g)"
    "fst (on_timer ok n now g) = (input_x (g_safety g) * gear_x (gear (g_safety g)),
      input_yaw (g_safety g) * gear_yaw (gear (g_safety g)))"
proof -
  obtain b where b: "fst (on_timer ok n now g) = fst (tick now ((g_safety g)\<lparr>topology_ok := b\<rparr>))"
    using on_timer_tick by blast
  note m = tick_moves [OF assms [unfolded b]]
  show "armed (g_safety g)" "pressed (g_safety g)" "\<not> deadline (g_safety g) \<le> now"
    "fst (on_timer ok n now g) = (input_x (g_safety g) * gear_x (gear (g_safety g)),
      input_yaw (g_safety g) * gear_yaw (gear (g_safety g)))"
    using m b by simp_all
  from m(3) show "session_ready (g_safety g)" "\<not> fl 0.30 < now - gateway_at (g_safety g)"
    "\<not> fl 0.50 < now - scan_at (g_safety g)" "\<not> fl 0.50 < now - odom_at (g_safety g)"
    by (simp_all add: health_def split: if_split_asm)
qed

subsection \<open>Properties\<close>

text \<open>C2. The dead-man rule of manual driving: from any state in which driving is not enabled and the
  stick is not pressed (the initial one, or after any stop), the guard moves the robot only if an
  enable request and, less than the lease of one second before, a drive or intent request have both
  been received since.\<close>

theorem teleop_dead_man:
  assumes "\<not> armed (g_safety g0)" "\<not> pressed (g_safety g0)"
    and "fst (on_timer ok n now (run_events (guard_handle hypot api) es g0)) \<noteq> (Fin 0, Fin 0)"
  shows "(\<exists>e t. (e, t) \<in> set es \<and> asks api {''enable''} e) \<and>
    (\<exists>e t. (e, t) \<in> set es \<and> asks api {''drive'', ''intent''} e \<and> \<not> t + control_lease_seconds \<le> now)"
proof -
  let ?g = "run_events (guard_handle hypot api) es g0"
  note m = on_timer_moves [OF assms(3)]
  obtain e t where "(e, t) \<in> set es" "asks api {''drive'', ''intent''} e"
    "fst (held (g_safety ?g)) = t + control_lease_seconds"
    using guard_pressed.traced [OF m(2) refl assms(2)] by blast
  moreover have "\<not> fst (held (g_safety ?g)) \<le> now" using m(3) by (simp add: held_def)
  moreover obtain e' t' where "(e', t') \<in> set es" "asks api {''enable''} e'"
    using guard_armed.grants.traced [OF m(1) _ assms(1)] by blast
  ultimately show ?thesis by metis
qed

text \<open>The guard moves the robot only on live data: a scan and an odometry message, each fresh on
  arrival, within the last 0.5 s and a message of a ready mapping session within the last 0.3 s.\<close>

theorem teleop_live_data:
  assumes "Fin 0 \<le> now"
    and "fst (on_timer ok n now (run_events (guard_handle hypot api) es (guard_init video))) \<noteq> (Fin 0, Fin 0)"
  shows "(\<exists>age t. (Scan False age, t) \<in> set es \<and> fresh_age age \<and> \<not> fl 0.50 < now - t) \<and>
    (\<exists>age t. (Odom age, t) \<in> set es \<and> fresh_age age \<and> \<not> fl 0.50 < now - t) \<and>
    (\<exists>e t. (e, t) \<in> set es \<and> ready_message api e \<and> \<not> fl 0.30 < now - t)"
proof -
  let ?g = "run_events (guard_handle hypot api) es (guard_init video)"
  note m = on_timer_moves [OF assms(2)]
  have old: "fl 0.50 < now - Fin (- 1000000000)"
  proof (rule dbl_less_le_trans)
    show "fl 0.50 < Fin 0 - Fin (- 1000000000)" by code_simp
    show "Fin 0 - Fin (- 1000000000) \<le> now - Fin (- 1000000000)"
      using assms(1) by (intro dbl_diff_mono) auto
  qed
  have init: "\<not> scan_at (g_safety (guard_init video)) \<noteq> Fin (- 1000000000)"
    "\<not> odom_at (g_safety (guard_init video)) \<noteq> Fin (- 1000000000)"
    "\<not> session_ready (g_safety (guard_init video))"
    by (simp_all add: guard_init_def safety_init_def)
  have "scan_at (g_safety ?g) \<noteq> Fin (- 1000000000)" "odom_at (g_safety ?g) \<noteq> Fin (- 1000000000)"
    using m(6,7) old by metis+
  from guard_scans.traced [OF this(1) refl init(1)] guard_odoms.traced [OF this(2) refl init(2)]
    guard_sessions.traced [OF m(4) refl init(3)] m(5-7)
  show ?thesis by blast
qed

lemma gear_speed:
  "\<exists>v. gear_x k = Fin v \<and> 0 < v \<and> fl v = Fin v"
  "\<exists>v. gear_yaw k = Fin v \<and> 0 < v \<and> fl v = Fin v"
proof -
  have ex: "isfinite d \<and> 0 < val d \<and> fl (val d) = d \<Longrightarrow> \<exists>v. d = Fin v \<and> 0 < v \<and> fl v = Fin v" for d
    by (cases d) auto
  have "isfinite (fl 0.05) \<and> 0 < val (fl 0.05) \<and> fl (val (fl 0.05)) = fl 0.05" by code_simp
  note d1 = ex [OF this]
  have "isfinite (fl 0.10) \<and> 0 < val (fl 0.10) \<and> fl (val (fl 0.10)) = fl 0.10" by code_simp
  note d2 = ex [OF this]
  have "isfinite (fl 0.18) \<and> 0 < val (fl 0.18) \<and> fl (val (fl 0.18)) = fl 0.18" by code_simp
  note d3 = ex [OF this]
  have "isfinite (fl 0.20) \<and> 0 < val (fl 0.20) \<and> fl (val (fl 0.20)) = fl 0.20" by code_simp
  note d4 = ex [OF this]
  have "isfinite (fl 0.36) \<and> 0 < val (fl 0.36) \<and> fl (val (fl 0.36)) = fl 0.36" by code_simp
  note d5 = ex [OF this]
  show "\<exists>v. gear_x k = Fin v \<and> 0 < v \<and> fl v = Fin v" "\<exists>v. gear_yaw k = Fin v \<and> 0 < v \<and> fl v = Fin v"
    using d1 d2 d3 d4 d5 unfolding gear_x_def gear_yaw_def by presburger+
qed

text \<open>C21. Speed limits: whatever is requested and whatever \<open>hypot\<close> answers, the guard's velocities
  never exceed those of its current gear, 0.05, 0.10 or 0.18 m/s and 0.10, 0.20 or 0.36 rad/s.\<close>

theorem teleop_speed_limits:
  "\<exists>x yaw. fst (on_timer ok n now (run_events (guard_handle hypot api) es (guard_init video))) = (Fin x, Fin yaw) \<and>
    \<bar>x\<bar> \<le> val (gear_x (gear (g_safety (run_events (guard_handle hypot api) es (guard_init video))))) \<and>
    \<bar>yaw\<bar> \<le> val (gear_yaw (gear (g_safety (run_events (guard_handle hypot api) es (guard_init video)))))"
proof -
  define g where "g = run_events (guard_handle hypot api) es (guard_init video)"
  obtain vx vy where v: "gear_x (gear (g_safety g)) = Fin vx" "0 < vx" "fl vx = Fin vx"
    "gear_yaw (gear (g_safety g)) = Fin vy" "0 < vy" "fl vy = Fin vy"
    using gear_speed by metis
  have "\<exists>x yaw. fst (on_timer ok n now g) = (Fin x, Fin yaw) \<and> \<bar>x\<bar> \<le> vx \<and> \<bar>yaw\<bar> \<le> vy"
  proof (cases "fst (on_timer ok n now g) = (Fin 0, Fin 0)")
    case True
    then show ?thesis using v by auto
  next
    case False
    note m = on_timer_moves [OF False]
    have "\<not> pressed (g_safety (guard_init video))" by (simp add: guard_init_def safety_init_def)
    from guard_pressed.traced [OF m(2) [unfolded g_def] refl this]
    have "stick_ok (held (g_safety g))" by (auto simp: g_def)
    then obtain a b where ab: "input_x (g_safety g) = Fin a" "\<bar>a\<bar> \<le> 1" "input_yaw (g_safety g) = Fin b" "\<bar>b\<bar> \<le> 1"
      by (auto simp: stick_ok_def held_def unit_dbl_def)
    have "\<bar>a * vx\<bar> \<le> vx" "\<bar>b * vy\<bar> \<le> vy"
      using ab v by (simp_all add: abs_mult mult_left_le_one_le)
    from fl_abs_le [OF this(1) v(3)] fl_abs_le [OF this(2) v(6)] m(8) show ?thesis
      by (auto simp: ab v)
  qed
  then show ?thesis using v by (simp add: g_def)
qed


text \<open>A JSON library for which a message is its own action, every field is present, and the session
  is \<open>op\<close>.\<close>

definition demo_api :: "(string, dbl, 64 word) json_api" where
  "demo_api = \<lparr>j_parse = Some,
     j_string = (\<lambda>v k d. Some (if k = ''session'' then ''op'' else if k = ''action'' then v else d)),
     j_at = (\<lambda>v k. Some k), j_as_string = Some, j_as_bool = (\<lambda>_. Some True),
     j_as_number = (\<lambda>_. Some (Fin 1)), j_is_unsigned = (\<lambda>_. True), j_as_unsigned = (\<lambda>_. Some 1)\<rparr>"

definition demo_history :: "(guard_event \<times> dbl) list" where
  "demo_history = [(Readiness [], Fin 1), (Scan False (Fin 0), Fin 1), (Odom (Fin 0), Fin 1),
     (Request ''connect'', Fin 1), (Request ''enable'', Fin 1), (Request ''drive'', Fin 1)]"

definition demo_hypot :: "dbl \<Rightarrow> dbl \<Rightarrow> dbl" where
  "demo_hypot x y = abs x + abs y"

text \<open>The same history on \<open>Safety\<close> alone.\<close>

definition demo_safety :: safety where
  "demo_safety = snd (drive demo_hypot ''op'' 1 [] (Fin 1) (Fin 1) [] (Fin 1)
     (snd (enable ''op'' [] (Fin 1) (connect ''op''
       (safety_init\<lparr>require_video := False, session_ready := True, gateway_at := Fin 1,
         scan_at := Fin 1, odom_at := Fin 1\<rparr>)))))"

lemma demo_state:
  "g_safety (run_events (guard_handle demo_hypot demo_api) demo_history (guard_init False)) = demo_safety"
proof -
  have f: "fresh_age (Fin 0)" by code_simp
  have session: "session (connect ''op'' s) = ''op''" for s by (simp add: connect_def stop_def)
  have session': "session (snd (enable c k t s)) = session s" for c k t s
    by (simp add: enable_def stop_def)
  show ?thesis
    unfolding demo_history_def demo_safety_def
    by (simp add: run_events_def on_readiness_def on_scan_def on_odom_def f on_request_def act_request_def
      sequenced_def demo_api_def guard_init_def session session')
qed

lemma on_timer_fst:
  "fst (on_timer ok n now g) = fst (tick now (if fl 0.5 < now - topology_at g
     then (g_safety g)\<lparr>topology_ok := ok\<rparr> else g_safety g))"
  by (simp add: on_timer_def Let_def split: prod.split)

lemma demo_tick: "fst (tick (Fin 1) demo_safety) \<noteq> (Fin 0, Fin 0) \<and> demo_safety\<lparr>topology_ok := True\<rparr> = demo_safety"
proof
  show "fst (tick (Fin 1) demo_safety) \<noteq> (Fin 0, Fin 0)" by code_simp
  have "topology_ok demo_safety = True" by code_simp
  then show "demo_safety\<lparr>topology_ok := True\<rparr> = demo_safety" by (cases demo_safety) simp
qed

lemma demo_moves:
  "fst (on_timer True [] (Fin 1) (run_events (guard_handle demo_hypot demo_api) demo_history
    (guard_init False))) \<noteq> (Fin 0, Fin 0)"
  unfolding on_timer_fst demo_state using demo_tick by simp

theorem teleop_dead_man_witness:
  "(\<exists>e t. (e, t) \<in> set demo_history \<and> asks demo_api {''enable''} e) \<and>
    (\<exists>e t. (e, t) \<in> set demo_history \<and> asks demo_api {''drive'', ''intent''} e \<and>
      \<not> t + control_lease_seconds \<le> Fin 1)"
  by (rule teleop_dead_man [OF _ _ demo_moves]) (simp_all add: guard_init_def safety_init_def)

theorem teleop_live_data_witness:
  "(\<exists>age t. (Scan False age, t) \<in> set demo_history \<and> fresh_age age \<and> \<not> fl 0.50 < Fin 1 - t) \<and>
    (\<exists>age t. (Odom age, t) \<in> set demo_history \<and> fresh_age age \<and> \<not> fl 0.50 < Fin 1 - t) \<and>
    (\<exists>e t. (e, t) \<in> set demo_history \<and> ready_message demo_api e \<and> \<not> fl 0.30 < Fin 1 - t)"
  by (rule teleop_live_data [OF _ demo_moves]) simp

end
