(* ===== verification/Indicator_Logic.thy ===== *)
theory Indicator_Logic
  imports Ieee_Double "HOL-Library.Word"
begin

text \<open>
  The light and sound indicator of the navigation stack: the pure logic of
  \<open>carcar_navigation/navigation_indicator_logic.hpp\<close> and the node
  \<open>navigation_indicator.cpp\<close>. The descriptions shown are a datatype, one constructor per text.
\<close>

subsection \<open>Lights\<close>

type_synonym byte = "8 word"

definition kDefaultIndicatorBrightness :: byte where "kDefaultIndicatorBrightness = 85"

datatype flash_mode = SOLID | SLOW_FLASH | FAST_FLASH

datatype operator_light = OFF | NAV_CYAN | NAV_CYAN_SLOW_FLASH | FAIL_RED | LOST_FLASH

record color =
  c_r :: byte
  c_g :: byte
  c_b :: byte

definition rgb :: "byte \<Rightarrow> byte \<Rightarrow> byte \<Rightarrow> color" where
  "rgb r g b = \<lparr>c_r = r, c_g = g, c_b = b\<rparr>"

text \<open>The texts: off, navigating, recovering or waiting, failed, status lost.\<close>

datatype description = No_text | Text_off | Text_running | Text_waiting | Text_failed | Text_lost

record visual =
  v_color :: color
  v_mode :: flash_mode
  v_description :: description

record status_input =
  stage_code :: string
  cause_code :: string
  is_still :: bool
  task_status :: string
  status_age_s :: dbl

definition status_input_init :: status_input where
  "status_input_init = \<lparr>stage_code = ''IDLE'', cause_code = ''NONE'', is_still = True,
     task_status = ''IDLE'', status_age_s = Fin 0\<rparr>"

record indicator_output =
  o_color :: color
  beep_trigger :: bool
  beep_duration_ms :: "16 word"
  display_desc :: description

definition apply_flash :: "flash_mode \<Rightarrow> dbl \<Rightarrow> color \<Rightarrow> color" where
  "apply_flash mode time_sec c = (case mode of
       SOLID \<Rightarrow> c
     | SLOW_FLASH \<Rightarrow> if dfmod time_sec (Fin 1) < fl 0.5 then c else rgb 0 0 0
     | FAST_FLASH \<Rightarrow> if dfmod time_sec (fl 0.5) < fl 0.25 then c else rgb 0 0 0)"

definition is_fail_code :: "string \<Rightarrow> bool" where
  "is_fail_code code \<longleftrightarrow> code \<in> {''FAILED'', ''CANCEL_UNCONFIRMED'', ''STOP_NOT_CONFIRMED'',
     ''RECOVERY_EXHAUSTED'', ''RECOVERY_TOTAL_TIMEOUT'', ''NAVIGATION_FAILED'', ''ABORTED'',
     ''TASK_FAILED'', ''CHASSIS_TIMEOUT'', ''LOCK_STOP''}"

definition is_attention_stage :: "string \<Rightarrow> bool" where
  "is_attention_stage stage \<longleftrightarrow> stage \<in> {''LOC_WAIT'', ''LOC_RECOVER'', ''RECOVERY_WAIT'',
     ''SPINNING'', ''BACKING'', ''REAR_CHECK'', ''PARK_WAIT''}"

fun operator_visual :: "operator_light \<Rightarrow> byte \<Rightarrow> visual" where
  "operator_visual NAV_CYAN b = \<lparr>v_color = rgb 0 b b, v_mode = SOLID, v_description = Text_running\<rparr>"
| "operator_visual NAV_CYAN_SLOW_FLASH b =
     \<lparr>v_color = rgb 0 b b, v_mode = SLOW_FLASH, v_description = Text_waiting\<rparr>"
| "operator_visual FAIL_RED b = \<lparr>v_color = rgb b 0 0, v_mode = SOLID, v_description = Text_failed\<rparr>"
| "operator_visual LOST_FLASH b =
     \<lparr>v_color = rgb b 0 b, v_mode = FAST_FLASH, v_description = Text_lost\<rparr>"
| "operator_visual OFF b = \<lparr>v_color = rgb 0 0 0, v_mode = SOLID, v_description = Text_off\<rparr>"

definition classify_operator_light :: "status_input \<Rightarrow> dbl \<Rightarrow> operator_light" where
  "classify_operator_light i status_timeout_s =
     (if status_timeout_s < status_age_s i then LOST_FLASH
      else if stage_code i = ''OFF'' \<or> stage_code i = ''SHUTDOWN'' then OFF
      else if stage_code i = ''FAILED'' \<or> is_fail_code (cause_code i) \<or> is_fail_code (task_status i)
      then FAIL_RED
      else if is_attention_stage (stage_code i) \<or>
        (is_still i \<and> cause_code i \<noteq> [] \<and> cause_code i \<noteq> ''NONE'' \<and>
          cause_code i \<noteq> ''GOAL_REACHED'' \<and> cause_code i \<noteq> ''USER_CANCELLED'')
      then NAV_CYAN_SLOW_FLASH
      else NAV_CYAN)"

subsection \<open>Sounds\<close>

record sound_state =
  last_sound_completion :: dbl
  last_success :: bool
  last_fail :: bool

definition sound_reset :: sound_state where
  "sound_reset = \<lparr>last_sound_completion = Fin 0, last_success = False, last_fail = False\<rparr>"

definition succeeded :: "status_input \<Rightarrow> bool" where
  "succeeded i \<longleftrightarrow> stage_code i = ''SUCCEEDED'' \<or> cause_code i = ''GOAL_REACHED''"

definition indicator_update ::
  "dbl \<Rightarrow> status_input \<Rightarrow> bool \<Rightarrow> dbl \<Rightarrow> byte \<Rightarrow> sound_state \<Rightarrow> indicator_output \<times> sound_state" where
  "indicator_update now i mute status_timeout_s brightness m =
     (let mode = classify_operator_light i status_timeout_s;
          vs = operator_visual mode brightness;
          success = succeeded i;
          fail = (mode = FAIL_RED);
          beep = (mode \<noteq> LOST_FLASH \<and> \<not> mute \<and> last_sound_completion m \<le> now \<and>
            (success \<and> \<not> last_success m \<or> fail \<and> \<not> last_fail m))
      in (\<lparr>o_color = apply_flash (v_mode vs) now (v_color vs), beep_trigger = beep,
            beep_duration_ms = (if beep then 120 else 0), display_desc = v_description vs\<rparr>,
          \<lparr>last_sound_completion =
             (if beep then now + fl 0.12 + Fin 3 else last_sound_completion m),
           last_success = success, last_fail = fail\<rparr>))"

subsection \<open>The node\<close>

record indicator_params =
  ip_brightness :: byte
  mute_audio :: bool
  preview_mode :: bool
  status_timeout_s :: dbl

record indicator_command =
  cmd_shutdown_sender :: bool
  cmd_sequence :: "64 word"
  cmd_color :: color
  cmd_beep :: bool
  cmd_beep_ms :: "16 word"

record indicator_node =
  in_shutdown :: bool
  in_sequence :: "64 word"
  last_status_time :: time_ns
  latest_input :: status_input
  in_sound :: sound_state
  last_display_desc :: description
  last_preview_log_time :: dbl

definition indicator_init :: indicator_node where
  "indicator_init = \<lparr>in_shutdown = False, in_sequence = 0, last_status_time = 0,
     latest_input = status_input_init, in_sound = sound_reset, last_display_desc = No_text,
     last_preview_log_time = Fin 0\<rparr>"

definition brightness_of :: "int \<Rightarrow> byte" where
  "brightness_of parameter = word_of_int (max 0 (min 255 parameter))"

text \<open>\<open>publish_off\<close>: the command published, if any.\<close>

definition publish_off :: "indicator_params \<Rightarrow> indicator_node \<Rightarrow> indicator_command option \<times> indicator_node" where
  "publish_off ps n =
     (if in_shutdown n then (None, n)
      else if preview_mode ps then (None, n\<lparr>in_shutdown := True\<rparr>)
      else (Some \<lparr>cmd_shutdown_sender = True, cmd_sequence = in_sequence n + 1,
             cmd_color = rgb 0 0 0, cmd_beep = False, cmd_beep_ms = 0\<rparr>,
           n\<lparr>in_shutdown := True, in_sequence := in_sequence n + 1\<rparr>))"

definition apply_value :: "string \<times> string \<Rightarrow> status_input \<Rightarrow> status_input" where
  "apply_value kv i = (case kv of (key, v) \<Rightarrow>
     if key = ''stage_code'' then i\<lparr>stage_code := v\<rparr>
     else if key = ''cause_code'' then i\<lparr>cause_code := v\<rparr>
     else if key = ''is_still'' then i\<lparr>is_still := (v = ''true'' \<or> v = ''True'')\<rparr>
     else if key = ''task_status'' then i\<lparr>task_status := v\<rparr>
     else i)"

definition on_navigation_status ::
  "(string \<times> (string \<times> string) list) list \<Rightarrow> time_ns \<Rightarrow> indicator_node \<Rightarrow> indicator_node" where
  "on_navigation_status statuses now n =
     (if in_shutdown n then n
      else n\<lparr>last_status_time := now, latest_input := foldl (\<lambda>i (name, values).
        if name = ''navigation_status'' then foldl (\<lambda>i kv. apply_value kv i) i values else i)
        (latest_input n) statuses\<rparr>)"

text \<open>The timer: the command published and whether a preview line is logged.\<close>

definition indicator_timer :: "indicator_params \<Rightarrow> time_ns \<Rightarrow> indicator_node \<Rightarrow>
    indicator_command option \<times> bool \<times> indicator_node" where
  "indicator_timer ps now n =
     (if in_shutdown n then (None, False, n)
      else let now_sec = secs now;
             age = (if 0 < last_status_time n then secs (now - last_status_time n) else Fin 100);
             i = (latest_input n)\<lparr>status_age_s := age\<rparr>;
             (out, snd_state) = indicator_update now_sec i (mute_audio ps) (status_timeout_s ps)
               (ip_brightness ps) (in_sound n);
             sq = in_sequence n + 1;
             cmd = \<lparr>cmd_shutdown_sender = False, cmd_sequence = sq, cmd_color = o_color out,
               cmd_beep = beep_trigger out, cmd_beep_ms = beep_duration_ms out\<rparr>;
             state_changed = (display_desc out \<noteq> last_display_desc n \<or> beep_trigger out);
             periodic_log = (Fin 2 \<le> now_sec - last_preview_log_time n);
             logs = (preview_mode ps \<and> (state_changed \<or> periodic_log))
           in (if preview_mode ps then None else Some cmd, logs,
               n\<lparr>latest_input := i, in_sound := snd_state, in_sequence := sq,
                 last_preview_log_time := (if logs then now_sec else last_preview_log_time n),
                 last_display_desc := display_desc out\<rparr>))"

datatype indicator_event = Status "(string \<times> (string \<times> string) list) list" | Timer_fired | Off

fun indicator_handle :: "indicator_params \<Rightarrow> indicator_event \<Rightarrow> time_ns \<Rightarrow> indicator_node \<Rightarrow> indicator_node" where
  "indicator_handle ps (Status st) now n = on_navigation_status st now n"
| "indicator_handle ps Timer_fired now n = snd (snd (indicator_timer ps now n))"
| "indicator_handle ps Off now n = snd (publish_off ps n)"

subsection \<open>Lemmas\<close>

text \<open>The time before which no sound starts never goes back.\<close>

lemma indicator_update_beep:
  assumes "beep_trigger (fst (indicator_update now i mute to b m))"
  shows "last_sound_completion m \<le> now"
    "last_sound_completion (snd (indicator_update now i mute to b m)) = now + fl 0.12 + Fin 3"
  using assms by (simp_all add: indicator_update_def Let_def)

lemma dbl_add_ge:
  assumes "is_double a" "a \<noteq> NaN" "0 \<le> q"
  shows "a \<le> a + Fin q \<and> a + Fin q \<noteq> NaN"
  using assms is_double_add [of a q] by (cases a) auto

lemma sound_delay: "\<exists>q \<ge> 0. fl 0.12 = Fin q"
proof -
  have "isfinite (fl 0.12)" "Fin 0 \<le> fl 0.12" by code_simp+
  then show ?thesis by (cases "fl 0.12") auto
qed

lemma sound_completion_ge:
  assumes "is_double now" "now \<noteq> NaN"
  shows "now \<le> now + fl 0.12 + Fin 3"
proof -
  obtain q where q: "fl 0.12 = Fin q" "0 \<le> q" using sound_delay by blast
  have a: "now \<le> now + fl 0.12 \<and> now + fl 0.12 \<noteq> NaN"
    unfolding q(1) using assms q(2) by (intro dbl_add_ge)
  have "now + fl 0.12 \<le> now + fl 0.12 + Fin 3"
    using dbl_add_ge [of "now + fl 0.12" 3] a by simp
  with a show ?thesis using dbl_le_trans by blast
qed

lemma sound_monotone:
  assumes "is_double now" "now \<noteq> NaN" "t \<le> last_sound_completion m"
  shows "t \<le> last_sound_completion (snd (indicator_update now i mute to b m))"
proof (cases "beep_trigger (fst (indicator_update now i mute to b m))")
  case True
  then show ?thesis
    using indicator_update_beep [OF True] assms sound_completion_ge dbl_le_trans by metis
next
  case False
  then show ?thesis using assms(3) by (auto simp: indicator_update_def Let_def)
qed

definition beeps :: "indicator_command option \<Rightarrow> bool" where
  "beeps c \<longleftrightarrow> (case c of None \<Rightarrow> False | Some x \<Rightarrow> cmd_beep x)"

lemma indicator_timer_sound:
  assumes "indicator_timer ps now n = (c, l, n')"
  shows "n' = n \<and> \<not> beeps c \<or> (\<exists>i. in_sound n' = snd (indicator_update (secs now) i (mute_audio ps)
      (status_timeout_s ps) (ip_brightness ps) (in_sound n)) \<and>
    (beeps c \<longrightarrow> beep_trigger (fst (indicator_update (secs now) i (mute_audio ps)
      (status_timeout_s ps) (ip_brightness ps) (in_sound n)))))"
proof (cases "in_shutdown n")
  case True
  then show ?thesis using assms by (auto simp: indicator_timer_def beeps_def)
next
  case False
  define i where "i = (latest_input n)\<lparr>status_age_s :=
    (if 0 < last_status_time n then secs (now - last_status_time n) else Fin 100)\<rparr>"
  obtain out st where u: "indicator_update (secs now) i (mute_audio ps) (status_timeout_s ps)
    (ip_brightness ps) (in_sound n) = (out, st)" by (rule prod.exhaust)
  have "in_sound n' = st \<and> (beeps c \<longrightarrow> beep_trigger out)"
    using assms False by (auto simp: indicator_timer_def Let_def i_def [symmetric] u beeps_def split: if_split_asm)
  then show ?thesis using u by (intro disjI2 exI [of _ i]) simp
qed

text \<open>On the node: no event moves the time back.\<close>

interpretation indicator_silence: invariant "indicator_handle ps"
  "\<lambda>n. t \<le> last_sound_completion (in_sound n)" for ps t
proof
  fix n :: indicator_node and e now
  assume t: "t \<le> last_sound_completion (in_sound n)"
  show "t \<le> last_sound_completion (in_sound (indicator_handle ps e now n))"
  proof (cases e)
    case Timer_fired
    obtain c l n' where it: "indicator_timer ps now n = (c, l, n')" by (rule prod_cases3)
    from indicator_timer_sound [OF it] t sound_monotone [OF is_double_secs secs_not_nan t]
    have "t \<le> last_sound_completion (in_sound n')" by metis
    then show ?thesis by (simp add: Timer_fired it)
  qed (use t in \<open>auto simp: on_navigation_status_def publish_off_def\<close>)
qed

interpretation indicator_off: invariant "indicator_handle ps" in_shutdown for ps
  by unfold_locales (rename_tac s e t, case_tac e;
    simp add: on_navigation_status_def publish_off_def indicator_timer_def)

subsection \<open>Properties\<close>

text \<open>C39. Sounds are at least 3.12 s apart: after a command with a beep, whatever statuses, timers and
  shutdowns follow, no command with a beep comes before the end of that sound and the pause after
  it have passed.\<close>

theorem beeps_apart:
  assumes "indicator_timer ps t1 n = (c1, l1, n1)" "beeps c1"
    and "indicator_timer ps t2 (run_events (indicator_handle ps) es n1) = (c2, l2, n2)" "beeps c2"
  shows "secs t1 + fl 0.12 + Fin 3 \<le> secs t2"
proof -
  let ?n = "run_events (indicator_handle ps) es n1"
  have c: "last_sound_completion (in_sound n1) = secs t1 + fl 0.12 + Fin 3"
    using indicator_timer_sound [OF assms(1)] assms(2) indicator_update_beep(2) by metis
  have "secs t1 + fl 0.12 + Fin 3 \<noteq> NaN"
    using sound_completion_ge [of "secs t1"] dbl_nan by (metis is_double_secs secs_not_nan)
  then have "secs t1 + fl 0.12 + Fin 3 \<le> secs t1 + fl 0.12 + Fin 3"
    by (rule dbl_refl)
  then have "secs t1 + fl 0.12 + Fin 3 \<le> last_sound_completion (in_sound ?n)"
    by (intro indicator_silence.always) (simp only: c)
  moreover have "last_sound_completion (in_sound ?n) \<le> secs t2"
    using indicator_timer_sound [OF assms(3)] assms(4) indicator_update_beep(1) by metis
  ultimately show ?thesis by (rule dbl_le_trans)
qed

definition demo_params :: indicator_params where
  "demo_params = \<lparr>ip_brightness = 85, mute_audio = False, preview_mode = False, status_timeout_s = Fin 2\<rparr>"

definition demo_indicator :: indicator_node where
  "demo_indicator = indicator_init\<lparr>last_status_time := 1,
     latest_input := status_input_init\<lparr>stage_code := ''FAILED''\<rparr>\<rparr>"

definition demo_first :: "indicator_command option \<times> bool \<times> indicator_node" where
  "demo_first = indicator_timer demo_params 1000000000 demo_indicator"

definition demo_events :: "(indicator_event \<times> time_ns) list" where
  "demo_events = [(Status [(''navigation_status'', [(''stage_code'', ''SUCCEEDED'')])], 4000000000)]"

definition demo_second :: "indicator_command option \<times> bool \<times> indicator_node" where
  "demo_second = indicator_timer demo_params 5000000000
     (run_events (indicator_handle demo_params) demo_events (snd (snd demo_first)))"

theorem beeps_apart_witness:
  "beeps (fst demo_first) \<and> beeps (fst demo_second) \<and> secs 1000000000 + fl 0.12 + Fin 3 \<le> secs 5000000000"
proof -
  have one: "indicator_timer demo_params 1000000000 demo_indicator =
      (fst demo_first, fst (snd demo_first), snd (snd demo_first))"
    by (simp add: demo_first_def)
  have two: "indicator_timer demo_params 5000000000
      (run_events (indicator_handle demo_params) demo_events (snd (snd demo_first))) =
      (fst demo_second, fst (snd demo_second), snd (snd demo_second))"
    by (simp add: demo_second_def)
  have beep: "beeps (fst demo_first)" "beeps (fst demo_second)" by code_simp+
  from beeps_apart [OF one beep(1) two beep(2)] beep show ?thesis by blast
qed

text \<open>Shutting down is final and dark: \<open>publish_off\<close> sends one black command without a sound (none
  in preview mode), and no later status, timer or second shutdown publishes anything.\<close>

theorem indicator_shutdown:
  assumes "\<not> in_shutdown n" "publish_off ps n = (c, n')"
  shows "(preview_mode ps \<longrightarrow> c = None) \<and>
    (\<not> preview_mode ps \<longrightarrow> (\<exists>x. c = Some x \<and> cmd_color x = rgb 0 0 0 \<and> \<not> cmd_beep x)) \<and>
    fst (indicator_timer ps t (run_events (indicator_handle ps) es n')) = None \<and>
    fst (publish_off ps (run_events (indicator_handle ps) es n')) = None"
proof -
  have "in_shutdown n'" using assms by (auto simp: publish_off_def split: if_split_asm)
  then have "in_shutdown (run_events (indicator_handle ps) es n')" by (rule indicator_off.always)
  then have "fst (indicator_timer ps t (run_events (indicator_handle ps) es n')) = None"
    "fst (publish_off ps (run_events (indicator_handle ps) es n')) = None"
    by (simp_all add: indicator_timer_def publish_off_def)
  moreover have "(preview_mode ps \<longrightarrow> c = None) \<and>
    (\<not> preview_mode ps \<longrightarrow> (\<exists>x. c = Some x \<and> cmd_color x = rgb 0 0 0 \<and> \<not> cmd_beep x))"
  proof -
    have "c = fst (publish_off ps n)" by (simp only: assms(2) fst_conv)
    then show ?thesis using assms(1) by (simp add: publish_off_def)
  qed
  ultimately show ?thesis by blast
qed

theorem indicator_shutdown_witness:
  "fst (indicator_timer demo_params 5 (run_events (indicator_handle demo_params)
     [(Status [], 3), (Timer_fired, 4)] (snd (publish_off demo_params indicator_init)))) = None"
proof -
  obtain c n' where p: "publish_off demo_params indicator_init = (c, n')" by (rule prod.exhaust)
  have "\<not> in_shutdown indicator_init" by (simp add: indicator_init_def)
  from indicator_shutdown [OF this p] show ?thesis unfolding p snd_conv by blast
qed

end
