(* ===== verification/Ieee_Single.thy ===== *)
theory Ieee_Single
  imports Ieee_Double
begin

text \<open>
  IEEE-754 binary32, the type of the ranges and angles of a laser scan and of a depth image: a
  \<open>float\<close> is a value of \<open>dbl\<close> that 24 bits can hold, an operation on two floats rounds its exact
  result once to 24 bits, and a float promoted to \<open>double\<close> keeps its value.
\<close>

definition ulp_exp32 :: "rat \<Rightarrow> int" where
  "ulp_exp32 q = max (flog2 \<bar>q\<bar> - 23) (- 149)"

definition rnd32 :: "rat \<Rightarrow> rat" where
  "rnd32 q = (if q = 0 then 0 else let u = 2 powi ulp_exp32 q in of_int (rhe (q / u)) * u)"

definition fl32 :: "rat \<Rightarrow> dbl" where
  "fl32 q = (let r = rnd32 q in if 2 ^ 128 \<le> r then PInf else if r \<le> - (2 ^ 128) then NInf else Fin r)"

text \<open>The conversion of a double, and the two operations the code uses on floats.\<close>

fun to_single :: "dbl \<Rightarrow> dbl" where
  "to_single (Fin q) = fl32 q"
| "to_single d = d"

fun splus :: "dbl \<Rightarrow> dbl \<Rightarrow> dbl" where
  "splus (Fin a) (Fin b) = fl32 (a + b)"
| "splus a b = a + b"

fun stimes :: "dbl \<Rightarrow> dbl \<Rightarrow> dbl" where
  "stimes (Fin a) (Fin b) = fl32 (a * b)"
| "stimes a b = a * b"

end
