(* ===== verification/Recovery_Geometry.thy ===== *)
theory Recovery_Geometry
  imports Ieee_Single
begin

text \<open>
  The pure part of \<open>carcar_navigation/recovery_runtime.hpp\<close> and \<open>.cpp\<close>: freshness of stamps,
  classification of headings and of progress, the choice of a backup distance and of a turn, the
  heading reference of a path and the sweep of the robot's outline over the cost map and the laser
  points. The mathematical library (\<open>libm\<close>), the transform buffer (\<open>tf_env\<close>) and the cost map
  classes of Nav2 (\<open>nav2_env\<close>) are not part of the repository: they are records of functions. A
  \<open>TransformException\<close> is \<open>None\<close>. Texts for people beside a reason code are left out. A conversion
  of a double outside the range of \<open>int\<close>, undefined in C++, is kept unbounded here.
\<close>

subsection \<open>Messages\<close>

record point =
  px :: dbl
  py :: dbl

record quaternion =
  qx :: dbl
  qy :: dbl
  qz :: dbl
  qw :: dbl

record pose =
  p_position :: point
  p_orientation :: quaternion

record pose_stamped =
  ps_frame :: string
  ps_stamp :: time_ns
  ps_pose :: pose

record path =
  pa_frame :: string
  pa_poses :: "pose_stamped list"

record laser_scan =
  sc_frame :: string
  sc_stamp :: time_ns
  sc_angle_min :: dbl
  sc_angle_increment :: dbl
  sc_range_min :: dbl
  sc_range_max :: dbl
  sc_ranges :: "dbl list"

record costmap_msg =
  cm_frame :: string
  cm_stamp :: time_ns
  cm_resolution :: dbl
  cm_size_x :: nat
  cm_size_y :: nat
  cm_origin :: pose
  cm_data :: "nat list"

record polygon_msg =
  fp_frame :: string
  fp_stamp :: time_ns
  fp_points :: "point list"

record transform =
  tr_stamp :: time_ns
  tr_translation :: point
  tr_rotation :: quaternion

subsection \<open>The libraries\<close>

record libm =
  m_sin :: "dbl \<Rightarrow> dbl"
  m_cos :: "dbl \<Rightarrow> dbl"
  m_atan2 :: "dbl \<Rightarrow> dbl \<Rightarrow> dbl"
  m_hypot :: "dbl \<Rightarrow> dbl \<Rightarrow> dbl"

text \<open>\<open>lookupTransform target source time\<close>, where time 0 asks for the latest, \<open>doTransform\<close> and
  \<open>tf2::getYaw\<close>.\<close>

record tf_env =
  tf_lookup :: "string \<Rightarrow> string \<Rightarrow> time_ns \<Rightarrow> transform option"
  tf_apply :: "transform \<Rightarrow> point \<Rightarrow> point"
  tf_yaw :: "quaternion \<Rightarrow> dbl"

record grid =
  g_size_x :: nat
  g_size_y :: nat
  g_resolution :: dbl
  g_data :: "nat list"

record nav2_env =
  n_pad_footprint :: "point list \<Rightarrow> dbl \<Rightarrow> point list"
  n_transform_footprint :: "dbl \<Rightarrow> dbl \<Rightarrow> dbl \<Rightarrow> point list \<Rightarrow> point list"
  n_world_to_map :: "grid \<Rightarrow> point \<Rightarrow> (nat \<times> nat) option"
  n_map_to_world :: "grid \<Rightarrow> nat \<times> nat \<Rightarrow> point"
  n_footprint_cost :: "grid \<Rightarrow> point list \<Rightarrow> dbl"
  n_fill_cells :: "grid \<Rightarrow> (nat \<times> nat) list \<Rightarrow> (nat \<times> nat) list"
  n_cost :: "grid \<Rightarrow> nat \<times> nat \<Rightarrow> nat"

subsection \<open>Freshness, headings and progress\<close>

definition normalize :: "libm \<Rightarrow> dbl \<Rightarrow> dbl" where
  "normalize m a = m_atan2 m (m_sin m a) (m_cos m a)"

definition kRosTimeJitter :: dbl where
  "kRosTimeJitter = fl 0.05"

definition ros_age_fresh :: "dbl \<Rightarrow> dbl \<Rightarrow> dbl \<Rightarrow> bool" where
  "ros_age_fresh age max_age jitter =
     (if \<not> isfinite age \<or> \<not> isfinite max_age \<or> max_age \<le> Fin 0 \<or> \<not> isfinite jitter \<or> jitter < Fin 0
      then False
      else if age < - jitter then False
      else (if age < Fin 0 then Fin 0 else age) \<le> max_age)"

definition fresh_stamp :: "time_ns \<Rightarrow> time_ns \<Rightarrow> time_ns \<Rightarrow> time_ns \<Rightarrow> dbl \<Rightarrow> bool" where
  "fresh_stamp stamp ros_now received steady_now age =
     (if received = 0 \<or> \<not> isfinite age \<or> age \<le> Fin 0 then False
      else ros_age_fresh (secs (ros_now - stamp)) age kRosTimeJitter \<and> secs (steady_now - received) \<le> age)"

definition heading_target_flipped :: "libm \<Rightarrow> dbl \<Rightarrow> dbl \<Rightarrow> dbl \<Rightarrow> bool" where
  "heading_target_flipped m previous_yaw new_yaw threshold \<longleftrightarrow>
     threshold \<le> \<bar>normalize m (new_yaw - previous_yaw)\<bar>"

datatype heading_event = Hold | NewTarget | Oscillating

definition classify_heading_align ::
  "libm \<Rightarrow> bool \<Rightarrow> dbl \<Rightarrow> dbl \<Rightarrow> nat \<Rightarrow> dbl \<Rightarrow> nat \<Rightarrow> heading_event" where
  "classify_heading_align m in_turn previous_target new_target flips_so_far flip_threshold max_flips =
     (if \<not> isfinite previous_target \<or> \<not> isfinite new_target \<or> \<not> isfinite flip_threshold
        \<or> flip_threshold \<le> Fin 0 \<or> max_flips < 1 then Oscillating
      else if \<not> in_turn then NewTarget
      else if \<not> heading_target_flipped m previous_target new_target flip_threshold then Hold
      else if max_flips \<le> flips_so_far + 1 then Oscillating
      else NewTarget)"

record forward_progress_sample =
  fp_displaced :: bool
  fp_plausible :: bool
  fp_forward :: dbl
  fp_lateral :: dbl

definition classify_forward_progress ::
  "libm \<Rightarrow> dbl \<Rightarrow> dbl \<Rightarrow> dbl \<Rightarrow> dbl \<Rightarrow> dbl \<Rightarrow> forward_progress_sample" where
  "classify_forward_progress m dx dy baseline_yaw displacement_threshold max_step =
     (if \<not> isfinite dx \<or> \<not> isfinite dy \<or> \<not> isfinite baseline_yaw \<or> \<not> isfinite displacement_threshold
        \<or> displacement_threshold \<le> Fin 0 \<or> \<not> isfinite max_step \<or> max_step \<le> displacement_threshold
      then \<lparr>fp_displaced = False, fp_plausible = False, fp_forward = Fin 0, fp_lateral = Fin 0\<rparr>
      else let distance = m_hypot m dx dy;
             displaced = (displacement_threshold \<le> distance)
        in \<lparr>fp_displaced = displaced, fp_plausible = displaced \<and> distance \<le> max_step,
          fp_forward = dx * m_cos m baseline_yaw + dy * m_sin m baseline_yaw,
          fp_lateral = - dx * m_sin m baseline_yaw + dy * m_cos m baseline_yaw\<rparr>)"

subsection \<open>Backup distance\<close>

definition kMaxSingleBackupDistance :: dbl where
  "kMaxSingleBackupDistance = fl 0.20"

definition kMaxBackupBudget :: dbl where
  "kMaxBackupBudget = fl 0.40"

definition kMaxBackupSpeed :: dbl where
  "kMaxBackupSpeed = fl 0.05"

definition kMaxBackupTimeAllowance :: dbl where
  "kMaxBackupTimeAllowance = Fin 6"

definition kMinAdaptiveBackupDistance :: dbl where
  "kMinAdaptiveBackupDistance = fl 0.05"

definition kAdaptiveBackupStep :: dbl where
  "kAdaptiveBackupStep = fl 0.025"

definition kRearStoppingClearance :: dbl where
  "kRearStoppingClearance = fl 0.08"

record safety_result =
  sr_ok :: bool
  sr_code :: string

definition safety_ok :: safety_result where
  "safety_ok = \<lparr>sr_ok = True, sr_code = ''NONE''\<rparr>"

definition unsafe :: "string \<Rightarrow> safety_result" where
  "unsafe c = \<lparr>sr_ok = False, sr_code = c\<rparr>"

record backup_selection =
  bs_ok :: bool
  bs_requested :: dbl
  bs_selected :: dbl
  bs_swept_distance :: dbl
  bs_result :: safety_result

definition refused :: "dbl \<Rightarrow> safety_result \<Rightarrow> backup_selection" where
  "refused requested r = \<lparr>bs_ok = False, bs_requested = requested, bs_selected = Fin 0,
     bs_swept_distance = Fin 0, bs_result = r\<rparr>"

text \<open>A double converted to \<open>int\<close> after \<open>std::floor\<close> or \<open>std::ceil\<close>.\<close>

fun floor_int :: "dbl \<Rightarrow> int" where
  "floor_int (Fin q) = \<lfloor>q\<rfloor>"
| "floor_int _ = 0"

fun ceil_int :: "dbl \<Rightarrow> int" where
  "ceil_int (Fin q) = \<lceil>q\<rceil>"
| "ceil_int _ = 0"

text \<open>The loop from the longest distance down to the shortest; the argument is \<open>i + 1\<close>.\<close>

fun try_distances ::
  "(dbl \<Rightarrow> safety_result) \<Rightarrow> dbl \<Rightarrow> dbl \<Rightarrow> dbl \<Rightarrow> dbl \<Rightarrow> nat \<Rightarrow> safety_result \<Rightarrow> backup_selection" where
  "try_distances check minimum step clearance requested 0 latest = refused requested latest"
| "try_distances check minimum step clearance requested (Suc i) latest =
     (let distance = minimum + i2d (int i) * step; result = check (distance + clearance)
      in if sr_ok result then \<lparr>bs_ok = True, bs_requested = requested, bs_selected = distance,
           bs_swept_distance = distance + clearance, bs_result = result\<rparr>
         else try_distances check minimum step clearance requested i result)"

definition backup_limit :: "dbl \<Rightarrow> dbl \<Rightarrow> dbl" where
  "backup_limit requested remaining_budget = dmin (dmin requested remaining_budget) kMaxSingleBackupDistance"

definition backup_count :: "dbl \<Rightarrow> dbl \<Rightarrow> dbl \<Rightarrow> int" where
  "backup_count limit minimum step = floor_int ((limit - minimum + fl (1 / 1000000000)) / step)"

definition select_backup_distance ::
  "dbl \<Rightarrow> dbl \<Rightarrow> (dbl \<Rightarrow> safety_result) option \<Rightarrow> dbl \<Rightarrow> dbl \<Rightarrow> dbl \<Rightarrow> backup_selection" where
  "select_backup_distance requested remaining_budget check minimum step clearance =
     (case check of
        None \<Rightarrow> refused requested (unsafe ''INVALID_PARAMETER'')
      | Some check \<Rightarrow>
          if \<not> isfinite requested \<or> \<not> isfinite remaining_budget \<or> \<not> isfinite minimum \<or> \<not> isfinite step
            \<or> \<not> isfinite clearance \<or> requested \<le> Fin 0 \<or> remaining_budget \<le> Fin 0 \<or> minimum \<le> Fin 0
            \<or> step \<le> Fin 0 \<or> clearance < Fin 0
          then refused requested (unsafe ''INVALID_PARAMETER'')
          else let count = backup_count (backup_limit requested remaining_budget) minimum step
            in if count < 0 then refused requested (unsafe ''BUDGET_EXHAUSTED'')
               else try_distances check minimum step clearance requested (nat count + 1)
                 (unsafe ''NO_SAFE_DISTANCE''))"

subsection \<open>Choice of a turn\<close>

record spin_candidate =
  sp_valid :: bool
  sp_angle :: dbl
  sp_forward_clearance :: dbl
  sp_path_error :: dbl

definition clearance_bucket :: "spin_candidate \<Rightarrow> int" where
  "clearance_bucket c = floor_int ((sp_forward_clearance c + fl (1 / 1000000000)) / fl 0.05)"

definition turn_direction :: "spin_candidate \<Rightarrow> int" where
  "turn_direction c = (if Fin 0 \<le> sp_angle c then 1 else - 1)"

definition better_spin_candidate :: "spin_candidate \<Rightarrow> spin_candidate \<Rightarrow> int \<Rightarrow> bool" where
  "better_spin_candidate candidate current preferred_direction =
     (if \<not> sp_valid candidate then False
      else if \<not> sp_valid current then True
      else if clearance_bucket candidate \<noteq> clearance_bucket current
        then clearance_bucket current < clearance_bucket candidate
      else if fl (1 / 1000000) < \<bar>sp_path_error candidate - sp_path_error current\<bar>
        then sp_path_error candidate < sp_path_error current
      else if fl (1 / 1000000) < \<bar>\<bar>sp_angle candidate\<bar> - \<bar>sp_angle current\<bar>\<bar>
        then \<bar>sp_angle candidate\<bar> < \<bar>sp_angle current\<bar>
      else if turn_direction candidate = turn_direction current then False
      else if preferred_direction \<noteq> 0 then turn_direction candidate = preferred_direction
      else 0 < turn_direction candidate)"

subsection \<open>Heading reference\<close>

record heading_ref =
  hr_valid :: bool
  hr_yaw :: dbl
  hr_error :: dbl
  hr_segment :: nat

definition path_point :: "pose_stamped \<Rightarrow> point" where
  "path_point p = p_position (ps_pose p)"

text \<open>The foot of the perpendicular on a segment, clamped to it, and its distance.\<close>

definition project :: "libm \<Rightarrow> dbl \<Rightarrow> dbl \<Rightarrow> point \<Rightarrow> point \<Rightarrow> dbl \<times> dbl" where
  "project m x y a b =
     (let dx = px b - px a; dy = py b - py a; len2 = dx * dx + dy * dy;
        t = (if fl (1 / 1000000000000) < len2
          then dclamp (((x - px a) * dx + (y - py a) * dy) / len2) (Fin 0) (Fin 1) else Fin 0)
      in (t, m_hypot m (x - px a - t * dx) (y - py a - t * dy)))"

fun nearest_segment ::
  "libm \<Rightarrow> dbl \<Rightarrow> dbl \<Rightarrow> nat \<Rightarrow> point list \<Rightarrow> dbl \<times> dbl \<times> nat \<Rightarrow> dbl \<times> dbl \<times> nat" where
  "nearest_segment m x y i (a # b # rest) (best, projection, index) =
     (let (t, d) = project m x y a b in
      nearest_segment m x y (Suc i) (b # rest)
        (if d < best then (d, t, i) else (best, projection, index)))"
| "nearest_segment m x y i _ acc = acc"

fun lookahead_point :: "libm \<Rightarrow> dbl \<Rightarrow> dbl \<Rightarrow> point list \<Rightarrow> point option" where
  "lookahead_point m t remaining (a # b # rest) =
     (let len = m_hypot m (px b - px a) (py b - py a) in
      if remaining \<le> len * (Fin 1 - t) \<and> fl (1 / 1000000000) < len
      then let t = t + remaining / len in
        Some \<lparr>px = px a + t * (px b - px a), py = py a + t * (py b - py a)\<rparr>
      else lookahead_point m (Fin 0) (remaining - len * (Fin 1 - t)) (b # rest))"
| "lookahead_point m t remaining _ = None"

definition heading_reference ::
  "libm \<Rightarrow> (quaternion \<Rightarrow> dbl) \<Rightarrow> pose_stamped \<Rightarrow> path \<Rightarrow> pose_stamped \<Rightarrow> dbl \<Rightarrow> heading_ref" where
  "heading_reference m get_yaw pose path goal lookahead =
     (if pa_poses path = [] \<or> pa_frame path \<noteq> ps_frame pose
      then \<lparr>hr_valid = False, hr_yaw = Fin 0, hr_error = Fin 0, hr_segment = 0\<rparr>
      else let x = px (path_point pose); y = py (path_point pose);
             points = map path_point (pa_poses path);
             (best, projection, index) = nearest_segment m x y 0 points (PInf, Fin 0, 0);
             target = (case lookahead_point m projection lookahead (drop index points) of
               None \<Rightarrow> last points | Some p \<Rightarrow> p);
             yaw = (if m_hypot m (px (last points) - x) (py (last points) - y) < fl 0.10
                 \<and> ps_frame goal = ps_frame pose
               then get_yaw (p_orientation (ps_pose goal))
               else m_atan2 m (py target - y) (px target - x));
             error = normalize m (yaw - get_yaw (p_orientation (ps_pose pose)))
        in \<lparr>hr_valid = isfinite yaw \<and> isfinite error, hr_yaw = yaw, hr_error = error, hr_segment = index\<rparr>)"

subsection \<open>The longest distance that passes\<close>

lemma try_distances_ok:
  assumes "s = try_distances check minimum step clearance requested n r" "bs_ok s"
  shows "\<exists>i<n. bs_selected s = minimum + i2d (int i) * step \<and>
    bs_swept_distance s = bs_selected s + clearance \<and> sr_ok (check (bs_swept_distance s)) \<and>
    (\<forall>j. i < j \<and> j < n \<longrightarrow> \<not> sr_ok (check (minimum + i2d (int j) * step + clearance)))"
  using assms
proof (induction n arbitrary: r)
  case (Suc n)
  let ?r = "check (minimum + i2d (int n) * step + clearance)"
  show ?case
  proof (cases "sr_ok ?r")
    case True
    then show ?thesis using Suc.prems by (intro exI [of _ n]) (auto simp: Let_def)
  next
    case False
    then have s: "s = try_distances check minimum step clearance requested n ?r"
      using Suc.prems(1) by (simp add: Let_def)
    obtain i where i: "i < n" "bs_selected s = minimum + i2d (int i) * step"
      "bs_swept_distance s = bs_selected s + clearance" "sr_ok (check (bs_swept_distance s))"
      "\<forall>j. i < j \<and> j < n \<longrightarrow> \<not> sr_ok (check (minimum + i2d (int j) * step + clearance))"
      using Suc.IH [OF s Suc.prems(2)] by blast
    have "\<forall>j. i < j \<and> j < Suc n \<longrightarrow> \<not> sr_ok (check (minimum + i2d (int j) * step + clearance))"
      using i(5) False by (metis less_SucE)
    then show ?thesis using i by (intro exI [of _ i]) simp
  qed
qed (simp add: refused_def)

lemma try_distances_fails:
  "bs_ok (try_distances check minimum step clearance requested n r) \<or>
   (\<forall>i<n. \<not> sr_ok (check (minimum + i2d (int i) * step + clearance)))"
  by (induction n arbitrary: r) (auto simp: Let_def less_Suc_eq)

lemma floor_int_mono: "a \<le> b \<Longrightarrow> isfinite a \<Longrightarrow> isfinite b \<Longrightarrow> floor_int a \<le> floor_int b"
  by (cases a; cases b) (auto intro: floor_mono)

lemma dbl_between: "a \<le> b \<Longrightarrow> b \<le> c \<Longrightarrow> isfinite a \<Longrightarrow> isfinite c \<Longrightarrow> isfinite b"
  by (cases a; cases b; cases c) auto

lemma select_default_bound:
  assumes t: "0 < t" "Fin t \<le> kMaxSingleBackupDistance"
    and i: "int i \<le> backup_count (Fin t) kMinAdaptiveBackupDistance kAdaptiveBackupStep"
  shows "\<exists>q. kMinAdaptiveBackupDistance + i2d (int i) * kAdaptiveBackupStep = Fin q \<and>
    kMinAdaptiveBackupDistance \<le> Fin q \<and> q \<le> t + 2 / 1000000000"
proof -
  define \<delta> where "\<delta> = eps64"
  note d = eps64 [folded \<delta>_def]
  note near = fl_near [folded \<delta>_def]
  obtain m where m: "kMinAdaptiveBackupDistance = Fin m" "\<bar>m - 5 / 100\<bar> \<le> \<delta>"
    using near [of "5 / 100"] by (auto simp: kMinAdaptiveBackupDistance_def)
  obtain s where s: "kAdaptiveBackupStep = Fin s" "\<bar>s - 25 / 1000\<bar> \<le> \<delta>"
    using near [of "25 / 1000"] by (auto simp: kAdaptiveBackupStep_def)
  obtain M where M: "kMaxSingleBackupDistance = Fin M" "\<bar>M - 20 / 100\<bar> \<le> \<delta>"
    using near [of "20 / 100"] by (auto simp: kMaxSingleBackupDistance_def)
  obtain e where e: "fl (1 / 1000000000) = Fin e" "\<bar>e - 1 / 1000000000\<bar> \<le> \<delta>"
    using near [of "1 / 1000000000"] by auto
  have tM: "t \<le> M" using t(2) by (simp add: M(1))
  obtain x1 where x1: "fl (t - m) = Fin x1" "\<bar>x1 - (t - m)\<bar> \<le> \<delta>"
    using near [of "t - m"] t(1) tM m(2) M(2) d by (auto simp: abs_le_iff)
  obtain x2 where x2: "fl (x1 + e) = Fin x2" "\<bar>x2 - (x1 + e)\<bar> \<le> \<delta>"
    using near [of "x1 + e"] x1(2) e(2) t(1) tM m(2) M(2) d by (auto simp: abs_le_iff)
  have s0: "0 < s" using s(2) d by linarith
  have "\<bar>x2 / s\<bar> \<le> 8"
    using x1(2) x2(2) e(2) t(1) tM m(2) M(2) s(2) d s0 by (simp add: abs_le_iff field_simps)
  then obtain x3 where x3: "fl (x2 / s) = Fin x3" "\<bar>x3 - x2 / s\<bar> \<le> \<delta>"
    using near by blast
  have "backup_count (Fin t) kMinAdaptiveBackupDistance kAdaptiveBackupStep = \<lfloor>x3\<rfloor>"
    unfolding backup_count_def m(1) s(1) e(1) using s0 by (simp add: x1(1) x2(1) x3(1))
  then have "rat_of_nat i \<le> x3" using i by (simp add: le_floor_iff)
  then have "rat_of_nat i \<le> x2 / s + \<delta>" using x3(2) by linarith
  then have "rat_of_nat i * s \<le> (x2 / s + \<delta>) * s" using s0 by (intro mult_right_mono) auto
  then have isb: "rat_of_nat i * s \<le> x2 + \<delta> * s" using s0 by (simp add: distrib_right)
  have ds: "\<delta> * s \<le> \<delta>" using s(2) d by (simp add: mult_le_cancel_left1)
  have small: "rat_of_nat i * s \<le> 1"
    using isb ds x1(2) x2(2) e(2) tM m(2) M(2) d by linarith
  have nn: "0 \<le> rat_of_nat i * s" using s0 by simp
  have i100: "i < 100"
  proof (rule ccontr)
    assume "\<not> i < 100"
    then have "100 * s \<le> rat_of_nat i * s" using s0 by (intro mult_right_mono) auto
    then show False using small s(2) d by linarith
  qed
  obtain p where p: "fl (rat_of_nat i * s) = Fin p" "\<bar>p - rat_of_nat i * s\<bar> \<le> \<delta>"
    using near [of "rat_of_nat i * s"] small nn by auto
  have p0: "0 \<le> p" using p(1) nn fl_mono [OF nn] by simp
  obtain q where q: "fl (m + p) = Fin q" "\<bar>q - (m + p)\<bar> \<le> \<delta>"
    using near [of "m + p"] p small nn m(2) d by (auto simp: abs_le_iff)
  have "i2d (int i) = Fin (rat_of_nat i)" using i2d_small [of "int i"] i100 by simp
  then have eq: "kMinAdaptiveBackupDistance + i2d (int i) * kAdaptiveBackupStep = Fin q"
    by (simp add: m(1) s(1) p(1) q(1))
  have "is_double (Fin m)" using m(1) by (metis is_double_fl_result kMinAdaptiveBackupDistance_def)
  then have "Fin m \<le> Fin m + Fin p" by (rule is_double_add) (use p0 in auto)
  then have "m \<le> q" by (simp add: q(1))
  moreover have "q \<le> t + 2 / 1000000000"
    using q(2) p(2) isb ds x1(2) x2(2) e(2) d by linarith
  ultimately show ?thesis using eq unfolding m(1) by simp
qed


text \<open>The default grid, and the guards its constants pass.\<close>

definition grid_distance :: "nat \<Rightarrow> dbl" where
  "grid_distance i = kMinAdaptiveBackupDistance + i2d (int i) * kAdaptiveBackupStep"

lemma default_guards:
  "isfinite kMinAdaptiveBackupDistance" "isfinite kAdaptiveBackupStep" "isfinite kRearStoppingClearance"
  "\<not> kMinAdaptiveBackupDistance \<le> Fin 0" "\<not> kAdaptiveBackupStep \<le> Fin 0" "\<not> kRearStoppingClearance < Fin 0"
  subgoal by code_simp
  subgoal by code_simp
  subgoal by code_simp
  subgoal by code_simp
  subgoal by code_simp
  subgoal by code_simp
  done

lemma backup_limit_Fin:
  assumes "0 < r" "0 < b"
  shows "\<exists>t. backup_limit (Fin r) (Fin b) = Fin t \<and> 0 < t \<and> t \<le> r \<and> t \<le> b \<and> Fin t \<le> kMaxSingleBackupDistance"
proof -
  obtain M where M: "kMaxSingleBackupDistance = Fin M" "\<bar>M - 20 / 100\<bar> \<le> eps64"
    using fl_near [of "20 / 100"] by (auto simp: kMaxSingleBackupDistance_def)
  then have "0 < M" using eps64 by linarith
  then show ?thesis using assms by (auto simp: backup_limit_def dmin_def M(1))
qed

lemma select_default:
  assumes "0 < r" "0 < b"
    "s = select_backup_distance (Fin r) (Fin b) (Some check) kMinAdaptiveBackupDistance
       kAdaptiveBackupStep kRearStoppingClearance"
    "count = backup_count (backup_limit (Fin r) (Fin b)) kMinAdaptiveBackupDistance kAdaptiveBackupStep"
  shows "s = (if count < 0 then refused (Fin r) (unsafe ''BUDGET_EXHAUSTED'')
     else try_distances check kMinAdaptiveBackupDistance kAdaptiveBackupStep kRearStoppingClearance (Fin r)
       (nat count + 1) (unsafe ''NO_SAFE_DISTANCE''))"
  using assms(1,2) default_guards by (simp add: assms(3,4) select_backup_distance_def Let_def)

lemma selected_spec:
  assumes "0 < r" "0 < b"
    "s = select_backup_distance (Fin r) (Fin b) (Some check) kMinAdaptiveBackupDistance
       kAdaptiveBackupStep kRearStoppingClearance"
    "count = backup_count (backup_limit (Fin r) (Fin b)) kMinAdaptiveBackupDistance kAdaptiveBackupStep"
    "bs_ok s"
  shows "\<exists>i q. int i \<le> count \<and> bs_selected s = grid_distance i \<and>
       sr_ok (check (bs_selected s + kRearStoppingClearance)) \<and>
       (\<forall>j. i < j \<and> int j \<le> count \<longrightarrow> \<not> sr_ok (check (grid_distance j + kRearStoppingClearance))) \<and>
       bs_selected s = Fin q \<and> kMinAdaptiveBackupDistance \<le> Fin q \<and>
       q \<le> r + 2 / 1000000000 \<and> q \<le> b + 2 / 1000000000 \<and> Fin (q - 2 / 1000000000) \<le> kMaxSingleBackupDistance"
proof -
  obtain t where t: "backup_limit (Fin r) (Fin b) = Fin t" "0 < t" "t \<le> r" "t \<le> b"
    "Fin t \<le> kMaxSingleBackupDistance"
    using backup_limit_Fin [OF assms(1,2)] by blast
  have nn: "\<not> count < 0" using select_default [OF assms(1-4)] assms(5) by (auto simp: refused_def)
  then have lt: "i < nat count + 1 \<longleftrightarrow> int i \<le> count" for i by auto
  have "s = try_distances check kMinAdaptiveBackupDistance kAdaptiveBackupStep kRearStoppingClearance
       (Fin r) (nat count + 1) (unsafe ''NO_SAFE_DISTANCE'')"
    using select_default [OF assms(1-4)] nn by simp
  from try_distances_ok [OF this assms(5)] obtain i where i: "int i \<le> count" "bs_selected s = grid_distance i"
    "sr_ok (check (bs_selected s + kRearStoppingClearance))"
    "\<forall>j. i < j \<and> int j \<le> count \<longrightarrow> \<not> sr_ok (check (grid_distance j + kRearStoppingClearance))"
    unfolding lt grid_distance_def by metis
  obtain q where q: "grid_distance i = Fin q" "kMinAdaptiveBackupDistance \<le> Fin q" "q \<le> t + 2 / 1000000000"
    using select_default_bound [OF t(2,5)] i(1) by (auto simp: assms(4) t(1) grid_distance_def)
  have "Fin (q - 2 / 1000000000) \<le> Fin t" using q(3) by simp
  then have "Fin (q - 2 / 1000000000) \<le> kMaxSingleBackupDistance" using t(5) by (rule dbl_le_trans)
  moreover have "q \<le> r + 2 / 1000000000" "q \<le> b + 2 / 1000000000" using q(3) t(3,4) by linarith+
  ultimately show ?thesis using i q(1,2) by metis
qed

text \<open>Choosing how far to back up, with the default grid: a distance is found exactly when some
  distance of the grid within the limit passes the check together with the stopping clearance, and the
  one chosen is the longest that does, at least the minimum, and exceeds neither the request nor the
  remaining budget nor the single maximum by more than two nanometres.\<close>
theorem select_backup_distance_longest:
  assumes "0 < r" "0 < b"
    "s = select_backup_distance (Fin r) (Fin b) (Some check) kMinAdaptiveBackupDistance
       kAdaptiveBackupStep kRearStoppingClearance"
    "count = backup_count (backup_limit (Fin r) (Fin b)) kMinAdaptiveBackupDistance kAdaptiveBackupStep"
  shows "(bs_ok s \<longleftrightarrow> (\<exists>i. int i \<le> count \<and> sr_ok (check (grid_distance i + kRearStoppingClearance)))) \<and>
    (bs_ok s \<longrightarrow> (\<exists>i q. int i \<le> count \<and> bs_selected s = grid_distance i \<and>
       sr_ok (check (bs_selected s + kRearStoppingClearance)) \<and>
       (\<forall>j. i < j \<and> int j \<le> count \<longrightarrow> \<not> sr_ok (check (grid_distance j + kRearStoppingClearance))) \<and>
       bs_selected s = Fin q \<and> kMinAdaptiveBackupDistance \<le> Fin q \<and>
       q \<le> r + 2 / 1000000000 \<and> q \<le> b + 2 / 1000000000 \<and> Fin (q - 2 / 1000000000) \<le> kMaxSingleBackupDistance))"
proof -
  have none: "\<not> sr_ok (check (grid_distance i + kRearStoppingClearance))"
    if "\<not> bs_ok s" "int i \<le> count" for i
  proof -
    have "s = try_distances check kMinAdaptiveBackupDistance kAdaptiveBackupStep kRearStoppingClearance
       (Fin r) (nat count + 1) (unsafe ''NO_SAFE_DISTANCE'')"
      using select_default [OF assms] that(2) by simp
    then show ?thesis
      using try_distances_fails [of check kMinAdaptiveBackupDistance kAdaptiveBackupStep
          kRearStoppingClearance "Fin r" "nat count + 1" "unsafe ''NO_SAFE_DISTANCE''"] that
      by (auto simp: grid_distance_def)
  qed
  then show ?thesis using selected_spec [OF assms] by metis
qed

theorem select_backup_distance_longest_witness:
  "bs_ok (select_backup_distance (Fin (1 / 8)) (Fin (1 / 4)) (Some (\<lambda>d. \<lparr>sr_ok = True, sr_code = []\<rparr>))
     kMinAdaptiveBackupDistance kAdaptiveBackupStep kRearStoppingClearance)"
proof -
  have "0 \<le> backup_count (backup_limit (Fin (1 / 8)) (Fin (1 / 4))) kMinAdaptiveBackupDistance kAdaptiveBackupStep"
    by code_simp
  then have "\<exists>i. int i \<le> backup_count (backup_limit (Fin (1 / 8)) (Fin (1 / 4))) kMinAdaptiveBackupDistance
     kAdaptiveBackupStep" by (intro exI [of _ 0]) simp
  then show ?thesis
    using select_backup_distance_longest [of "1 / 8" "1 / 4" _ "\<lambda>d. \<lparr>sr_ok = True, sr_code = []\<rparr>", OF _ _ refl refl]
    by simp
qed

subsection \<open>Turns\<close>

lemma dbl_minus_commute: "\<bar>a - b\<bar> = \<bar>b - a\<bar>" for a b :: dbl
proof (cases "isfinite a \<and> isfinite b")
  case True
  then obtain p q where "a = Fin p" "b = Fin q" by (auto simp: isfinite_iff)
  moreover have "rnd64 (q - p) = - rnd64 (p - q)"
    using r64.odd_fun [of "p - q"] by simp
  then have "\<bar>fl (p - q)\<bar> = \<bar>fl (q - p)\<bar>"
    using overflow64_pos(1) by (auto simp: fl_alt Let_def)
  ultimately show ?thesis by simp
next
  case False
  then show ?thesis by (cases a; cases b) (simp_all add: minus_dbl_def)
qed

lemma dbl_less_asym: "a < b \<Longrightarrow> \<not> b < (a::dbl)"
  by (cases a; cases b) auto

text \<open>The comparison of two turns is asymmetric, so no pair of candidates is each better than the
  other; a better candidate is always a valid one, and among valid candidates it never has fewer
  five-centimetre steps of free space ahead.\<close>
theorem better_spin_asymmetric:
  "better_spin_candidate a b d \<longrightarrow> \<not> better_spin_candidate b a d \<and> sp_valid a \<and>
     (sp_valid b \<longrightarrow> clearance_bucket b \<le> clearance_bucket a)"
proof -
  have dir: "turn_direction c = 1 \<or> turn_direction c = - 1" for c by (simp add: turn_direction_def)
  note comm = dbl_minus_commute [of "sp_path_error b" "sp_path_error a"]
    dbl_minus_commute [of "\<bar>sp_angle b\<bar>" "\<bar>sp_angle a\<bar>"]
  show ?thesis
    using dir [of a] dir [of b]
    by (auto simp: better_spin_candidate_def comm dest: dbl_less_asym split: if_split_asm)
qed


definition demo_turn :: "dbl \<Rightarrow> dbl \<Rightarrow> spin_candidate" where
  "demo_turn a c = \<lparr>sp_valid = True, sp_angle = a, sp_forward_clearance = c, sp_path_error = Fin 0\<rparr>"

theorem better_spin_asymmetric_witness:
  "better_spin_candidate (demo_turn (Fin 1) (fl 0.1)) (demo_turn (Fin (- 1)) (fl 0.1)) 0 \<and>
   \<not> better_spin_candidate (demo_turn (Fin (- 1)) (fl 0.1)) (demo_turn (Fin 1) (fl 0.1)) 0"
proof -
  have "better_spin_candidate (demo_turn (Fin 1) (fl 0.1)) (demo_turn (Fin (- 1)) (fl 0.1)) 0"
    by code_simp
  then show ?thesis using better_spin_asymmetric by blast
qed

subsection \<open>The nearest segment\<close>

definition segment_distance :: "libm \<Rightarrow> dbl \<Rightarrow> dbl \<Rightarrow> point list \<Rightarrow> nat \<Rightarrow> dbl" where
  "segment_distance m x y ps j = snd (project m x y (ps ! j) (ps ! Suc j))"

lemma nearest_segment_min:
  assumes "nearest_segment m x y i ps (best, t, k) = (best', t', k')"
  shows "(best' = best \<and> k' = k \<or> (\<exists>j. Suc j < length ps \<and> k' = i + j \<and> best' = segment_distance m x y ps j \<and> best' < best)) \<and>
    (\<forall>j. Suc j < length ps \<longrightarrow> \<not> segment_distance m x y ps j < best')"
  using assms
proof (induction m x y i ps "(best, t, k)" arbitrary: best t k rule: nearest_segment.induct)
  case (1 m x y i a b rest best t k)
  obtain t0 d where p: "project m x y a b = (t0, d)" by (cases "project m x y a b")
  define acc where "acc = (if d < best then (d, t0, i) else (best, t, k))"
  obtain b1 t1 k1 where acc: "acc = (b1, t1, k1)" by (cases acc)
  have "nearest_segment m x y (Suc i) (b # rest) (b1, t1, k1) = (best', t', k')"
    using "1.prems" by (simp add: p acc_def [symmetric] acc)
  then have IH: "(best' = b1 \<and> k' = k1 \<or> (\<exists>j. Suc j < length (b # rest) \<and> k' = Suc i + j \<and>
      best' = segment_distance m x y (b # rest) j \<and> best' < b1)) \<and>
    (\<forall>j. Suc j < length (b # rest) \<longrightarrow> \<not> segment_distance m x y (b # rest) j < best')"
    using "1.hyps" [OF p [symmetric] refl] acc acc_def by (metis (no_types, lifting))
  have d0: "segment_distance m x y (a # b # rest) 0 = d"
    "\<And>j. segment_distance m x y (a # b # rest) (Suc j) = segment_distance m x y (b # rest) j"
    by (simp_all add: segment_distance_def p)
  have tr: "d < best" if "d < best'" "best' < best"
    using that dbl_less_imp_le dbl_less_le_trans by blast
  show ?case
  proof (cases "d < best")
    case True
    then have b1: "b1 = d" "k1 = i" using acc by (simp_all add: acc_def)
    from IH consider "best' = d" "k' = i"
      | j where "Suc j < length (b # rest)" "k' = Suc i + j" "best' = segment_distance m x y (b # rest) j" "best' < d"
      unfolding b1 by blast
    then have "(\<exists>j. Suc j < length (a # b # rest) \<and> k' = i + j \<and>
      best' = segment_distance m x y (a # b # rest) j \<and> best' < best) \<and> \<not> d < best'"
    proof cases
      case 1
      have "\<not> d < best'" using 1 by (cases d) auto
      then show ?thesis using 1 True d0 by (intro conjI exI [of _ 0]) simp_all
    next
      case (2 j)
      then have "\<not> d < best'" "best' < best"
        using True dbl_less_asym dbl_less_imp_le dbl_less_le_trans by blast+
      then show ?thesis using 2 d0 by (intro conjI exI [of _ "Suc j"]) simp_all
    qed
    then show ?thesis using IH d0 by (metis Suc_less_eq length_Cons not0_implies_Suc)
  next
    case False
    then have b1: "b1 = best" "k1 = k" using acc by (simp_all add: acc_def)
    have "\<not> d < best'" using IH False tr unfolding b1 by blast
    moreover have "best' = best \<and> k' = k \<or> (\<exists>j. Suc j < length (a # b # rest) \<and> k' = i + j \<and>
      best' = segment_distance m x y (a # b # rest) j \<and> best' < best)"
      using IH d0(2) unfolding b1 by (metis Suc_less_eq add_Suc_shift length_Cons)
    ultimately show ?thesis using IH d0 by (metis Suc_less_eq length_Cons not0_implies_Suc)
  qed
qed (auto simp: segment_distance_def)


text \<open>A heading reference that is marked valid is finite, comes from a non-empty path in the
  frame of the pose, and is taken from a segment of that path such that no other segment is nearer to
  the robot.\<close>
theorem heading_reference_nearest:
  assumes "hr = heading_reference m get_yaw pose path goal lookahead" "hr_valid hr"
  shows "isfinite (hr_yaw hr) \<and> isfinite (hr_error hr) \<and> pa_poses path \<noteq> [] \<and>
    pa_frame path = ps_frame pose \<and>
    (\<forall>j. Suc j < length (pa_poses path) \<longrightarrow> Suc (hr_segment hr) < length (pa_poses path) \<and>
      \<not> segment_distance m (px (path_point pose)) (py (path_point pose)) (map path_point (pa_poses path)) j
        < segment_distance m (px (path_point pose)) (py (path_point pose)) (map path_point (pa_poses path))
            (hr_segment hr))"
proof -
  define x y ps where "x = px (path_point pose)" "y = py (path_point pose)" "ps = map path_point (pa_poses path)"
  obtain b t k where n: "nearest_segment m x y 0 ps (PInf, Fin 0, 0) = (b, t, k)"
    by (rule prod_cases3)
  have g: "pa_poses path \<noteq> []" "pa_frame path = ps_frame pose"
    using assms by (auto simp: heading_reference_def split: if_split_asm)
  have hr: "hr_segment hr = k" "isfinite (hr_yaw hr)" "isfinite (hr_error hr)"
    using assms g n by (simp_all add: heading_reference_def Let_def x_y_ps_def)
  note min = nearest_segment_min [OF n]
  have "Suc k < length ps \<and> \<not> segment_distance m x y ps j < segment_distance m x y ps k"
    if j: "Suc j < length ps" for j
    using min
  proof (elim conjE disjE exE)
    assume "b = PInf" "k = 0" and f: "\<forall>j. Suc j < length ps \<longrightarrow> \<not> segment_distance m x y ps j < b"
    then have "\<not> segment_distance m x y ps j < PInf" using j by simp
    then have "\<not> segment_distance m x y ps j < d" for d
      by (cases "segment_distance m x y ps j"; cases d) simp_all
    then show ?thesis using j \<open>k = 0\<close> by simp
  next
    fix j' assume "Suc j' < length ps" "k = 0 + j'" "b = segment_distance m x y ps j'"
      "\<forall>j. Suc j < length ps \<longrightarrow> \<not> segment_distance m x y ps j < b"
    then show ?thesis using j by simp
  qed
  then show ?thesis using g hr by (simp add: x_y_ps_def)
qed


definition demo_libm :: libm where
  "demo_libm = \<lparr>m_sin = (\<lambda>_. Fin 0), m_cos = (\<lambda>_. Fin 1), m_atan2 = (\<lambda>_ _. Fin 0), m_hypot = (\<lambda>_ _. Fin 1)\<rparr>"

definition demo_stamped :: "rat \<Rightarrow> rat \<Rightarrow> pose_stamped" where
  "demo_stamped x y = \<lparr>ps_frame = ''map'', ps_stamp = 1, ps_pose = \<lparr>p_position = \<lparr>px = Fin x, py = Fin y\<rparr>,
     p_orientation = \<lparr>qx = Fin 0, qy = Fin 0, qz = Fin 0, qw = Fin 1\<rparr>\<rparr>\<rparr>"

definition demo_path :: path where
  "demo_path = \<lparr>pa_frame = ''map'', pa_poses = [demo_stamped 0 0, demo_stamped 1 0, demo_stamped 2 0]\<rparr>"

definition demo_ref :: heading_ref where
  "demo_ref = heading_reference demo_libm (\<lambda>_. Fin 0) (demo_stamped 1 1) demo_path (demo_stamped 2 0) (Fin 1)"

theorem heading_reference_nearest_witness:
  "isfinite (hr_yaw demo_ref) \<and> Suc (hr_segment demo_ref) < 3"
proof -
  have "hr_valid demo_ref"
    by (simp add: demo_ref_def heading_reference_def demo_path_def demo_stamped_def demo_libm_def
      normalize_def Let_def case_prod_beta)
  moreover have "length (pa_poses demo_path) = 3" by (simp add: demo_path_def)
  ultimately show ?thesis
    using heading_reference_nearest [OF demo_ref_def] by (metis Suc_1 lessI numeral_2_eq_2 numeral_3_eq_3)
qed

end
