(* ===== verification/Swept_Clearance.thy ===== *)
theory Swept_Clearance
  imports Recovery_Geometry
begin

text \<open>
  The safety check before every recovery motion, \<open>swept_pose_clear\<close> of \<open>recovery_runtime.cpp\<close>, with
  the laser points and the sensor cache it reads: the robot's outline is moved along the intended
  motion in small steps, and every step is tested against the local cost map and the scan.
\<close>

subsection \<open>Sensors\<close>

record sensor_snapshot =
  sn_costmap :: "costmap_msg option"
  sn_scan :: "laser_scan option"
  sn_footprint :: "polygon_msg option"
  sn_costmap_received :: time_ns
  sn_scan_received :: time_ns
  sn_footprint_received :: time_ns
  sn_costmap_count :: nat
  sn_scan_count :: nat
  sn_footprint_count :: nat

definition snapshot_init :: sensor_snapshot where
  "snapshot_init = \<lparr>sn_costmap = None, sn_scan = None, sn_footprint = None, sn_costmap_received = 0,
     sn_scan_received = 0, sn_footprint_received = 0, sn_costmap_count = 0, sn_scan_count = 0,
     sn_footprint_count = 0\<rparr>"

definition on_costmap :: "costmap_msg \<Rightarrow> time_ns \<Rightarrow> sensor_snapshot \<Rightarrow> sensor_snapshot" where
  "on_costmap msg now s = s\<lparr>sn_costmap := Some msg, sn_costmap_received := now,
     sn_costmap_count := sn_costmap_count s + 1\<rparr>"

definition on_scan_msg :: "laser_scan \<Rightarrow> time_ns \<Rightarrow> sensor_snapshot \<Rightarrow> sensor_snapshot" where
  "on_scan_msg msg now s = s\<lparr>sn_scan := Some msg, sn_scan_received := now,
     sn_scan_count := sn_scan_count s + 1\<rparr>"

definition on_footprint :: "polygon_msg \<Rightarrow> time_ns \<Rightarrow> sensor_snapshot \<Rightarrow> sensor_snapshot" where
  "on_footprint msg now s = s\<lparr>sn_footprint := Some msg, sn_footprint_received := now,
     sn_footprint_count := sn_footprint_count s + 1\<rparr>"

subsection \<open>Laser points\<close>

definition scan_point :: "libm \<Rightarrow> laser_scan \<Rightarrow> nat \<Rightarrow> dbl \<Rightarrow> point" where
  "scan_point m scan i r =
     (let a = splus (sc_angle_min scan) (stimes (fl32 (of_nat i)) (sc_angle_increment scan))
      in \<lparr>px = r * m_cos m a, py = r * m_sin m a\<rparr>)"

definition in_range :: "laser_scan \<Rightarrow> dbl \<Rightarrow> bool" where
  "in_range scan r \<longleftrightarrow> isfinite r \<and> \<not> r < sc_range_min scan \<and> \<not> sc_range_max scan < r"

text \<open>The flag \<open>usable\<close> and the points collected, in the frame \<open>base\<close>.\<close>

definition scan_points_in_base ::
  "libm \<Rightarrow> tf_env \<Rightarrow> laser_scan \<Rightarrow> string \<Rightarrow> bool \<times> point list" where
  "scan_points_in_base m tf scan base =
     (if sc_frame scan = [] \<or> sc_ranges scan = [] \<or> \<not> isfinite (sc_angle_min scan)
        \<or> \<not> isfinite (sc_angle_increment scan) \<or> deq (sc_angle_increment scan) (Fin 0)
        \<or> \<not> sc_range_min scan < sc_range_max scan
      then (False, [])
      else case tf_lookup tf base (sc_frame scan) (sc_stamp scan) of
        None \<Rightarrow> (False, [])
      | Some tr \<Rightarrow>
          let beams = zip [0..<length (sc_ranges scan)] (sc_ranges scan);
              hits = filter (\<lambda>(_, r). in_range scan r) beams
          in (list_ex (\<lambda>(_, r). r = PInf \<or> in_range scan r) beams,
              map (\<lambda>(i, r). tf_apply tf tr (scan_point m scan i r)) hits))"

text \<open>The crossing rule; a point on the boundary is inside.\<close>

fun polygon_loop :: "dbl \<Rightarrow> dbl \<Rightarrow> bool \<Rightarrow> point \<Rightarrow> point list \<Rightarrow> bool" where
  "polygon_loop x y inside b [] = inside"
| "polygon_loop x y inside b (a # rest) =
     (let cross = (x - px a) * (py b - py a) - (y - py a) * (px b - px a);
          dot = (x - px a) * (x - px b) + (y - py a) * (y - py b)
      in if \<bar>cross\<bar> < fl (1 / 1000000000) \<and> dot \<le> Fin 0 then True
         else polygon_loop x y
           (if (y < py a) \<noteq> (y < py b) \<and> x < (px b - px a) * (y - py a) / (py b - py a) + px a
            then \<not> inside else inside) a rest)"

definition point_in_polygon :: "dbl \<Rightarrow> dbl \<Rightarrow> point list \<Rightarrow> bool" where
  "point_in_polygon x y polygon = (polygon \<noteq> [] \<and> polygon_loop x y False (last polygon) polygon)"

subsection \<open>The sweep\<close>

record sweep =
  sw_start_x :: dbl
  sw_start_y :: dbl
  sw_start_yaw :: dbl
  sw_end_x :: dbl
  sw_end_y :: dbl
  sw_end_yaw :: dbl

definition sweep_finite :: "sweep \<Rightarrow> bool" where
  "sweep_finite w \<longleftrightarrow> isfinite (sw_start_x w) \<and> isfinite (sw_start_y w) \<and> isfinite (sw_start_yaw w)
     \<and> isfinite (sw_end_x w) \<and> isfinite (sw_end_y w) \<and> isfinite (sw_end_yaw w)"

definition sweep_steps :: "libm \<Rightarrow> dbl \<Rightarrow> sweep \<Rightarrow> nat" where
  "sweep_steps m resolution w =
     nat (max 1 (max
       (ceil_int (m_hypot m (sw_end_x w - sw_start_x w) (sw_end_y w - sw_start_y w) / (resolution * fl 0.5)))
       (ceil_int (\<bar>sw_end_yaw w - sw_start_yaw w\<bar> / fl 0.025))))"

text \<open>Backing straight away from the present pose.\<close>

definition escape_rear :: "sweep \<Rightarrow> bool" where
  "escape_rear w \<longleftrightarrow> \<bar>sw_start_x w\<bar> < fl (1 / 1000000000) \<and> \<bar>sw_start_y w\<bar> < fl (1 / 1000000000)
     \<and> \<bar>sw_start_yaw w\<bar> < fl (1 / 1000000000) \<and> sw_end_x w < Fin 0 \<and> \<bar>sw_end_y w\<bar> < fl (1 / 1000000000)
     \<and> \<bar>sw_end_yaw w\<bar> < fl (1 / 1000000000)"

definition sweep_pose :: "sweep \<Rightarrow> nat \<Rightarrow> nat \<Rightarrow> dbl \<times> dbl \<times> dbl" where
  "sweep_pose w steps i =
     (let t = i2d (int i) / i2d (int steps) in
      (sw_start_x w + (sw_end_x w - sw_start_x w) * t,
       sw_start_y w + (sw_end_y w - sw_start_y w) * t,
       sw_start_yaw w + (sw_end_yaw w - sw_start_yaw w) * t))"

text \<open>What the sweep over the cost map reads: the map, the robot's pose in it, the outline.\<close>

record sweep_ctx =
  cx_grid :: grid
  cx_origin :: point
  cx_origin_yaw :: dbl
  cx_translation :: point
  cx_yaw :: dbl
  cx_footprint :: "point list"
  cx_half_l :: dbl
  cx_half_w :: dbl

definition map_pose :: "libm \<Rightarrow> sweep_ctx \<Rightarrow> dbl \<times> dbl \<Rightarrow> dbl \<times> dbl" where
  "map_pose m c = (\<lambda>(rx, ry).
     let wx = px (cx_translation c) + m_cos m (cx_yaw c) * rx - m_sin m (cx_yaw c) * ry - px (cx_origin c);
         wy = py (cx_translation c) + m_sin m (cx_yaw c) * rx + m_cos m (cx_yaw c) * ry - py (cx_origin c)
     in (m_cos m (cx_origin_yaw c) * wx + m_sin m (cx_origin_yaw c) * wy,
         - m_sin m (cx_origin_yaw c) * wx + m_cos m (cx_origin_yaw c) * wy))"

definition outline_at :: "libm \<Rightarrow> nav2_env \<Rightarrow> sweep_ctx \<Rightarrow> dbl \<times> dbl \<times> dbl \<Rightarrow> point list" where
  "outline_at m nv c = (\<lambda>(rx, ry, relative_yaw).
     let (mx, my) = map_pose m c (rx, ry)
     in n_transform_footprint nv mx my (cx_yaw c + relative_yaw - cx_origin_yaw c) (cx_footprint c))"

text \<open>The cells under the outline, or \<open>None\<close> when a corner leaves the map.\<close>

definition cells_at :: "libm \<Rightarrow> nav2_env \<Rightarrow> sweep_ctx \<Rightarrow> dbl \<times> dbl \<times> dbl \<Rightarrow> (nat \<times> nat) list option" where
  "cells_at m nv c p =
     (let corners = map (n_world_to_map nv (cx_grid c)) (outline_at m nv c p)
      in if None \<in> set corners then None else Some (n_fill_cells nv (cx_grid c) (map the corners)))"

text \<open>When backing away, lethal cells already under the front edge are exempt.\<close>

definition start_cells :: "libm \<Rightarrow> nav2_env \<Rightarrow> sweep_ctx \<Rightarrow> sweep \<Rightarrow> nat \<Rightarrow> (nat \<times> nat) list" where
  "start_cells m nv c w steps =
     (case cells_at m nv c (sweep_pose w steps 0) of
        None \<Rightarrow> []
      | Some cells \<Rightarrow>
          let (rx, ry, _) = sweep_pose w steps 0; (mx, my) = map_pose m c (rx, ry) in
          filter (\<lambda>cell.
            let p = n_map_to_world nv (cx_grid c) cell;
                bx = m_cos m (cx_yaw c - cx_origin_yaw c) * (px p - mx)
                   + m_sin m (cx_yaw c - cx_origin_yaw c) * (py p - my)
            in escape_rear w \<and> cx_half_l c - g_resolution (cx_grid c) \<le> bx
               \<and> n_cost nv (cx_grid c) cell = 254) cells)"

text \<open>The first failure along a list.\<close>

fun first_failure :: "('a \<Rightarrow> string option) \<Rightarrow> 'a list \<Rightarrow> string option" where
  "first_failure f [] = None"
| "first_failure f (x # xs) = (case f x of None \<Rightarrow> first_failure f xs | Some e \<Rightarrow> Some e)"

definition cell_failure :: "nav2_env \<Rightarrow> grid \<Rightarrow> (nat \<times> nat) list \<Rightarrow> nat \<times> nat \<Rightarrow> string option" where
  "cell_failure nv g exempt cell =
     (if cell \<in> set exempt then None
      else if n_cost nv g cell = 255 then Some ''COSTMAP_UNKNOWN''
      else if n_cost nv g cell = 254 then Some ''COSTMAP_OBSTACLE''
      else None)"

definition map_failure :: "libm \<Rightarrow> nav2_env \<Rightarrow> sweep_ctx \<Rightarrow> sweep \<Rightarrow> nat \<Rightarrow> nat \<Rightarrow> string option" where
  "map_failure m nv c w steps i =
     (let p = sweep_pose w steps i in
      case cells_at m nv c p of
        None \<Rightarrow> Some ''COSTMAP_OUT_OF_BOUNDS''
      | Some cells \<Rightarrow>
          (case first_failure (cell_failure nv (cx_grid c)
              (if escape_rear w then start_cells m nv c w steps else [])) cells of
             Some e \<Rightarrow> Some e
           | None \<Rightarrow> if \<not> escape_rear w \<and> Fin 254 \<le> n_footprint_cost nv (cx_grid c) (outline_at m nv c p)
               then Some ''COSTMAP_OBSTACLE'' else None))"

definition rear_scan_hit :: "sweep_ctx \<Rightarrow> sweep \<Rightarrow> point \<Rightarrow> bool" where
  "rear_scan_hit c w p \<longleftrightarrow>
     - cx_half_w c - fl 0.02 \<le> py p \<and> py p \<le> cx_half_w c + fl 0.02
     \<and> px p < - cx_half_l c + g_resolution (cx_grid c)
     \<and> sw_end_x w - cx_half_l c - fl 0.02 \<le> px p"

definition scan_hit :: "libm \<Rightarrow> sweep_ctx \<Rightarrow> sweep \<Rightarrow> nat \<Rightarrow> nat \<Rightarrow> point \<Rightarrow> bool" where
  "scan_hit m c w steps i p =
     (let (rx, ry, relative_yaw) = sweep_pose w steps i;
          cs = m_cos m relative_yaw; sn = m_sin m relative_yaw
      in point_in_polygon (cs * (px p - rx) + sn * (py p - ry)) (- sn * (px p - rx) + cs * (py p - ry))
           (cx_footprint c))"

definition scan_failure :: "libm \<Rightarrow> sweep_ctx \<Rightarrow> sweep \<Rightarrow> nat \<Rightarrow> point list \<Rightarrow> string option" where
  "scan_failure m c w steps points =
     (if (if escape_rear w then list_ex (rear_scan_hit c w) points
          else list_ex (\<lambda>i. list_ex (scan_hit m c w steps i) points) [0..<steps + 1])
      then Some ''SCAN_OBSTACLE'' else None)"

text \<open>The outline in the base frame, refused when a corner is not finite or its size absurd.\<close>

definition base_footprint :: "tf_env \<Rightarrow> transform \<Rightarrow> polygon_msg \<Rightarrow> (point list \<times> dbl \<times> dbl) option" where
  "base_footprint tf tr fp =
     (let points = map (tf_apply tf tr) (fp_points fp);
          half_l = foldl (\<lambda>h p. dmax h \<bar>px p\<bar>) (Fin 0) points;
          half_w = foldl (\<lambda>h p. dmax h \<bar>py p\<bar>) (Fin 0) points
      in if \<not> list_all (\<lambda>p. isfinite (px p) \<and> isfinite (py p)) points
           \<or> half_l < fl 0.01 \<or> half_w < fl 0.01 \<or> Fin 2 < half_l \<or> Fin 2 < half_w
         then None else Some (points, half_l, half_w))"

definition costmap_valid :: "costmap_msg \<Rightarrow> bool" where
  "costmap_valid cm \<longleftrightarrow> isfinite (cm_resolution cm) \<and> \<not> cm_resolution cm \<le> Fin 0
     \<and> cm_size_x cm \<noteq> 0 \<and> cm_size_y cm \<noteq> 0 \<and> \<not> 10000 < cm_size_x cm \<and> \<not> 10000 < cm_size_y cm
     \<and> cm_size_x cm * cm_size_y cm = length (cm_data cm)
     \<and> isfinite (px (p_position (cm_origin cm))) \<and> isfinite (py (p_position (cm_origin cm)))"

definition sweep_context :: "tf_env \<Rightarrow> nav2_env \<Rightarrow> costmap_msg \<Rightarrow> transform \<Rightarrow> point list \<times> dbl \<times> dbl \<Rightarrow> sweep_ctx" where
  "sweep_context tf nv cm pose_tr = (\<lambda>(points, half_l, half_w).
     let origin_yaw = tf_yaw tf (p_orientation (cm_origin cm)) in
     \<lparr>cx_grid = \<lparr>g_size_x = cm_size_x cm, g_size_y = cm_size_y cm, g_resolution = cm_resolution cm,
        g_data = cm_data cm\<rparr>,
      cx_origin = p_position (cm_origin cm),
      cx_origin_yaw = (if isfinite origin_yaw then origin_yaw else Fin 0),
      cx_translation = tr_translation pose_tr,
      cx_yaw = tf_yaw tf (tr_rotation pose_tr),
      cx_footprint = n_pad_footprint nv points (cm_resolution cm * fl 0.5),
      cx_half_l = half_l, cx_half_w = half_w\<rparr>)"

text \<open>The part after the inputs are known to be present and fresh.\<close>

definition sweep_verdict ::
  "libm \<Rightarrow> tf_env \<Rightarrow> nav2_env \<Rightarrow> costmap_msg \<Rightarrow> laser_scan \<Rightarrow> polygon_msg \<Rightarrow> time_ns \<Rightarrow> string \<Rightarrow> sweep \<Rightarrow>
   dbl \<Rightarrow> safety_result" where
  "sweep_verdict m tf nv cm scan fp ros_now base w age =
     (case tf_lookup tf base (fp_frame fp) (fp_stamp fp) of
        None \<Rightarrow> unsafe ''TF_UNAVAILABLE''
      | Some foot_tr \<Rightarrow>
     (case base_footprint tf foot_tr fp of
        None \<Rightarrow> unsafe ''DATA_MISSING''
      | Some outline \<Rightarrow>
     (case tf_lookup tf (cm_frame cm) base 0 of
        None \<Rightarrow> unsafe ''TF_UNAVAILABLE''
      | Some pose_tr \<Rightarrow>
          if tr_stamp pose_tr div 1000000000 \<noteq> 0 \<and> age < secs (ros_now - tr_stamp pose_tr)
          then unsafe ''TF_UNAVAILABLE''
          else let c = sweep_context tf nv cm pose_tr outline; steps = sweep_steps m (cm_resolution cm) w in
     (case first_failure (map_failure m nv c w steps) [0..<steps + 1] of
        Some e \<Rightarrow> unsafe e
      | None \<Rightarrow>
          (case scan_points_in_base m tf scan base of (usable, points) \<Rightarrow>
             if \<not> usable then unsafe ''TF_UNAVAILABLE''
             else (case scan_failure m c w steps points of Some e \<Rightarrow> unsafe e | None \<Rightarrow> safety_ok))))))"

definition swept_pose_clear ::
  "libm \<Rightarrow> tf_env \<Rightarrow> nav2_env \<Rightarrow> sensor_snapshot \<Rightarrow> time_ns \<Rightarrow> time_ns \<Rightarrow> string \<Rightarrow> sweep \<Rightarrow> dbl \<Rightarrow> safety_result" where
  "swept_pose_clear m tf nv d ros_now steady base w age =
     (case (sn_scan d, sn_costmap d, sn_footprint d) of
        (Some scan, Some cm, Some fp) \<Rightarrow>
          if length (fp_points fp) < 3 then unsafe ''DATA_MISSING''
          else if \<not> fresh_stamp (sc_stamp scan) ros_now (sn_scan_received d) steady age
            \<or> \<not> fresh_stamp (cm_stamp cm) ros_now (sn_costmap_received d) steady age
            \<or> \<not> fresh_stamp (fp_stamp fp) ros_now (sn_footprint_received d) steady age
          then unsafe ''DATA_EXPIRED''
          else if \<not> costmap_valid cm \<or> \<not> sweep_finite w then unsafe ''DATA_MISSING''
          else sweep_verdict m tf nv cm scan fp ros_now base w age
      | _ \<Rightarrow> unsafe ''DATA_MISSING'')"

definition swept_clear ::
  "libm \<Rightarrow> tf_env \<Rightarrow> nav2_env \<Rightarrow> sensor_snapshot \<Rightarrow> time_ns \<Rightarrow> time_ns \<Rightarrow> string \<Rightarrow> dbl \<Rightarrow> dbl \<Rightarrow> dbl \<Rightarrow> safety_result" where
  "swept_clear m tf nv d ros_now steady base dx dy age =
     swept_pose_clear m tf nv d ros_now steady base
       \<lparr>sw_start_x = Fin 0, sw_start_y = Fin 0, sw_start_yaw = Fin 0, sw_end_x = dx, sw_end_y = dy,
        sw_end_yaw = Fin 0\<rparr> age"

subsection \<open>What a clear verdict guarantees\<close>

lemma first_failure_None: "first_failure f xs = None \<longleftrightarrow> (\<forall>x \<in> set xs. f x = None)"
  by (induction xs) (auto split: option.split)

lemma map_failure_None:
  assumes "map_failure m nv c w steps i = None"
  shows "\<exists>cells. cells_at m nv c (sweep_pose w steps i) = Some cells \<and>
    (\<forall>cell \<in> set cells. n_cost nv (cx_grid c) cell \<notin> {254, 255} \<or>
       escape_rear w \<and> cell \<in> set (start_cells m nv c w steps)) \<and>
    (escape_rear w \<or> \<not> Fin 254 \<le> n_footprint_cost nv (cx_grid c) (outline_at m nv c (sweep_pose w steps i)))"
  using assms
  by (auto simp: map_failure_def Let_def first_failure_None cell_failure_def split: option.splits if_split_asm)

text \<open>C25. A sweep that is declared clear really was examined: scan, cost map and outline were present
  and fresh both by their stamp and by their arrival, and at every step of the motion the outline lies
  inside the local map on cells that are neither lethal nor unknown (a lethal cell already under the
  front edge is tolerated when backing away, and otherwise the outline itself costs less than 254), and
  no laser point lies in the swept area.\<close>
theorem swept_clear_sound:
  assumes "sr_ok (swept_pose_clear m tf nv d ros_now steady base w age)"
  shows "\<exists>scan cm fp outline foot_tr pose_tr points c steps.
    sn_scan d = Some scan \<and> sn_costmap d = Some cm \<and> sn_footprint d = Some fp \<and>
    fresh_stamp (sc_stamp scan) ros_now (sn_scan_received d) steady age \<and>
    fresh_stamp (cm_stamp cm) ros_now (sn_costmap_received d) steady age \<and>
    fresh_stamp (fp_stamp fp) ros_now (sn_footprint_received d) steady age \<and>
    costmap_valid cm \<and> sweep_finite w \<and>
    tf_lookup tf base (fp_frame fp) (fp_stamp fp) = Some foot_tr \<and>
    base_footprint tf foot_tr fp = Some outline \<and> tf_lookup tf (cm_frame cm) base 0 = Some pose_tr \<and>
    c = sweep_context tf nv cm pose_tr outline \<and> steps = sweep_steps m (cm_resolution cm) w \<and>
    scan_points_in_base m tf scan base = (True, points) \<and>
    (\<forall>i \<le> steps. \<exists>cells. cells_at m nv c (sweep_pose w steps i) = Some cells \<and>
      (\<forall>cell \<in> set cells. n_cost nv (cx_grid c) cell \<notin> {254, 255} \<or>
         escape_rear w \<and> cell \<in> set (start_cells m nv c w steps)) \<and>
      (escape_rear w \<or> \<not> Fin 254 \<le> n_footprint_cost nv (cx_grid c) (outline_at m nv c (sweep_pose w steps i)))) \<and>
    (\<forall>p \<in> set points. if escape_rear w then \<not> rear_scan_hit c w p else (\<forall>i \<le> steps. \<not> scan_hit m c w steps i p))"
proof -
  obtain scan cm fp where p: "sn_scan d = Some scan" "sn_costmap d = Some cm" "sn_footprint d = Some fp"
    using assms by (auto simp: swept_pose_clear_def unsafe_def split: option.splits)
  have f: "fresh_stamp (sc_stamp scan) ros_now (sn_scan_received d) steady age"
    "fresh_stamp (cm_stamp cm) ros_now (sn_costmap_received d) steady age"
    "fresh_stamp (fp_stamp fp) ros_now (sn_footprint_received d) steady age"
    "costmap_valid cm" "sweep_finite w"
    and v: "sr_ok (sweep_verdict m tf nv cm scan fp ros_now base w age)"
    using assms by (auto simp: swept_pose_clear_def p unsafe_def split: if_split_asm)
  obtain foot_tr outline pose_tr where t: "tf_lookup tf base (fp_frame fp) (fp_stamp fp) = Some foot_tr"
    "base_footprint tf foot_tr fp = Some outline" "tf_lookup tf (cm_frame cm) base 0 = Some pose_tr"
    using v by (auto simp: sweep_verdict_def unsafe_def split: option.splits)
  define c where "c = sweep_context tf nv cm pose_tr outline"
  define steps where "steps = sweep_steps m (cm_resolution cm) w"
  obtain usable points where s: "scan_points_in_base m tf scan base = (usable, points)"
    by (cases "scan_points_in_base m tf scan base")
  have n: "first_failure (map_failure m nv c w steps) [0..<steps + 1] = None" "usable"
    "scan_failure m c w steps points = None"
    using v by (auto simp: sweep_verdict_def t s unsafe_def Let_def c_def [symmetric] steps_def [symmetric]
      split: option.splits if_split_asm)
  have "map_failure m nv c w steps i = None" if "i \<le> steps" for i
    using n(1) that unfolding first_failure_None by (cases "i = steps") auto
  then have cells: "\<forall>i \<le> steps. \<exists>cells. cells_at m nv c (sweep_pose w steps i) = Some cells \<and>
      (\<forall>cell \<in> set cells. n_cost nv (cx_grid c) cell \<notin> {254, 255} \<or>
         escape_rear w \<and> cell \<in> set (start_cells m nv c w steps)) \<and>
      (escape_rear w \<or> \<not> Fin 254 \<le> n_footprint_cost nv (cx_grid c) (outline_at m nv c (sweep_pose w steps i)))"
    using map_failure_None by blast
  have hits: "\<forall>p \<in> set points. if escape_rear w then \<not> rear_scan_hit c w p else (\<forall>i \<le> steps. \<not> scan_hit m c w steps i p)"
    using n(3) by (auto simp: scan_failure_def list_ex_iff less_Suc_eq_le split: if_split_asm)
  have s': "scan_points_in_base m tf scan base = (True, points)" using s n(2) by simp
  show ?thesis
    by (rule exI [of _ scan], rule exI [of _ cm], rule exI [of _ fp], rule exI [of _ outline],
      rule exI [of _ foot_tr], rule exI [of _ pose_tr], rule exI [of _ points], rule exI [of _ c],
      rule exI [of _ steps], intro conjI)
      (fact p f t c_def steps_def s' cells hits)+
qed

definition demo_transform :: transform where
  "demo_transform = \<lparr>tr_stamp = 0, tr_translation = \<lparr>px = Fin 0, py = Fin 0\<rparr>,
     tr_rotation = \<lparr>qx = Fin 0, qy = Fin 0, qz = Fin 0, qw = Fin 1\<rparr>\<rparr>"

definition demo_tf :: tf_env where
  "demo_tf = \<lparr>tf_lookup = (\<lambda>_ _ _. Some demo_transform),
     tf_apply = (\<lambda>_ p. p), tf_yaw = (\<lambda>_. Fin 0)\<rparr>"

definition demo_nav2 :: nav2_env where
  "demo_nav2 = \<lparr>n_pad_footprint = (\<lambda>ps _. ps), n_transform_footprint = (\<lambda>_ _ _ ps. ps),
     n_world_to_map = (\<lambda>_ _. Some (0, 0)), n_map_to_world = (\<lambda>_ _. \<lparr>px = Fin 0, py = Fin 0\<rparr>),
     n_footprint_cost = (\<lambda>_ _. Fin 0), n_fill_cells = (\<lambda>_ cs. cs), n_cost = (\<lambda>_ _. 0)\<rparr>"

definition demo_scan :: laser_scan where
  "demo_scan = \<lparr>sc_frame = ''laser'', sc_stamp = 1, sc_angle_min = Fin 0, sc_angle_increment = Fin 1,
     sc_range_min = Fin 0, sc_range_max = Fin 10, sc_ranges = [PInf]\<rparr>"

definition demo_costmap :: costmap_msg where
  "demo_costmap = \<lparr>cm_frame = ''odom'', cm_stamp = 1, cm_resolution = Fin (1 / 16), cm_size_x = 1,
     cm_size_y = 1, cm_origin = \<lparr>p_position = \<lparr>px = Fin 0, py = Fin 0\<rparr>,
       p_orientation = \<lparr>qx = Fin 0, qy = Fin 0, qz = Fin 0, qw = Fin 1\<rparr>\<rparr>, cm_data = [0]\<rparr>"

definition demo_footprint :: polygon_msg where
  "demo_footprint = \<lparr>fp_frame = ''base'', fp_stamp = 1, fp_points = [\<lparr>px = Fin 1, py = Fin 1\<rparr>,
     \<lparr>px = Fin (- 1), py = Fin 1\<rparr>, \<lparr>px = Fin 0, py = Fin (- 1)\<rparr>]\<rparr>"

definition demo_snapshot :: sensor_snapshot where
  "demo_snapshot = on_footprint demo_footprint 1 (on_scan_msg demo_scan 1 (on_costmap demo_costmap 1 snapshot_init))"

definition demo_sweep :: sweep where
  "demo_sweep = \<lparr>sw_start_x = Fin 0, sw_start_y = Fin 0, sw_start_yaw = Fin 0, sw_end_x = Fin (- 1),
     sw_end_y = Fin 0, sw_end_yaw = Fin 0\<rparr>"

lemma demo_fresh: "fresh_stamp 1 1 1 1 (Fin 1)"
  by code_simp

lemma demo_tf_simps [simp]:
  "tf_lookup demo_tf target source time = Some demo_transform" "tf_apply demo_tf tr p = p"
  "tr_stamp demo_transform = 0"
  by (simp_all add: demo_tf_def demo_transform_def)

lemma demo_base_footprint:
  "base_footprint demo_tf tr demo_footprint = Some (fp_points demo_footprint, Fin 1, Fin 1)"
proof -
  have "\<not> Fin 1 < fl 0.01" by code_simp
  then show ?thesis
    by (simp add: base_footprint_def demo_footprint_def dmax_def Let_def)
qed

lemma demo_clear:
  assumes "sweep_finite w"
  shows "sr_ok (swept_pose_clear demo_libm demo_tf demo_nav2 demo_snapshot 1 1 base w (Fin 1))"
proof -
  have pts: "scan_points_in_base demo_libm demo_tf demo_scan base = (True, [])"
    by (simp add: scan_points_in_base_def demo_scan_def in_range_def)
  have nv: "n_world_to_map demo_nav2 g p = Some (0, 0)" "n_cost demo_nav2 g cell = 0"
    "n_footprint_cost demo_nav2 g ps = Fin 0" for g p cell ps
    by (simp_all add: demo_nav2_def)
  have "first_failure (cell_failure demo_nav2 g ex) xs = None" for g ex xs
    by (simp add: first_failure_None cell_failure_def nv)
  then have "map_failure demo_libm demo_nav2 c w steps i = None" for c w steps i
    by (simp add: map_failure_def cells_at_def nv Let_def image_iff)
  then have "first_failure (map_failure demo_libm demo_nav2 c w steps) xs = None" for c w steps xs
    by (simp add: first_failure_None)
  moreover have "scan_failure demo_libm c w steps [] = None" for c w steps
    by (simp add: scan_failure_def list_ex_iff)
  ultimately have "sweep_verdict demo_libm demo_tf demo_nav2 demo_costmap demo_scan demo_footprint 1 base
      w (Fin 1) = safety_ok"
    by (simp add: sweep_verdict_def demo_base_footprint pts Let_def)
  then show ?thesis
    using demo_fresh assms
    by (simp add: swept_pose_clear_def demo_snapshot_def snapshot_init_def on_footprint_def on_scan_msg_def
      on_costmap_def costmap_valid_def safety_ok_def)
      (simp add: demo_footprint_def demo_scan_def demo_costmap_def)
qed

theorem swept_clear_sound_witness:
  "\<exists>scan. sn_scan demo_snapshot = Some scan \<and> fresh_stamp (sc_stamp scan) 1 1 1 (Fin 1)"
proof -
  have "sn_scan_received demo_snapshot = 1"
    by (simp add: demo_snapshot_def on_footprint_def on_scan_msg_def on_costmap_def snapshot_init_def)
  then show ?thesis using swept_clear_sound [OF demo_clear [of demo_sweep]] by (simp add: sweep_finite_def demo_sweep_def) metis
qed

end
