(* ===== verification/Bounded_Action.thy ===== *)
theory Bounded_Action
  imports Ieee_Double
begin

text \<open>
  The bounded action client of the behaviour tree, \<open>carcar_navigation/bounded_action.hpp\<close>: the
  records of the goals sent, the callbacks of the action library, \<open>poll\<close>, \<open>cancel\<close> and \<open>tick\<close>. The
  library and the action server are the environment: they produce the events, and what the client
  asks of them is recorded in \<open>outbox\<close>. Whether a call of the library throws is an argument. A
  \<open>TimePoint\<close> is the clock's count of nanoseconds and \<open>TimePoint{}\<close> is 0. Revisions are natural
  numbers: a 64-bit counter of goals sent does not wrap in the life of a robot.
\<close>

subsection \<open>State\<close>

type_synonym uuid = string

datatype request = Send_goal nat | Cancel_goal nat uuid

record goal_record =
  r_handle :: "uuid option"
  r_terminal :: bool
  r_cancel_sent :: bool
  r_cancel_ack :: bool
  r_response_done :: bool
  r_cancel_response_done :: bool
  r_superseded_at :: time_ns

definition new_record :: goal_record where
  "new_record = \<lparr>r_handle = None, r_terminal = False, r_cancel_sent = False, r_cancel_ack = False,
     r_response_done = False, r_cancel_response_done = False, r_superseded_at = 0\<rparr>"

record action_state =
  as_accepted :: bool
  as_terminal :: bool
  as_success :: bool
  as_rejected :: bool
  as_cancel_requested :: bool
  as_cancel_ack :: bool
  as_timed_out :: bool
  as_uuid :: uuid
  as_reason :: string

record shared =
  records :: "(nat \<times> goal_record) list"
  revision :: nat
  status :: action_state
  sent_at :: time_ns
  cancel_at :: time_ns
  result_timeout :: dbl
  outbox :: "request list"

definition shared_init :: shared where
  "shared_init = \<lparr>records = [], revision = 0,
     status = \<lparr>as_accepted = False, as_terminal = False, as_success = False, as_rejected = False,
       as_cancel_requested = False, as_cancel_ack = False, as_timed_out = False, as_uuid = [],
       as_reason = []\<rparr>,
     sent_at = 0, cancel_at = 0, result_timeout = Fin 0, outbox = []\<rparr>"

text \<open>\<open>records.find(rv)\<close> and the assignment through the iterator.\<close>

definition find_record :: "nat \<Rightarrow> shared \<Rightarrow> goal_record option" where
  "find_record rv s = map_of (records s) rv"

definition update_record :: "nat \<Rightarrow> (goal_record \<Rightarrow> goal_record) \<Rightarrow> shared \<Rightarrow> shared" where
  "update_record rv f s =
     s\<lparr>records := map (\<lambda>(k, r). (k, if k = rv then f r else r)) (records s)\<rparr>"

subsection \<open>Operations\<close>

definition refresh_terminal :: "shared \<Rightarrow> shared" where
  "refresh_terminal s = s\<lparr>status := (status s)\<lparr>
     as_terminal := (records s \<noteq> [] \<and> list_all (\<lambda>(_, r). r_terminal r) (records s)),
     as_cancel_ack := list_all (\<lambda>(_, r). r_terminal r \<or> r_cancel_ack r) (records s)\<rparr>\<rparr>"

text \<open>\<open>cancel_throws rv\<close>: the library refuses the cancel request for this goal.\<close>

definition cancel_record :: "(nat \<Rightarrow> bool) \<Rightarrow> nat \<Rightarrow> shared \<Rightarrow> shared" where
  "cancel_record cancel_throws rv s = (case find_record rv s of
       None \<Rightarrow> s
     | Some r \<Rightarrow> (case r_handle r of
         None \<Rightarrow> s
       | Some uuid \<Rightarrow>
           if r_cancel_sent r then s
           else let s = update_record rv (\<lambda>r. r\<lparr>r_cancel_sent := True\<rparr>) s in
             if cancel_throws rv then s\<lparr>status := (status s)\<lparr>as_reason := ''CANCEL_SEND_ERROR''\<rparr>\<rparr>
             else s\<lparr>outbox := outbox s @ [Cancel_goal rv uuid]\<rparr>))"

text \<open>A record that needs no more callbacks is dropped by the next \<open>send\<close>.\<close>

definition record_done :: "goal_record \<Rightarrow> bool" where
  "record_done r \<longleftrightarrow> r_terminal r \<and> r_response_done r \<and> (\<not> r_cancel_sent r \<or> r_cancel_response_done r)"

definition send :: "dbl \<Rightarrow> bool \<Rightarrow> string \<Rightarrow> time_ns \<Rightarrow> shared \<Rightarrow> shared" where
  "send timeout send_throws what now s =
     (if as_cancel_requested (status s) then s
      else let s = s\<lparr>records := filter (\<lambda>(_, r). \<not> record_done r) (records s)\<rparr>;
             s = (if 0 < revision s then update_record (revision s) (\<lambda>r.
                 if r_superseded_at r = 0 then r\<lparr>r_superseded_at := now\<rparr> else r) s else s);
             st = status s;
             keep_accepted = (as_accepted st \<and> \<not> as_rejected st \<and> \<not> as_timed_out st);
             rv = revision s + 1;
             s = s\<lparr>revision := rv, records := records s @ [(rv, new_record)], sent_at := now,
               result_timeout := timeout,
               status := st\<lparr>as_accepted := keep_accepted \<and> as_accepted st, as_terminal := False,
                 as_success := False, as_rejected := False\<rparr>\<rparr>
           in if send_throws then s\<lparr>status := (status s)\<lparr>as_reason := ''SEND_ERROR: '' @ what,
                  as_timed_out := True\<rparr>\<rparr>
              else s\<lparr>outbox := outbox s @ [Send_goal rv]\<rparr>)"

definition on_response :: "(nat \<Rightarrow> bool) \<Rightarrow> nat \<Rightarrow> uuid option \<Rightarrow> shared \<Rightarrow> shared" where
  "on_response cancel_throws rv handle s = (case find_record rv s of
       None \<Rightarrow> s
     | Some _ \<Rightarrow>
         let s = update_record rv (\<lambda>r. r\<lparr>r_response_done := True, r_handle := handle\<rparr>) s;
             s = (case handle of
                 None \<Rightarrow>
                   let s = update_record rv (\<lambda>r. r\<lparr>r_terminal := True\<rparr>) s in
                   if rv = revision s then s\<lparr>status := (status s)\<lparr>as_accepted := False,
                     as_rejected := True, as_reason := ''GOAL_REJECTED''\<rparr>\<rparr> else s
               | Some uuid \<Rightarrow>
                   let s = (if rv = revision s
                     then s\<lparr>status := (status s)\<lparr>as_accepted := True, as_uuid := uuid\<rparr>\<rparr>
                     else cancel_record cancel_throws rv s)
                   in if as_cancel_requested (status s) then cancel_record cancel_throws rv s else s)
         in refresh_terminal s)"

datatype result_code = SUCCEEDED | CANCELED | ABORTED

definition on_result :: "nat \<Rightarrow> result_code \<Rightarrow> shared \<Rightarrow> shared" where
  "on_result rv code s = (case find_record rv s of
       None \<Rightarrow> s
     | Some _ \<Rightarrow>
         let s = update_record rv (\<lambda>r. r\<lparr>r_terminal := True\<rparr>) s;
             s = (if rv = revision s then s\<lparr>status := (status s)\<lparr>as_success := (code = SUCCEEDED),
               as_reason := (case code of SUCCEEDED \<Rightarrow> ''SUCCEEDED'' | CANCELED \<Rightarrow> ''CANCELED''
                 | ABORTED \<Rightarrow> ''ABORTED'')\<rparr>\<rparr> else s)
         in refresh_terminal s)"

definition on_cancel_response :: "nat \<Rightarrow> uuid list \<Rightarrow> shared \<Rightarrow> shared" where
  "on_cancel_response rv canceling s = (case find_record rv s of
       None \<Rightarrow> s
     | Some _ \<Rightarrow> refresh_terminal (update_record rv (\<lambda>r. r\<lparr>r_cancel_response_done := True,
         r_cancel_ack := r_cancel_ack r \<or> (\<exists>u \<in> set canceling. r_handle r = Some u)\<rparr>) s))"

definition cancel :: "(nat \<Rightarrow> bool) \<Rightarrow> time_ns \<Rightarrow> shared \<Rightarrow> shared" where
  "cancel cancel_throws now s =
     (if as_terminal (status s) \<or> revision s = 0 then s
      else let s = (if as_cancel_requested (status s) then s
             else s\<lparr>status := (status s)\<lparr>as_cancel_requested := True\<rparr>, cancel_at := now\<rparr>)
           in foldl (\<lambda>s (rv, _). cancel_record cancel_throws rv s) s (records s))"

text \<open>The orphans of \<open>poll\<close>: older goals without a result in time are cancelled and given up.\<close>

definition is_orphan :: "dbl \<Rightarrow> time_ns \<Rightarrow> shared \<Rightarrow> nat \<times> goal_record \<Rightarrow> bool" where
  "is_orphan limit now s = (\<lambda>(rv, r). rv < revision s \<and> \<not> r_terminal r \<and>
     limit < secs (now - (if r_superseded_at r \<noteq> 0 then r_superseded_at r else sent_at s)))"

definition give_up :: "(nat \<Rightarrow> bool) \<Rightarrow> nat \<Rightarrow> shared \<Rightarrow> shared" where
  "give_up cancel_throws rv s =
     update_record rv (\<lambda>r. r\<lparr>r_terminal := True\<rparr>) (cancel_record cancel_throws rv s)"

record limits =
  response_timeout :: dbl
  cancel_timeout :: dbl

definition poll :: "limits \<Rightarrow> (nat \<Rightarrow> bool) \<Rightarrow> time_ns \<Rightarrow> shared \<Rightarrow> shared" where
  "poll l cancel_throws now s =
     (if as_terminal (status s) \<or> revision s = 0 then s
      else let elapsed = secs (now - sent_at s);
             current_responded = (case find_record (revision s) s of
               None \<Rightarrow> False | Some r \<Rightarrow> r_response_done r);
             orphans = map fst (filter (is_orphan (response_timeout l + cancel_timeout l) now s) (records s));
             s = refresh_terminal (foldl (\<lambda>s rv. give_up cancel_throws rv s) s orphans)
      in if as_terminal (status s) then s
      else let st = status s;
             late_result = (Fin 0 < result_timeout s \<and> result_timeout s < elapsed);
             request_cancel = (\<not> as_cancel_requested st \<and>
               (\<not> current_responded \<and> response_timeout l < elapsed \<or> late_result \<or> as_timed_out st));
             s = (if request_cancel then s\<lparr>status := st\<lparr>
                 as_reason := (if (current_responded \<or> as_accepted st) \<and> late_result
                   then ''RESULT_TIMEOUT'' else ''GOAL_RESPONSE_TIMEOUT''),
                 as_timed_out := True,
                 as_accepted := (current_responded \<and> as_accepted st)\<rparr>\<rparr> else s);
             s = (if as_cancel_requested (status s) \<and> cancel_timeout l < secs (now - cancel_at s)
               then s\<lparr>status := (status s)\<lparr>as_timed_out := True, as_reason := ''CANCEL_UNCONFIRMED''\<rparr>\<rparr>
               else s)
      in if request_cancel then cancel cancel_throws now s else s)"

datatype node_status = SUCCESS | FAILURE | RUNNING

definition action_tick :: "limits \<Rightarrow> (nat \<Rightarrow> bool) \<Rightarrow> time_ns \<Rightarrow> shared \<Rightarrow> node_status \<times> shared" where
  "action_tick l cancel_throws now s =
     (let s = poll l cancel_throws now s in
      (if as_terminal (status s) then (if as_success (status s) then SUCCESS else FAILURE)
       else RUNNING, s))"

text \<open>The times \<open>state()\<close> reports.\<close>

record action_times =
  at_elapsed :: dbl
  at_response_remaining :: dbl
  at_result_remaining :: dbl
  at_cancel_remaining :: dbl

definition action_times_of :: "limits \<Rightarrow> time_ns \<Rightarrow> shared \<Rightarrow> action_times" where
  "action_times_of l now s =
     (let elapsed = (if sent_at s = 0 then Fin 0 else secs (now - sent_at s)) in
      \<lparr>at_elapsed = elapsed,
        at_response_remaining = dmax (Fin 0) (response_timeout l - elapsed),
        at_result_remaining = (if Fin 0 < result_timeout s
          then dmax (Fin 0) (result_timeout s - elapsed) else Fin (- 1)),
        at_cancel_remaining = (if as_cancel_requested (status s)
          then dmax (Fin 0) (cancel_timeout l - secs (now - cancel_at s)) else cancel_timeout l)\<rparr>)"

subsection \<open>Runs\<close>

datatype action_event =
    Send dbl bool string
  | Response nat "uuid option"
  | Result nat result_code
  | Cancel_response nat "uuid list"
  | Poll
  | Cancel

text \<open>The behaviour tree and the library's thread take the lock in turn: a run is a sequence of
  whole handlers at the clock's readings. The library answers a goal once, and \<open>refuses k\<close> says
  whether its call to cancel goal \<open>k\<close>, of which there is at most one, throws.\<close>

definition answered :: "nat \<Rightarrow> shared \<Rightarrow> bool" where
  "answered rv s \<longleftrightarrow> (case find_record rv s of None \<Rightarrow> False | Some r \<Rightarrow> r_response_done r)"

inductive action_step :: "limits \<Rightarrow> (nat \<Rightarrow> bool) \<Rightarrow> action_event \<Rightarrow> shared \<Rightarrow> shared \<Rightarrow> bool" for l refuses where
  step_send: "action_step l refuses (Send timeout throws what) s (send timeout throws what now s)"
| step_response: "\<not> answered rv s \<Longrightarrow> action_step l refuses (Response rv handle) s (on_response refuses rv handle s)"
| step_result: "action_step l refuses (Result rv code) s (on_result rv code s)"
| step_cancel_response: "action_step l refuses (Cancel_response rv us) s (on_cancel_response rv us s)"
| step_poll: "action_step l refuses Poll s (poll l refuses now s)"
| step_cancel: "action_step l refuses Cancel s (cancel refuses now s)"

inductive_cases action_stepE: "action_step l refuses e s s'"

inductive action_run :: "limits \<Rightarrow> (nat \<Rightarrow> bool) \<Rightarrow> shared \<Rightarrow> shared \<Rightarrow> bool" for l refuses where
  run_refl: "action_run l refuses s s"
| run_step: "action_run l refuses s s' \<Longrightarrow> action_step l refuses e s' s'' \<Longrightarrow> action_run l refuses s s''"

subsection \<open>Lemmas\<close>

lemma find_update [simp]:
  "find_record k (update_record rv f s) = (if k = rv then map_option f (find_record k s) else find_record k s)"
proof -
  have "map_of (map (\<lambda>(k, r). (k, if k = rv then f r else r)) xs) k =
    (if k = rv then map_option f (map_of xs k) else map_of xs k)" for xs
    by (induction xs) auto
  then show ?thesis by (simp add: find_record_def update_record_def)
qed

lemma update_record_fields [simp]:
  "revision (update_record rv f s) = revision s" "status (update_record rv f s) = status s"
  "outbox (update_record rv f s) = outbox s" "map fst (records (update_record rv f s)) = map fst (records s)"
  "cancel_at (update_record rv f s) = cancel_at s" "sent_at (update_record rv f s) = sent_at s"
  by (auto simp: update_record_def)

lemma find_status [simp]: "find_record k (s\<lparr>status := x\<rparr>) = find_record k s"
  "find_record k (s\<lparr>outbox := b\<rparr>) = find_record k s" "find_record k (s\<lparr>cancel_at := t\<rparr>) = find_record k s"
  by (simp_all add: find_record_def)

lemma refresh_fields [simp]:
  "find_record k (refresh_terminal s) = find_record k s" "revision (refresh_terminal s) = revision s"
  "outbox (refresh_terminal s) = outbox s" "records (refresh_terminal s) = records s"
  "as_cancel_requested (status (refresh_terminal s)) = as_cancel_requested (status s)"
  "cancel_at (refresh_terminal s) = cancel_at s"
  by (simp_all add: refresh_terminal_def find_record_def)

definition mark_cancelled :: "goal_record \<Rightarrow> goal_record" where
  "mark_cancelled r = (if r_handle r = None then r else r\<lparr>r_cancel_sent := True\<rparr>)"

lemma mark_cancelled_fields [simp]:
  "r_handle (mark_cancelled r) = r_handle r" "r_terminal (mark_cancelled r) = r_terminal r"
  "r_handle r \<noteq> None \<Longrightarrow> r_cancel_sent (mark_cancelled r)"
  "r_cancel_sent r \<Longrightarrow> r_cancel_sent (mark_cancelled r)"
  by (auto simp: mark_cancelled_def)

lemma find_cancel_record [simp]:
  "find_record k (cancel_record t rv s) =
     (if k = rv then map_option mark_cancelled (find_record k s) else find_record k s)"
  by (auto simp: cancel_record_def mark_cancelled_def Let_def split: option.split)

lemma cancel_record_fields [simp]:
  "revision (cancel_record t rv s) = revision s"
  "as_cancel_requested (status (cancel_record t rv s)) = as_cancel_requested (status s)"
  "map fst (records (cancel_record t rv s)) = map fst (records s)"
  "cancel_at (cancel_record t rv s) = cancel_at s"
  by (auto simp: cancel_record_def Let_def split: option.split)

text \<open>The goals the library was asked to cancel, and those it was asked to send.\<close>

definition cancelled :: "request list \<Rightarrow> nat list" where
  "cancelled os = concat (map (\<lambda>x. case x of Cancel_goal k _ \<Rightarrow> [k] | Send_goal _ \<Rightarrow> []) os)"

definition submitted :: "request list \<Rightarrow> nat list" where
  "submitted os = concat (map (\<lambda>x. case x of Send_goal k \<Rightarrow> [k] | Cancel_goal _ _ \<Rightarrow> []) os)"

lemma outbox_append [simp]:
  "cancelled (os @ [Send_goal k]) = cancelled os" "cancelled (os @ [Cancel_goal k u]) = cancelled os @ [k]"
  "submitted (os @ [Send_goal k]) = submitted os @ [k]" "submitted (os @ [Cancel_goal k u]) = submitted os"
  by (simp_all add: cancelled_def submitted_def)

lemma submitted_cancel_record [simp]: "submitted (outbox (cancel_record t rv s)) = submitted (outbox s)"
  by (auto simp: cancel_record_def Let_def split: option.split)

text \<open>Keys are distinct and belong to goals already numbered, and no goal is cancelled twice.\<close>

definition records_ok :: "shared \<Rightarrow> bool" where
  "records_ok s \<longleftrightarrow> distinct (map fst (records s)) \<and>
     (\<forall>k r. find_record k s = Some r \<longrightarrow> k \<le> revision s) \<and>
     distinct (cancelled (outbox s)) \<and>
     (\<forall>k \<in> set (cancelled (outbox s)). k \<le> revision s \<and>
       (\<forall>r. find_record k s = Some r \<longrightarrow> r_cancel_sent r))"

text \<open>Once cancellation is requested, every goal whose handle is known has been asked to stop.\<close>

definition caught :: "shared \<Rightarrow> bool" where
  "caught s \<longleftrightarrow> (as_cancel_requested (status s) \<longrightarrow>
     (\<forall>k r. find_record k s = Some r \<longrightarrow> r_handle r \<noteq> None \<longrightarrow> r_cancel_sent r))"

lemma records_ok_simps [simp]:
  "records_ok (s\<lparr>status := x\<rparr>) = records_ok s" "records_ok (refresh_terminal s) = records_ok s"
  "records_ok (s\<lparr>cancel_at := t\<rparr>) = records_ok s"
  "caught (refresh_terminal s) = caught s" "caught (s\<lparr>cancel_at := t\<rparr>) = caught s"
  by (simp_all add: records_ok_def caught_def)

lemma records_ok_update:
  assumes "records_ok s" "\<And>r. r_cancel_sent r \<Longrightarrow> r_cancel_sent (f r)"
  shows "records_ok (update_record rv f s)"
  using assms by (auto simp: records_ok_def)

lemma caught_update:
  assumes "caught s" "\<And>r. r_handle (f r) \<noteq> None \<Longrightarrow> r_cancel_sent r \<or> r_handle r = None \<Longrightarrow> r_cancel_sent (f r)"
  shows "caught (update_record rv f s)"
  using assms by (fastforce simp: caught_def)

lemma records_ok_cancel: 
  assumes "records_ok s"
  shows "records_ok (cancel_record t rv s)"
proof (cases "\<exists>r u. find_record rv s = Some r \<and> r_handle r = Some u \<and> \<not> r_cancel_sent r \<and> \<not> t rv")
  case False
  have "outbox (cancel_record t rv s) = outbox s"
    using False by (auto simp: cancel_record_def Let_def split: option.split)
  then show ?thesis using assms unfolding records_ok_def by auto
next
  case True
  then obtain r u where r: "find_record rv s = Some r" "r_handle r = Some u" "\<not> r_cancel_sent r" "\<not> t rv"
    by blast
  then have "outbox (cancel_record t rv s) = outbox s @ [Cancel_goal rv u]"
    by (simp add: cancel_record_def Let_def)
  moreover have "rv \<notin> set (cancelled (outbox s))" "rv \<le> revision s"
    using assms r unfolding records_ok_def by blast+
  ultimately show ?thesis using assms r unfolding records_ok_def by auto
qed

lemma caught_cancel: "caught s \<Longrightarrow> caught (cancel_record t rv s)"
  by (auto simp: caught_def)

lemma fold_cancel:
  assumes "records_ok s"
  shows "records_ok (foldl (\<lambda>s (k, _). cancel_record t k s) s rs)"
    "as_cancel_requested (status (foldl (\<lambda>s (k, _). cancel_record t k s) s rs)) = as_cancel_requested (status s)"
    "find_record k (foldl (\<lambda>s (k, _). cancel_record t k s) s rs) =
      (if k \<in> fst ` set rs then map_option mark_cancelled (find_record k s) else find_record k s)"
    "submitted (outbox (foldl (\<lambda>s (k, _). cancel_record t k s) s rs)) = submitted (outbox s)"
proof -
  have mm: "map_option mark_cancelled (map_option mark_cancelled x) = map_option mark_cancelled x" for x
    by (cases x) (simp_all add: mark_cancelled_def)
  show "records_ok (foldl (\<lambda>s (k, _). cancel_record t k s) s rs)"
    using assms by (induction rs arbitrary: s) (auto simp: records_ok_cancel)
  show "as_cancel_requested (status (foldl (\<lambda>s (k, _). cancel_record t k s) s rs)) = as_cancel_requested (status s)"
    by (induction rs arbitrary: s) (simp_all add: case_prod_beta)
  show "find_record k (foldl (\<lambda>s (k, _). cancel_record t k s) s rs) =
      (if k \<in> fst ` set rs then map_option mark_cancelled (find_record k s) else find_record k s)"
    by (induction rs arbitrary: s) (auto simp: mm)
  show "submitted (outbox (foldl (\<lambda>s (k, _). cancel_record t k s) s rs)) = submitted (outbox s)"
    by (induction rs arbitrary: s) auto
qed

lemma cancel_inv:
  assumes "records_ok s" "caught s"
  shows "records_ok (cancel t now s)" "caught (cancel t now s)"
    "submitted (outbox (cancel t now s)) = submitted (outbox s)"
    "as_cancel_requested (status s) \<Longrightarrow> as_cancel_requested (status (cancel t now s))"
proof -
  define s1 where "s1 = (if as_cancel_requested (status s) then s
             else s\<lparr>status := (status s)\<lparr>as_cancel_requested := True\<rparr>, cancel_at := now\<rparr>)"
  have s1: "records_ok s1" "submitted (outbox s1) = submitted (outbox s)" "records s1 = records s"
    "as_cancel_requested (status s1)"
    using assms(1) by (auto simp: s1_def)
  have c: "cancel t now s = (if as_terminal (status s) \<or> revision s = 0 then s
    else foldl (\<lambda>s (k, _). cancel_record t k s) s1 (records s1))"
    by (simp add: cancel_def s1_def Let_def)
  note f = fold_cancel [OF s1(1), where t = t and rs = "records s1"]
  show "records_ok (cancel t now s)" "submitted (outbox (cancel t now s)) = submitted (outbox s)"
    "as_cancel_requested (status s) \<Longrightarrow> as_cancel_requested (status (cancel t now s))"
    using f assms s1 by (simp_all add: c)
  have "find_record k s1 = Some r \<Longrightarrow> k \<in> fst ` set (records s1)" for k r
    by (force simp: find_record_def dest: map_of_SomeD)
  then show "caught (cancel t now s)"
    using f(2,3) s1(4) assms(2) by (auto simp: c caught_def split: if_split_asm)
qed


lemma find_filter:
  "distinct (map fst xs) \<Longrightarrow> map_of (filter (\<lambda>(_, r). P r) xs) k = Some r \<Longrightarrow> map_of xs k = Some r"
  by (metis (no_types, lifting) distinct_map_filter map_of_SomeD map_of_eq_Some_iff mem_Collect_eq set_filter)

text \<open>Appending the record of a new goal.\<close>

lemma add_record:
  assumes ok: "records_ok s" and rv: "revision s < rv"
    and s': "records s' = records s @ [(rv, new_record)]" "revision s' = rv" "cancelled (outbox s') = cancelled (outbox s)"
  shows "records_ok s'"
proof -
  have "find_record rv s = None"
    using ok rv unfolding records_ok_def by (metis not_le option.exhaust)
  then have new: "rv \<notin> fst ` set (records s)"
    by (simp add: find_record_def map_of_eq_None_iff)
  have find: "find_record k s' = (if k = rv then Some new_record else find_record k s)" for k
  proof (cases "k = rv")
    case True
    then show ?thesis using \<open>find_record rv s = None\<close> by (simp add: find_record_def s'(1) map_add_def)
  next
    case False
    then show ?thesis by (simp add: find_record_def s'(1) map_add_def split: option.split)
  qed
  have "distinct (map fst (records s'))"
    using ok new by (simp add: s'(1) records_ok_def)
  moreover have "k \<le> rv" if "find_record k s = Some r" for k r
    using ok that rv unfolding records_ok_def by (meson less_imp_le_nat le_trans)
  moreover have "k < rv" if "k \<in> set (cancelled (outbox s))" for k
    using ok that rv unfolding records_ok_def by (meson le_less_trans)
  ultimately show ?thesis
    using ok unfolding records_ok_def s'(2,3) find by (auto split: if_split_asm simp: less_imp_le)
qed

lemma send_inv:
  assumes "records_ok s"
  shows "records_ok (send timeout throws what now s)"
    "caught s \<Longrightarrow> caught (send timeout throws what now s)"
    "as_cancel_requested (status (send timeout throws what now s)) = as_cancel_requested (status s)"
    "as_cancel_requested (status s) \<Longrightarrow> send timeout throws what now s = s"
proof -
  show d: "as_cancel_requested (status s) \<Longrightarrow> send timeout throws what now s = s" by (simp add: send_def)
  define s1 where "s1 = s\<lparr>records := filter (\<lambda>(_, r). \<not> record_done r) (records s)\<rparr>"
  define s2 where "s2 = (if 0 < revision s1 then update_record (revision s1) (\<lambda>r.
                 if r_superseded_at r = 0 then r\<lparr>r_superseded_at := now\<rparr> else r) s1 else s1)"
  have d0: "distinct (map fst (records s))" using assms by (simp add: records_ok_def)
  have f1: "find_record k s = Some r" if "find_record k s1 = Some r" for k r
    using find_filter [OF d0] that by (simp add: s1_def find_record_def)
  have d1: "distinct (map fst (records s1))"
    using d0 by (simp add: s1_def distinct_map_filter)
  have "revision s1 = revision s" "outbox s1 = outbox s" by (simp_all add: s1_def)
  then have "records_ok s1"
    using assms d1 f1 unfolding records_ok_def by simp
  then have r2: "records_ok s2" by (auto simp: s2_def intro: records_ok_update)
  show c: "as_cancel_requested (status (send timeout throws what now s)) = as_cancel_requested (status s)"
    by (simp add: send_def Let_def)
  show "records_ok (send timeout throws what now s)"
  proof (cases "as_cancel_requested (status s)")
    case True
    then show ?thesis using d assms by simp
  next
    case False
    have s2: "revision s2 = revision s" "outbox s2 = outbox s" by (simp_all add: s2_def s1_def)
    have "records (send timeout throws what now s) = records s2 @ [(revision s + 1, new_record)]"
      using False by (simp add: send_def Let_def s2_def s1_def)
    moreover have "revision (send timeout throws what now s) = revision s + 1"
      "cancelled (outbox (send timeout throws what now s)) = cancelled (outbox s)"
      using False by (simp_all add: send_def Let_def)
    ultimately show ?thesis
      using s2 by (intro add_record [OF r2]) simp_all
  qed
  show "caught s \<Longrightarrow> caught (send timeout throws what now s)"
    using c d by (auto simp: caught_def)
qed

lemma result_inv:
  assumes "records_ok s" "caught s"
  shows "records_ok (on_result rv code s)" "caught (on_result rv code s)"
    "submitted (outbox (on_result rv code s)) = submitted (outbox s)"
    "as_cancel_requested (status (on_result rv code s)) = as_cancel_requested (status s)"
  using assms by (auto simp: on_result_def Let_def records_ok_update caught_update caught_def split: option.splits)

lemma cancel_response_inv:
  assumes "records_ok s" "caught s"
  shows "records_ok (on_cancel_response rv us s)" "caught (on_cancel_response rv us s)"
    "submitted (outbox (on_cancel_response rv us s)) = submitted (outbox s)"
    "as_cancel_requested (status (on_cancel_response rv us s)) = as_cancel_requested (status s)"
  using assms by (auto simp: on_cancel_response_def caught_def intro!: records_ok_update split: option.splits if_split_asm)

lemma response_inv:
  assumes "records_ok s" "caught s"
  shows "records_ok (on_response t rv h s)" "caught (on_response t rv h s)"
    "submitted (outbox (on_response t rv h s)) = submitted (outbox s)"
    "as_cancel_requested (status (on_response t rv h s)) = as_cancel_requested (status s)"
proof -
  show "submitted (outbox (on_response t rv h s)) = submitted (outbox s)"
    "as_cancel_requested (status (on_response t rv h s)) = as_cancel_requested (status s)"
    by (auto simp: on_response_def Let_def split: option.split)
  have u: "records_ok (update_record rv (\<lambda>r. r\<lparr>r_response_done := True, r_handle := h\<rparr>) s)"
    using assms by (auto intro: records_ok_update)
  show "records_ok (on_response t rv h s)"
    using u assms by (auto simp: on_response_def Let_def records_ok_update records_ok_cancel split: option.split)
  show "caught (on_response t rv h s)"
    using assms(2) by (auto simp: on_response_def Let_def caught_def split: option.splits if_split_asm)
qed


lemma fold_give_up:
  assumes "records_ok s" "caught s"
  shows "records_ok (foldl (\<lambda>s k. give_up t k s) s ks) \<and> caught (foldl (\<lambda>s k. give_up t k s) s ks) \<and>
    submitted (outbox (foldl (\<lambda>s k. give_up t k s) s ks)) = submitted (outbox s) \<and>
    as_cancel_requested (status (foldl (\<lambda>s k. give_up t k s) s ks)) = as_cancel_requested (status s) \<and>
    revision (foldl (\<lambda>s k. give_up t k s) s ks) = revision s \<and>
    cancel_at (foldl (\<lambda>s k. give_up t k s) s ks) = cancel_at s"
  using assms
proof (induction ks arbitrary: s)
  case (Cons k ks)
  have "caught (give_up t k s)"
    using caught_cancel [OF Cons.prems(2), of t k] by (auto simp: give_up_def caught_def split: if_split_asm)
  moreover have "records_ok (give_up t k s)"
    unfolding give_up_def by (intro records_ok_update records_ok_cancel Cons.prems) simp
  ultimately show ?case
    using Cons.IH [of "give_up t k s"] by (simp add: give_up_def)
qed simp

lemma caught_status: 
  "as_cancel_requested x = as_cancel_requested (status s) \<Longrightarrow> caught (s\<lparr>status := x\<rparr>) = caught s"
  by (simp add: caught_def)

lemma poll_inv:
  assumes "records_ok s" "caught s"
  shows "records_ok (poll l t now s)" "caught (poll l t now s)"
    "submitted (outbox (poll l t now s)) = submitted (outbox s)"
    "as_cancel_requested (status s) \<Longrightarrow> as_cancel_requested (status (poll l t now s))"
proof -
  define s1 where "s1 = refresh_terminal (foldl (\<lambda>s rv. give_up t rv s) s
    (map fst (filter (is_orphan (response_timeout l + cancel_timeout l) now s) (records s))))"
  have s1: "records_ok s1" "caught s1" "submitted (outbox s1) = submitted (outbox s)"
    "as_cancel_requested (status s1) = as_cancel_requested (status s)"
    using fold_give_up [OF assms, of t] by (simp_all add: s1_def)
  define P where "P s' \<longleftrightarrow> records_ok s' \<and> caught s' \<and> submitted (outbox s') = submitted (outbox s) \<and>
    (as_cancel_requested (status s) \<longrightarrow> as_cancel_requested (status s'))" for s'
  have P1: "P s1" using s1 by (simp add: P_def)
  have P0: "P s" using assms by (simp add: P_def)
  have Ps: "P (s'\<lparr>status := x\<rparr>)" if "P s'" "as_cancel_requested x = as_cancel_requested (status s')" for s' x
    using that by (simp add: P_def caught_status)
  have Pc: "P (cancel t now s')" if "P s'" for s'
    using that cancel_inv [of s' t now] by (simp add: P_def)
  have "P (poll l t now s)"
    unfolding poll_def Let_def s1_def [symmetric]
    by (simp add: P0 P1 Ps Pc)
  then show "records_ok (poll l t now s)" "caught (poll l t now s)"
    "submitted (outbox (poll l t now s)) = submitted (outbox s)"
    "as_cancel_requested (status s) \<Longrightarrow> as_cancel_requested (status (poll l t now s))"
    by (simp_all add: P_def)
qed


subsection \<open>Properties\<close>

lemma step_inv:
  assumes "action_step l refuses e s s'" "records_ok s" "caught s"
  shows "records_ok s'" "caught s'"
    "as_cancel_requested (status s) \<Longrightarrow> as_cancel_requested (status s') \<and> submitted (outbox s') = submitted (outbox s)"
  using assms
  by (elim action_stepE; simp add: send_inv response_inv result_inv cancel_response_inv poll_inv cancel_inv)+

text \<open>A goal marked as cancelled has been the subject of a request under its own handle, unless the library refused it.\<close>

definition asked_record :: "(nat \<Rightarrow> bool) \<Rightarrow> request list \<Rightarrow> nat \<Rightarrow> goal_record \<Rightarrow> bool" where
  "asked_record refuses os k r \<longleftrightarrow> (case r_handle r of
       None \<Rightarrow> \<not> r_cancel_sent r
     | Some u \<Rightarrow> r_response_done r \<and> (r_cancel_sent r \<longrightarrow> refuses k \<or> Cancel_goal k u \<in> set os))"

definition asked :: "(nat \<Rightarrow> bool) \<Rightarrow> shared \<Rightarrow> bool" where
  "asked refuses s \<longleftrightarrow> (\<forall>k r. find_record k s = Some r \<longrightarrow> asked_record refuses (outbox s) k r)"

lemma asked_simps [simp]:
  "asked q (s\<lparr>status := x\<rparr>) = asked q s" "asked q (s\<lparr>cancel_at := t\<rparr>) = asked q s" "asked q (refresh_terminal s) = asked q s"
  by (simp_all add: asked_def)

lemma asked_more: "asked_record q os k r \<Longrightarrow> set os \<subseteq> set os' \<Longrightarrow> asked_record q os' k r"
  by (auto simp: asked_record_def split: option.splits)

lemma asked_update:
  assumes "asked q s" "\<And>r. r_handle (f r) = r_handle r \<and> r_cancel_sent (f r) = r_cancel_sent r \<and> (r_response_done r \<longrightarrow> r_response_done (f r))"
  shows "asked q (update_record rv f s)"
proof -
  have "asked_record q os k (f r)" if "asked_record q os k r" for os k r
    using that assms(2) [of r] by (auto simp: asked_record_def split: option.splits)
  then show ?thesis using assms(1) by (auto simp: asked_def split: if_split_asm)
qed

lemma asked_cancel_record:
  assumes "asked q s"
  shows "asked q (cancel_record q rv s)"
proof (cases "\<exists>r u. find_record rv s = Some r \<and> r_handle r = Some u \<and> \<not> r_cancel_sent r")
  case False
  then have "cancel_record q rv s = s" by (auto simp: cancel_record_def split: option.split)
  then show ?thesis using assms by simp
next
  case True
  then obtain r u where r: "find_record rv s = Some r" "r_handle r = Some u" "\<not> r_cancel_sent r" by blast
  have o: "set (outbox s) \<subseteq> set (outbox (cancel_record q rv s))" "q rv \<or> Cancel_goal rv u \<in> set (outbox (cancel_record q rv s))"
    using r by (auto simp: cancel_record_def Let_def)
  have c: "asked_record q (outbox s) rv r" using assms r(1) by (simp add: asked_def)
  have m: "asked_record q (outbox (cancel_record q rv s)) rv (mark_cancelled r)"
    using o(2) r(2) c by (auto simp: asked_record_def mark_cancelled_def)
  show ?thesis unfolding asked_def
  proof (intro allI impI)
    fix k x assume "find_record k (cancel_record q rv s) = Some x"
    then show "asked_record q (outbox (cancel_record q rv s)) k x"
      using m r(1) assms asked_more [OF _ o(1)] by (cases "k = rv") (auto simp: asked_def)
  qed
qed

lemma asked_fold: "asked q s \<Longrightarrow> asked q (foldl (\<lambda>s (k, _). cancel_record q k s) s rs)"
  by (induction rs arbitrary: s) (auto simp: asked_cancel_record)

lemma asked_give_up: "asked q s \<Longrightarrow> asked q (foldl (\<lambda>s k. give_up q k s) s ks)"
  by (induction ks arbitrary: s) (auto simp: give_up_def asked_cancel_record asked_update)

lemma asked_cancel: "asked q s \<Longrightarrow> asked q (cancel q now s)"
  by (simp add: cancel_def Let_def asked_fold)

lemma asked_poll: "asked q s \<Longrightarrow> asked q (poll l q now s)"
  by (simp add: poll_def Let_def asked_cancel asked_give_up)

lemma asked_response:
  assumes "asked q s" "\<not> answered rv s"
  shows "asked q (on_response q rv h s)"
proof (cases "find_record rv s")
  case (Some r)
  let ?u = "update_record rv (\<lambda>r. r\<lparr>r_response_done := True, r_handle := h\<rparr>) s"
  have "\<not> r_cancel_sent r" using assms Some by (auto simp: asked_def answered_def asked_record_def split: option.splits)
  then have "asked q ?u" using assms(1) Some by (auto simp: asked_def asked_record_def split: option.split)
  then show ?thesis using Some
    by (auto simp: on_response_def Let_def asked_cancel_record asked_update split: option.split)
qed (use assms in \<open>simp add: on_response_def\<close>)

lemma asked_result: "asked q s \<Longrightarrow> asked q (on_result rv code s)" "asked q s \<Longrightarrow> asked q (on_cancel_response rv us s)"
  by (auto simp: on_result_def on_cancel_response_def Let_def asked_update split: option.split)

lemma asked_send:
  assumes "records_ok s" "asked q s"
  shows "asked q (send timeout throws what now s)"
proof (cases "as_cancel_requested (status s)")
  case False
  define s1 where "s1 = s\<lparr>records := filter (\<lambda>(_, r). \<not> record_done r) (records s)\<rparr>"
  define s2 where "s2 = (if 0 < revision s1 then update_record (revision s1) (\<lambda>r.
                 if r_superseded_at r = 0 then r\<lparr>r_superseded_at := now\<rparr> else r) s1 else s1)"
  let ?t = "send timeout throws what now s"
  have d: "distinct (map fst (records s))" using assms(1) by (simp add: records_ok_def)
  have "find_record k s = Some r" if "find_record k s1 = Some r" for k r
    using find_filter [OF d] that by (simp add: s1_def find_record_def)
  then have "asked q s1" using assms(2) by (auto simp: asked_def) (simp add: s1_def)
  then have s2: "asked q s2" by (simp add: s2_def asked_update)
  have "records ?t = records s2 @ [(revision s + 1, new_record)]" using False by (simp add: send_def Let_def s2_def s1_def)
  then have "find_record k s2 = Some r \<or> r = new_record" if "find_record k ?t = Some r" for k r
    using that by (auto simp: find_record_def map_add_def split: option.splits if_splits)
  moreover have "set (outbox s2) \<subseteq> set (outbox ?t)" using False by (auto simp: send_def Let_def s2_def s1_def)
  moreover have "asked_record q os k new_record" for os k by (simp add: asked_record_def new_record_def)
  ultimately show ?thesis using s2 asked_more unfolding asked_def by metis
qed (use assms in \<open>simp add: send_def\<close>)

lemma step_asked:
  assumes "action_step l refuses e s s'" "records_ok s" "asked refuses s"
  shows "asked refuses s'"
  using assms by (elim action_stepE) (simp_all add: asked_send asked_response asked_result asked_poll asked_cancel)

lemma run_inv:
  assumes "action_run l refuses s s'" "records_ok s" "caught s" "asked refuses s"
  shows "records_ok s' \<and> caught s' \<and> asked refuses s' \<and> (as_cancel_requested (status s) \<longrightarrow>
    as_cancel_requested (status s') \<and> submitted (outbox s') = submitted (outbox s))"
  using assms
proof (induction rule: action_run.induct)
  case (run_step s s' e s'')
  then show ?case using step_inv [OF run_step.hyps(2)] step_asked [OF run_step.hyps(2)] by auto
qed simp

lemma reachable_inv:
  assumes "action_run l refuses shared_init s"
  shows "records_ok s" "caught s" "asked refuses s"
proof -
  have "records_ok shared_init" "caught shared_init" "asked refuses shared_init"
    by (simp_all add: records_ok_def caught_def asked_def shared_init_def find_record_def cancelled_def)
  then show "records_ok s" "caught s" "asked refuses s" using run_inv [OF assms] by auto
qed

text \<open>Once cancellation is requested, every goal with a known handle was asked to stop.\<close>

lemma caught_asked:
  assumes "caught s" "asked refuses s" "as_cancel_requested (status s)" "find_record k s = Some r" "r_handle r = Some u"
  shows "refuses k \<or> Cancel_goal k u \<in> set (outbox s)"
proof -
  have "r_cancel_sent r" using assms(1,3,4,5) unfolding caught_def by blast
  moreover have "asked_record refuses (outbox s) k r" using assms(2,4) by (simp add: asked_def)
  ultimately show ?thesis using assms(5) by (simp add: asked_record_def)
qed


lemma fold_give_up_status:
  "sent_at (foldl (\<lambda>s k. give_up t k s) s ks) = sent_at s"
  "result_timeout (foldl (\<lambda>s k. give_up t k s) s ks) = result_timeout s"
  "as_timed_out (status (foldl (\<lambda>s k. give_up t k s) s ks)) = as_timed_out (status s)"
proof -
  have g: "sent_at (give_up t k s) = sent_at s" "result_timeout (give_up t k s) = result_timeout s"
    "as_timed_out (status (give_up t k s)) = as_timed_out (status s)" for k s
    by (auto simp: give_up_def cancel_record_def update_record_def Let_def split: option.split)
  show "sent_at (foldl (\<lambda>s k. give_up t k s) s ks) = sent_at s"
    by (induction ks arbitrary: s) (simp_all add: g)
  show "result_timeout (foldl (\<lambda>s k. give_up t k s) s ks) = result_timeout s"
    by (induction ks arbitrary: s) (simp_all add: g)
  show "as_timed_out (status (foldl (\<lambda>s k. give_up t k s) s ks)) = as_timed_out (status s)"
    by (induction ks arbitrary: s) (simp_all add: g)
qed

lemma refresh_times [simp]:
  "sent_at (refresh_terminal s) = sent_at s" "result_timeout (refresh_terminal s) = result_timeout s"
  "as_timed_out (status (refresh_terminal s)) = as_timed_out (status s)"
  by (simp_all add: refresh_terminal_def)

lemma cancel_requests:
  assumes "\<not> as_terminal (status s)" "0 < revision s"
  shows "as_cancel_requested (status (cancel t now s))"
proof -
  have "as_cancel_requested (status (foldl (\<lambda>s (k, _). cancel_record t k s) s rs)) =
    as_cancel_requested (status s)" for rs :: "(nat \<times> goal_record) list" and s
    by (induction rs arbitrary: s) (simp_all add: case_prod_beta)
  then show ?thesis using assms by (simp add: cancel_def Let_def)
qed

text \<open>C24. The watchdog of \<open>poll\<close>: unless every goal has ended, a current goal without an answer for
  \<open>response_timeout\<close>, a goal past its result deadline or a goal that could not be sent makes the next
  poll request cancellation, and the library is then asked to cancel every goal with a known handle under that
  handle (a call it may refuse); a cancellation unconfirmed for \<open>cancel_timeout\<close> is reported as timed out.\<close>
theorem poll_watchdog:
  assumes "action_run l refuses shared_init s" "\<not> as_terminal (status s)" "0 < revision s"
    "s' = poll l refuses now s" "\<not> as_terminal (status s')"
  shows "((\<forall>r. find_record (revision s) s = Some r \<longrightarrow> \<not> r_response_done r) \<and>
        response_timeout l < secs (now - sent_at s)
      \<or> Fin 0 < result_timeout s \<and> result_timeout s < secs (now - sent_at s)
      \<or> as_timed_out (status s) \<longrightarrow>
        as_cancel_requested (status s') \<and>
        (\<forall>rv r u. find_record rv s' = Some r \<longrightarrow> r_handle r = Some u \<longrightarrow> refuses rv \<or> Cancel_goal rv u \<in> set (outbox s'))) \<and>
    (as_cancel_requested (status s) \<and> cancel_timeout l < secs (now - cancel_at s) \<longrightarrow>
        as_timed_out (status s') \<and> as_reason (status s') = ''CANCEL_UNCONFIRMED'')"
proof -
  define s1 where "s1 = refresh_terminal (foldl (\<lambda>s rv. give_up refuses rv s) s
    (map fst (filter (is_orphan (response_timeout l + cancel_timeout l) now s) (records s))))"
  note inv = reachable_inv [OF assms(1)]
  have s1: "sent_at s1 = sent_at s" "result_timeout s1 = result_timeout s" "revision s1 = revision s"
    "as_timed_out (status s1) = as_timed_out (status s)" "cancel_at s1 = cancel_at s"
    "as_cancel_requested (status s1) = as_cancel_requested (status s)"
    using fold_give_up [OF inv(1,2), of refuses] by (simp_all add: s1_def fold_give_up_status)
  have nt: "\<not> as_terminal (status s1)"
    using assms(2-5) by (auto simp: poll_def Let_def s1_def [symmetric])
  have caught: "\<forall>rv r u. find_record rv s' = Some r \<longrightarrow> r_handle r = Some u \<longrightarrow> refuses rv \<or> Cancel_goal rv u \<in> set (outbox s')"
    if "as_cancel_requested (status s')"
    using caught_asked [OF _ _ that, of refuses] poll_inv(2) [OF inv(1,2), of l refuses now] asked_poll [OF inv(3), of l now] assms(4)
    by blast
  have unconfirmed: "as_timed_out (status s') \<and> as_reason (status s') = ''CANCEL_UNCONFIRMED''"
    if "as_cancel_requested (status s)" "cancel_timeout l < secs (now - cancel_at s)"
    using that assms(2-4) nt s1 by (simp add: poll_def Let_def s1_def [symmetric])
  have "as_cancel_requested (status s')"
    if "(\<forall>r. find_record (revision s) s = Some r \<longrightarrow> \<not> r_response_done r) \<and>
        response_timeout l < secs (now - sent_at s)
      \<or> Fin 0 < result_timeout s \<and> result_timeout s < secs (now - sent_at s) \<or> as_timed_out (status s)"
  proof (cases "as_cancel_requested (status s)")
    case True
    then show ?thesis using poll_inv(4) [OF inv(1,2)] assms(4) by simp
  next
    case False
    have "(\<not> (case find_record (revision s) s of None \<Rightarrow> False | Some r \<Rightarrow> r_response_done r) \<and>
        response_timeout l < secs (now - sent_at s)) \<or>
        Fin 0 < result_timeout s \<and> result_timeout s < secs (now - sent_at s) \<or> as_timed_out (status s)"
      using that by (auto split: option.split)
    then show ?thesis
      using False assms(2-4) nt s1
      by (simp add: poll_def Let_def s1_def [symmetric] cancel_requests)
  qed
  then show ?thesis using caught unconfirmed by blast
qed


definition demo_limits :: limits where
  "demo_limits = \<lparr>response_timeout = Fin 2, cancel_timeout = Fin 3\<rparr>"

definition demo_sent :: shared where
  "demo_sent = send (Fin 10) False [] 1000000000 shared_init"

definition demo_late :: shared where
  "demo_late = on_response (\<lambda>_. False) 1 (Some ''g1'') (cancel (\<lambda>_. False) 2000000000 demo_sent)"

lemma demo_runs:
  "action_run demo_limits (\<lambda>_. False) shared_init demo_sent"
  "action_run demo_limits (\<lambda>_. False) shared_init (cancel (\<lambda>_. False) 2000000000 demo_sent)"
  "action_run demo_limits (\<lambda>_. False) (cancel (\<lambda>_. False) 2000000000 demo_sent) demo_late"
proof -
  show sent: "action_run demo_limits (\<lambda>_. False) shared_init demo_sent"
    unfolding demo_sent_def by (rule run_step [OF run_refl step_send])
  show "action_run demo_limits (\<lambda>_. False) shared_init (cancel (\<lambda>_. False) 2000000000 demo_sent)"
    by (rule run_step [OF sent step_cancel])
  have "\<not> answered 1 (cancel (\<lambda>_. False) 2000000000 demo_sent)" by code_simp
  then show "action_run demo_limits (\<lambda>_. False) (cancel (\<lambda>_. False) 2000000000 demo_sent) demo_late"
    unfolding demo_late_def by (rule run_step [OF run_refl step_response])
qed


theorem poll_watchdog_witness:
  "as_cancel_requested (status (poll demo_limits (\<lambda>_. False) 4000000000 demo_sent))"
proof -
  have "\<not> as_terminal (status demo_sent)" "0 < revision demo_sent" by code_simp+
  moreover have "\<not> as_terminal (status (poll demo_limits (\<lambda>_. False) 4000000000 demo_sent))" by code_simp
  moreover have "\<not> Option.is_none (find_record (revision demo_sent) demo_sent)
     \<and> \<not> r_response_done (the (find_record (revision demo_sent) demo_sent))" by code_simp
  moreover have "response_timeout demo_limits < secs (4000000000 - sent_at demo_sent)" by code_simp
  ultimately show ?thesis
    using poll_watchdog [OF demo_runs(1) _ _ refl, of 4000000000] by auto
qed

end
