(* ===== verification/Recovery_Runtime.thy ===== *)
theory Recovery_Runtime
  imports Swept_Clearance Bounded_Action "HOL-Library.Word"
begin

text \<open>
  The per-robot context of the recovery tree, class \<open>RecoveryRuntime\<close> of \<open>recovery_runtime.cpp\<close>:
  parameters, health samples, odometry and stillness, goal identifiers, readiness of the inputs, the
  motion permit, the backup budget and the counters of a task. Motion sessions are addressed by number
  in \<open>rt_sessions\<close>, because the context, the action nodes and the list \<open>retiring\<close> share them; published
  permits and diagnostics are appended to \<open>rt_permits\<close> and \<open>rt_diagnostics\<close>. The two clocks are read
  once per call. Sensors are read from the default topics.
\<close>

subsection \<open>Parameters\<close>

text \<open>A ROS parameter as the node declares it, and \<open>parameter(node, key, fallback)\<close>.\<close>

datatype ros_param = P_integer int | P_double dbl | P_other

definition parameter :: "ros_param option \<Rightarrow> dbl \<Rightarrow> dbl result" where
  "parameter v fallback = (case v of
       None \<Rightarrow> Inr fallback
     | Some (P_integer i) \<Rightarrow> Inr (i2d i)
     | Some (P_double d) \<Rightarrow> Inr d
     | Some P_other \<Rightarrow> Inl (Runtime_error ''ParameterTypeException''))"

record recovery_config =
  rc_base_frame :: string
  rc_global_frame :: string
  rc_odom_topic :: string
  rc_require_perception :: bool
  rc_response_timeout :: dbl
  rc_cancel_timeout :: dbl
  rc_settle_timeout :: dbl
  rc_still_duration :: dbl
  rc_data_age :: dbl
  rc_recovery_timeout :: dbl
  rc_backup_cooldown :: dbl
  rc_input_wait_timeout :: dbl
  rc_input_healthy_duration :: dbl
  rc_max_observe_replans :: nat

definition default_config :: recovery_config where
  "default_config = \<lparr>rc_base_frame = ''base_footprint'', rc_global_frame = ''map'',
     rc_odom_topic = ''/wheel/odometry'', rc_require_perception = False,
     rc_response_timeout = Fin 1, rc_cancel_timeout = Fin 1, rc_settle_timeout = Fin 1,
     rc_still_duration = fl 0.4, rc_data_age = fl 0.5, rc_recovery_timeout = Fin 90,
     rc_backup_cooldown = Fin 12, rc_input_wait_timeout = Fin 3, rc_input_healthy_duration = fl 0.4,
     rc_max_observe_replans = 1\<rparr>"

text \<open>The numeric parameters of the constructor, by key, and its checks.\<close>

definition load_config :: "(string \<Rightarrow> ros_param option) \<Rightarrow> recovery_config \<Rightarrow> recovery_config result" where
  "load_config p c =
     bind_res (parameter (p ''recovery.response_timeout'') (Fin 1)) (\<lambda>response.
     bind_res (parameter (p ''recovery.cancel_timeout'') (Fin 1)) (\<lambda>cancel.
     bind_res (parameter (p ''recovery.settle_timeout'') (Fin 1)) (\<lambda>settle.
     bind_res (parameter (p ''recovery.still_duration'') (fl 0.4)) (\<lambda>still.
     bind_res (parameter (p ''recovery.max_data_age'') (fl 0.5)) (\<lambda>age.
     bind_res (parameter (p ''recovery.input_wait_timeout'') (Fin 3)) (\<lambda>wait.
     bind_res (parameter (p ''recovery.input_healthy_duration'') (fl 0.4)) (\<lambda>healthy.
     bind_res (parameter (p ''recovery.total_timeout'') (Fin 90)) (\<lambda>total.
     bind_res (parameter (p ''recovery.backup_cooldown'') (Fin 12)) (\<lambda>cooldown.
     bind_res (parameter (p ''recovery.max_observe_replans'') (Fin 1)) (\<lambda>replans.
       if \<not> list_all (\<lambda>v. isfinite v \<and> \<not> v \<le> Fin 0) [response, cancel, settle, still, age, total, wait, healthy]
       then Inl Invalid_argument
       else if wait \<le> healthy then Inl Invalid_argument
       else if \<not> isfinite cooldown \<or> cooldown < Fin 0 then Inl Invalid_argument
       else if \<not> isfinite replans \<or> replans < Fin 0 \<or> Fin 3 < replans \<or> \<lfloor>val replans\<rfloor> \<noteq> val replans
       then Inl Invalid_argument
       else Inr (c\<lparr>rc_response_timeout := response, rc_cancel_timeout := cancel, rc_settle_timeout := settle,
         rc_still_duration := still, rc_data_age := age, rc_recovery_timeout := total,
         rc_backup_cooldown := cooldown, rc_input_wait_timeout := wait,
         rc_input_healthy_duration := healthy, rc_max_observe_replans := nat \<lfloor>val replans\<rfloor>\<rparr>)))))))))))"

subsection \<open>State\<close>

record health_sample =
  hs_received :: bool
  hs_value :: bool
  hs_received_at :: time_ns

definition health_init :: health_sample where
  "health_init = \<lparr>hs_received = False, hs_value = False, hs_received_at = 0\<rparr>"

text \<open>\<open>after(s)\<close>: a deadline, the seconds converted to nanoseconds and truncated.\<close>

definition after :: "time_ns \<Rightarrow> dbl \<Rightarrow> time_ns" where
  "after now s = now + trunc (val (s * Fin 1000000000))"

definition health_fresh :: "health_sample \<Rightarrow> dbl \<Rightarrow> time_ns \<Rightarrow> bool" where
  "health_fresh h max_age now \<longleftrightarrow> hs_received h \<and> hs_received_at h \<noteq> 0 \<and> secs (now - hs_received_at h) \<le> max_age"

definition health_ok :: "health_sample \<Rightarrow> dbl \<Rightarrow> time_ns \<Rightarrow> bool" where
  "health_ok h max_age now \<longleftrightarrow> hs_value h \<and> health_fresh h max_age now"

record odometry =
  od_stamp :: time_ns
  od_pose :: pose
  od_vx :: dbl
  od_vy :: dbl
  od_wz :: dbl

record failed_input =
  fi_topic :: string
  fi_reason :: string
  fi_stamp_age :: dbl
  fi_receive_age :: dbl

record diag_snapshot =
  dg_phase :: string
  dg_reason :: string
  dg_fault :: bool
  dg_epoch :: nat
  dg_navigation_uuid :: string
  dg_previous_navigation_uuid :: string
  dg_backup_used :: dbl
  dg_observe_replans_used :: nat
  dg_recovery_elapsed :: dbl
  dg_last_bt_tick :: time_ns
  dg_motion :: "nat option"
  dg_failed :: failed_input

record runtime =
  rt_sensors :: sensor_snapshot
  rt_supervised :: bool
  rt_fault :: bool
  rt_fault_reason :: string
  rt_navigation_uuid :: string
  rt_previous_navigation_uuid :: string
  rt_epoch :: nat
  rt_action_sequence :: nat
  rt_motion :: "nat option"
  rt_retiring :: "nat list"
  rt_backup_used :: dbl
  rt_forward_distance :: dbl
  rt_spin_used :: bool
  rt_recovery_active :: bool
  rt_replan_required :: bool
  rt_preferred_spin_direction :: int
  rt_escape_stage :: nat
  rt_observe_replans_used :: nat
  rt_observe_started :: time_ns
  rt_recovery_started :: time_ns
  rt_last_backup_at :: time_ns
  rt_last_backup_ok :: bool
  rt_odom :: "odometry option"
  rt_odom_received :: time_ns
  rt_still_since :: time_ns
  rt_ready :: health_sample
  rt_recovery_allowed :: health_sample
  rt_perception :: health_sample
  rt_pose_uuid :: string
  rt_through_uuid :: string
  rt_retired_ids :: "string list"
  rt_last_bt_tick :: time_ns
  rt_last_diag :: time_ns
  rt_last_diag_key :: string
  rt_diag_snapshot :: diag_snapshot
  rt_failed_input :: failed_input
  rt_sessions :: "nat \<Rightarrow> shared"
  rt_next_session :: nat
  rt_permits :: "nat list"
  rt_diagnostics :: "diag_snapshot list"

definition no_failed_input :: failed_input where
  "no_failed_input = \<lparr>fi_topic = [], fi_reason = [], fi_stamp_age = Fin (- 1), fi_receive_age = Fin (- 1)\<rparr>"

definition runtime_init :: runtime where
  "runtime_init = \<lparr>rt_sensors = snapshot_init, rt_supervised = False, rt_fault = False,
     rt_fault_reason = [], rt_navigation_uuid = [], rt_previous_navigation_uuid = [], rt_epoch = 1,
     rt_action_sequence = 1, rt_motion = None, rt_retiring = [], rt_backup_used = Fin 0,
     rt_forward_distance = Fin 0, rt_spin_used = False, rt_recovery_active = False,
     rt_replan_required = False, rt_preferred_spin_direction = 0, rt_escape_stage = 0,
     rt_observe_replans_used = 0, rt_observe_started = 0, rt_recovery_started = 0,
     rt_last_backup_at = 0, rt_last_backup_ok = True, rt_odom = None, rt_odom_received = 0,
     rt_still_since = 0, rt_ready = health_init, rt_recovery_allowed = health_init,
     rt_perception = health_init, rt_pose_uuid = [], rt_through_uuid = [], rt_retired_ids = [],
     rt_last_bt_tick = 0, rt_last_diag = 0, rt_last_diag_key = [],
     rt_diag_snapshot = \<lparr>dg_phase = [], dg_reason = [], dg_fault = False, dg_epoch = 0,
       dg_navigation_uuid = [], dg_previous_navigation_uuid = [], dg_backup_used = Fin 0,
       dg_observe_replans_used = 0, dg_recovery_elapsed = Fin 0, dg_last_bt_tick = 0, dg_motion = None,
       dg_failed = no_failed_input\<rparr>,
     rt_failed_input = no_failed_input, rt_sessions = (\<lambda>_. shared_init), rt_next_session = 0, rt_permits = [],
     rt_diagnostics = []\<rparr>"

text \<open>The readings of the ROS clock and of the monotonic clock during a call.\<close>

record clocks =
  ck_ros :: time_ns
  ck_steady :: time_ns

subsection \<open>Subscriptions\<close>

definition on_ready :: "bool \<Rightarrow> time_ns \<Rightarrow> runtime \<Rightarrow> runtime" where
  "on_ready v now r = r\<lparr>rt_ready := \<lparr>hs_received = True, hs_value = v, hs_received_at = now\<rparr>\<rparr>"

definition on_perception :: "bool \<Rightarrow> time_ns \<Rightarrow> runtime \<Rightarrow> runtime" where
  "on_perception v now r = r\<lparr>rt_perception := \<lparr>hs_received = True, hs_value = v, hs_received_at = now\<rparr>\<rparr>"

definition on_recovery_allowed :: "bool \<Rightarrow> time_ns \<Rightarrow> runtime \<Rightarrow> runtime" where
  "on_recovery_allowed v now r =
     r\<lparr>rt_recovery_allowed := \<lparr>hs_received = True, hs_value = v, hs_received_at = now\<rparr>\<rparr>"

definition stopped :: "libm \<Rightarrow> odometry \<Rightarrow> bool" where
  "stopped m o' \<longleftrightarrow> m_hypot m (od_vx o') (od_vy o') < fl 0.01 \<and> \<bar>od_wz o'\<bar> < fl 0.02"

definition on_odometry :: "libm \<Rightarrow> recovery_config \<Rightarrow> odometry \<Rightarrow> time_ns \<Rightarrow> runtime \<Rightarrow> runtime" where
  "on_odometry m c msg now r =
     (let gap = (rt_odom_received r = 0 \<or> rc_data_age c < secs (now - rt_odom_received r));
          r = r\<lparr>rt_odom := Some msg, rt_odom_received := now\<rparr>;
          r = (if \<not> stopped m msg \<or> gap then r\<lparr>rt_still_since := 0\<rparr> else r)
      in if stopped m msg \<and> rt_still_since r = 0 then r\<lparr>rt_still_since := now\<rparr> else r)"

text \<open>\<open>uuid_text\<close>: two hexadecimal digits per byte.\<close>

definition hex_digit :: "nat \<Rightarrow> char" where
  "hex_digit n = char_of (if n < 10 then 48 + n else 87 + n)"

definition uuid_text :: "8 word list \<Rightarrow> string" where
  "uuid_text bytes = concat (map (\<lambda>b. [hex_digit (unat b div 16), hex_digit (unat b mod 16)]) bytes)"

definition observe_uuid :: "string \<Rightarrow> bool \<Rightarrow> runtime \<Rightarrow> runtime" where
  "observe_uuid i through r =
     (let current = (if through then rt_through_uuid r else rt_pose_uuid r) in
      if i \<in> set (rt_retired_ids r) then r
      else if i \<noteq> current
      then let r = (if current \<noteq> [] then r\<lparr>rt_retired_ids := rt_retired_ids r @ [current]\<rparr> else r)
        in if through then r\<lparr>rt_through_uuid := i\<rparr> else r\<lparr>rt_pose_uuid := i\<rparr>
      else r)"

definition goal_uuid :: "bool \<Rightarrow> runtime \<Rightarrow> string" where
  "goal_uuid through r = (if through then rt_through_uuid r else rt_pose_uuid r)"

subsection \<open>Readiness\<close>

definition healthy :: "time_ns \<Rightarrow> runtime \<Rightarrow> bool" where
  "healthy now r = health_ok (rt_ready r) (Fin 1) now"

definition note_tick :: "time_ns \<Rightarrow> runtime \<Rightarrow> runtime" where
  "note_tick now r = r\<lparr>rt_last_bt_tick := now\<rparr>"

definition odom_fresh :: "recovery_config \<Rightarrow> clocks \<Rightarrow> runtime \<Rightarrow> bool" where
  "odom_fresh c t r = (case rt_odom r of
       None \<Rightarrow> False
     | Some od \<Rightarrow> fresh_stamp (od_stamp od) (ck_ros t) (rt_odom_received r) (ck_steady t) (rc_data_age c))"

definition still :: "recovery_config \<Rightarrow> dbl \<Rightarrow> clocks \<Rightarrow> runtime \<Rightarrow> bool" where
  "still c duration t r \<longleftrightarrow> odom_fresh c t r \<and> rt_still_since r \<noteq> 0 \<and>
     duration \<le> secs (ck_steady t - rt_still_since r)"

definition restart_stillness :: "runtime \<Rightarrow> runtime" where
  "restart_stillness r = r\<lparr>rt_still_since := 0\<rparr>"

definition runtime_pose :: "tf_env \<Rightarrow> recovery_config \<Rightarrow> string \<Rightarrow> time_ns \<Rightarrow> pose_stamped option" where
  "runtime_pose tf c frame ros_now =
     (let target = (if frame = [] then rc_global_frame c else frame) in
      case tf_lookup tf target (rc_base_frame c) 0 of
        None \<Rightarrow> None
      | Some tr \<Rightarrow>
          if tr_stamp tr div 1000000000 \<noteq> 0 \<and> rc_data_age c < secs (ros_now - tr_stamp tr) then None
          else Some \<lparr>ps_frame = target, ps_stamp = tr_stamp tr,
            ps_pose = \<lparr>p_position = tr_translation tr, p_orientation = tr_rotation tr\<rparr>\<rparr>)"

definition perception_ready :: "recovery_config \<Rightarrow> time_ns \<Rightarrow> runtime \<Rightarrow> bool" where
  "perception_ready c now r \<longleftrightarrow> \<not> rc_require_perception c \<or>
     health_fresh (rt_perception r) (fl 0.30) now \<and> hs_value (rt_perception r)"

text \<open>The lambdas of \<open>inputs_ready\<close>.\<close>

definition stale :: "recovery_config \<Rightarrow> clocks \<Rightarrow> time_ns option \<Rightarrow> time_ns \<Rightarrow> bool" where
  "stale c t stamp received = (case stamp of
       None \<Rightarrow> True
     | Some s \<Rightarrow> \<not> fresh_stamp s (ck_ros t) received (ck_steady t) (rc_data_age c))"

definition stamp_age :: "clocks \<Rightarrow> time_ns option \<Rightarrow> dbl" where
  "stamp_age t stamp = (case stamp of None \<Rightarrow> Fin (- 1) | Some s \<Rightarrow> secs (ck_ros t - s))"

definition received_age :: "clocks \<Rightarrow> time_ns \<Rightarrow> dbl" where
  "received_age t received = (if received = 0 then Fin (- 1) else secs (ck_steady t - received))"

definition input_failure ::
  "string \<Rightarrow> string \<Rightarrow> dbl \<Rightarrow> dbl \<Rightarrow> runtime \<Rightarrow> safety_result \<times> runtime" where
  "input_failure c topic sa ra r = (unsafe c,
     r\<lparr>rt_failed_input := \<lparr>fi_topic = topic, fi_reason = c, fi_stamp_age = sa, fi_receive_age = ra\<rparr>\<rparr>)"

definition sensor_failure ::
  "clocks \<Rightarrow> string \<Rightarrow> time_ns option \<Rightarrow> time_ns \<Rightarrow> runtime \<Rightarrow> safety_result \<times> runtime" where
  "sensor_failure t topic stamp received r =
     input_failure (if stamp = None then ''DATA_MISSING'' else ''DATA_EXPIRED'') topic
       (stamp_age t stamp) (received_age t received) r"

definition maps_invalid :: "costmap_msg \<Rightarrow> polygon_msg \<Rightarrow> bool" where
  "maps_invalid cm fp \<longleftrightarrow> length (fp_points fp) < 3 \<or> cm_resolution cm \<le> Fin 0
     \<or> cm_size_x cm * cm_size_y cm \<noteq> length (cm_data cm) \<or> cm_data cm = []"

definition inputs_ready ::
  "libm \<Rightarrow> tf_env \<Rightarrow> recovery_config \<Rightarrow> clocks \<Rightarrow> runtime \<Rightarrow> safety_result \<times> runtime" where
  "inputs_ready m tf c t r =
     (if \<not> perception_ready c (ck_steady t) r
      then input_failure ''PERCEPTION_UNHEALTHY'' ''/navigation/perception_motion_allowed'' (Fin (- 1)) (Fin (- 1)) r
      else if \<not> healthy (ck_steady t) r
      then input_failure ''LOCALIZATION_UNHEALTHY'' ''/localization_monitor/ready'' (Fin (- 1))
        (received_age t (hs_received_at (rt_ready r))) r
      else let od = map_option od_stamp (rt_odom r); d = rt_sensors r;
               sc = map_option sc_stamp (sn_scan d); cm = map_option cm_stamp (sn_costmap d);
               fp = map_option fp_stamp (sn_footprint d)
      in if stale c t od (rt_odom_received r)
      then input_failure ''ODOM_EXPIRED'' (rc_odom_topic c) (stamp_age t od)
        (received_age t (rt_odom_received r)) r
      else if stale c t sc (sn_scan_received d)
      then sensor_failure t ''/scan'' sc (sn_scan_received d) r
      else if stale c t cm (sn_costmap_received d)
      then sensor_failure t ''/local_costmap/costmap_raw'' cm (sn_costmap_received d) r
      else if stale c t fp (sn_footprint_received d)
      then sensor_failure t ''/local_costmap/published_footprint'' fp (sn_footprint_received d) r
      else if runtime_pose tf c [] (ck_ros t) = None
      then input_failure ''TF_UNAVAILABLE'' ''/tf'' (Fin (- 1)) (Fin (- 1)) r
      else case (sn_scan d, sn_costmap d, sn_footprint d) of
        (Some scan, Some cm, Some fp) \<Rightarrow>
          if \<not> fst (scan_points_in_base m tf scan (rc_base_frame c)) \<or> maps_invalid cm fp
          then input_failure ''DATA_INVALID''
            ''/scan,/local_costmap/costmap_raw,/local_costmap/published_footprint'' (Fin (- 1)) (Fin (- 1)) r
          else if tf_lookup tf (rc_base_frame c) (fp_frame fp) (fp_stamp fp) = None
            \<or> tf_lookup tf (cm_frame cm) (rc_base_frame c) 0 = None
          then input_failure ''TF_UNAVAILABLE'' ''/tf'' (Fin (- 1)) (Fin (- 1)) r
          else (safety_ok, r)
      | _ \<Rightarrow> (unsafe [], r))"

subsection \<open>Permit, diagnostics, tasks\<close>

definition rt_permit :: "bool \<Rightarrow> runtime \<Rightarrow> runtime" where
  "rt_permit allowed r =
     r\<lparr>rt_permits := rt_permits r @ [if allowed \<and> \<not> rt_fault r then rt_action_sequence r else 0]\<rparr>"

definition diagnostic :: "string \<Rightarrow> string \<Rightarrow> time_ns \<Rightarrow> runtime \<Rightarrow> runtime" where
  "diagnostic phase reason now r =
     (if phase @ reason = rt_last_diag_key r \<and> rt_last_diag r \<noteq> 0 \<and> secs (now - rt_last_diag r) < Fin 1 then r
      else let snap = \<lparr>dg_phase = phase, dg_reason = reason, dg_fault = rt_fault r, dg_epoch = rt_epoch r,
             dg_navigation_uuid = rt_navigation_uuid r,
             dg_previous_navigation_uuid = rt_previous_navigation_uuid r,
             dg_backup_used = rt_backup_used r, dg_observe_replans_used = rt_observe_replans_used r,
             dg_recovery_elapsed = (if rt_recovery_active r then secs (now - rt_recovery_started r) else Fin 0),
             dg_last_bt_tick = rt_last_bt_tick r, dg_motion = rt_motion r, dg_failed = rt_failed_input r\<rparr>
        in r\<lparr>rt_last_diag := now, rt_last_diag_key := phase @ reason, rt_diag_snapshot := snap,
             rt_diagnostics := rt_diagnostics r @ [snap]\<rparr>)"

definition publish_recovery_status :: "runtime \<Rightarrow> runtime" where
  "publish_recovery_status r =
     (if rt_last_bt_tick r = 0 \<or> dg_phase (rt_diag_snapshot r) = [] then r
      else r\<lparr>rt_diagnostics := rt_diagnostics r @ [(rt_diag_snapshot r)\<lparr>dg_last_bt_tick := rt_last_bt_tick r\<rparr>]\<rparr>)"

definition rt_fail :: "string \<Rightarrow> time_ns \<Rightarrow> runtime \<Rightarrow> runtime" where
  "rt_fail reason now r =
     diagnostic ''FAILED'' reason now (rt_permit False (r\<lparr>rt_fault := True, rt_fault_reason := reason\<rparr>))"

definition reset_for_new_task :: "string \<Rightarrow> time_ns \<Rightarrow> runtime \<Rightarrow> runtime" where
  "reset_for_new_task uuid now r =
     (let r = (rt_permit False r)\<lparr>rt_failed_input := no_failed_input\<rparr>;
          r = (if rt_navigation_uuid r \<noteq> uuid
            then r\<lparr>rt_previous_navigation_uuid := rt_navigation_uuid r, rt_navigation_uuid := uuid\<rparr> else r);
          r = r\<lparr>rt_fault := False, rt_fault_reason := [], rt_backup_used := Fin 0,
            rt_forward_distance := Fin 0, rt_spin_used := False, rt_recovery_active := False,
            rt_replan_required := True, rt_preferred_spin_direction := 0, rt_escape_stage := 0,
            rt_observe_replans_used := 0, rt_observe_started := 0, rt_recovery_started := 0,
            rt_last_backup_at := 0, rt_last_backup_ok := True, rt_motion := None,
            rt_epoch := rt_epoch r + 1\<rparr>
      in diagnostic ''TASK_START_READY'' ''NEW_TASK_RESET'' now r)"

definition begin_recovery :: "time_ns \<Rightarrow> runtime \<Rightarrow> runtime" where
  "begin_recovery now r =
     (if rt_recovery_active r then r
      else r\<lparr>rt_recovery_active := True, rt_recovery_started := now, rt_forward_distance := Fin 0\<rparr>)"

definition forward_progress :: "dbl \<Rightarrow> runtime \<Rightarrow> runtime" where
  "forward_progress distance r =
     (if \<not> isfinite distance then r
      else let r = r\<lparr>rt_forward_distance := dmax (Fin 0) (rt_forward_distance r + distance)\<rparr>
        in if fl 0.20 \<le> rt_forward_distance r
           then r\<lparr>rt_backup_used := Fin 0, rt_spin_used := False, rt_escape_stage := 0,
             rt_observe_replans_used := 0, rt_preferred_spin_direction := 0, rt_observe_started := 0,
             rt_forward_distance := Fin 0, rt_recovery_active := False\<rparr>
           else r)"

subsection \<open>Backup budget\<close>

definition micron :: dbl where
  "micron = fl (1 / 1000000)"

definition reserve_backup :: "dbl \<Rightarrow> runtime \<Rightarrow> bool \<times> runtime" where
  "reserve_backup distance r =
     (if \<not> isfinite distance \<or> distance \<le> Fin 0 \<or> kMaxSingleBackupDistance + micron < distance
        \<or> kMaxBackupBudget + micron < rt_backup_used r + distance
      then (False, r)
      else (True, r\<lparr>rt_backup_used := rt_backup_used r + distance, rt_forward_distance := Fin 0\<rparr>))"

definition release_backup :: "dbl \<Rightarrow> runtime \<Rightarrow> runtime" where
  "release_backup distance r = r\<lparr>rt_backup_used := dmax (Fin 0) (rt_backup_used r - distance)\<rparr>"

definition reconcile_backup :: "dbl \<Rightarrow> dbl \<Rightarrow> bool \<Rightarrow> runtime \<Rightarrow> runtime" where
  "reconcile_backup reserved traveled odom_reliable r =
     (if \<not> isfinite reserved \<or> reserved \<le> Fin 0 then r
      else if \<not> odom_reliable \<or> \<not> isfinite traveled \<or> traveled < Fin 0 then r
      else r\<lparr>rt_backup_used := dmax (Fin 0) (rt_backup_used r - reserved) + dmin reserved traveled\<rparr>)"

definition note_backup :: "bool \<Rightarrow> time_ns \<Rightarrow> runtime \<Rightarrow> runtime" where
  "note_backup succeeded now r = r\<lparr>rt_last_backup_at := now, rt_last_backup_ok := succeeded\<rparr>"

definition backup_cooling :: "recovery_config \<Rightarrow> time_ns \<Rightarrow> runtime \<Rightarrow> bool" where
  "backup_cooling c now r \<longleftrightarrow> \<not> (rc_backup_cooldown c \<le> Fin 0 \<or> rt_last_backup_at r = 0 \<or>
     rc_backup_cooldown c \<le> secs (now - rt_last_backup_at r))"

definition request_observe_replan :: "recovery_config \<Rightarrow> runtime \<Rightarrow> bool \<times> runtime" where
  "request_observe_replan c r =
     (if rc_max_observe_replans c \<le> rt_observe_replans_used r then (False, r)
      else (True, r\<lparr>rt_observe_replans_used := rt_observe_replans_used r + 1, rt_observe_started := 0\<rparr>))"

subsection \<open>Stillness\<close>

text \<open>What can happen to the stillness timer.\<close>

datatype odom_event = Odom odometry | Restart

definition odom_handle :: "libm \<Rightarrow> recovery_config \<Rightarrow> odom_event \<Rightarrow> time_ns \<Rightarrow> runtime \<Rightarrow> runtime" where
  "odom_handle m c e now r = (case e of Odom msg \<Rightarrow> on_odometry m c msg now r | Restart \<Rightarrow> restart_stillness r)"

lemma still_since_step:
  assumes "rt_still_since (odom_handle m c e now r) = s" "s \<noteq> 0"
  shows "(s = now \<or> s = rt_still_since r) \<and> (\<forall>msg. e = Odom msg \<longrightarrow> stopped m msg)"
  using assms
  by (cases e) (auto simp: odom_handle_def on_odometry_def restart_stillness_def Let_def split: if_split_asm)

lemma stopped_since:
  assumes "sorted_wrt (<) (map snd es)" "rt_still_since (run_events (odom_handle m c) es r) = s" "s \<noteq> 0"
    "rt_still_since r = 0" "(Odom msg, t) \<in> set es" "s \<le> t"
  shows "stopped m msg"
  using assms
proof (induction es arbitrary: s rule: rev_induct)
  case (snoc x es)
  obtain e now where x: "x = (e, now)" by (cases x)
  note step = still_since_step [OF snoc.prems(2) [unfolded x run_events_snoc] snoc.prems(3)]
  show ?case
  proof (cases "(Odom msg, t) \<in> set es")
    case True
    then have "t < now" using snoc.prems(1) x by (force simp: sorted_wrt_append)
    then have "s = rt_still_since (run_events (odom_handle m c) es r)" using step snoc.prems(6) by auto
    then show ?thesis
      using snoc.IH [OF _ refl _ snoc.prems(4) True] snoc.prems by (simp add: sorted_wrt_append)
  next
    case False
    then show ?thesis using step snoc.prems(5) x by auto
  qed
qed simp

text \<open>When the runtime reports that the robot has been still for a while, the latest odometry is
  fresh, and every odometry message that arrived during that while reported a standing robot.\<close>
theorem still_means_stopped:
  assumes "sorted_wrt (<) (map snd es)" "still c duration ck (run_events (odom_handle m c) es runtime_init)"
    "(Odom msg, t) \<in> set es" "duration \<noteq> NaN" "\<not> duration \<le> secs (ck_steady ck - t)"
  shows "stopped m msg \<and> odom_fresh c ck (run_events (odom_handle m c) es runtime_init)"
proof -
  define s where "s = rt_still_since (run_events (odom_handle m c) es runtime_init)"
  have s: "s \<noteq> 0" "duration \<le> secs (ck_steady ck - s)"
    "odom_fresh c ck (run_events (odom_handle m c) es runtime_init)"
    using assms(2) by (simp_all add: still_def s_def)
  have "s \<le> t"
  proof (rule ccontr)
    assume "\<not> s \<le> t"
    then have "secs (ck_steady ck - s) \<le> secs (ck_steady ck - t)" by (intro secs_mono) simp
    then show False using s(2) assms(5) dbl_le_trans by blast
  qed
  then have "stopped m msg"
    using stopped_since [OF assms(1) s_def [symmetric] s(1) _ assms(3)] by (simp add: runtime_init_def)
  then show ?thesis using s(3) by simp
qed

subsection \<open>Identifiers\<close>

definition uuid_handle :: "string \<times> bool \<Rightarrow> time_ns \<Rightarrow> runtime \<Rightarrow> runtime" where
  "uuid_handle e now r = observe_uuid (fst e) (snd e) r"

lemma uuid_handle_simp [simp]: "uuid_handle (j, th) now r = observe_uuid j th r"
  by (simp add: uuid_handle_def)

lemma observe_uuid_step:
  "set (rt_retired_ids r) \<subseteq> set (rt_retired_ids (observe_uuid i through r))"
  "goal_uuid b (observe_uuid i through r) \<noteq> goal_uuid b r \<Longrightarrow>
     b = through \<and> goal_uuid b (observe_uuid i through r) = i \<and> i \<notin> set (rt_retired_ids r) \<and>
     (goal_uuid b r = [] \<or> goal_uuid b r \<in> set (rt_retired_ids (observe_uuid i through r)))"
  by (auto simp: observe_uuid_def goal_uuid_def Let_def split: if_splits)

lemma retired_grows:
  "set (rt_retired_ids r) \<subseteq> set (rt_retired_ids (run_events uuid_handle es r))"
proof (induction es rule: rev_induct)
  case (snoc x es)
  obtain j th now where x: "x = ((j, th), now)" by (metis surj_pair)
  show ?case
    using snoc.IH observe_uuid_step(1) [of "run_events uuid_handle es r" j th]
    unfolding x run_events_snoc uuid_handle_simp by (rule order_trans)
qed simp

text \<open>A goal identifier that has been replaced stays replaced: whatever feedback of old goals
  still arrives, and in whatever order, it never becomes the current goal of that action again.\<close>
theorem replaced_uuid_stays_out:
  assumes "goal_uuid b r = i" "i \<noteq> []" "goal_uuid b (run_events uuid_handle es r) \<noteq> i"
  shows "goal_uuid b (run_events uuid_handle (es @ es') r) \<noteq> i"
proof -
  have gone: "goal_uuid b (run_events uuid_handle es s) \<noteq> i"
    if "goal_uuid b s \<noteq> i" "i \<in> set (rt_retired_ids s)" for es s
  proof (induction es rule: rev_induct)
    case (snoc x es)
    obtain j th now where x: "x = ((j, th), now)" by (metis surj_pair)
    have i: "i \<in> set (rt_retired_ids (run_events uuid_handle es s))"
      using retired_grows that(2) by (rule subsetD)
    have "goal_uuid b (observe_uuid j th (run_events uuid_handle es s)) \<noteq> i"
    proof
      assume eq: "goal_uuid b (observe_uuid j th (run_events uuid_handle es s)) = i"
      with snoc.IH have "goal_uuid b (observe_uuid j th (run_events uuid_handle es s)) \<noteq>
        goal_uuid b (run_events uuid_handle es s)" by metis
      from observe_uuid_step(2) [OF this] show False using eq i by simp
    qed
    then show ?case by (simp add: x)
  qed (simp add: that)
  have "i \<in> set (rt_retired_ids (run_events uuid_handle es r))"
    using assms(3)
  proof (induction es rule: rev_induct)
    case (snoc x es)
    obtain j th now where x: "x = ((j, th), now)" by (metis surj_pair)
    let ?s = "run_events uuid_handle es r"
    show ?case
    proof (cases "goal_uuid b ?s = i")
      case True
      then have "goal_uuid b (observe_uuid j th ?s) \<noteq> goal_uuid b ?s"
        using snoc.prems by (simp add: x)
      from observe_uuid_step(2) [OF this] show ?thesis
        using True assms(2) by (simp add: x)
    next
      case False
      then show ?thesis
        using snoc.IH subsetD [OF observe_uuid_step(1) [of ?s j th]]
        by (simp add: x)
    qed
  qed (simp add: assms(1))
  then show ?thesis using gone assms(3) by (simp add: run_events_append)
qed


subsection \<open>Budget\<close>

datatype budget_event =
    Reserve dbl
  | Release dbl
  | Reconcile dbl dbl bool
  | Forward dbl
  | New_task string

definition budget_handle :: "budget_event \<Rightarrow> time_ns \<Rightarrow> runtime \<Rightarrow> runtime" where
  "budget_handle e now r = (case e of
       Reserve d \<Rightarrow> snd (reserve_backup d r)
     | Release d \<Rightarrow> release_backup d r
     | Reconcile d traveled reliable \<Rightarrow> reconcile_backup d traveled reliable r
     | Forward d \<Rightarrow> forward_progress d r
     | New_task uuid \<Rightarrow> reset_for_new_task uuid now r)"

text \<open>Callers give back distances that \<open>reserve_backup\<close> accepted.\<close>

fun gives_back_reserved :: "budget_event \<Rightarrow> bool" where
  "gives_back_reserved (Release d) \<longleftrightarrow> Fin 0 \<le> d"
| "gives_back_reserved (Reconcile d _ _) \<longleftrightarrow> d \<le> kMaxSingleBackupDistance + micron"
| "gives_back_reserved _ \<longleftrightarrow> True"

lemma diagnostic_used [simp]: "rt_backup_used (diagnostic p q now r) = rt_backup_used r"
  by (simp add: diagnostic_def Let_def)

lemma limits_near:
  "\<exists>M. kMaxSingleBackupDistance + micron = Fin M \<and> \<bar>M - 200001 / 1000000\<bar> \<le> 3 * eps64"
  "\<exists>B. kMaxBackupBudget + micron = Fin B \<and> \<bar>B - 400001 / 1000000\<bar> \<le> 3 * eps64"
proof -
  obtain e where e: "micron = Fin e" "\<bar>e - 1 / 1000000\<bar> \<le> eps64"
    using fl_near [of "1 / 1000000"] by (auto simp: micron_def)
  have "\<exists>L. fl a + micron = Fin L \<and> \<bar>L - (a + 1 / 1000000)\<bar> \<le> 3 * eps64" if a: "\<bar>a\<bar> \<le> 1" for a
  proof -
    obtain b where b: "fl a = Fin b" "\<bar>b - a\<bar> \<le> eps64"
      using fl_near [of a, OF order_trans [OF a]] by auto
    then have "\<bar>b + e\<bar> \<le> 8" using b(2) e(2) a eps64 by linarith
    then obtain L where L: "fl (b + e) = Fin L" "\<bar>L - (b + e)\<bar> \<le> eps64" using fl_near by blast
    have "\<bar>L - (a + 1 / 1000000)\<bar> \<le> 3 * eps64" using b(2) e(2) L(2) by linarith
    then show ?thesis by (intro exI [of _ L]) (simp add: b(1) e(1) L(1))
  qed
  from this [of "20 / 100"] this [of "40 / 100"]
  show "\<exists>M. kMaxSingleBackupDistance + micron = Fin M \<and> \<bar>M - 200001 / 1000000\<bar> \<le> 3 * eps64"
    "\<exists>B. kMaxBackupBudget + micron = Fin B \<and> \<bar>B - 400001 / 1000000\<bar> \<le> 3 * eps64"
    by (simp_all add: kMaxSingleBackupDistance_def kMaxBackupBudget_def)
qed

lemma reserve_bound:
  assumes "reserve_backup d r = (True, r')" "rt_backup_used r = Fin u" "0 \<le> u"
  shows "\<exists>u'. rt_backup_used r' = Fin u' \<and> 0 \<le> u' \<and> u' \<le> 40001 / 100000"
proof -
  obtain B where B: "kMaxBackupBudget + micron = Fin B" "\<bar>B - 400001 / 1000000\<bar> \<le> 3 * eps64"
    using limits_near(2) by blast
  obtain D where D: "d = Fin D" "0 < D" using assms(1) by (cases d) (auto simp: reserve_backup_def split: if_split_asm)
  have used: "rt_backup_used r' = fl (u + D)" "\<not> Fin B < fl (u + D)"
    using assms(1,2) D B(1) by (auto simp: reserve_backup_def split: if_split_asm)
  have "Fin 0 \<le> fl (u + D)" using fl_mono [of 0 "u + D"] assms(3) D(2) by simp
  then obtain u' where u': "fl (u + D) = Fin u'" using used(2) by (cases "fl (u + D)") auto
  have "\<not> B < u'" using used(2) unfolding u' by simp
  then have "u' \<le> 40001 / 100000" using B(2) eps64 by linarith
  then show ?thesis using used(1) u' \<open>Fin 0 \<le> fl (u + D)\<close> by simp
qed

lemma budget_step:
  assumes "gives_back_reserved e" "rt_backup_used r = Fin u" "0 \<le> u" "u \<le> 1"
  shows "\<exists>u'. rt_backup_used (budget_handle e now r) = Fin u' \<and> 0 \<le> u' \<and>
    u' \<le> max (40001 / 100000) (u + 2 * eps64)"
proof (cases e)
  case (Reserve d)
  show ?thesis
  proof (cases "fst (reserve_backup d r)")
    case True
    then obtain r' where r': "reserve_backup d r = (True, r')" by (cases "reserve_backup d r") simp
    show ?thesis using reserve_bound [OF r' assms(2,3)] by (auto simp: budget_handle_def Reserve r')
  next
    case False
    then have "snd (reserve_backup d r) = r" by (auto simp: reserve_backup_def)
    moreover have "u \<le> u + 2 * eps64" using eps64 by simp
    ultimately show ?thesis using assms by (simp add: budget_handle_def Reserve le_max_iff_disj)
  qed
next
  case (Release d)
  then have d: "Fin 0 \<le> d" using assms(1) by simp
  obtain u1 where u1: "fl u = Fin u1" "\<bar>u1 - u\<bar> \<le> eps64" using fl_near [of u] assms(3,4) by auto
  have "Fin u - d \<le> Fin u1" if ne: "d \<noteq> PInf"
  proof -
    obtain D where "d = Fin D" "0 \<le> D" using d ne by (cases d) simp_all
    then show ?thesis using fl_mono [of "u - D" u] u1(1) by simp
  qed
  moreover have "Fin u - d = NInf" if "d = PInf" using that by (simp add: minus_dbl_def)
  ultimately have "\<exists>v. dmax (Fin 0) (Fin u - d) = Fin v \<and> 0 \<le> v \<and> v \<le> max 0 u1"
    by (cases "Fin u - d"; cases "d = PInf") (auto simp: dmax_def)
  then obtain v where v: "dmax (Fin 0) (Fin u - d) = Fin v" "0 \<le> v" "v \<le> max 0 u1" by blast
  have "v \<le> max (40001 / 100000) (u + 2 * eps64)" using v(3) u1(2) eps64 by linarith
  then show ?thesis using v assms(2) by (simp add: budget_handle_def Release release_backup_def)
next
  case (Reconcile d traveled reliable)
  obtain M where M: "kMaxSingleBackupDistance + micron = Fin M" "\<bar>M - 200001 / 1000000\<bar> \<le> 3 * eps64"
    using limits_near(1) by blast
  show ?thesis
  proof (cases "(\<exists>D T. d = Fin D \<and> 0 < D \<and> reliable \<and> traveled = Fin T \<and> 0 \<le> T)")
    case False
    then have "reconcile_backup d traveled reliable r = r"
      by (cases d; cases traveled) (auto simp: reconcile_backup_def)
    moreover have "u \<le> u + 2 * eps64" using eps64 by simp
    ultimately show ?thesis using assms by (simp add: budget_handle_def Reconcile le_max_iff_disj)
  next
    case True
    then obtain D T where D: "d = Fin D" "0 < D" "traveled = Fin T" "0 \<le> T" and rel: "reliable" by blast
    have DM: "D \<le> 21 / 100" using assms(1) M eps64 by (simp add: Reconcile D(1))
    obtain x where x: "fl (u - D) = Fin x" "\<bar>x - (u - D)\<bar> \<le> eps64"
      using fl_near [of "u - D"] assms(3,4) D(2) DM by (auto simp: abs_le_iff)
    define y where "y = max 0 x"
    define m where "m = min D T"
    have m: "0 \<le> m" "m \<le> D" using D by (auto simp: m_def)
    have "\<bar>y + m\<bar> \<le> 8" using x(2) m DM assms(3,4) D(2) eps64 unfolding y_def by linarith
    then obtain z where z: "fl (y + m) = Fin z" "\<bar>z - (y + m)\<bar> \<le> eps64"
      using fl_near by blast
    have used: "rt_backup_used (budget_handle e now r) = Fin z"
    proof -
      have "dmax (Fin 0) (Fin x) = Fin y" "dmin (Fin D) (Fin T) = Fin m"
        by (auto simp: dmax_def dmin_def y_def m_def)
      then show ?thesis
        using D rel assms(2) by (simp add: budget_handle_def Reconcile reconcile_backup_def x(1) z(1))
    qed
    have "0 \<le> z" using z(1) fl_mono [of 0 "y + m"] m by (simp add: y_def)
    moreover have "z \<le> max (40001 / 100000) (u + 2 * eps64)"
      using z(2) x(2) m DM eps64 unfolding y_def by linarith
    ultimately show ?thesis using used by blast
  qed
next
  case (Forward d)
  moreover have "u \<le> u + 2 * eps64" using eps64 by simp
  then have "u \<le> max (40001 / 100000) (u + 2 * eps64)" by (simp add: le_max_iff_disj)
  ultimately show ?thesis using assms by (auto simp: budget_handle_def forward_progress_def Let_def)
next
  case (New_task uuid)
  then show ?thesis by (simp add: budget_handle_def reset_for_new_task_def Let_def)
qed


lemma budget_run:
  assumes "list_all (\<lambda>(e, _). gives_back_reserved e) es" "rt_backup_used r = Fin 0" "length es \<le> 1000000"
  shows "\<exists>u. rt_backup_used (run_events budget_handle es r) = Fin u \<and> 0 \<le> u \<and>
    u \<le> 40001 / 100000 + rat_of_nat (length es) * (2 * eps64)"
  using assms
proof (induction es rule: rev_induct)
  case (snoc x es)
  obtain e now where x: "x = (e, now)" by (cases x)
  obtain u where u: "rt_backup_used (run_events budget_handle es r) = Fin u" "0 \<le> u"
    "u \<le> 40001 / 100000 + rat_of_nat (length es) * (2 * eps64)"
    using snoc by auto
  have "rat_of_nat (length es) * (2 * eps64) \<le> 1000000 * (2 * (1 / 1000000000000))"
    using snoc.prems(3) eps64 by (intro mult_mono) auto
  then have "u \<le> 1" using u(3) by simp
  moreover have "gives_back_reserved e" using snoc.prems(1) x by simp
  ultimately obtain v where v: "rt_backup_used (budget_handle e now (run_events budget_handle es r)) = Fin v"
    "0 \<le> v" "v \<le> max (40001 / 100000) (u + 2 * eps64)"
    using budget_step [OF _ u(1,2)] by blast
  have "0 \<le> rat_of_nat (length es) * (2 * eps64)" using eps64 by simp
  then have "v \<le> 40001 / 100000 + (rat_of_nat (length es) * (2 * eps64) + 2 * eps64)"
    using v(3) u(3) eps64 by linarith
  then show ?case using v(1,2) by (simp add: x distrib_right add.commute)
qed simp

text \<open>C26. Over any history of up to a million reservations, releases, reconciliations, progress reports
  and new tasks, in which only accepted distances are given back, the recorded backup distance is a
  non-negative number that exceeds the budget of 0.40 m by at most two hundredths of a millimetre.\<close>
theorem backup_budget_kept:
  assumes "list_all (\<lambda>(e, _). gives_back_reserved e) es" "length es \<le> 1000000"
  shows "\<exists>u. rt_backup_used (run_events budget_handle es runtime_init) = Fin u \<and> 0 \<le> u \<and> u \<le> 40002 / 100000"
proof -
  have init0: "rt_backup_used runtime_init = Fin 0" by (simp add: runtime_init_def)
  obtain u where u: "rt_backup_used (run_events budget_handle es runtime_init) = Fin u" "0 \<le> u"
    "u \<le> 40001 / 100000 + rat_of_nat (length es) * (2 * eps64)"
    using budget_run [OF assms(1) _ assms(2), of runtime_init] init0 by blast
  have "rat_of_nat (length es) * (2 * eps64) \<le> 1000000 * (2 * (1 / 1000000000000))"
    using assms(2) eps64 by (intro mult_mono) auto
  then show ?thesis using u by simp
qed

text \<open>The selection and the budget agree: a distance that \<open>select_backup_distance\<close> chooses against
  the remaining budget is accepted by \<open>reserve_backup\<close>.\<close>
theorem selected_backup_is_reservable:
  assumes "rt_backup_used r = Fin u" "0 \<le> u" "0 < q"
    "s = select_backup_distance (Fin q) (kMaxBackupBudget - rt_backup_used r) (Some check)
       kMinAdaptiveBackupDistance kAdaptiveBackupStep kRearStoppingClearance" "bs_ok s"
  shows "fst (reserve_backup (bs_selected s) r)"
proof -
  obtain K where K: "kMaxBackupBudget = Fin K" "\<bar>K - 40 / 100\<bar> \<le> eps64"
    using fl_near [of "40 / 100"] by (auto simp: kMaxBackupBudget_def)
  obtain B where B: "kMaxBackupBudget + micron = Fin B" "\<bar>B - 400001 / 1000000\<bar> \<le> 3 * eps64"
    using limits_near(2) by blast
  obtain M where M: "kMaxSingleBackupDistance + micron = Fin M" "\<bar>M - 200001 / 1000000\<bar> \<le> 3 * eps64"
    using limits_near(1) by blast
  obtain M0 where M0: "kMaxSingleBackupDistance = Fin M0" "\<bar>M0 - 20 / 100\<bar> \<le> eps64"
    using fl_near [of "20 / 100"] by (auto simp: kMaxSingleBackupDistance_def)
  have rem: "isfinite (fl (K - u))" "\<not> fl (K - u) \<le> Fin 0"
    using assms(4,5) by (auto simp: select_backup_distance_def assms(1) K(1) refused_def split: if_split_asm)
  then obtain b where b: "fl (K - u) = Fin b" "0 < b" by (cases "fl (K - u)") auto
  have "u \<le> K" using b fl_mono [of "K - u" 0] by (rule_tac ccontr) simp
  then obtain b' where "fl (K - u) = Fin b'" "\<bar>b' - (K - u)\<bar> \<le> eps64"
    using fl_near [of "K - u"] assms(2) K(2) eps64 by (auto simp: abs_le_iff)
  then have bb: "\<bar>b - (K - u)\<bar> \<le> eps64" using b(1) by simp
  obtain m where m: "kMinAdaptiveBackupDistance = Fin m" "\<bar>m - 5 / 100\<bar> \<le> eps64"
    using fl_near [of "5 / 100"] by (auto simp: kMinAdaptiveBackupDistance_def)
  have s: "s = select_backup_distance (Fin q) (Fin b) (Some check)
       kMinAdaptiveBackupDistance kAdaptiveBackupStep kRearStoppingClearance"
    using assms(4) by (simp add: assms(1) K(1) b(1))
  have "\<exists>d. bs_selected s = Fin d \<and> kMinAdaptiveBackupDistance \<le> Fin d \<and> d \<le> b + 2 / 1000000000 \<and>
      Fin (d - 2 / 1000000000) \<le> kMaxSingleBackupDistance"
    using selected_spec [OF assms(3) b(2) s refl assms(5)] by blast
  then obtain d where d: "bs_selected s = Fin d" "m \<le> d" "d \<le> b + 2 / 1000000000" "d - 2 / 1000000000 \<le> M0"
    by (auto simp: m(1) M0(1))
  have "d \<le> M" using d(4) M0(2) M(2) eps64 by linarith
  have ud: "u + d \<le> 400000003 / 1000000000" using d(3) bb K(2) eps64 by linarith
  have d0: "0 < d" using d(2) m(2) eps64 by linarith
  then obtain v where v: "fl (u + d) = Fin v" "\<bar>v - (u + d)\<bar> \<le> eps64"
    using fl_near [of "u + d"] ud assms(2) by auto
  have "v \<le> B" using v(2) ud B(2) eps64 by linarith
  then show ?thesis
    using d(1) d0 \<open>d \<le> M\<close> v(1) by (simp add: reserve_backup_def assms(1) M(1) B(1))
qed


subsection \<open>Identifiers as text, and parameters\<close>

lemma hex_digit_inj: "a < 16 \<Longrightarrow> b < 16 \<Longrightarrow> hex_digit a = hex_digit b \<Longrightarrow> a = b"
proof -
  assume "a < 16" "b < 16" "hex_digit a = hex_digit b"
  then have "of_char (hex_digit a) = (of_char (hex_digit b) :: nat)" by simp
  then show "a = b"
    using \<open>a < 16\<close> \<open>b < 16\<close> by (auto simp: hex_digit_def take_bit_nat_eq_self split: if_splits)
qed

lemma byte_digits: 
  assumes "hex_digit (unat a div 16) = hex_digit (unat b div 16)" "hex_digit (unat a mod 16) = hex_digit (unat b mod 16)"
  shows "a = (b :: 8 word)"
proof -
  have lt: "unat x div 16 < 16" for x :: "8 word"
    using unsigned_less [of x, where 'a = nat] by (simp add: less_mult_imp_div_less)
  have "unat a div 16 = unat b div 16" by (rule hex_digit_inj [OF lt lt assms(1)])
  moreover have "unat a mod 16 = unat b mod 16" by (rule hex_digit_inj [OF _ _ assms(2)]) simp_all
  ultimately have "unat a = unat b" by (metis div_mult_mod_eq)
  then show "a = b" by (rule unsigned_word_eqI)
qed

text \<open>The text of a goal identifier determines its bytes, so two goals with the same text are the
  same goal.\<close>
theorem uuid_text_injective: "uuid_text a = uuid_text b \<longleftrightarrow> a = b"
proof -
  have "uuid_text a = uuid_text b \<Longrightarrow> a = b"
  proof (induction a arbitrary: b)
    case Nil
    then show ?case by (cases b) (simp_all add: uuid_text_def)
  next
    case (Cons x xs)
    then obtain y ys where b: "b = y # ys" by (cases b) (simp_all add: uuid_text_def)
    then have "x = y" "uuid_text xs = uuid_text ys"
      using Cons.prems by (auto simp: uuid_text_def intro: byte_digits)
    then show ?case using Cons.IH b by simp
  qed
  then show ?thesis by auto
qed

text \<open>C27. A configuration that the constructor accepts has finite positive time limits, a health window
  shorter than the input deadline, a finite cooldown and at most three replanning attempts.\<close>
theorem loaded_config_valid:
  assumes "load_config p c0 = Inr c"
  shows "(\<forall>v \<in> {rc_response_timeout c, rc_cancel_timeout c, rc_settle_timeout c, rc_still_duration c,
      rc_data_age c, rc_recovery_timeout c, rc_input_wait_timeout c, rc_input_healthy_duration c}.
      isfinite v \<and> Fin 0 < v) \<and>
    rc_input_healthy_duration c < rc_input_wait_timeout c \<and> isfinite (rc_backup_cooldown c) \<and>
    Fin 0 \<le> rc_backup_cooldown c \<and> rc_max_observe_replans c \<le> 3"
proof -
  have pos: "isfinite v \<Longrightarrow> \<not> v \<le> Fin 0 \<Longrightarrow> Fin 0 < v" for v by (cases v) auto
  have nn: "isfinite v \<Longrightarrow> \<not> v < Fin 0 \<Longrightarrow> Fin 0 \<le> v" for v by (cases v) auto
  have lt: "isfinite v \<Longrightarrow> isfinite w \<Longrightarrow> \<not> v \<le> w \<Longrightarrow> w < v" for v w by (cases v; cases w) auto
  have three: "isfinite v \<Longrightarrow> \<not> Fin 3 < v \<Longrightarrow> nat \<lfloor>val v\<rfloor> \<le> 3" for v
    by (cases v) (auto simp: nat_le_iff floor_le_iff)
  show ?thesis
    using assms
    by (auto simp: load_config_def bind_res_Inr pos nn lt three split: if_split_asm)
qed

theorem loaded_config_valid_witness:
  "load_config (\<lambda>_. None) default_config = Inr default_config \<and>
   rc_input_healthy_duration default_config < rc_input_wait_timeout default_config"
proof -
  have d: "list_all (\<lambda>v. isfinite v \<and> \<not> v \<le> Fin 0) [Fin 1, Fin 1, Fin 1, fl 0.4, fl 0.5, Fin 90, Fin 3, fl 0.4]"
    "\<not> Fin 3 \<le> fl 0.4"
    by (code_simp, code_simp)
  have "load_config (\<lambda>_. None) default_config = Inr default_config"
    using d by (simp add: load_config_def parameter_def default_config_def)
  then show ?thesis using loaded_config_valid by blast
qed


definition demo_odom :: "time_ns \<Rightarrow> odometry" where
  "demo_odom t = \<lparr>od_stamp = t, od_pose = \<lparr>p_position = \<lparr>px = Fin 0, py = Fin 0\<rparr>,
     p_orientation = \<lparr>qx = Fin 0, qy = Fin 0, qz = Fin 0, qw = Fin 1\<rparr>\<rparr>,
     od_vx = Fin 0, od_vy = Fin 0, od_wz = Fin 0\<rparr>"

definition demo_libm0 :: libm where
  "demo_libm0 = \<lparr>m_sin = (\<lambda>_. Fin 0), m_cos = (\<lambda>_. Fin 1), m_atan2 = (\<lambda>_ _. Fin 0), m_hypot = (\<lambda>_ _. Fin 0)\<rparr>"

lemma demo_stopped: "stopped demo_libm0 (demo_odom t)"
proof -
  have "Fin 0 < fl 0.01" "Fin 0 < fl 0.02" by (code_simp, code_simp)
  then show ?thesis by (simp add: stopped_def demo_libm0_def demo_odom_def)
qed

theorem still_means_stopped_witness:
  "stopped demo_libm0 (demo_odom 1400000000) \<and>
   odom_fresh default_config \<lparr>ck_ros = 1400000000, ck_steady = 1400000000\<rparr> (run_events
     (odom_handle demo_libm0 default_config) [(Odom (demo_odom 1000000000), 1000000000),
       (Odom (demo_odom 1400000000), 1400000000)] runtime_init)"
proof -
  have age: "\<not> fl 0.5 < secs 400000000" "fresh_stamp 1400000000 1400000000 1400000000 1400000000 (fl 0.5)"
    "fl 0.4 \<le> secs 400000000" "\<not> fl 0.4 \<le> secs 0"
    by (code_simp, code_simp, code_simp, code_simp)
  let ?es = "[(Odom (demo_odom 1000000000), 1000000000), (Odom (demo_odom 1400000000), 1400000000)]"
  have "still default_config (fl 0.4) \<lparr>ck_ros = 1400000000, ck_steady = 1400000000\<rparr>
    (run_events (odom_handle demo_libm0 default_config) ?es runtime_init)"
    using age demo_stopped
    by (simp add: still_def odom_fresh_def run_events_def odom_handle_def on_odometry_def runtime_init_def
      default_config_def Let_def) (simp add: demo_odom_def)
  then show ?thesis
    using age(4) by (intro still_means_stopped [of ?es default_config "fl 0.4" _ demo_libm0 _ 1400000000]) auto
qed

definition demo_budget :: "(budget_event \<times> time_ns) list" where
  "demo_budget = [(Reserve (Fin (1 / 8)), 1), (Reconcile (Fin (1 / 8)) (Fin (1 / 16)) True, 2)]"

theorem backup_budget_kept_witness:
  "\<exists>u. rt_backup_used (run_events budget_handle demo_budget runtime_init) = Fin u \<and> 0 \<le> u \<and> u \<le> 40002 / 100000"
proof -
  have "Fin (1 / 8) \<le> kMaxSingleBackupDistance + micron" by code_simp
  then show ?thesis
    by (intro backup_budget_kept) (simp_all add: demo_budget_def)
qed

theorem selected_backup_is_reservable_witness:
  "fst (reserve_backup (bs_selected (select_backup_distance (Fin (1 / 8)) (kMaxBackupBudget - Fin 0)
     (Some (\<lambda>d. safety_ok)) kMinAdaptiveBackupDistance kAdaptiveBackupStep kRearStoppingClearance)) runtime_init)"
proof -
  have "bs_ok (select_backup_distance (Fin (1 / 8)) (kMaxBackupBudget - Fin 0)
     (Some (\<lambda>d. safety_ok)) kMinAdaptiveBackupDistance kAdaptiveBackupStep kRearStoppingClearance)"
    by code_simp
  then show ?thesis
    using selected_backup_is_reservable [of runtime_init 0 "1 / 8" _ "\<lambda>d. safety_ok"]
    by (simp add: runtime_init_def)
qed

theorem replaced_uuid_stays_out_witness:
  "goal_uuid False (run_events uuid_handle ([((''b'', False), 1)] @ [((''a'', False), 2)])
     (observe_uuid ''a'' False runtime_init)) \<noteq> ''a''"
proof -
  have "goal_uuid False (observe_uuid ''a'' False runtime_init) = ''a''"
    "goal_uuid False (run_events uuid_handle [((''b'', False), 1)] (observe_uuid ''a'' False runtime_init)) \<noteq> ''a''"
    by (simp_all add: observe_uuid_def goal_uuid_def runtime_init_def run_events_def)
  then show ?thesis by (intro replaced_uuid_stays_out) simp_all
qed

end
