(* ===== verification/Recovery_Nodes.thy ===== *)
theory Recovery_Nodes
  imports Recovery_Runtime
begin

text \<open>
  The action nodes of \<open>nav012_nodes.cpp\<close>: the template \<open>SafeActionLeaf\<close> with its virtual methods as a
  record of functions, and its instances \<open>SafeBackUp\<close>, \<open>ControlledSpin\<close>, \<open>SafeFollowPath\<close> and
  \<open>SafePlanner\<close>; the condition \<open>RearClear\<close>. A port the tree does not set is \<open>None\<close>. What the action
  library answers during a tick (server ready, exceptions, result) is an argument. \<open>std::to_string\<close> of a
  double is \<open>w_fmt\<close>.
\<close>

subsection \<open>The template\<close>

record world =
  w_m :: libm
  w_tf :: tf_env
  w_nv :: nav2_env
  w_fmt :: "dbl \<Rightarrow> string"

record ('g, 'u) leaf =
  lf_session :: "nat option"
  lf_settling :: time_ns
  lf_deadline :: time_ns
  lf_released :: bool
  lf_no_motion :: bool
  lf_result_timeout :: dbl
  lf_goal :: 'g
  lf_user :: 'u

record ('g, 'u, 'r) leaf_class =
  lc_action :: string
  lc_motion :: bool
  lc_empty_goal :: 'g
  lc_prepare :: "clocks \<Rightarrow> ('g, 'u) leaf \<Rightarrow> runtime \<Rightarrow> bool \<times> ('g, 'u) leaf \<times> runtime"
  lc_reserve :: "clocks \<Rightarrow> ('g, 'u) leaf \<Rightarrow> runtime \<Rightarrow> bool \<times> ('g, 'u) leaf \<times> runtime"
  lc_rejected :: "clocks \<Rightarrow> ('g, 'u) leaf \<Rightarrow> runtime \<Rightarrow> runtime"
  lc_failed :: "clocks \<Rightarrow> ('g, 'u) leaf \<Rightarrow> runtime \<Rightarrow> runtime"
  lc_completed :: "'r \<Rightarrow> clocks \<Rightarrow> ('g, 'u) leaf \<Rightarrow> runtime \<Rightarrow> runtime"
  lc_update :: "clocks \<Rightarrow> ('g, 'u) leaf \<Rightarrow> runtime \<Rightarrow> ('g, 'u) leaf \<times> runtime"

text \<open>What the action library does during a tick.\<close>

record 'r leaf_env =
  en_ready :: bool
  en_construct_error :: "string option"
  en_send_error :: "string option"
  en_cancel_throws :: "nat \<Rightarrow> bool"
  en_result :: 'r

definition with_session :: "nat \<Rightarrow> (shared \<Rightarrow> shared) \<Rightarrow> runtime \<Rightarrow> runtime" where
  "with_session sid f r = r\<lparr>rt_sessions := (rt_sessions r)(sid := f (rt_sessions r sid))\<rparr>"

definition session_status :: "nat \<Rightarrow> runtime \<Rightarrow> action_state" where
  "session_status sid r = status (rt_sessions r sid)"

definition session_limits :: "recovery_config \<Rightarrow> limits" where
  "session_limits c = \<lparr>response_timeout = rc_response_timeout c, cancel_timeout = rc_cancel_timeout c\<rparr>"

definition motion_busy :: "runtime \<Rightarrow> bool" where
  "motion_busy r = (case rt_motion r of None \<Rightarrow> False | Some sid \<Rightarrow> \<not> as_terminal (session_status sid r))"

definition retire :: "nat \<Rightarrow> runtime \<Rightarrow> runtime" where
  "retire sid r = r\<lparr>rt_retiring := rt_retiring r @ [sid]\<rparr>"

definition send_session :: "dbl \<Rightarrow> string option \<Rightarrow> time_ns \<Rightarrow> nat \<Rightarrow> runtime \<Rightarrow> runtime" where
  "send_session timeout err now sid r =
     with_session sid (send timeout (err \<noteq> None) (case err of None \<Rightarrow> [] | Some w \<Rightarrow> w) now) r"

text \<open>The part of \<open>onRunning\<close> after the action has ended and the robot stands.\<close>

definition leaf_finish ::
  "('g, 'u, 'r) leaf_class \<Rightarrow> 'r leaf_env \<Rightarrow> clocks \<Rightarrow> nat \<Rightarrow> action_state \<Rightarrow> ('g, 'u) leaf \<Rightarrow> runtime \<Rightarrow>
   node_status \<times> ('g, 'u) leaf \<times> runtime" where
  "leaf_finish k e t sid st l r =
     (let r = (if lc_motion k \<and> rt_motion r = Some sid then r\<lparr>rt_motion := None\<rparr> else r)
      in if as_success st \<and> \<not> as_cancel_requested st \<and> \<not> as_timed_out st
         then (SUCCESS, l, lc_completed k (en_result e) t l r)
         else if \<not> lf_released l then (FAILURE, l\<lparr>lf_released := True\<rparr>, lc_failed k t l r)
         else (FAILURE, l, r))"

text \<open>The stop barrier of a supervised motion.\<close>

definition leaf_settle ::
  "('g, 'u, 'r) leaf_class \<Rightarrow> recovery_config \<Rightarrow> 'r leaf_env \<Rightarrow> clocks \<Rightarrow> nat \<Rightarrow> action_state \<Rightarrow> ('g, 'u) leaf \<Rightarrow> runtime \<Rightarrow>
   node_status \<times> ('g, 'u) leaf \<times> runtime" where
  "leaf_settle k c e t sid st l r =
     (if \<not> (lc_motion k \<and> rt_supervised r) then leaf_finish k e t sid st l r
      else let r = rt_permit False r;
               (l, r) = (if lf_settling l = 0 then (l\<lparr>lf_settling := ck_steady t\<rparr>, restart_stillness r)
                 else (l, r))
           in if still c (rc_still_duration c) t r then leaf_finish k e t sid st l r
              else if rc_settle_timeout c < secs (ck_steady t - lf_settling l)
              then (FAILURE, l, rt_fail ''STOP_NOT_CONFIRMED'' (ck_steady t) r)
              else (RUNNING, l, r))"

text \<open>The part of \<open>onRunning\<close> with a session.\<close>

definition leaf_poll ::
  "('g, 'u, 'r) leaf_class \<Rightarrow> recovery_config \<Rightarrow> 'r leaf_env \<Rightarrow> clocks \<Rightarrow> nat \<Rightarrow> ('g, 'u) leaf \<Rightarrow> runtime \<Rightarrow>
   node_status \<times> ('g, 'u) leaf \<times> runtime" where
  "leaf_poll k c e t sid l r =
     (let r = with_session sid (poll (session_limits c) (en_cancel_throws e) (ck_steady t)) r;
          st = session_status sid r
      in if as_reason st = ''CANCEL_UNCONFIRMED''
         then (FAILURE, l, retire sid (if lc_motion k then rt_fail (as_reason st) (ck_steady t) r else r))
         else if \<not> as_terminal st
         then let (l, r) = (if \<not> as_cancel_requested st \<and> as_accepted st then lc_update k t l r else (l, r))
              in (RUNNING, l, r)
         else let (l, r) = (if as_rejected st \<and> \<not> lf_released l
                    then (l\<lparr>lf_released := True\<rparr>, lc_rejected k t l r) else (l, r))
              in leaf_settle k c e t sid st l r)"

definition leaf_running ::
  "('g, 'u, 'r) leaf_class \<Rightarrow> recovery_config \<Rightarrow> 'r leaf_env \<Rightarrow> clocks \<Rightarrow> ('g, 'u) leaf \<Rightarrow> runtime \<Rightarrow>
   node_status \<times> ('g, 'u) leaf \<times> runtime" where
  "leaf_running k c e t l r =
     (case lf_session l of
        Some sid \<Rightarrow> leaf_poll k c e t sid l r
      | None \<Rightarrow>
          if \<not> en_ready e
          then if lf_deadline l \<le> ck_steady t
               then (FAILURE, l, diagnostic (lc_action k) ''SERVER_UNAVAILABLE'' (ck_steady t) r)
               else (RUNNING, l, r)
          else if lc_motion k \<and> motion_busy r
          then (FAILURE, l, rt_fail ''OVERLAPPING_MOTION_REJECTED'' (ck_steady t) r)
          else (case en_construct_error e of
            Some w \<Rightarrow> (FAILURE, l, diagnostic (lc_action k) (''SERVER_UNAVAILABLE: '' @ w) (ck_steady t) r)
          | None \<Rightarrow>
              let sid = rt_next_session r;
                  r = r\<lparr>rt_next_session := sid + 1, rt_sessions := (rt_sessions r)(sid := shared_init)\<rparr>;
                  (reserved, l, r) = lc_reserve k t l r
              in if \<not> reserved then (FAILURE, l\<lparr>lf_session := None\<rparr>, r)
                 else let l = l\<lparr>lf_session := Some sid\<rparr>;
                          r = (if lc_motion k
                            then r\<lparr>rt_motion := Some sid, rt_action_sequence := rt_action_sequence r + 1\<rparr> else r);
                          r = send_session (lf_result_timeout l) (en_send_error e) (ck_steady t) sid r
                      in leaf_poll k c e t sid l r))"

definition leaf_start ::
  "('g, 'u, 'r) leaf_class \<Rightarrow> recovery_config \<Rightarrow> 'r leaf_env \<Rightarrow> clocks \<Rightarrow> ('g, 'u) leaf \<Rightarrow> runtime \<Rightarrow>
   node_status \<times> ('g, 'u) leaf \<times> runtime" where
  "leaf_start k c e t l r =
     (if rt_fault r then (FAILURE, l, r)
      else let l = l\<lparr>lf_session := None, lf_settling := 0, lf_released := False, lf_no_motion := False,
                 lf_goal := lc_empty_goal k\<rparr>;
               (prepared, l, r) = lc_prepare k t l r
           in if \<not> prepared then (FAILURE, l, r)
              else if lf_no_motion l then (SUCCESS, l, r)
              else leaf_running k c e t (l\<lparr>lf_deadline := after (ck_steady t) (rc_response_timeout c)\<rparr>) r)"

definition leaf_halted ::
  "('g, 'u, 'r) leaf_class \<Rightarrow> 'r leaf_env \<Rightarrow> clocks \<Rightarrow> ('g, 'u) leaf \<Rightarrow> runtime \<Rightarrow> runtime" where
  "leaf_halted k e t l r =
     (let r = (if lc_motion k then rt_permit False r else r) in
      case lf_session l of
        None \<Rightarrow> r
      | Some sid \<Rightarrow>
          if as_terminal (session_status sid r) then r
          else let r = with_session sid (cancel (en_cancel_throws e) (ck_steady t)) r
               in if lc_motion k then r else retire sid r)"

text \<open>The destructor of the node, and of the runtime.\<close>

definition leaf_destroy :: "'r leaf_env \<Rightarrow> clocks \<Rightarrow> ('g, 'u) leaf \<Rightarrow> runtime \<Rightarrow> runtime" where
  "leaf_destroy e t l r =
     (case lf_session l of
        None \<Rightarrow> r
      | Some sid \<Rightarrow>
          if as_terminal (session_status sid r) then r
          else retire sid (with_session sid (cancel (en_cancel_throws e) (ck_steady t)) r))"

definition runtime_destroy :: "(nat \<Rightarrow> bool) \<Rightarrow> clocks \<Rightarrow> runtime \<Rightarrow> runtime" where
  "runtime_destroy throws t r =
     (let r = rt_permit False r;
          r = (case rt_motion r of None \<Rightarrow> r | Some sid \<Rightarrow> with_session sid (cancel throws (ck_steady t)) r);
          r = foldl (\<lambda>r sid. with_session sid (cancel throws (ck_steady t)) r) r (rt_retiring r)
      in r\<lparr>rt_motion := None, rt_retiring := []\<rparr>)"

subsection \<open>Backing up\<close>

definition rear_check :: "world \<Rightarrow> recovery_config \<Rightarrow> clocks \<Rightarrow> sensor_snapshot \<Rightarrow> dbl \<Rightarrow> dbl \<Rightarrow> safety_result" where
  "rear_check w c t d age sweep =
     swept_clear (w_m w) (w_tf w) (w_nv w) d (ck_ros t) (ck_steady t) (rc_base_frame c) (- sweep) (Fin 0) age"

definition select_backup ::
  "world \<Rightarrow> recovery_config \<Rightarrow> clocks \<Rightarrow> sensor_snapshot \<Rightarrow> dbl \<Rightarrow> dbl \<Rightarrow> runtime \<Rightarrow> backup_selection" where
  "select_backup w c t d age distance r =
     select_backup_distance distance (kMaxBackupBudget - rt_backup_used r) (Some (rear_check w c t d age))
       kMinAdaptiveBackupDistance kAdaptiveBackupStep kRearStoppingClearance"

text \<open>\<open>RearClear\<close>: the status, the selected distance and the reason it publishes.\<close>

definition rear_clear_tick ::
  "world \<Rightarrow> recovery_config \<Rightarrow> dbl option \<Rightarrow> dbl option \<Rightarrow> sensor_snapshot \<Rightarrow> clocks \<Rightarrow> runtime \<Rightarrow>
   node_status \<times> dbl option \<times> string" where
  "rear_clear_tick w c distance_port age_port d t r =
     (let distance = (case distance_port of None \<Rightarrow> kMaxSingleBackupDistance | Some x \<Rightarrow> x);
          age = (case age_port of None \<Rightarrow> fl 0.5 | Some x \<Rightarrow> x)
      in if backup_cooling c (ck_steady t) r then (FAILURE, None, ''BACKUP_COOLDOWN'')
         else let s = select_backup w c t d age distance r
              in (if sr_ok (bs_result s) then SUCCESS else FAILURE,
                  if bs_ok s then Some (bs_selected s) else None, sr_code (bs_result s)))"

record backup_goal =
  bg_x :: dbl
  bg_speed :: dbl
  bg_time :: dbl

record backup_user =
  bu_requested :: dbl
  bu_distance :: dbl
  bu_initial_odom :: "odometry option"

type_synonym backup_leaf = "(backup_goal, backup_user) leaf"

definition port :: "'a option \<Rightarrow> 'a \<Rightarrow> 'a" where
  "port p d = (case p of None \<Rightarrow> d | Some x \<Rightarrow> x)"

definition backup_prepare ::
  "world \<Rightarrow> recovery_config \<Rightarrow> dbl option \<Rightarrow> dbl option \<Rightarrow> dbl option \<Rightarrow> clocks \<Rightarrow> backup_leaf \<Rightarrow> runtime \<Rightarrow>
   bool \<times> backup_leaf \<times> runtime" where
  "backup_prepare w c dist_port speed_port time_port t l r =
     (let distance = port dist_port kMaxSingleBackupDistance; speed = port speed_port kMaxBackupSpeed;
          time = port time_port kMaxBackupTimeAllowance
      in if \<not> isfinite distance \<or> distance \<le> Fin 0 \<or> kMaxSingleBackupDistance + micron < distance
           \<or> \<not> isfinite speed \<or> speed \<le> Fin 0 \<or> kMaxBackupSpeed + micron < speed
           \<or> \<not> isfinite time \<or> time \<le> Fin 0 \<or> kMaxBackupTimeAllowance + micron < time
         then (False, l, r)
         else if backup_cooling c (ck_steady t) r
         then (False, l, diagnostic ''BACKUP'' ''BACKUP_COOLDOWN'' (ck_steady t) r)
         else let s = select_backup w c t (rt_sensors r) (rc_data_age c) distance r
              in if \<not> bs_ok s then (False, l, diagnostic ''BACKUP'' (sr_code (bs_result s)) (ck_steady t) r)
                 else (True, l\<lparr>lf_goal := \<lparr>bg_x = - bs_selected s, bg_speed = speed, bg_time = time\<rparr>,
                   lf_user := (lf_user l)\<lparr>bu_requested := distance, bu_distance := bs_selected s\<rparr>,
                   lf_result_timeout := time + Fin 1\<rparr>, r))"

definition remaining_text :: "world \<Rightarrow> runtime \<Rightarrow> string" where
  "remaining_text w r = '',remaining_budget='' @ w_fmt w (dmax (Fin 0) (kMaxBackupBudget - rt_backup_used r))"

definition backup_reserve ::
  "world \<Rightarrow> recovery_config \<Rightarrow> clocks \<Rightarrow> backup_leaf \<Rightarrow> runtime \<Rightarrow> bool \<times> backup_leaf \<times> runtime" where
  "backup_reserve w c t l r =
     (let s = select_backup w c t (rt_sensors r) (rc_data_age c) (bu_distance (lf_user l)) r
      in if \<not> bs_ok s
         then (False, l, diagnostic ''BACKUP_RECHECK_REJECTED'' (sr_code (bs_result s)) (ck_steady t) r)
         else let l = l\<lparr>lf_user := (lf_user l)\<lparr>bu_distance := bs_selected s\<rparr>,
                    lf_goal := (lf_goal l)\<lparr>bg_x := - bs_selected s\<rparr>\<rparr>;
                  (reserved, r) = reserve_backup (bs_selected s) r
              in if \<not> reserved then (False, l, r)
                 else let l = l\<lparr>lf_user := (lf_user l)\<lparr>bu_initial_odom := rt_odom r\<rparr>\<rparr>;
                          r = diagnostic ''BACKUP_SELECTED'' (''requested='' @ w_fmt w (bu_requested (lf_user l))
                            @ '',selected='' @ w_fmt w (bs_selected s) @ remaining_text w r) (ck_steady t) r
                      in (True, l, r\<lparr>rt_escape_stage := 1\<rparr>))"

definition actual_progress ::
  "world \<Rightarrow> recovery_config \<Rightarrow> clocks \<Rightarrow> backup_leaf \<Rightarrow> runtime \<Rightarrow> bool \<times> dbl" where
  "actual_progress w c t l r =
     (case (bu_initial_odom (lf_user l), rt_odom r) of
        (Some initial, Some current) \<Rightarrow>
          if \<not> odom_fresh c t r then (False, Fin 0)
          else let yaw = tf_yaw (w_tf w) (p_orientation (od_pose initial));
                   dx = px (p_position (od_pose current)) - px (p_position (od_pose initial));
                   dy = py (p_position (od_pose current)) - py (p_position (od_pose initial));
                   value = - (m_cos (w_m w) yaw * dx + m_sin (w_m w) yaw * dy)
               in if \<not> isfinite value \<or> value < - fl 0.02 then (False, Fin 0)
                  else (True, dclamp value (Fin 0) (bu_distance (lf_user l)))
      | _ \<Rightarrow> (False, Fin 0))"

definition backup_rejected :: "clocks \<Rightarrow> backup_leaf \<Rightarrow> runtime \<Rightarrow> runtime" where
  "backup_rejected t l r = note_backup False (ck_steady t) (release_backup (bu_distance (lf_user l)) r)"

definition settle_budget ::
  "world \<Rightarrow> string \<Rightarrow> bool \<Rightarrow> bool \<Rightarrow> dbl \<Rightarrow> clocks \<Rightarrow> backup_leaf \<Rightarrow> runtime \<Rightarrow> runtime" where
  "settle_budget w phase succeeded reliable traveled t l r =
     (let r = reconcile_backup (bu_distance (lf_user l)) traveled reliable r;
          r = diagnostic phase (''requested='' @ w_fmt w (bu_distance (lf_user l)) @ '',actual='' @ w_fmt w traveled
            @ remaining_text w r @ '',odom_reliable='' @ (if reliable then ''true'' else ''false''))
            (ck_steady t) r
      in note_backup succeeded (ck_steady t) r)"

definition backup_failed :: "world \<Rightarrow> recovery_config \<Rightarrow> clocks \<Rightarrow> backup_leaf \<Rightarrow> runtime \<Rightarrow> runtime" where
  "backup_failed w c t l r =
     (let (reliable, traveled) = actual_progress w c t l r
      in settle_budget w ''BACKUP_FAILED'' False reliable traveled t l r)"

definition backup_completed :: "world \<Rightarrow> recovery_config \<Rightarrow> unit \<Rightarrow> clocks \<Rightarrow> backup_leaf \<Rightarrow> runtime \<Rightarrow> runtime" where
  "backup_completed w c u t l r =
     (let (reliable, traveled) = actual_progress w c t l r
      in settle_budget w ''BACKUP_COMPLETED'' True (reliable \<and> fl 0.01 < traveled) traveled t l r)"

definition safe_backup ::
  "world \<Rightarrow> recovery_config \<Rightarrow> dbl option \<Rightarrow> dbl option \<Rightarrow> dbl option \<Rightarrow>
   (backup_goal, backup_user, unit) leaf_class" where
  "safe_backup w c dist_port speed_port time_port =
     \<lparr>lc_action = ''/backup'', lc_motion = True,
      lc_empty_goal = \<lparr>bg_x = Fin 0, bg_speed = Fin 0, bg_time = Fin 0\<rparr>,
      lc_prepare = backup_prepare w c dist_port speed_port time_port, lc_reserve = backup_reserve w c,
      lc_rejected = backup_rejected, lc_failed = backup_failed w c, lc_completed = backup_completed w c,
      lc_update = (\<lambda>t l r. (l, r))\<rparr>"

subsection \<open>Turning\<close>

text \<open>\<open>std::sort\<close> and \<open>std::unique\<close> with the tolerance of the source, on finite angles.\<close>

fun insert_angle :: "dbl \<Rightarrow> dbl list \<Rightarrow> dbl list" where
  "insert_angle a [] = [a]"
| "insert_angle a (b # bs) = (if b < a then b # insert_angle a bs else a # b # bs)"

definition sort_angles :: "dbl list \<Rightarrow> dbl list" where
  "sort_angles as = foldr insert_angle as []"

fun unique_angles :: "dbl list \<Rightarrow> dbl list" where
  "unique_angles (a # b # rest) =
     (if \<bar>a - b\<bar> < micron then unique_angles (a # rest) else a # unique_angles (b # rest))"
| "unique_angles as = as"

definition pi_double :: dbl where
  "pi_double = fl (3141592653589793238462643383279502884 / 1000000000000000000000000000000000000)"

definition half_turn :: dbl where
  "half_turn = fl (1570796 / 1000000)"

definition spin_step :: "dbl \<Rightarrow> dbl" where
  "spin_step degrees = degrees * pi_double / Fin 180"

definition spin_candidates :: "dbl \<Rightarrow> dbl \<Rightarrow> dbl list" where
  "spin_candidates max_angle error =
     (let steps = concat (map (\<lambda>degrees. let angle = spin_step degrees
            in if angle \<le> max_angle + micron then [angle, - angle] else [])
            [Fin 15, Fin 30, Fin 45, Fin 60, Fin 75, Fin 90]);
          path_angle = dclamp error (- max_angle) max_angle
      in unique_angles (sort_angles (steps @ (if fl 0.10 \<le> \<bar>path_angle\<bar> then [path_angle] else []))))"

definition pose_check :: "world \<Rightarrow> recovery_config \<Rightarrow> clocks \<Rightarrow> sensor_snapshot \<Rightarrow> sweep \<Rightarrow> safety_result" where
  "pose_check w c t d sw =
     swept_pose_clear (w_m w) (w_tf w) (w_nv w) d (ck_ros t) (ck_steady t) (rc_base_frame c) sw (rc_data_age c)"

definition turn_sweep :: "dbl \<Rightarrow> sweep" where
  "turn_sweep angle = \<lparr>sw_start_x = Fin 0, sw_start_y = Fin 0, sw_start_yaw = Fin 0, sw_end_x = Fin 0,
     sw_end_y = Fin 0, sw_end_yaw = angle\<rparr>"

definition travel_sweep :: "libm \<Rightarrow> dbl \<Rightarrow> dbl \<Rightarrow> sweep" where
  "travel_sweep m angle distance = \<lparr>sw_start_x = Fin 0, sw_start_y = Fin 0, sw_start_yaw = angle,
     sw_end_x = distance * m_cos m angle, sw_end_y = distance * m_sin m angle, sw_end_yaw = angle\<rparr>"

text \<open>The loop \<open>for (distance=.05; distance<=.350001; distance+=.05)\<close>; it makes at most seven rounds,
  so fuel eight never runs out (lemma \<open>forward_fuel\<close>).\<close>

fun forward_clear :: "(dbl \<Rightarrow> bool) \<Rightarrow> nat \<Rightarrow> dbl \<Rightarrow> dbl \<Rightarrow> dbl" where
  "forward_clear ok 0 distance forward = forward"
| "forward_clear ok (Suc n) distance forward =
     (if \<not> distance \<le> fl (350001 / 1000000) then forward
      else if \<not> ok distance then forward
      else forward_clear ok n (distance + fl 0.05) distance)"

record spin_eval =
  se_best :: spin_candidate
  se_left :: dbl
  se_right :: dbl
  se_rejected :: nat

definition no_candidate :: spin_candidate where
  "no_candidate = \<lparr>sp_valid = False, sp_angle = Fin 0, sp_forward_clearance = Fin 0, sp_path_error = Fin 0\<rparr>"

definition spin_forward :: "world \<Rightarrow> recovery_config \<Rightarrow> clocks \<Rightarrow> sensor_snapshot \<Rightarrow> dbl \<Rightarrow> dbl" where
  "spin_forward w c t d angle =
     forward_clear (\<lambda>x. sr_ok (pose_check w c t d (travel_sweep (w_m w) angle x))) 8 (fl 0.05) (Fin 0)"

definition spin_candidate_at ::
  "world \<Rightarrow> recovery_config \<Rightarrow> clocks \<Rightarrow> sensor_snapshot \<Rightarrow> dbl \<Rightarrow> dbl \<Rightarrow> spin_candidate" where
  "spin_candidate_at w c t d error angle =
     (let forward = spin_forward w c t d angle in
      \<lparr>sp_valid = (fl 0.05 \<le> forward), sp_angle = angle, sp_forward_clearance = forward,
       sp_path_error = \<bar>normalize (w_m w) (error - angle)\<bar>\<rparr>)"

definition eval_angle ::
  "world \<Rightarrow> recovery_config \<Rightarrow> clocks \<Rightarrow> sensor_snapshot \<Rightarrow> dbl \<Rightarrow> int \<Rightarrow> dbl \<Rightarrow> spin_eval \<Rightarrow> spin_eval" where
  "eval_angle w c t d error preferred angle s =
     (if \<not> sr_ok (pose_check w c t d (turn_sweep angle)) then s\<lparr>se_rejected := se_rejected s + 1\<rparr>
      else let candidate = spin_candidate_at w c t d error angle; forward = sp_forward_clearance candidate;
             s = (if Fin 0 < angle then s\<lparr>se_left := dmax (se_left s) forward\<rparr>
               else s\<lparr>se_right := dmax (se_right s) forward\<rparr>)
      in if better_spin_candidate candidate (se_best s) preferred then s\<lparr>se_best := candidate\<rparr> else s)"

definition choose_spin ::
  "world \<Rightarrow> recovery_config \<Rightarrow> clocks \<Rightarrow> sensor_snapshot \<Rightarrow> dbl \<Rightarrow> dbl \<Rightarrow> int \<Rightarrow> spin_eval" where
  "choose_spin w c t d max_angle error preferred =
     foldl (\<lambda>s angle. eval_angle w c t d error preferred angle s)
       \<lparr>se_best = no_candidate, se_left = Fin 0, se_right = Fin 0, se_rejected = 0\<rparr>
       (spin_candidates max_angle error)"

record spin_goal =
  sg_target_yaw :: dbl
  sg_time :: dbl

type_synonym spin_leaf = "(spin_goal, spin_eval option) leaf"

text \<open>The published selection is kept in \<open>lf_user\<close>.\<close>

definition spin_prepare ::
  "world \<Rightarrow> recovery_config \<Rightarrow> path option \<Rightarrow> pose_stamped \<Rightarrow> dbl option \<Rightarrow> dbl option \<Rightarrow>
   clocks \<Rightarrow> spin_leaf \<Rightarrow> runtime \<Rightarrow> bool \<times> spin_leaf \<times> runtime" where
  "spin_prepare w c path_port goal angle_port time_port t l r =
     (if rt_spin_used r then (False, l, r)
      else case path_port of None \<Rightarrow> (False, l, r) | Some path \<Rightarrow>
     (case runtime_pose (w_tf w) c (pa_frame path) (ck_ros t) of None \<Rightarrow> (False, l, r) | Some pose \<Rightarrow>
        let ref = heading_reference (w_m w) (tf_yaw (w_tf w)) pose path goal (fl 0.30);
            max_angle = port angle_port half_turn; time = port time_port (Fin 10)
        in if \<not> hr_valid ref then (False, l, r)
           else if \<not> isfinite max_angle \<or> max_angle \<le> Fin 0 \<or> fl (1570797 / 1000000) < max_angle
             \<or> \<not> isfinite time \<or> time \<le> Fin 0 \<or> Fin 10 < time then (False, l, r)
           else let s = choose_spin w c t (rt_sensors r) max_angle (hr_error ref) (rt_preferred_spin_direction r);
                    best = se_best s; l = l\<lparr>lf_user := Some s\<rparr>
           in if \<not> sp_valid best then (False, l, r)
              else let l = l\<lparr>lf_goal := \<lparr>sg_target_yaw = sp_angle best, sg_time = time\<rparr>,
                     lf_result_timeout := time + Fin 1\<rparr>;
                   r = r\<lparr>rt_preferred_spin_direction := (if Fin 0 \<le> sp_angle best then 1 else - 1)\<rparr>
              in if \<bar>sp_angle best\<bar> < fl 0.10
                 then (True, l\<lparr>lf_no_motion := True\<rparr>, r\<lparr>rt_spin_used := True, rt_escape_stage := 2\<rparr>)
                 else (True, l, r)))"

definition spin_reserve :: "clocks \<Rightarrow> spin_leaf \<Rightarrow> runtime \<Rightarrow> bool \<times> spin_leaf \<times> runtime" where
  "spin_reserve t l r = (True, l, r\<lparr>rt_spin_used := True, rt_escape_stage := 2\<rparr>)"

definition spin_rejected :: "clocks \<Rightarrow> spin_leaf \<Rightarrow> runtime \<Rightarrow> runtime" where
  "spin_rejected t l r = r\<lparr>rt_spin_used := False\<rparr>"

definition controlled_spin ::
  "world \<Rightarrow> recovery_config \<Rightarrow> path option \<Rightarrow> pose_stamped \<Rightarrow> dbl option \<Rightarrow> dbl option \<Rightarrow>
   (spin_goal, spin_eval option, unit) leaf_class" where
  "controlled_spin w c path_port goal angle_port time_port =
     \<lparr>lc_action = ''/spin'', lc_motion = True, lc_empty_goal = \<lparr>sg_target_yaw = Fin 0, sg_time = Fin 0\<rparr>,
      lc_prepare = spin_prepare w c path_port goal angle_port time_port, lc_reserve = spin_reserve,
      lc_rejected = spin_rejected, lc_failed = (\<lambda>t l r. r), lc_completed = (\<lambda>u t l r. r),
      lc_update = (\<lambda>t l r. (l, r))\<rparr>"

subsection \<open>Following and planning\<close>

record follow_goal =
  fg_path :: path
  fg_controller :: string
  fg_checker :: string

definition empty_path :: path where
  "empty_path = \<lparr>pa_frame = [], pa_poses = []\<rparr>"

text \<open>\<open>operator==\<close> of the messages compares doubles, so a pose with a NaN equals no pose.\<close>

definition same_pose :: "pose \<Rightarrow> pose \<Rightarrow> bool" where
  "same_pose a b \<longleftrightarrow> deq (px (p_position a)) (px (p_position b))
     \<and> deq (py (p_position a)) (py (p_position b))
     \<and> deq (qx (p_orientation a)) (qx (p_orientation b))
     \<and> deq (qy (p_orientation a)) (qy (p_orientation b))
     \<and> deq (qz (p_orientation a)) (qz (p_orientation b))
     \<and> deq (qw (p_orientation a)) (qw (p_orientation b))"

definition same_poses :: "pose_stamped list \<Rightarrow> pose_stamped list \<Rightarrow> bool" where
  "same_poses a b \<longleftrightarrow> list_all2 (\<lambda>p q. same_pose (ps_pose p) (ps_pose q)) a b"

definition same_path_poses :: "path \<Rightarrow> path \<Rightarrow> bool" where
  "same_path_poses a b \<longleftrightarrow> pa_frame a = pa_frame b \<and> same_poses (pa_poses a) (pa_poses b)"

definition follow_prepare ::
  "path option \<Rightarrow> string option \<Rightarrow> string option \<Rightarrow> clocks \<Rightarrow> (follow_goal, unit) leaf \<Rightarrow> runtime \<Rightarrow>
   bool \<times> (follow_goal, unit) leaf \<times> runtime" where
  "follow_prepare path_port controller_port checker_port t l r =
     (let g = (lf_goal l)\<lparr>fg_controller := port controller_port (fg_controller (lf_goal l)),
            fg_checker := port checker_port (fg_checker (lf_goal l)),
            fg_path := port path_port (fg_path (lf_goal l))\<rparr>
      in (path_port \<noteq> None \<and> pa_poses (fg_path g) \<noteq> [], l\<lparr>lf_goal := g\<rparr>, r))"

definition follow_update ::
  "path option \<Rightarrow> string option \<Rightarrow> clocks \<Rightarrow> (follow_goal, unit) leaf \<Rightarrow> runtime \<Rightarrow>
   (follow_goal, unit) leaf \<times> runtime" where
  "follow_update path_port send_error t l r =
     (case path_port of None \<Rightarrow> (l, r) | Some path \<Rightarrow>
        if pa_poses path = [] \<or> same_path_poses path (fg_path (lf_goal l)) then (l, r)
        else (l\<lparr>lf_goal := (lf_goal l)\<lparr>fg_path := path\<rparr>\<rparr>,
          (case lf_session l of None \<Rightarrow> r
           | Some sid \<Rightarrow> send_session (Fin 0) send_error (ck_steady t) sid r)))"

definition safe_follow_path ::
  "path option \<Rightarrow> string option \<Rightarrow> string option \<Rightarrow> string option \<Rightarrow> (follow_goal, unit, unit) leaf_class" where
  "safe_follow_path path_port controller_port checker_port send_error =
     \<lparr>lc_action = ''/follow_path'', lc_motion = True,
      lc_empty_goal = \<lparr>fg_path = empty_path, fg_controller = [], fg_checker = []\<rparr>,
      lc_prepare = follow_prepare path_port controller_port checker_port,
      lc_reserve = (\<lambda>t l r. (True, l, r)), lc_rejected = (\<lambda>t l r. r), lc_failed = (\<lambda>t l r. r),
      lc_completed = (\<lambda>u t l r. r), lc_update = follow_update path_port send_error\<rparr>"

text \<open>The two planners differ in the port that holds the goal; the path found is written to the tree's
  port, kept in \<open>lf_user\<close>.\<close>

record 'a planner_goal =
  pg_goal :: 'a
  pg_planner :: string

definition planner_prepare ::
  "'a option \<Rightarrow> ('a \<Rightarrow> bool) \<Rightarrow> string option \<Rightarrow> dbl option \<Rightarrow> clocks \<Rightarrow>
   ('a planner_goal, 'u) leaf \<Rightarrow> runtime \<Rightarrow> bool \<times> ('a planner_goal, 'u) leaf \<times> runtime" where
  "planner_prepare goal_port is_empty planner_port timeout_port t l r =
     (let l = l\<lparr>lf_goal := (lf_goal l)\<lparr>pg_planner := port planner_port (pg_planner (lf_goal l))\<rparr>,
            lf_result_timeout := port timeout_port (lf_result_timeout l)\<rparr>
      in if \<not> isfinite (lf_result_timeout l) \<or> lf_result_timeout l \<le> Fin 0 \<or> Fin 5 < lf_result_timeout l
         then (False, l, r)
         else case goal_port of
           None \<Rightarrow> (False, l, r)
         | Some g \<Rightarrow> (\<not> is_empty g, l\<lparr>lf_goal := (lf_goal l)\<lparr>pg_goal := g\<rparr>\<rparr>, r))"

definition planner_completed :: "path option \<Rightarrow> clocks \<Rightarrow> ('a planner_goal, 'u) leaf \<Rightarrow> runtime \<Rightarrow> runtime" where
  "planner_completed result t l r =
     (case result of None \<Rightarrow> r
      | Some path \<Rightarrow> if pa_poses path = [] then r else r\<lparr>rt_replan_required := False\<rparr>)"

definition planned_path :: "path option \<Rightarrow> path option \<Rightarrow> path option" where
  "planned_path result old = (case result of None \<Rightarrow> old
     | Some path \<Rightarrow> if pa_poses path = [] then old else Some path)"

definition safe_planner ::
  "string \<Rightarrow> 'a \<Rightarrow> 'a option \<Rightarrow> ('a \<Rightarrow> bool) \<Rightarrow> string option \<Rightarrow> dbl option \<Rightarrow>
   ('a planner_goal, 'u, path option) leaf_class" where
  "safe_planner action no_goal goal_port is_empty planner_port timeout_port =
     \<lparr>lc_action = action, lc_motion = False, lc_empty_goal = \<lparr>pg_goal = no_goal, pg_planner = []\<rparr>,
      lc_prepare = planner_prepare goal_port is_empty planner_port timeout_port,
      lc_reserve = (\<lambda>t l r. (True, l, r)), lc_rejected = (\<lambda>t l r. r), lc_failed = (\<lambda>t l r. r),
      lc_completed = planner_completed, lc_update = (\<lambda>t l r. (l, r))\<rparr>"

definition replan_not_required :: "runtime \<Rightarrow> node_status" where
  "replan_not_required r = (if rt_replan_required r then FAILURE else SUCCESS)"

definition recovery_inputs_ready :: "world \<Rightarrow> recovery_config \<Rightarrow> clocks \<Rightarrow> runtime \<Rightarrow> node_status \<times> runtime" where
  "recovery_inputs_ready w c t r =
     (let (res, r) = inputs_ready (w_m w) (w_tf w) c t r in (if sr_ok res then SUCCESS else FAILURE, r))"

subsection \<open>Properties of the template\<close>

lemma leaf_finish_success:
  assumes "leaf_finish k e t sid st l r = (SUCCESS, l', r')"
  shows "r' = lc_completed k (en_result e) t l'
      (if lc_motion k \<and> rt_motion r = Some sid then r\<lparr>rt_motion := None\<rparr> else r) \<and>
    as_success st \<and> \<not> as_cancel_requested st \<and> \<not> as_timed_out st"
  using assms by (auto simp: leaf_finish_def Let_def split: if_split_asm)

lemma still_motion [simp]: "still c d t (r\<lparr>rt_motion := x\<rparr>) = still c d t r"
  by (simp add: still_def odom_fresh_def split: option.split)

lemma leaf_settle_success:
  assumes "leaf_settle k c e t sid st l r = (SUCCESS, l', r')"
  shows "\<exists>r1. r' = lc_completed k (en_result e) t l' r1 \<and> (lc_motion k \<longrightarrow> rt_motion r1 \<noteq> Some sid) \<and>
    as_success st \<and> \<not> as_cancel_requested st \<and> \<not> as_timed_out st \<and>
    (lc_motion k \<and> rt_supervised r1 \<longrightarrow> still c (rc_still_duration c) t r1)"
proof -
  have *: ?thesis if "leaf_finish k e t sid st l1 r1 = (SUCCESS, l', r')"
    "lc_motion k \<and> rt_supervised r1 \<longrightarrow> still c (rc_still_duration c) t r1" for l1 r1
    using leaf_finish_success [OF that(1)] that(2)
    by (intro exI [of _ "if lc_motion k \<and> rt_motion r1 = Some sid then r1\<lparr>rt_motion := None\<rparr> else r1"]) simp
  show ?thesis
  proof (cases "lc_motion k \<and> rt_supervised r")
    case False
    then show ?thesis using assms by (intro * [of l r]) (auto simp: leaf_settle_def)
  next
    case True
    define p where "p = rt_permit False r"
    obtain l1 r1 where lr: "(if lf_settling l = 0 then (l\<lparr>lf_settling := ck_steady t\<rparr>, restart_stillness p)
                   else (l, p)) = (l1, r1)" by fastforce
    have "still c (rc_still_duration c) t r1" "leaf_finish k e t sid st l1 r1 = (SUCCESS, l', r')"
      using assms True by (simp_all add: leaf_settle_def p_def [symmetric] lr Let_def split: if_split_asm)
    then show ?thesis by (intro * [of l1 r1]) simp_all
  qed
qed

text \<open>The status a session has after the poll of the tick.\<close>

definition polled :: "recovery_config \<Rightarrow> 'r leaf_env \<Rightarrow> clocks \<Rightarrow> nat \<Rightarrow> runtime \<Rightarrow> action_state" where
  "polled c e t sid r = session_status sid
     (with_session sid (poll (session_limits c) (en_cancel_throws e) (ck_steady t)) r)"

lemma leaf_poll_success:
  assumes "leaf_poll k c e t sid l r = (SUCCESS, l', r')"
  shows "\<exists>r1. r' = lc_completed k (en_result e) t l' r1 \<and> (lc_motion k \<longrightarrow> rt_motion r1 \<noteq> Some sid) \<and>
    as_terminal (polled c e t sid r) \<and> as_success (polled c e t sid r) \<and>
    \<not> as_cancel_requested (polled c e t sid r) \<and> \<not> as_timed_out (polled c e t sid r) \<and>
    (lc_motion k \<and> rt_supervised r1 \<longrightarrow> still c (rc_still_duration c) t r1)"
  using assms leaf_settle_success [of k c e t sid "polled c e t sid r" _ _ l' r']
  by (auto simp: leaf_poll_def Let_def polled_def [symmetric] case_prod_beta split: if_split_asm)

text \<open>A recovery action succeeds only after its goal ended in success without cancellation or
  timeout, the motion slot has been freed, and, for a supervised motion, the odometry shows that the
  robot has been standing for the required time.\<close>
theorem leaf_success_confirmed:
  assumes "leaf_running k c e t l r = (SUCCESS, l', r')"
  shows "\<exists>sid r0 r1. r' = lc_completed k (en_result e) t l' r1 \<and>
    (lc_motion k \<longrightarrow> rt_motion r1 \<noteq> Some sid) \<and>
    as_terminal (polled c e t sid r0) \<and> as_success (polled c e t sid r0) \<and>
    \<not> as_cancel_requested (polled c e t sid r0) \<and> \<not> as_timed_out (polled c e t sid r0) \<and>
    (lc_motion k \<and> rt_supervised r1 \<longrightarrow> still c (rc_still_duration c) t r1)"
proof -
  have "\<exists>sid l0 r0. leaf_poll k c e t sid l0 r0 = (SUCCESS, l', r')"
    using assms
    by (auto simp: leaf_running_def Let_def split: option.split_asm if_split_asm prod.split_asm)
  then show ?thesis using leaf_poll_success by blast
qed

subsection \<open>Choosing a turn\<close>

lemma forward_fuel:
  "forward_clear ok (8 + n) (fl 0.05) f = forward_clear ok 8 (fl 0.05) f"
proof -
  define x where "x = fl 0.05"
  define lim where "lim = fl (350001 / 1000000)"
  have k: "\<not> (((((((x + x) + x) + x) + x) + x) + x) + x) \<le> lim"
    unfolding x_def lim_def by code_simp
  have "forward_clear ok (Suc m) d g = (if \<not> d \<le> lim then g else if \<not> ok d then g
      else forward_clear ok m (d + x) d)" for m d g
    by (simp add: x_def lim_def)
  then have "forward_clear ok (8 + n) x f = forward_clear ok 8 x f"
    using k by (simp add: numeral_eq_Suc)
  then show ?thesis by (simp add: x_def)
qed


lemma better_valid:
  "better_spin_candidate a b p \<Longrightarrow> sp_valid a \<and> (sp_valid b \<longrightarrow> clearance_bucket b \<le> clearance_bucket a)"
  "\<not> better_spin_candidate a b p \<Longrightarrow> sp_valid a \<Longrightarrow> sp_valid b \<and> clearance_bucket a \<le> clearance_bucket b"
  by (auto simp: better_spin_candidate_def split: if_split_asm)

lemma choose_spin_fold:
  assumes "s = foldl (\<lambda>s angle. eval_angle w c t d error p angle s) s0 as" "\<not> sp_valid (se_best s0)"
  shows "(sp_valid (se_best s) \<longrightarrow> (\<exists>a \<in> set as. sr_ok (pose_check w c t d (turn_sweep a)) \<and>
      se_best s = spin_candidate_at w c t d error a)) \<and>
    (\<forall>a \<in> set as. sr_ok (pose_check w c t d (turn_sweep a)) \<and> sp_valid (spin_candidate_at w c t d error a) \<longrightarrow>
      sp_valid (se_best s) \<and> clearance_bucket (spin_candidate_at w c t d error a) \<le> clearance_bucket (se_best s))"
  using assms
proof (induction as arbitrary: s rule: rev_induct)
  case (snoc a as)
  define s1 where "s1 = foldl (\<lambda>s angle. eval_angle w c t d error p angle s) s0 as"
  note IH = snoc.IH [OF s1_def snoc.prems(2)]
  have s: "s = eval_angle w c t d error p a s1" using snoc.prems(1) by (simp add: s1_def)
  let ?c = "spin_candidate_at w c t d error a"
  show ?case
  proof (cases "sr_ok (pose_check w c t d (turn_sweep a))")
    case False
    then have "se_best s = se_best s1" by (simp add: s eval_angle_def)
    then show ?thesis using IH False by auto
  next
    case True
    show ?thesis
    proof (cases "better_spin_candidate ?c (se_best s1) p")
      case better: True
      have b: "se_best s = ?c" using True better by (simp add: s eval_angle_def Let_def)
      note bv = better_valid(1) [OF better]
      have "sp_valid (se_best s) \<and> clearance_bucket (spin_candidate_at w c t d error x) \<le> clearance_bucket (se_best s)"
        if "x \<in> set as" "sr_ok (pose_check w c t d (turn_sweep x))" "sp_valid (spin_candidate_at w c t d error x)" for x
        using IH that bv unfolding b by (meson order_trans)
      then show ?thesis using b True bv by auto
    next
      case worse: False
      have b: "se_best s = se_best s1" using True worse by (simp add: s eval_angle_def Let_def)
      then show ?thesis using IH better_valid(2) [OF worse] by auto
    qed
  qed
qed simp

lemma set_sort_angles [simp]: "set (sort_angles as) = set as"
proof -
  have "set (insert_angle a bs) = insert a (set bs)" for a bs by (induction bs) auto
  then show ?thesis by (induction as) (simp_all add: sort_angles_def)
qed

lemma set_unique_angles: "set (unique_angles as) \<subseteq> set as"
  by (induction as rule: unique_angles.induct) auto

lemma spin_step_abs: "0 \<le> q \<Longrightarrow> \<bar>spin_step (Fin q)\<bar> = spin_step (Fin q) \<and> \<bar>- spin_step (Fin q)\<bar> = spin_step (Fin q)"
proof -
  assume q: "0 \<le> q"
  obtain P where P: "pi_double = Fin P" "\<bar>P - 3141592653589793238462643383279502884 / 1000000000000000000000000000000000000\<bar> \<le> eps64"
    using fl_near [of "3141592653589793238462643383279502884 / 1000000000000000000000000000000000000"]
    unfolding pi_double_def by auto
  have "0 \<le> P" using P(2) eps64 by linarith
  then have "Fin 0 \<le> Fin q * pi_double" using q fl_mono [of 0 "q * P"] by (simp add: P(1))
  then have "Fin 0 / Fin 180 \<le> spin_step (Fin q)" unfolding spin_step_def by (rule dbl_divide_mono) simp
  then have "Fin 0 \<le> spin_step (Fin q)" by simp
  then show ?thesis by (cases "spin_step (Fin q)") auto
qed

lemma spin_candidates_bounded:
  assumes "is_double M" "isfinite M" "Fin 0 < M" "a \<in> set (spin_candidates M e)" "e \<noteq> NaN"
  shows "\<bar>a\<bar> \<le> M + micron"
proof -
  obtain q where q: "M = Fin q" "0 < q" using assms(2,3) by (cases M) auto
  obtain E where E: "micron = Fin E" "\<bar>E - 1 / 1000000\<bar> \<le> eps64"
    using fl_near [of "1 / 1000000"] unfolding micron_def by auto
  have "M \<le> M + micron"
    unfolding E(1) by (rule is_double_add [OF assms(1,2)]) (use E(2) eps64 in linarith)
  then have path: "\<bar>dclamp e (- M) M\<bar> \<le> M + micron"
  proof -
    have "\<bar>dclamp e (- M) M\<bar> \<le> M" using assms(5) q by (cases e) (auto simp: dclamp_def)
    then show ?thesis using \<open>M \<le> M + micron\<close> by (rule dbl_le_trans)
  qed
  have steps: "\<bar>x\<bar> \<le> M + micron" if "x \<in> set (if spin_step (Fin k) \<le> M + micron then [spin_step (Fin k), - spin_step (Fin k)] else [])"
    "0 \<le> k" for x k
    using that spin_step_abs [of k] by (auto split: if_split_asm)
  have "a \<in> set (concat (map (\<lambda>degrees. if spin_step degrees \<le> M + micron then [spin_step degrees, - spin_step degrees] else [])
            [Fin 15, Fin 30, Fin 45, Fin 60, Fin 75, Fin 90])) \<or> a = dclamp e (- M) M"
    using assms(4) set_unique_angles by (force simp: spin_candidates_def Let_def split: if_split_asm)
  then show ?thesis
  proof
    let ?f = "\<lambda>degrees. if spin_step degrees \<le> M + micron then [spin_step degrees, - spin_step degrees] else []"
    assume "a \<in> set (concat (map ?f [Fin 15, Fin 30, Fin 45, Fin 60, Fin 75, Fin 90]))"
    then obtain dg where dg: "dg \<in> set [Fin 15, Fin 30, Fin 45, Fin 60, Fin 75, Fin 90]" "a \<in> set (?f dg)"
      unfolding set_concat set_map by blast
    then obtain k where "dg = Fin k" "0 \<le> k" by auto
    then show ?thesis using steps dg(2) by blast
  qed (simp add: path)
qed

lemma forward_clear_first: "\<not> ok x \<Longrightarrow> forward_clear ok (Suc n) x f = f"
  by simp

lemma spin_forward_first:
  assumes "fl 0.05 \<le> spin_forward w c t d a"
  shows "sr_ok (pose_check w c t d (travel_sweep (w_m w) a (fl 0.05)))"
proof (rule ccontr)
  assume "\<not> ?thesis"
  then have "spin_forward w c t d a = Fin 0"
    using forward_clear_first [of _ "fl 0.05" 7 "Fin 0"] by (simp only: spin_forward_def Suc_numeral semiring_norm)
  moreover have "\<not> fl 0.05 \<le> Fin 0" by code_simp
  ultimately show False using assms by (simp only:)
qed

text \<open>The turn that is commanded was examined: its angle keeps within the permitted maximum, the
  robot can turn to it on the spot, at least five centimetres ahead are then free, and no other
  candidate that passes these checks has more free space ahead, in steps of five centimetres.\<close>
theorem chosen_spin_safe:
  assumes "is_double M" "isfinite M" "Fin 0 < M" "error \<noteq> NaN"
    "best = se_best (choose_spin w c t d M error p)" "sp_valid best"
  shows "\<bar>sp_angle best\<bar> \<le> M + micron \<and> sr_ok (pose_check w c t d (turn_sweep (sp_angle best))) \<and>
    sr_ok (pose_check w c t d (travel_sweep (w_m w) (sp_angle best) (fl 0.05))) \<and>
    (\<forall>a \<in> set (spin_candidates M error). sr_ok (pose_check w c t d (turn_sweep a)) \<and>
       fl 0.05 \<le> spin_forward w c t d a \<longrightarrow>
       clearance_bucket (spin_candidate_at w c t d error a) \<le> clearance_bucket best)"
proof -
  define s where "s = choose_spin w c t d M error p"
  have "s = foldl (\<lambda>s angle. eval_angle w c t d error p angle s)
       \<lparr>se_best = no_candidate, se_left = Fin 0, se_right = Fin 0, se_rejected = 0\<rparr> (spin_candidates M error)"
    by (simp add: s_def choose_spin_def)
  note f = choose_spin_fold [OF this]
  have s: "best = se_best s" by (simp add: s_def assms(5))
  obtain a where a: "a \<in> set (spin_candidates M error)" "sr_ok (pose_check w c t d (turn_sweep a))"
    "best = spin_candidate_at w c t d error a"
    using f assms(6) unfolding s by (auto simp: no_candidate_def)
  have fw: "fl 0.05 \<le> spin_forward w c t d a" "sp_angle best = a"
    using assms(6) a(3) by (simp_all add: spin_candidate_at_def Let_def)
  have "sr_ok (pose_check w c t d (travel_sweep (w_m w) a (fl 0.05)))"
    using spin_forward_first fw(1) by blast
  moreover have "clearance_bucket (spin_candidate_at w c t d error x) \<le> clearance_bucket best"
    if "x \<in> set (spin_candidates M error)" "sr_ok (pose_check w c t d (turn_sweep x))"
      "fl 0.05 \<le> spin_forward w c t d x" for x
  proof -
    have "sp_valid (spin_candidate_at w c t d error x)"
      using that(3) by (simp only: spin_candidate_at_def Let_def spin_candidate.simps)
    moreover have "\<not> sp_valid no_candidate" by (simp add: no_candidate_def)
    ultimately show ?thesis using f that(1,2) unfolding s by simp
  qed
  then have "\<forall>a \<in> set (spin_candidates M error). sr_ok (pose_check w c t d (turn_sweep a)) \<and>
      fl 0.05 \<le> spin_forward w c t d a \<longrightarrow>
      clearance_bucket (spin_candidate_at w c t d error a) \<le> clearance_bucket best" by blast
  ultimately show ?thesis
    unfolding fw(2) using a(2) spin_candidates_bounded [OF assms(1-3) a(1) assms(4)] by (intro conjI)
qed


text \<open>A world in which nothing is in the way.\<close>

definition demo_world :: world where
  "demo_world = \<lparr>w_m = demo_libm, w_tf = demo_tf, w_nv = demo_nav2, w_fmt = (\<lambda>_. [])\<rparr>"

definition demo_config :: recovery_config where
  "demo_config = default_config\<lparr>rc_data_age := Fin 1\<rparr>"

definition demo_clocks :: clocks where
  "demo_clocks = \<lparr>ck_ros = 1, ck_steady = 1\<rparr>"

lemma demo_pose_check:
  "sweep_finite sw \<Longrightarrow> sr_ok (pose_check demo_world demo_config demo_clocks demo_snapshot sw)"
  by (simp add: pose_check_def demo_world_def demo_config_def demo_clocks_def demo_clear)

lemma forward_clear_ge:
  assumes "fl 0.05 \<le> d" "fl 0.05 \<le> f"
  shows "fl 0.05 \<le> forward_clear ok n d f"
proof -
  obtain x where x: "fl 0.05 = Fin x" "\<bar>x - 5 / 100\<bar> \<le> eps64"
    using fl_near [of "5 / 100"] by auto
  have x0: "0 \<le> x" using x(2) eps64 by linarith
  have xx: "fl x = Fin x" using is_double_fl [of x] is_double_fl_result [of "0.05"] unfolding x(1) by blast
  have step: "Fin x \<le> d + Fin x" if "Fin x \<le> d" for d
  proof (cases d)
    case (Fin q)
    then show ?thesis using that x0 fl_mono [of x "q + x"] by (simp add: xx)
  qed (use that in auto)
  have "Fin x \<le> d \<Longrightarrow> Fin x \<le> f \<Longrightarrow> Fin x \<le> forward_clear ok n d f" for d f
  proof (induction n arbitrary: d f)
    case (Suc n)
    have "forward_clear ok (Suc n) d f = f \<or> forward_clear ok (Suc n) d f = forward_clear ok n (d + Fin x) d"
      unfolding forward_clear.simps x(1) by simp
    then show ?case using Suc.IH [OF step [OF Suc.prems(1)] Suc.prems(1)] Suc.prems(2) by metis
  qed simp
  then show ?thesis using assms unfolding x(1) by blast
qed

lemma demo_spin_forward:
  assumes "isfinite a"
  shows "fl 0.05 \<le> spin_forward demo_world demo_config demo_clocks demo_snapshot a"
proof -
  let ?ok = "\<lambda>x. sr_ok (pose_check demo_world demo_config demo_clocks demo_snapshot (travel_sweep (w_m demo_world) a x))"
  have f: "isfinite (fl 0.05 * Fin 1)" "isfinite (fl 0.05 * Fin 0)" "fl 0.05 \<le> fl (350001 / 1000000)"
    "fl 0.05 \<le> fl 0.05 + fl 0.05" "fl 0.05 \<le> fl 0.05"
    by (code_simp, code_simp, code_simp, code_simp, code_simp)
  have "?ok (fl 0.05)"
    by (intro demo_pose_check) (use f assms in \<open>simp only: sweep_finite_def travel_sweep_def demo_world_def
      demo_libm_def sweep.simps world.simps libm.simps isfinite.simps simp_thms\<close>)
  then have "forward_clear ?ok (Suc 7) (fl 0.05) (Fin 0) = forward_clear ?ok 7 (fl 0.05 + fl 0.05) (fl 0.05)"
    using f(3) by (simp only: forward_clear.simps if_False not_True_eq_False if_True)
  then show ?thesis
    using forward_clear_ge [OF f(4,5), of ?ok 7] by (simp only: spin_forward_def Suc_numeral semiring_norm)
qed

theorem chosen_spin_safe_witness:
  "sr_ok (pose_check demo_world demo_config demo_clocks demo_snapshot (turn_sweep (sp_angle (se_best
     (choose_spin demo_world demo_config demo_clocks demo_snapshot (Fin (1 / 2)) (Fin 0) 0)))))"
proof -
  let ?s = "choose_spin demo_world demo_config demo_clocks demo_snapshot (Fin (1 / 2)) (Fin 0) 0"
  have d: "is_double (Fin (1 / 2))" by code_simp
  have "list_ex isfinite (spin_candidates (Fin (1 / 2)) (Fin 0))" by code_simp
  then obtain a where a: "a \<in> set (spin_candidates (Fin (1 / 2)) (Fin 0))" "isfinite a"
    by (auto simp: list_ex_iff)
  have "sr_ok (pose_check demo_world demo_config demo_clocks demo_snapshot (turn_sweep a))"
    using a(2) by (intro demo_pose_check) (simp add: sweep_finite_def turn_sweep_def)
  moreover have "sp_valid (spin_candidate_at demo_world demo_config demo_clocks demo_snapshot (Fin 0) a)"
    using demo_spin_forward [OF a(2)] by (simp only: spin_candidate_at_def Let_def spin_candidate.simps)
  moreover have "\<not> sp_valid no_candidate" by (simp add: no_candidate_def)
  ultimately have "sp_valid (se_best ?s)"
    using choose_spin_fold [OF choose_spin_def] a(1) by simp
  then show ?thesis
    using chosen_spin_safe [OF d _ _ _ refl, of "Fin 0" demo_world demo_config demo_clocks demo_snapshot 0] by simp
qed

definition demo_done :: shared where
  "demo_done = shared_init\<lparr>status := (status shared_init)\<lparr>as_terminal := True, as_success := True\<rparr>\<rparr>"

theorem leaf_success_confirmed_witness:
  "\<exists>sid r0. as_success (polled demo_config \<lparr>en_ready = True, en_construct_error = None,
     en_send_error = None, en_cancel_throws = (\<lambda>_. False), en_result = (None :: path option)\<rparr> demo_clocks sid r0)"
proof -
  let ?k = "safe_planner ''/compute_path_to_pose'' () None (\<lambda>_. False) None None ::
    (unit planner_goal, unit, path option) leaf_class"
  let ?e = "\<lparr>en_ready = True, en_construct_error = None, en_send_error = None,
     en_cancel_throws = (\<lambda>_. False), en_result = (None :: path option)\<rparr>"
  let ?l = "\<lparr>lf_session = Some 0, lf_settling = 0, lf_deadline = 0, lf_released = False, lf_no_motion = False,
    lf_result_timeout = Fin 1, lf_goal = \<lparr>pg_goal = (), pg_planner = []\<rparr>, lf_user = ()\<rparr>"
  let ?r = "runtime_init\<lparr>rt_sessions := (\<lambda>_. demo_done)\<rparr>"
  have "leaf_running ?k demo_config ?e demo_clocks ?l ?r = (SUCCESS, ?l, ?r)"
    by (simp add: leaf_running_def leaf_poll_def leaf_settle_def leaf_finish_def safe_planner_def
      with_session_def session_status_def poll_def demo_done_def shared_init_def planner_completed_def
      fun_upd_idem)
  from leaf_success_confirmed [OF this] show ?thesis by blast
qed

subsection \<open>Actions only withdraw the permit\<close>

text \<open>What a node of the tree may do to the context: publish permits of zero, latch a fault; it leaves
  what the subscriptions wrote.\<close>

definition rt_inputs :: "runtime \<Rightarrow> health_sample \<times> health_sample \<times> odometry option \<times> time_ns \<times> sensor_snapshot" where
  "rt_inputs r = (rt_perception r, rt_ready r, rt_odom r, rt_odom_received r, rt_sensors r)"

definition rt_view :: "runtime \<Rightarrow> nat list \<times> bool \<times> health_sample \<times> health_sample \<times> odometry option \<times>
    time_ns \<times> sensor_snapshot" where
  "rt_view r = (rt_permits r, rt_fault r, rt_inputs r)"

definition withdraws :: "runtime \<Rightarrow> runtime \<Rightarrow> bool" where
  "withdraws r r' \<longleftrightarrow> (\<exists>n. rt_permits r' = rt_permits r @ replicate n 0) \<and> (rt_fault r \<longrightarrow> rt_fault r') \<and>
     rt_inputs r' = rt_inputs r"

lemma withdraws_same: "rt_view r' = rt_view r \<Longrightarrow> withdraws r r'"
  by (simp add: withdraws_def rt_view_def exI [of _ 0])

lemma withdraws_view: "rt_view a = rt_view b \<Longrightarrow> withdraws a r = withdraws b r"
  by (simp add: withdraws_def rt_view_def)

lemma withdraws_view2: "rt_view a = rt_view b \<Longrightarrow> withdraws r a = withdraws r b"
  by (simp add: withdraws_def rt_view_def)

lemma withdraws_trans [trans]: "withdraws a b \<Longrightarrow> withdraws b c \<Longrightarrow> withdraws a c"
  unfolding withdraws_def by (metis append.assoc replicate_add)

lemma withdraws_permit: "withdraws r (rt_permit False r)"
  by (auto simp: withdraws_def rt_permit_def rt_inputs_def intro: exI [of _ 1])

lemma view_kept [simp]:
  "rt_view (diagnostic phase reason now r) = rt_view r"
  "rt_view (retire sid r) = rt_view r"
  "rt_view (with_session sid f r) = rt_view r"
  "rt_view (send_session timeout err now sid r) = rt_view r"
  "rt_view (restart_stillness r) = rt_view r"
  "rt_view (begin_recovery now r) = rt_view r"
  "rt_view (note_backup s now r) = rt_view r"
  "rt_view (release_backup d r) = rt_view r"
  "rt_view (reconcile_backup d d' b r) = rt_view r"
  "rt_view (snd (reserve_backup d r)) = rt_view r"
  "rt_view (snd (request_observe_replan c r)) = rt_view r"
  "rt_view (forward_progress d r) = rt_view r"
  "rt_view (note_tick now r) = rt_view r"
  "rt_view (snd (inputs_ready m tf c t r)) = rt_view r"
  by (simp_all add: rt_view_def rt_inputs_def diagnostic_def Let_def retire_def with_session_def send_session_def
      restart_stillness_def begin_recovery_def note_backup_def release_backup_def reconcile_backup_def
      reserve_backup_def request_observe_replan_def forward_progress_def note_tick_def inputs_ready_def
      input_failure_def sensor_failure_def split: option.split)

lemma view_fields [simp]:
  "rt_view (r\<lparr>rt_motion := m\<rparr>) = rt_view r"
  "rt_view (r\<lparr>rt_spin_used := u\<rparr>) = rt_view r"
  "rt_view (r\<lparr>rt_escape_stage := n\<rparr>) = rt_view r"
  "rt_view (r\<lparr>rt_replan_required := u\<rparr>) = rt_view r"
  "rt_view (r\<lparr>rt_preferred_spin_direction := i\<rparr>) = rt_view r"
  "rt_view (r\<lparr>rt_action_sequence := n\<rparr>) = rt_view r"
  "rt_view (r\<lparr>rt_next_session := n\<rparr>) = rt_view r"
  "rt_view (r\<lparr>rt_sessions := f\<rparr>) = rt_view r"
  "rt_view (r\<lparr>rt_observe_started := now\<rparr>) = rt_view r"
  by (simp_all add: rt_view_def rt_inputs_def)

lemma view_permits: "rt_view r' = rt_view r \<Longrightarrow> rt_permits r' = rt_permits r"
  by (simp add: rt_view_def)

lemma permits_kept [simp]:
  "rt_permits (diagnostic phase reason now r) = rt_permits r"
  "rt_permits (begin_recovery now r) = rt_permits r"
  "rt_permits (forward_progress d r) = rt_permits r"
  "rt_permits (snd (inputs_ready m tf c t r)) = rt_permits r"
  by (rule view_permits, simp)+

lemma withdraws_fail: "withdraws r (rt_fail reason now r)"
  unfolding rt_fail_def
  by (rule withdraws_trans [OF _ withdraws_same [OF view_kept(1)]])
    (auto simp: withdraws_def rt_permit_def rt_inputs_def intro: exI [of _ 1])

text \<open>What \<open>SafeActionLeaf\<close> asks of the methods a node overrides: they publish no permit.\<close>

locale quiet_class =
  fixes k :: "('g, 'u, 'r) leaf_class"
  assumes prepare: "rt_view (snd (snd (lc_prepare k t l r))) = rt_view r"
    and reserve: "rt_view (snd (snd (lc_reserve k t l r))) = rt_view r"
    and rejected: "rt_view (lc_rejected k t l r) = rt_view r"
    and failed: "rt_view (lc_failed k t l r) = rt_view r"
    and completed: "rt_view (lc_completed k v t l r) = rt_view r"
    and update: "rt_view (snd (lc_update k t l r)) = rt_view r"
begin

lemma finish_quiet: "leaf_finish k e t sid st l r = (s, l', r') \<Longrightarrow> withdraws r r'"
  by (rule withdraws_same) (auto simp: leaf_finish_def Let_def completed failed split: if_split_asm)

lemma settle_quiet:
  assumes "leaf_settle k c e t sid st l r = (s, l', r')"
  shows "withdraws r r'"
proof (cases "lc_motion k \<and> rt_supervised r")
  case True
  define p where "p = rt_permit False r"
  obtain l1 r1 where lr: "(if lf_settling l = 0 then (l\<lparr>lf_settling := ck_steady t\<rparr>, restart_stillness p)
                 else (l, p)) = (l1, r1)" by fastforce
  then have r1: "withdraws r r1"
    using withdraws_permit [of r] withdraws_view2 [of "restart_stillness p" p r]
    by (auto simp: p_def split: if_split_asm)
  have "withdraws r1 r'"
    using assms True finish_quiet [of e t sid st l1 r1] withdraws_fail withdraws_same
    by (auto simp: leaf_settle_def p_def [symmetric] lr split: if_split_asm)
  with r1 show ?thesis by (rule withdraws_trans)
qed (use assms finish_quiet in \<open>auto simp: leaf_settle_def\<close>)

lemma poll_quiet:
  assumes "leaf_poll k c e t sid l r = (s, l', r')"
  shows "withdraws r r'"
proof -
  define p where "p = with_session sid (poll (session_limits c) (en_cancel_throws e) (ck_steady t)) r"
  define st where "st = session_status sid p"
  have p: "rt_view p = rt_view r" by (simp add: p_def)
  consider "as_reason st = ''CANCEL_UNCONFIRMED''" | "as_reason st \<noteq> ''CANCEL_UNCONFIRMED''" "\<not> as_terminal st"
    | l1 r1 where "as_reason st \<noteq> ''CANCEL_UNCONFIRMED''" "as_terminal st"
      "(if as_rejected st \<and> \<not> lf_released l then (l\<lparr>lf_released := True\<rparr>, lc_rejected k t l p) else (l, p)) = (l1, r1)"
    by (metis surj_pair)
  then have "withdraws p r'"
  proof cases
    case 1
    then show ?thesis using assms withdraws_fail withdraws_view2 [of "retire sid _"]
      by (auto simp: leaf_poll_def p_def [symmetric] st_def [symmetric] intro: withdraws_same)
  next
    case 2
    then show ?thesis using assms update [of t l p]
      by (auto simp: leaf_poll_def p_def [symmetric] st_def [symmetric] case_prod_beta
        intro!: withdraws_same split: if_split_asm)
  next
    case 3
    have "rt_view r1 = rt_view p" using 3(3) rejected by (auto split: if_split_asm)
    moreover have "leaf_settle k c e t sid st l1 r1 = (s, l', r')"
      using assms 3 by (simp add: leaf_poll_def p_def [symmetric] st_def [symmetric])
    ultimately show ?thesis using settle_quiet withdraws_same withdraws_trans by metis
  qed
  then show ?thesis by (simp add: withdraws_view [OF p])
qed

lemma submit_quiet:
  assumes "leaf_running k c e t l r = (s, l', r')" "lf_session l = None" "en_ready e"
    "\<not> (lc_motion k \<and> motion_busy r)" "en_construct_error e = None"
  shows "withdraws r r'"
proof -
  define sid where "sid = rt_next_session r"
  define r1 where "r1 = r\<lparr>rt_next_session := Suc sid, rt_sessions := (rt_sessions r)(sid := shared_init)\<rparr>"
  obtain ok l2 r2 where v: "lc_reserve k t l r1 = (ok, l2, r2)" by (metis surj_pair)
  have "rt_view r2 = rt_view r1" using reserve [of t l r1] by (simp add: v)
  then have r2: "rt_view r2 = rt_view r" by (simp add: r1_def)
  define r3 where "r3 = send_session (lf_result_timeout (l2\<lparr>lf_session := Some sid\<rparr>)) (en_send_error e) (ck_steady t) sid
    (if lc_motion k then r2\<lparr>rt_motion := Some sid, rt_action_sequence := rt_action_sequence r2 + 1\<rparr> else r2)"
  have r3: "rt_view r3 = rt_view r" by (simp add: r3_def r2)
  have e: "leaf_running k c e t l r = (if \<not> ok then (FAILURE, l2\<lparr>lf_session := None\<rparr>, r2)
      else leaf_poll k c e t sid (l2\<lparr>lf_session := Some sid\<rparr>) r3)"
    using assms(2-) by (auto simp add: leaf_running_def Let_def sid_def [symmetric] r1_def [symmetric] v r3_def)
  show ?thesis
  proof (cases ok)
    case True
    then show ?thesis using poll_quiet [of c e t sid _ r3] assms(1) by (auto simp: e withdraws_view [OF r3])
  next
    case False
    then show ?thesis using assms(1) r2 by (auto simp: e intro: withdraws_same)
  qed
qed

lemma running_quiet:
  assumes "leaf_running k c e t l r = (s, l', r')"
  shows "withdraws r r'"
proof (cases "lf_session l")
  case (Some sid)
  then show ?thesis using assms poll_quiet [of c e t sid l r] by (simp add: leaf_running_def)
next
  case None
  show ?thesis
  proof (cases "en_ready e \<and> \<not> (lc_motion k \<and> motion_busy r) \<and> en_construct_error e = None")
    case True
    then show ?thesis using submit_quiet [OF assms None] by blast
  next
    case False
    then show ?thesis using assms None withdraws_fail
      by (auto simp: leaf_running_def intro: withdraws_same split: if_split_asm option.split_asm)
  qed
qed

lemma start_quiet:
  assumes "leaf_start k c e t l r = (s, l', r')"
  shows "withdraws r r'"
proof (cases "rt_fault r")
  case False
  define l1 where "l1 = l\<lparr>lf_session := None, lf_settling := 0, lf_released := False, lf_no_motion := False,
    lf_goal := lc_empty_goal k\<rparr>"
  obtain ok l2 r2 where v: "lc_prepare k t l1 r = (ok, l2, r2)" by (metis surj_pair)
  have r2: "rt_view r2 = rt_view r" using prepare [of t l1 r] by (simp add: v)
  show ?thesis
  proof (cases "ok \<and> \<not> lf_no_motion l2")
    case True
    then have "leaf_running k c e t (l2\<lparr>lf_deadline := after (ck_steady t) (rc_response_timeout c)\<rparr>) r2 = (s, l', r')"
      using assms False by (simp add: leaf_start_def l1_def [symmetric] v)
    from running_quiet [OF this] show ?thesis by (simp add: withdraws_view [OF r2])
  next
    case no: False
    then show ?thesis using assms False r2
      by (auto simp: leaf_start_def l1_def [symmetric] v intro: withdraws_same split: if_split_asm)
  qed
qed (use assms in \<open>auto simp: leaf_start_def intro: withdraws_same\<close>)

lemma start_withdraws: "withdraws r (snd (snd (leaf_start k c e t l r)))"
  by (cases "leaf_start k c e t l r") (simp add: start_quiet)

lemma running_withdraws: "withdraws r (snd (snd (leaf_running k c e t l r)))"
  by (cases "leaf_running k c e t l r") (simp add: running_quiet)

lemma halted_quiet: "withdraws r (leaf_halted k e t l r)"
  using withdraws_permit [of r] withdraws_view2 [of "with_session sid f (rt_permit False r)" for sid f]
    withdraws_view2 [of "retire sid (with_session sid f r)" for sid f r]
  by (auto simp: leaf_halted_def Let_def intro: withdraws_same split: option.split)

end

lemma budget_permits [simp]: "rt_view (settle_budget w phase ok reliable d t l r) = rt_view r"
  by (simp add: settle_budget_def Let_def)

lemma reserve_permits: "reserve_backup d r = (b, r') \<Longrightarrow> rt_view r' = rt_view r"
  using view_kept(10) [of d r] by simp

interpretation backup_class: quiet_class "safe_backup w c d s m"
  by unfold_locales
    (auto simp: safe_backup_def backup_prepare_def backup_reserve_def backup_rejected_def backup_failed_def
      backup_completed_def Let_def reserve_permits split: prod.split)

interpretation spin_class: quiet_class "controlled_spin w c path goal angle allowance"
  by unfold_locales
    (auto simp: controlled_spin_def spin_prepare_def spin_reserve_def spin_rejected_def Let_def split: option.split)

interpretation follow_class: quiet_class "safe_follow_path path controller checker err"
  by unfold_locales
    (auto simp: safe_follow_path_def follow_prepare_def follow_update_def Let_def split: option.split)

interpretation planner_class: quiet_class "safe_planner action no goal is_empty planner timeout"
  by unfold_locales
    (auto simp: safe_planner_def planner_prepare_def planner_completed_def Let_def split: option.split)

text \<open>No action node of the recovery tree ever permits the robot to move: starting, running or
  halting a back-up, a turn, a path to follow or a planner publishes no permit but zero.\<close>
theorem actions_never_permit:
  "withdraws r (snd (snd (leaf_start (safe_backup w c d s m) c e t b r))) \<and>
   withdraws r (snd (snd (leaf_running (safe_backup w c d s m) c e t b r))) \<and>
   withdraws r (leaf_halted (safe_backup w c d s m) e t b r) \<and>
   withdraws r (snd (snd (leaf_start (controlled_spin w c path goal angle m) c e t a r))) \<and>
   withdraws r (snd (snd (leaf_running (controlled_spin w c path goal angle m) c e t a r))) \<and>
   withdraws r (leaf_halted (controlled_spin w c path goal angle m) e t a r) \<and>
   withdraws r (snd (snd (leaf_start (safe_follow_path path controller checker err) c e t f r))) \<and>
   withdraws r (snd (snd (leaf_running (safe_follow_path path controller checker err) c e t f r))) \<and>
   withdraws r (leaf_halted (safe_follow_path path controller checker err) e t f r) \<and>
   withdraws r (snd (snd (leaf_start (safe_planner action no pg is_empty planner timeout) c pe t p r))) \<and>
   withdraws r (snd (snd (leaf_running (safe_planner action no pg is_empty planner timeout) c pe t p r))) \<and>
   withdraws r (leaf_halted (safe_planner action no pg is_empty planner timeout) pe t p r)"
  by (intro conjI backup_class.start_withdraws backup_class.running_withdraws backup_class.halted_quiet
      spin_class.start_withdraws spin_class.running_withdraws spin_class.halted_quiet
      follow_class.start_withdraws follow_class.running_withdraws follow_class.halted_quiet
      planner_class.start_withdraws planner_class.running_withdraws planner_class.halted_quiet)

end
