(* ===== verification/Progress_Guard.thy ===== *)
theory Progress_Guard
  imports Recovery_Nodes
begin

text \<open>
  Two nodes of \<open>nav012_nodes.cpp\<close> that watch the robot: \<open>ProgressGuard\<close>, a decorator that ticks the
  motion below it only while the odometry shows progress along the path, and \<open>ParkAndObserve\<close>, which
  waits at a standstill until the way is free. The tree's library is not part of the repository: what
  \<open>ProgressGuard\<close> does with its child is the record \<open>decorated\<close>, whose \<open>dc_running\<close> is the test of the
  child's status, \<open>dc_tick\<close> is \<open>executeTick\<close>, \<open>dc_halt\<close> is \<open>halt\<close> and \<open>dc_base_halt\<close> is
  \<open>DecoratorNode::halt\<close>.
\<close>

subsection \<open>Ports\<close>

definition default_stamped :: pose_stamped where
  "default_stamped = \<lparr>ps_frame = [], ps_stamp = 0, ps_pose = \<lparr>p_position = \<lparr>px = Fin 0, py = Fin 0\<rparr>,
     p_orientation = \<lparr>qx = Fin 0, qy = Fin 0, qz = Fin 0, qw = Fin 1\<rparr>\<rparr>\<rparr>"

definition final_goal :: "pose_stamped option \<Rightarrow> pose_stamped list option \<Rightarrow> pose_stamped" where
  "final_goal goal goals = (case goal of
       Some g \<Rightarrow> g
     | None \<Rightarrow> (case goals of
         None \<Rightarrow> default_stamped
       | Some gs \<Rightarrow> if gs = [] then default_stamped else List.last gs))"

record guard_ports =
  gp_path :: "path option"
  gp_goal :: "pose_stamped option"
  gp_goals :: "pose_stamped list option"
  gp_linear_timeout :: "dbl option"
  gp_linear_threshold :: "dbl option"
  gp_angular_timeout :: "dbl option"
  gp_angular_threshold :: "dbl option"
  gp_rotation_budget :: "dbl option"
  gp_flip_threshold :: "dbl option"
  gp_max_flips :: "int option"

record guard_limits =
  gl_linear_timeout :: dbl
  gl_linear_threshold :: dbl
  gl_angular_timeout :: dbl
  gl_angular_threshold :: dbl
  gl_rotation_budget :: dbl
  gl_flip_threshold :: dbl
  gl_max_flips :: int

definition guard_limits_of :: "guard_ports \<Rightarrow> guard_limits" where
  "guard_limits_of p = \<lparr>gl_linear_timeout = port (gp_linear_timeout p) (Fin 3),
     gl_linear_threshold = port (gp_linear_threshold p) (fl 0.03),
     gl_angular_timeout = port (gp_angular_timeout p) (Fin 3),
     gl_angular_threshold = port (gp_angular_threshold p) (fl 0.1),
     gl_rotation_budget = port (gp_rotation_budget p) (Fin 8),
     gl_flip_threshold = port (gp_flip_threshold p) (fl 0.35), gl_max_flips = port (gp_max_flips p) 3\<rparr>"

definition guard_limits_ok :: "guard_limits \<Rightarrow> bool" where
  "guard_limits_ok l \<longleftrightarrow> list_all (\<lambda>v. isfinite v \<and> \<not> v \<le> Fin 0)
     [gl_linear_timeout l, gl_linear_threshold l, gl_angular_timeout l, gl_angular_threshold l,
      gl_rotation_budget l, gl_flip_threshold l] \<and> \<not> gl_max_flips l < 1"

subsection \<open>The progress guard\<close>

record guard_status =
  gs_code :: string
  gs_reference_yaw :: dbl
  gs_robot_yaw :: dbl
  gs_tracked_yaw :: dbl
  gs_wz :: dbl
  gs_revision :: nat
  gs_flips :: nat
  gs_forward :: dbl
  gs_turn_elapsed :: dbl
  gs_window_elapsed :: dbl

record progress_guard =
  pg_initialized :: bool
  pg_in_turn :: bool
  pg_flips :: nat
  pg_epoch :: nat
  pg_baseline :: pose
  pg_cruise :: time_ns
  pg_turn :: time_ns
  pg_window :: time_ns
  pg_last_diag :: time_ns
  pg_error :: dbl
  pg_target_yaw :: dbl
  pg_reference_yaw :: dbl
  pg_robot_yaw :: dbl
  pg_wz :: dbl
  pg_forward :: dbl
  pg_revision :: nat
  pg_previous :: path
  pg_published :: "guard_status list"

definition progress_guard_init :: progress_guard where
  "progress_guard_init = \<lparr>pg_initialized = False, pg_in_turn = False, pg_flips = 0, pg_epoch = 0,
     pg_baseline = ps_pose default_stamped, pg_cruise = 0, pg_turn = 0, pg_window = 0, pg_last_diag = 0,
     pg_error = Fin 0, pg_target_yaw = Fin 0, pg_reference_yaw = Fin 0, pg_robot_yaw = Fin 0,
     pg_wz = Fin 0, pg_forward = Fin 0, pg_revision = 0, pg_previous = empty_path, pg_published = []\<rparr>"

definition guard_reset :: "progress_guard \<Rightarrow> progress_guard" where
  "guard_reset g = g\<lparr>pg_initialized := False, pg_in_turn := False, pg_flips := 0\<rparr>"

definition guard_publish :: "string \<Rightarrow> time_ns \<Rightarrow> progress_guard \<Rightarrow> progress_guard" where
  "guard_publish code now g = g\<lparr>pg_published := pg_published g @ [\<lparr>gs_code = code,
     gs_reference_yaw = pg_reference_yaw g, gs_robot_yaw = pg_robot_yaw g, gs_tracked_yaw = pg_target_yaw g,
     gs_wz = pg_wz g, gs_revision = pg_revision g, gs_flips = pg_flips g, gs_forward = pg_forward g,
     gs_turn_elapsed = (if pg_in_turn g then secs (now - pg_turn g) else Fin 0),
     gs_window_elapsed = (if pg_in_turn g then secs (now - pg_window g) else Fin 0)\<rparr>]\<rparr>"

text \<open>The data of the tick, or the code of the failure.\<close>

definition guard_sense ::
  "world \<Rightarrow> recovery_config \<Rightarrow> guard_ports \<Rightarrow> clocks \<Rightarrow> runtime \<Rightarrow>
   string + odometry \<times> path \<times> pose_stamped \<times> heading_ref" where
  "guard_sense w c p t r = (case rt_odom r of
       None \<Rightarrow> Inl ''DATA_EXPIRED''
     | Some od \<Rightarrow>
         if \<not> healthy (ck_steady t) r \<or> \<not> odom_fresh c t r then Inl ''DATA_EXPIRED''
         else (case gp_path p of
             None \<Rightarrow> Inl ''TF_UNAVAILABLE''
           | Some path \<Rightarrow> (case runtime_pose (w_tf w) c (pa_frame path) (ck_ros t) of
               None \<Rightarrow> Inl ''TF_UNAVAILABLE''
             | Some pose \<Rightarrow>
                 let ref = heading_reference (w_m w) (tf_yaw (w_tf w)) pose path
                   (final_goal (gp_goal p) (gp_goals p)) (fl 0.30)
                 in if \<not> hr_valid ref then Inl ''INVALID_PATH'' else Inr (od, path, pose, ref))))"

definition guard_note ::
  "world \<Rightarrow> odometry \<Rightarrow> path \<Rightarrow> pose_stamped \<Rightarrow> heading_ref \<Rightarrow> progress_guard \<Rightarrow> progress_guard" where
  "guard_note w od path pose ref g =
     (let g = g\<lparr>pg_reference_yaw := hr_yaw ref,
            pg_robot_yaw := tf_yaw (w_tf w) (p_orientation (ps_pose pose)), pg_wz := od_wz od\<rparr>
      in if \<not> same_poses (pa_poses path) (pa_poses (pg_previous g))
         then g\<lparr>pg_revision := pg_revision g + 1, pg_previous := path\<rparr> else g)"

definition guard_begin :: "odometry \<Rightarrow> time_ns \<Rightarrow> runtime \<Rightarrow> progress_guard \<Rightarrow> progress_guard" where
  "guard_begin od now r g =
     (if \<not> pg_initialized g \<or> pg_epoch g \<noteq> rt_epoch r
      then g\<lparr>pg_initialized := True, pg_epoch := rt_epoch r, pg_baseline := od_pose od, pg_cruise := now,
        pg_in_turn := False, pg_flips := 0\<rparr> else g)"

text \<open>Progress since the baseline: a plausible step renews the windows.\<close>

definition guard_advance ::
  "world \<Rightarrow> guard_limits \<Rightarrow> odometry \<Rightarrow> heading_ref \<Rightarrow> time_ns \<Rightarrow> progress_guard \<Rightarrow> runtime \<Rightarrow> progress_guard \<times> runtime" where
  "guard_advance w l od ref now g r =
     (let dx = px (p_position (od_pose od)) - px (p_position (pg_baseline g));
          dy = py (p_position (od_pose od)) - py (p_position (pg_baseline g));
          yaw = tf_yaw (w_tf w) (p_orientation (pg_baseline g));
          s = classify_forward_progress (w_m w) dx dy yaw (gl_linear_threshold l) (fl 0.15);
          g = g\<lparr>pg_forward := Fin 0\<rparr>
      in if \<not> fp_displaced s then (g, r)
         else let g = g\<lparr>pg_baseline := od_pose od\<rparr> in
           if \<not> fp_plausible s then (g, r)
           else let r = forward_progress (fp_forward s) r; g = g\<lparr>pg_forward := fp_forward s\<rparr> in
             if gl_linear_threshold l \<le> fp_forward s
             then let g = g\<lparr>pg_cruise := now, pg_flips := 0\<rparr>
                  in (if pg_in_turn g then g\<lparr>pg_turn := now, pg_window := now, pg_target_yaw := hr_yaw ref,
                    pg_error := \<bar>hr_error ref\<bar>\<rparr> else g, r)
             else (g, r))"

text \<open>The windows of turning and of straight travel; \<open>Some code\<close> is a failure.\<close>

definition guard_turning ::
  "world \<Rightarrow> guard_limits \<Rightarrow> heading_ref \<Rightarrow> time_ns \<Rightarrow> progress_guard \<Rightarrow> string option \<times> progress_guard" where
  "guard_turning w l ref now g =
     (let event = classify_heading_align (w_m w) (pg_in_turn g) (pg_target_yaw g) (hr_yaw ref) (pg_flips g)
            (gl_flip_threshold l) (nat (gl_max_flips l))
      in if event = Oscillating then (Some ''PATH_HEADING_OSCILLATION'', g)
         else let g = (if \<not> pg_in_turn g
                then g\<lparr>pg_in_turn := True, pg_turn := now, pg_window := now, pg_error := \<bar>hr_error ref\<bar>,
                  pg_target_yaw := hr_yaw ref\<rparr>
                else if event = NewTarget
                then g\<lparr>pg_flips := pg_flips g + 1, pg_window := now, pg_error := \<bar>hr_error ref\<bar>,
                  pg_target_yaw := hr_yaw ref\<rparr>
                else g)
              in if gl_rotation_budget l \<le> secs (now - pg_turn g)
                 then (Some ''ROTATION_BUDGET_EXCEEDED'', g)
                 else if gl_angular_timeout l \<le> secs (now - pg_window g)
                 then let tracked = \<bar>normalize (w_m w) (pg_target_yaw g - pg_robot_yaw g)\<bar>
                      in if pg_error g - tracked < gl_angular_threshold l
                         then (Some ''ANGULAR_CONVERGENCE_FAIL'', g)
                         else (None, g\<lparr>pg_window := now, pg_error := tracked\<rparr>)
                 else (None, g))"

definition guard_cruising :: "guard_limits \<Rightarrow> odometry \<Rightarrow> time_ns \<Rightarrow> progress_guard \<Rightarrow> string option \<times> progress_guard" where
  "guard_cruising l od now g =
     (let g = (if pg_in_turn g
            then g\<lparr>pg_in_turn := False, pg_flips := 0, pg_baseline := od_pose od, pg_cruise := now\<rparr> else g)
      in (if gl_linear_timeout l \<le> secs (now - pg_cruise g) then Some ''LINEAR_STAGNATION'' else None, g))"

definition guard_check ::
  "world \<Rightarrow> recovery_config \<Rightarrow> guard_ports \<Rightarrow> clocks \<Rightarrow> progress_guard \<Rightarrow> runtime \<Rightarrow>
   string option \<times> progress_guard \<times> runtime" where
  "guard_check w c p t g r = (case guard_sense w c p t r of
       Inl code \<Rightarrow> (Some code, g, r)
     | Inr (od, path, pose, ref) \<Rightarrow>
         let now = ck_steady t; l = guard_limits_of p;
             g = guard_begin od now r (guard_note w od path pose ref g)
         in if \<not> guard_limits_ok l then (Some ''INVALID_PARAMETER'', g, r)
            else let (g, r) = guard_advance w l od ref now g r;
                     (code, g) = (if fl 0.35 \<le> \<bar>hr_error ref\<bar> then guard_turning w l ref now g
                       else guard_cruising l od now g)
                 in case code of
                     Some f \<Rightarrow> (Some f, g, r)
                   | None \<Rightarrow> (None, if Fin 1 \<le> secs (now - pg_last_diag g)
                       then guard_publish ''NONE'' now (g\<lparr>pg_last_diag := now\<rparr>) else g, r))"

record 'k decorated =
  dc_running :: "'k \<Rightarrow> bool"
  dc_tick :: "clocks \<Rightarrow> 'k \<Rightarrow> runtime \<Rightarrow> node_status \<times> 'k \<times> runtime"
  dc_halt :: "clocks \<Rightarrow> 'k \<Rightarrow> runtime \<Rightarrow> 'k \<times> runtime"
  dc_base_halt :: "clocks \<Rightarrow> 'k \<Rightarrow> runtime \<Rightarrow> 'k \<times> runtime"

definition guard_failure ::
  "'k decorated \<Rightarrow> string \<Rightarrow> clocks \<Rightarrow> progress_guard \<Rightarrow> 'k \<Rightarrow> runtime \<Rightarrow> node_status \<times> progress_guard \<times> 'k \<times> runtime" where
  "guard_failure d code t g k r =
     (let r = begin_recovery (ck_steady t) (rt_permit False r);
          g = guard_publish code (ck_steady t) g;
          (k, r) = (if dc_running d k then dc_halt d t k r else (k, r))
      in (FAILURE, g, k, r))"

definition motion_ended :: "runtime \<Rightarrow> bool" where
  "motion_ended r = (case rt_motion r of None \<Rightarrow> False | Some sid \<Rightarrow> as_terminal (session_status sid r))"

definition guard_tick ::
  "world \<Rightarrow> recovery_config \<Rightarrow> guard_ports \<Rightarrow> 'k decorated \<Rightarrow> clocks \<Rightarrow> bool \<Rightarrow> progress_guard \<Rightarrow> 'k \<Rightarrow> runtime \<Rightarrow>
   node_status \<times> progress_guard \<times> 'k \<times> runtime" where
  "guard_tick w c p d t idle g k r =
     (let g = (if idle then guard_reset g else g) in
      if motion_ended r
      then let (st, k, r) = dc_tick d t k r in (st, guard_reset g, k, r)
      else case guard_check w c p t g r of
          (Some code, g, r) \<Rightarrow> guard_failure d code t g k r
        | (None, g, r) \<Rightarrow> let (st, k, r) = dc_tick d t k r in (st, g, k, r))"

definition guard_halt ::
  "'k decorated \<Rightarrow> clocks \<Rightarrow> progress_guard \<Rightarrow> 'k \<Rightarrow> runtime \<Rightarrow> progress_guard \<times> 'k \<times> runtime" where
  "guard_halt d t g k r = (guard_reset g, dc_base_halt d t k r)"

subsection \<open>Waiting at a standstill\<close>

record park =
  pk_deadline :: time_ns
  pk_last_check :: time_ns

record park_ports =
  pp_duration :: "dbl option"
  pp_path :: "path option"
  pp_goal :: "pose_stamped option"
  pp_goals :: "pose_stamped list option"

text \<open>The check of the way ahead: the answer of \<open>inputs_ready\<close>, replaced by the sweep's where there
  is one, and whether the way is free.\<close>

definition park_view ::
  "world \<Rightarrow> recovery_config \<Rightarrow> park_ports \<Rightarrow> clocks \<Rightarrow> safety_result \<Rightarrow> runtime \<Rightarrow> safety_result option" where
  "park_view w c p t ready r =
     (if \<not> sr_ok ready then None
      else case pp_path p of None \<Rightarrow> None | Some path \<Rightarrow>
        (case runtime_pose (w_tf w) c (pa_frame path) (ck_ros t) of None \<Rightarrow> None | Some pose \<Rightarrow>
          let ref = heading_reference (w_m w) (tf_yaw (w_tf w)) pose path
            (final_goal (pp_goal p) (pp_goals p)) (fl 0.30)
          in if \<not> hr_valid ref then None
             else Some (swept_clear (w_m w) (w_tf w) (w_nv w) (rt_sensors r) (ck_ros t) (ck_steady t)
               (rc_base_frame c) (fl 0.35 * m_cos (w_m w) (hr_error ref))
               (fl 0.35 * m_sin (w_m w) (hr_error ref)) (rc_data_age c))))"

definition park_look ::
  "world \<Rightarrow> recovery_config \<Rightarrow> park_ports \<Rightarrow> clocks \<Rightarrow> runtime \<Rightarrow> node_status \<times> runtime" where
  "park_look w c p t r =
     (let (ready, r) = inputs_ready (w_m w) (w_tf w) c t r; now = ck_steady t in
      case park_view w c p t ready r of
        Some check \<Rightarrow>
          if sr_ok check then (SUCCESS, diagnostic ''PARK_AND_OBSERVE'' ''PATH_CLEAR'' now r)
          else (RUNNING, diagnostic ''PARK_AND_OBSERVE'' (sr_code check) now r)
      | None \<Rightarrow> (RUNNING, diagnostic ''PARK_AND_OBSERVE''
          (if sr_ok ready then ''WAITING_PATH'' else sr_code ready) now r))"

definition park_running ::
  "world \<Rightarrow> recovery_config \<Rightarrow> park_ports \<Rightarrow> clocks \<Rightarrow> park \<Rightarrow> runtime \<Rightarrow> node_status \<times> park \<times> runtime" where
  "park_running w c p t k r =
     (let r = rt_permit False r; now = ck_steady t in
      if pk_deadline k \<le> now
      then let (replan, r) = request_observe_replan c r in
        if replan then (SUCCESS, k, diagnostic ''PARK_AND_OBSERVE'' ''REPLAN_AFTER_OBSERVE'' now r)
        else (FAILURE, k, diagnostic ''PARK_AND_OBSERVE'' ''OBSERVE_TIMEOUT'' now r)
      else if pk_last_check k \<noteq> 0 \<and> secs (now - pk_last_check k) < fl 0.2 then (RUNNING, k, r)
      else let (st, r) = park_look w c p t r in (st, k\<lparr>pk_last_check := now\<rparr>, r))"

definition park_start ::
  "world \<Rightarrow> recovery_config \<Rightarrow> park_ports \<Rightarrow> clocks \<Rightarrow> park \<Rightarrow> runtime \<Rightarrow> node_status \<times> park \<times> runtime" where
  "park_start w c p t k r =
     (let duration = port (pp_duration p) (Fin 8) in
      if \<not> isfinite duration \<or> duration \<le> Fin 0 \<or> Fin 30 < duration then (FAILURE, k, r)
      else let r = (if rt_observe_started r = 0 then r\<lparr>rt_observe_started := ck_steady t\<rparr> else r);
               k = \<lparr>pk_deadline = after (rt_observe_started r) duration, pk_last_check = 0\<rparr>
           in park_running w c p t k (rt_permit False r))"

definition park_halted :: "runtime \<Rightarrow> runtime" where
  "park_halted r = rt_permit False r"

subsection \<open>What the guard lets through\<close>

lemma guard_publish_fields [simp]:
  "pg_in_turn (guard_publish code now g) = pg_in_turn g"
  "pg_turn (guard_publish code now g) = pg_turn g"
  "pg_cruise (guard_publish code now g) = pg_cruise g"
  "pg_epoch (guard_publish code now g) = pg_epoch g"
  "pg_initialized (guard_publish code now g) = pg_initialized g"
  "pg_forward (guard_publish code now g) = pg_forward g"
  by (simp_all add: guard_publish_def)

lemma guard_note_fields [simp]:
  "pg_in_turn (guard_note w od path pose ref g) = pg_in_turn g"
  "pg_turn (guard_note w od path pose ref g) = pg_turn g"
  "pg_epoch (guard_note w od path pose ref g) = pg_epoch g"
  "pg_initialized (guard_note w od path pose ref g) = pg_initialized g"
  by (simp_all add: guard_note_def Let_def)

lemma guard_turning_None:
  assumes "guard_turning w l ref now g = (None, g')"
  shows "pg_in_turn g' \<and> \<not> gl_rotation_budget l \<le> secs (now - pg_turn g') \<and>
    (pg_in_turn g \<longrightarrow> pg_turn g' = pg_turn g) \<and> pg_epoch g' = pg_epoch g \<and>
    pg_initialized g' = pg_initialized g \<and> pg_forward g' = pg_forward g"
  using assms by (auto simp: guard_turning_def Let_def split: if_split_asm)

lemma guard_cruising_None:
  assumes "guard_cruising l od now g = (None, g')"
  shows "\<not> pg_in_turn g' \<and> \<not> gl_linear_timeout l \<le> secs (now - pg_cruise g')"
  using assms by (auto simp: guard_cruising_def Let_def split: if_split_asm)

lemma guard_sense_Inr:
  assumes "guard_sense w c p t r = Inr v"
  shows "healthy (ck_steady t) r \<and> odom_fresh c t r"
  using assms by (auto simp: guard_sense_def Let_def split: option.split_asm if_split_asm)

lemma guard_advance_view: "guard_advance w l od ref now g r = (g', r') \<Longrightarrow> rt_view r' = rt_view r"
  by (auto simp: guard_advance_def Let_def split: if_split_asm)

lemma guard_check_None:
  assumes "guard_check w c p t g r = (None, g', r')"
  shows "\<exists>od path pose ref g1 g2. guard_sense w c p t r = Inr (od, path, pose, ref) \<and> guard_limits_ok (guard_limits_of p) \<and>
    guard_advance w (guard_limits_of p) od ref (ck_steady t)
      (guard_begin od (ck_steady t) r (guard_note w od path pose ref g)) r = (g1, r') \<and>
    (if fl 0.35 \<le> \<bar>hr_error ref\<bar> then guard_turning w (guard_limits_of p) ref (ck_steady t) g1
     else guard_cruising (guard_limits_of p) od (ck_steady t) g1) = (None, g2) \<and>
    g' = (if Fin 1 \<le> secs (ck_steady t - pg_last_diag g2)
      then guard_publish ''NONE'' (ck_steady t) (g2\<lparr>pg_last_diag := ck_steady t\<rparr>) else g2)"
proof -
  let ?l = "guard_limits_of p" and ?now = "ck_steady t"
  obtain od path pose ref where s: "guard_sense w c p t r = Inr (od, path, pose, ref)"
    using assms by (cases "guard_sense w c p t r") (auto simp: guard_check_def)
  obtain g1 r1 where a: "guard_advance w ?l od ref ?now (guard_begin od ?now r (guard_note w od path pose ref g)) r
      = (g1, r1)" by (metis surj_pair)
  obtain code g2 where m: "(if fl 0.35 \<le> \<bar>hr_error ref\<bar> then guard_turning w ?l ref ?now g1
      else guard_cruising ?l od ?now g1) = (code, g2)" by (metis surj_pair)
  have l: "guard_limits_ok ?l" using assms by (simp add: guard_check_def s Let_def split: if_split_asm)
  have e: "guard_check w c p t g r = (case code of Some f \<Rightarrow> (Some f, g2, r1)
      | None \<Rightarrow> (None, if Fin 1 \<le> secs (?now - pg_last_diag g2)
          then guard_publish ''NONE'' ?now (g2\<lparr>pg_last_diag := ?now\<rparr>) else g2, r1))"
    by (simp only: guard_check_def s Let_def l a m sum.case prod.case simp_thms if_False)
  have "code = None" "r' = r1" "g' = (if Fin 1 \<le> secs (?now - pg_last_diag g2)
      then guard_publish ''NONE'' ?now (g2\<lparr>pg_last_diag := ?now\<rparr>) else g2)"
    using assms by (auto simp: e split: option.split_asm)
  then show ?thesis using s l a m by blast
qed

lemma guard_check_view: "guard_check w c p t g r = (code, g', r') \<Longrightarrow> rt_view r' = rt_view r"
  by (auto simp: guard_check_def Let_def dest: guard_advance_view
      split: sum.split_asm prod.split_asm if_split_asm option.split_asm)

lemmas guard_check_permits = guard_check_view [THEN view_permits]

lemma guard_check_windows:
  assumes "guard_check w c p t g r = (None, g', r')"
  shows "healthy (ck_steady t) r \<and> odom_fresh c t r \<and> guard_limits_ok (guard_limits_of p) \<and>
    \<not> (if pg_in_turn g' then gl_rotation_budget (guard_limits_of p) \<le> secs (ck_steady t - pg_turn g')
       else gl_linear_timeout (guard_limits_of p) \<le> secs (ck_steady t - pg_cruise g'))"
proof -
  from guard_check_None [OF assms] obtain od path pose ref g1 g2 where
    s: "guard_sense w c p t r = Inr (od, path, pose, ref)" and l: "guard_limits_ok (guard_limits_of p)"
    and m: "(if fl 0.35 \<le> \<bar>hr_error ref\<bar> then guard_turning w (guard_limits_of p) ref (ck_steady t) g1
     else guard_cruising (guard_limits_of p) od (ck_steady t) g1) = (None, g2)"
    and g': "g' = (if Fin 1 \<le> secs (ck_steady t - pg_last_diag g2)
      then guard_publish ''NONE'' (ck_steady t) (g2\<lparr>pg_last_diag := ck_steady t\<rparr>) else g2)"
    by blast
  have "pg_in_turn g' = pg_in_turn g2" "pg_turn g' = pg_turn g2" "pg_cruise g' = pg_cruise g2"
    by (simp_all add: g')
  with guard_sense_Inr [OF s] l m guard_turning_None guard_cruising_None show ?thesis
    by (auto split: if_split_asm)
qed

text \<open>C28. While a motion has not ended, the guard ticks it only with a healthy localisation, fresh
  odometry, valid limits and an unexhausted window; otherwise it fails, withdraws the permit, starts
  the recovery and halts the motion if it runs.\<close>
theorem guard_watches:
  assumes "\<not> motion_ended r" "guard_tick w c p d t idle g k r = (st, g', k', r')"
  shows "(\<exists>r1. (st, k', r') = dc_tick d t k r1 \<and> rt_permits r1 = rt_permits r \<and>
      healthy (ck_steady t) r \<and> odom_fresh c t r \<and> guard_limits_ok (guard_limits_of p) \<and>
      \<not> (if pg_in_turn g' then gl_rotation_budget (guard_limits_of p) \<le> secs (ck_steady t - pg_turn g')
         else gl_linear_timeout (guard_limits_of p) \<le> secs (ck_steady t - pg_cruise g'))) \<or>
    (\<exists>r1. st = FAILURE \<and> (k', r') = (if dc_running d k then dc_halt d t k r1 else (k, r1)) \<and>
      rt_permits r1 = rt_permits r @ [0] \<and> rt_recovery_active r1)"
proof -
  obtain code g1 r1 where c: "guard_check w c p t (if idle then guard_reset g else g) r = (code, g1, r1)"
    by (metis surj_pair)
  note pm = guard_check_permits [OF c]
  show ?thesis
  proof (cases code)
    case None
    have "(st, k', r') = dc_tick d t k r1" "g' = g1"
      using assms by (auto simp: guard_tick_def c None split: prod.split_asm)
    then show ?thesis using guard_check_windows [OF c [unfolded None]] pm by blast
  next
    case (Some f)
    define r2 where "r2 = begin_recovery (ck_steady t) (rt_permit False r1)"
    have "rt_permits r2 = rt_permits r @ [0]" "rt_recovery_active r2"
      by (simp_all add: r2_def rt_permit_def pm begin_recovery_def)
    moreover have "st = FAILURE" "(k', r') = (if dc_running d k then dc_halt d t k r2 else (k, r2))"
      using assms by (auto simp: guard_tick_def c Some guard_failure_def Let_def r2_def [symmetric]
        split: prod.split_asm if_split_asm)
    ultimately show ?thesis by blast
  qed
qed

text \<open>Over a child that does not open the permit, the guard does not either.\<close>

locale quiet_decorated =
  fixes d :: "'k decorated"
  assumes tick: "withdraws r (snd (snd (dc_tick d t k r)))"
    and halt: "withdraws r (snd (dc_halt d t k r))"
    and base_halt: "withdraws r (snd (dc_base_halt d t k r))"
begin

lemma failure_quiet: "withdraws r (snd (snd (snd (guard_failure d code t g k r))))"
proof -
  define r1 where "r1 = begin_recovery (ck_steady t) (rt_permit False r)"
  have "withdraws r r1" using withdraws_permit [of r] withdraws_view2 [of r1 "rt_permit False r"] by (simp add: r1_def)
  then show ?thesis using halt [of r1 t k] withdraws_trans
    by (auto simp: guard_failure_def r1_def [symmetric] case_prod_beta)
qed

lemma guard_quiet: "withdraws r (snd (snd (snd (guard_tick w c p d t idle g k r))))"
proof -
  obtain code g1 r1 where v: "guard_check w c p t (if idle then guard_reset g else g) r = (code, g1, r1)"
    by (metis surj_pair)
  have r1: "withdraws r r1" using guard_check_view [OF v] by (rule withdraws_same)
  show ?thesis
    using tick [of r t k] withdraws_trans [OF r1 tick [of r1 t k]]
      withdraws_trans [OF r1 failure_quiet [of r1 _ t g1 k]] v
    by (cases code) (simp_all add: guard_tick_def case_prod_beta Let_def)
qed

lemma guard_halt_quiet: "withdraws r (snd (snd (guard_halt d t g k r)))"
  using base_halt by (simp add: guard_halt_def)

end

subsection \<open>The rotation budget\<close>

text \<open>Checks that let the motion go on while it turns, in one epoch and without forward progress.\<close>

definition no_advance :: "guard_ports \<Rightarrow> progress_guard \<Rightarrow> bool" where
  "no_advance p g \<longleftrightarrow> \<not> gl_linear_threshold (guard_limits_of p) \<le> pg_forward g"

inductive turning :: "world \<Rightarrow> recovery_config \<Rightarrow> progress_guard \<Rightarrow> progress_guard \<Rightarrow> bool" for w c where
  turning_refl: "turning w c g g"
| turning_step: "turning w c g g1 \<Longrightarrow> guard_check w c p t g1 r = (None, g2, r') \<Longrightarrow>
    rt_epoch r = pg_epoch g1 \<Longrightarrow> pg_in_turn g2 \<Longrightarrow> no_advance p g2 \<Longrightarrow> turning w c g g2"

lemma guard_advance_still:
  assumes "guard_advance w l od ref now g r = (g', r')" "\<not> gl_linear_threshold l \<le> pg_forward g'"
  shows "pg_turn g' = pg_turn g \<and> pg_in_turn g' = pg_in_turn g \<and> pg_epoch g' = pg_epoch g \<and>
    pg_initialized g' = pg_initialized g"
  using assms by (auto simp: guard_advance_def Let_def split: if_split_asm)

lemma guard_check_turn:
  assumes "guard_check w c p t g r = (None, g', r')" "rt_epoch r = pg_epoch g" "pg_initialized g"
    "pg_in_turn g" "pg_in_turn g'" "no_advance p g'"
  shows "pg_turn g' = pg_turn g \<and> pg_epoch g' = pg_epoch g \<and> pg_initialized g'"
proof -
  from guard_check_None [OF assms(1)] obtain od path pose ref g1 g2 where
    a: "guard_advance w (guard_limits_of p) od ref (ck_steady t)
      (guard_begin od (ck_steady t) r (guard_note w od path pose ref g)) r = (g1, r')"
    and m: "(if fl 0.35 \<le> \<bar>hr_error ref\<bar> then guard_turning w (guard_limits_of p) ref (ck_steady t) g1
     else guard_cruising (guard_limits_of p) od (ck_steady t) g1) = (None, g2)"
    and g': "g' = (if Fin 1 \<le> secs (ck_steady t - pg_last_diag g2)
      then guard_publish ''NONE'' (ck_steady t) (g2\<lparr>pg_last_diag := ck_steady t\<rparr>) else g2)"
    by blast
  have e: "pg_in_turn g' = pg_in_turn g2" "pg_turn g' = pg_turn g2" "pg_epoch g' = pg_epoch g2"
    "pg_initialized g' = pg_initialized g2" "pg_forward g' = pg_forward g2"
    by (simp_all add: g')
  have tr: "guard_turning w (guard_limits_of p) ref (ck_steady t) g1 = (None, g2)"
    using m guard_cruising_None assms(5) e(1) by (metis (full_types))
  note n = guard_turning_None [OF tr]
  have "\<not> gl_linear_threshold (guard_limits_of p) \<le> pg_forward g1"
    using assms(6) n e(5) by (simp add: no_advance_def)
  from guard_advance_still [OF a this] n e assms(2-4) show ?thesis by (simp add: guard_begin_def)
qed

lemma turning_keeps:
  assumes "turning w c g g1" "pg_initialized g" "pg_in_turn g"
  shows "pg_turn g1 = pg_turn g \<and> pg_epoch g1 = pg_epoch g \<and> pg_initialized g1 \<and> pg_in_turn g1"
  using assms
proof (induction rule: turning.induct)
  case (turning_step g g1 p t r g2 r')
  then show ?case using guard_check_turn [of w c p t g1 r g2 r'] by simp
qed simp

text \<open>The time for turning on the spot is bounded: however often the path is replanned or its
  heading flips, once the rotation budget has passed since the turn began, no check of the guard lets
  the motion go on turning unless the robot has moved forward in between.\<close>
theorem rotation_budget_kept:
  assumes "turning w c g g1" "pg_initialized g" "pg_in_turn g"
    "guard_check w c p t g1 r = (code, g2, r')" "rt_epoch r = pg_epoch g"
    "gl_rotation_budget (guard_limits_of p) \<le> secs (ck_steady t - pg_turn g)"
  shows "code \<noteq> None \<or> \<not> pg_in_turn g2 \<or> \<not> no_advance p g2"
proof (rule ccontr)
  assume n: "\<not> ?thesis"
  then have c: "guard_check w c p t g1 r = (None, g2, r')" using assms(4) by simp
  from turning_keeps [OF assms(1-3)] have k: "pg_turn g1 = pg_turn g" "pg_epoch g1 = pg_epoch g"
    "pg_initialized g1" "pg_in_turn g1" by auto
  have "pg_turn g2 = pg_turn g1"
    using guard_check_turn [OF c] n k assms(5) by simp
  then show False using guard_check_windows [OF c] n assms(6) k(1) by simp
qed

subsection \<open>Observation ends\<close>

lemma inputs_ready_permits: "inputs_ready m tf c t r = (x, r') \<Longrightarrow> rt_permits r' = rt_permits r"
  using permits_kept(4) [of m tf c t r] by simp

lemma park_look_permits: "park_look w c p t r = (st, r') \<Longrightarrow> rt_permits r' = rt_permits r"
  by (auto simp: inputs_ready_permits park_look_def Let_def split: prod.split_asm option.split_asm if_split_asm)

lemma diagnostic_replans [simp]: "rt_observe_replans_used (diagnostic phase reason now r) = rt_observe_replans_used r"
  by (simp add: diagnostic_def Let_def)

text \<open>Waiting is passive and bounded: every tick withdraws the permit; before the deadline it
  succeeds only when the way ahead was swept and found free; from the deadline on it ends, with
  success only while the number of replans allowed is not used up, and uses up one.\<close>
theorem park_bounded:
  assumes "park_running w c p t k r = (st, k', r')"
  shows "rt_permits r' = rt_permits r @ [0] \<and>
    (if pk_deadline k \<le> ck_steady t
     then st = (if rt_observe_replans_used r < rc_max_observe_replans c then SUCCESS else FAILURE) \<and>
       rt_observe_replans_used r' = rt_observe_replans_used r + (if st = SUCCESS then 1 else 0)
     else st = RUNNING \<or> st = SUCCESS \<and> (\<exists>ready r1 check. inputs_ready (w_m w) (w_tf w) c t (rt_permit False r) = (ready, r1) \<and>
       sr_ok ready \<and> park_view w c p t ready r1 = Some check \<and> sr_ok check))"
proof (cases "pk_deadline k \<le> ck_steady t")
  case True
  then show ?thesis using assms
    by (auto simp: park_running_def Let_def request_observe_replan_def rt_permit_def split: if_split_asm)
next
  case False
  define r0 where "r0 = rt_permit False r"
  obtain ready r1 where i: "inputs_ready (w_m w) (w_tf w) c t r0 = (ready, r1)" by (metis surj_pair)
  obtain st1 r2 where l: "park_look w c p t r0 = (st1, r2)" by (metis surj_pair)
  have r0: "rt_permits r0 = rt_permits r @ [0]" by (simp add: r0_def rt_permit_def)
  show ?thesis
  proof (cases "pk_last_check k \<noteq> 0 \<and> secs (ck_steady t - pk_last_check k) < fl 0.2")
    case True
    then have "st = RUNNING" "r' = r0" using assms False by (simp_all add: park_running_def r0_def [symmetric])
    then show ?thesis using False by (simp add: r0)
  next
    case no: False
    have "st = st1" "r' = r2" using assms False no by (auto simp: park_running_def r0_def [symmetric] l)
    moreover have "st1 = RUNNING \<or> st1 = SUCCESS \<and> sr_ok ready \<and> (\<exists>check. park_view w c p t ready r1 = Some check \<and> sr_ok check)"
      using l by (auto simp: park_look_def Let_def i park_view_def split: option.split_asm if_split_asm)
    ultimately show ?thesis using park_look_permits [OF l] False i unfolding r0_def [symmetric] r0 by auto
  qed
qed

subsection \<open>A robot that only turns\<close>

definition turn_libm :: libm where
  "turn_libm = demo_libm0\<lparr>m_atan2 := (\<lambda>_ _. Fin 1)\<rparr>"

definition turn_world :: world where
  "turn_world = demo_world\<lparr>w_m := turn_libm\<rparr>"

definition turn_clocks :: clocks where
  "turn_clocks = \<lparr>ck_ros = 9000000001, ck_steady = 9000000001\<rparr>"

definition turn_runtime :: runtime where
  "turn_runtime = on_ready True 9000000001 (runtime_init\<lparr>rt_odom := Some (demo_odom 9000000001),
     rt_odom_received := 9000000001\<rparr>)"

definition turn_ports :: guard_ports where
  "turn_ports = \<lparr>gp_path = Some demo_path, gp_goal = Some default_stamped, gp_goals = None,
     gp_linear_timeout = None, gp_linear_threshold = Some (Fin (1 / 32)), gp_angular_timeout = None,
     gp_angular_threshold = Some (Fin (1 / 8)), gp_rotation_budget = None,
     gp_flip_threshold = Some (Fin (1 / 4)), gp_max_flips = None\<rparr>"

definition turn_guard :: progress_guard where
  "turn_guard = progress_guard_init\<lparr>pg_initialized := True, pg_in_turn := True, pg_epoch := 1, pg_turn := 1, pg_window := 1\<rparr>"

lemma turn_sense:
  "guard_sense turn_world demo_config turn_ports turn_clocks turn_runtime =
     Inr (demo_odom 9000000001, demo_path, \<lparr>ps_frame = ''map'', ps_stamp = 0, ps_pose = ps_pose default_stamped\<rparr>,
       \<lparr>hr_valid = True, hr_yaw = Fin 1, hr_error = Fin 1, hr_segment = 0\<rparr>)"
proof -
  have "fresh_stamp 9000000001 9000000001 9000000001 9000000001 (Fin 1)" "secs 0 \<le> Fin 1" by (code_simp, code_simp)
  then show ?thesis
    by (simp add: guard_sense_def turn_runtime_def on_ready_def runtime_init_def healthy_def health_ok_def
        health_fresh_def turn_clocks_def odom_fresh_def demo_config_def turn_ports_def runtime_pose_def)
      (simp add: demo_odom_def turn_world_def turn_libm_def demo_libm0_def demo_world_def demo_transform_def
        demo_path_def default_stamped_def final_goal_def,
       simp add: heading_reference_def normalize_def demo_tf_def Let_def case_prod_beta path_point_def
        demo_stamped_def project_def,
       simp add: demo_odom_def demo_path_def demo_stamped_def)
qed

lemma turn_check:
  "\<exists>g. guard_check turn_world demo_config turn_ports turn_clocks turn_guard turn_runtime =
      (Some ''ROTATION_BUDGET_EXCEEDED'', g, turn_runtime) \<and> pg_in_turn g \<and> pg_forward g = Fin 0"
proof -
  have f: "Fin 8 \<le> secs 9000000000" "fl 0.35 \<le> Fin 1" "Fin (1 / 32) < fl 0.15" "isfinite (fl 0.15)"
    "Fin 0 - Fin 0 = Fin 0" "Fin 1 - Fin 0 = Fin 1"
    by (code_simp, code_simp, code_simp, code_simp, code_simp, code_simp)
  have l: "guard_limits_of turn_ports = \<lparr>gl_linear_timeout = Fin 3, gl_linear_threshold = Fin (1 / 32),
      gl_angular_timeout = Fin 3, gl_angular_threshold = Fin (1 / 8), gl_rotation_budget = Fin 8,
      gl_flip_threshold = Fin (1 / 4), gl_max_flips = 3\<rparr>"
    by (simp add: guard_limits_of_def turn_ports_def port_def)
  have ok: "guard_limits_ok (guard_limits_of turn_ports)" by (simp add: l guard_limits_ok_def)
  let ?ref = "\<lparr>hr_valid = True, hr_yaw = Fin 1, hr_error = Fin 1, hr_segment = 0\<rparr>"
  define g where "g = guard_note turn_world (demo_odom 9000000001) demo_path
    \<lparr>ps_frame = ''map'', ps_stamp = 0, ps_pose = ps_pose default_stamped\<rparr> ?ref turn_guard"
  have e: "rt_epoch turn_runtime = 1" by (simp add: turn_runtime_def on_ready_def runtime_init_def)
  have g: "pg_initialized g" "pg_epoch g = 1" "pg_in_turn g" "pg_turn g = 1" "pg_target_yaw g = Fin 0" "pg_flips g = 0"
    by (simp_all add: g_def guard_note_def turn_guard_def progress_guard_init_def Let_def)
  have b: "guard_begin (demo_odom 9000000001) 9000000001 turn_runtime g = g"
    using g e by (simp add: guard_begin_def)
  have "guard_advance turn_world (guard_limits_of turn_ports) (demo_odom 9000000001) ?ref 9000000001 g turn_runtime =
      (g\<lparr>pg_forward := Fin 0\<rparr>, turn_runtime)"
    by (simp add: guard_advance_def classify_forward_progress_def turn_world_def turn_libm_def demo_libm0_def l Let_def)
  moreover have "\<exists>g'. guard_turning turn_world (guard_limits_of turn_ports) ?ref 9000000001 (g\<lparr>pg_forward := Fin 0\<rparr>) =
      (Some ''ROTATION_BUDGET_EXCEEDED'', g') \<and> pg_in_turn g' \<and> pg_forward g' = Fin 0"
    using g f(1) by (simp add: guard_turning_def classify_heading_align_def heading_target_flipped_def
      normalize_def turn_world_def turn_libm_def demo_libm0_def l Let_def)
  moreover have "ck_steady turn_clocks = 9000000001" by (simp add: turn_clocks_def)
  ultimately show ?thesis
    using f(2) ok b by (auto simp: guard_check_def turn_sense g_def [symmetric] Let_def)
qed

theorem rotation_budget_kept_witness:
  "\<exists>code g. guard_check turn_world demo_config turn_ports turn_clocks turn_guard turn_runtime = (code, g, turn_runtime) \<and>
     pg_in_turn g \<and> code \<noteq> None"
proof -
  obtain g where g: "guard_check turn_world demo_config turn_ports turn_clocks turn_guard turn_runtime =
      (Some ''ROTATION_BUDGET_EXCEEDED'', g, turn_runtime)" "pg_in_turn g" "pg_forward g = Fin 0"
    using turn_check by blast
  have s: "Fin 8 \<le> secs 9000000000" by code_simp
  have "Some ''ROTATION_BUDGET_EXCEEDED'' \<noteq> None \<or> \<not> pg_in_turn g \<or> \<not> no_advance turn_ports g"
    by (rule rotation_budget_kept [OF turning_refl _ _ g(1)])
      (use s in \<open>simp_all add: turn_guard_def progress_guard_init_def turn_runtime_def on_ready_def runtime_init_def turn_clocks_def
        guard_limits_of_def turn_ports_def port_def\<close>)
  moreover have "no_advance turn_ports g"
    by (simp add: no_advance_def g(3) guard_limits_of_def turn_ports_def port_def)
  ultimately show ?thesis using g by blast
qed

definition demo_child :: "unit decorated" where
  "demo_child = \<lparr>dc_running = (\<lambda>_. True), dc_tick = (\<lambda>_ k r. (RUNNING, k, r)), dc_halt = (\<lambda>_ k r. (k, r)),
     dc_base_halt = (\<lambda>_ k r. (k, r))\<rparr>"

theorem guard_watches_witness:
  "\<exists>g k r. guard_tick turn_world demo_config turn_ports demo_child turn_clocks False turn_guard () turn_runtime =
     (FAILURE, g, k, r) \<and> rt_permits r = [0] \<and> rt_recovery_active r"
proof -
  obtain st g k r where v: "guard_tick turn_world demo_config turn_ports demo_child turn_clocks False turn_guard () turn_runtime
      = (st, g, k, r)" by (metis surj_pair)
  have m: "\<not> motion_ended turn_runtime" "rt_permits turn_runtime = []"
    by (simp_all add: motion_ended_def turn_runtime_def on_ready_def runtime_init_def)
  have "st = FAILURE"
    using turn_check v m(1) by (auto simp: guard_tick_def guard_failure_def demo_child_def Let_def split: prod.split_asm)
  moreover from this have "rt_permits r = [0]" "rt_recovery_active r"
    using guard_watches [OF m(1) v] m(2) by (auto simp: demo_child_def)
  ultimately show ?thesis using v by blast
qed

theorem park_bounded_witness:
  "\<exists>k r. park_running demo_world demo_config \<lparr>pp_duration = None, pp_path = None, pp_goal = None, pp_goals = None\<rparr>
       turn_clocks \<lparr>pk_deadline = 1, pk_last_check = 0\<rparr> turn_runtime = (SUCCESS, k, r) \<and>
     rt_permits r = [0] \<and> rt_observe_replans_used r = 1"
proof -
  obtain st k r where v: "park_running demo_world demo_config
      \<lparr>pp_duration = None, pp_path = None, pp_goal = None, pp_goals = None\<rparr>
      turn_clocks \<lparr>pk_deadline = 1, pk_last_check = 0\<rparr> turn_runtime = (st, k, r)" by (metis surj_pair)
  have "st = SUCCESS" "rt_permits r = [0]" "rt_observe_replans_used r = 1"
    using park_bounded [OF v]
    by (simp_all add: turn_clocks_def turn_runtime_def on_ready_def runtime_init_def demo_config_def default_config_def)
  with v show ?thesis by blast
qed


end
