(* ===== verification/Recovery_Supervisor.thy ===== *)
theory Recovery_Supervisor
  imports Progress_Guard
begin

text \<open>
  The root of the recovery tree, \<open>RecoverySupervisor\<close> of \<open>nav012_nodes.cpp\<close>: child 0 plans and follows,
  child 1 recovers, and between them stands the barrier of \<open>stop_then\<close> and \<open>finish_stop\<close>. The tree's
  library is not part of the repository: \<open>executeTick\<close> of a child and \<open>haltChildren\<close> are the record
  \<open>children\<close>, over the state \<open>'k\<close> of the children. A tick is a chain of stages; a stage ends the tick
  with \<open>Inl\<close> or passes the state on with \<open>Inr\<close>.
\<close>

subsection \<open>State and stages\<close>

record supervisor =
  sv_initialized :: bool
  sv_switching :: bool
  sv_replan_tried :: bool
  sv_starting :: bool
  sv_input_waiting :: bool
  sv_active :: nat
  sv_next :: nat
  sv_cancel_deadline :: time_ns
  sv_settle_started :: time_ns
  sv_uuid_wait :: time_ns
  sv_input_wait_started :: time_ns
  sv_input_healthy_since :: time_ns
  sv_perception_wait_started :: time_ns
  sv_uuid :: string
  sv_starting_uuid :: string
  sv_goal :: pose_stamped
  sv_goals :: "pose_stamped list"

definition supervisor_init :: supervisor where
  "supervisor_init = \<lparr>sv_initialized = False, sv_switching = False, sv_replan_tried = False,
     sv_starting = False, sv_input_waiting = False, sv_active = 0, sv_next = 0, sv_cancel_deadline = 0,
     sv_settle_started = 0, sv_uuid_wait = 0, sv_input_wait_started = 0, sv_input_healthy_since = 0,
     sv_perception_wait_started = 0, sv_uuid = [], sv_starting_uuid = [], sv_goal = default_stamped,
     sv_goals = []\<rparr>"

record 'k children =
  ch_tick :: "nat \<Rightarrow> clocks \<Rightarrow> 'k \<Rightarrow> runtime \<Rightarrow> node_status \<times> 'k \<times> runtime"
  ch_halt :: "clocks \<Rightarrow> 'k \<Rightarrow> runtime \<Rightarrow> 'k \<times> runtime"

text \<open>What a tick finds: ports, the ports' goals after the child ran, and which cancel requests the
  action library refuses.\<close>

record supervisor_ports =
  sp_through :: bool
  sp_goal :: "pose_stamped option"
  sp_goals :: "pose_stamped list option"
  sp_goals_after :: "pose_stamped list option"
  sp_cancel_throws :: "nat \<Rightarrow> bool"

type_synonym 'k tree = "supervisor \<times> 'k \<times> runtime"
type_synonym 'k stage = "(node_status \<times> 'k tree) + 'k tree"

definition and_then :: "'k stage \<Rightarrow> ('k tree \<Rightarrow> 'k stage) \<Rightarrow> 'k stage" where
  "and_then x f = (case x of Inl done \<Rightarrow> Inl done | Inr tree \<Rightarrow> f tree)"

definition cancel_motion :: "(nat \<Rightarrow> bool) \<Rightarrow> clocks \<Rightarrow> runtime \<Rightarrow> runtime" where
  "cancel_motion throws t r = (case rt_motion r of
       None \<Rightarrow> r
     | Some sid \<Rightarrow> with_session sid (cancel throws (ck_steady t)) r)"

definition poll_session :: "recovery_config \<Rightarrow> (nat \<Rightarrow> bool) \<Rightarrow> clocks \<Rightarrow> nat \<Rightarrow> runtime \<Rightarrow> runtime" where
  "poll_session c throws t sid r = with_session sid (poll (session_limits c) throws (ck_steady t)) r"

definition poll_motion :: "recovery_config \<Rightarrow> (nat \<Rightarrow> bool) \<Rightarrow> clocks \<Rightarrow> runtime \<Rightarrow> runtime" where
  "poll_motion c throws t r = (case rt_motion r of None \<Rightarrow> r | Some sid \<Rightarrow> poll_session c throws t sid r)"

definition poll_retiring :: "recovery_config \<Rightarrow> (nat \<Rightarrow> bool) \<Rightarrow> clocks \<Rightarrow> runtime \<Rightarrow> runtime" where
  "poll_retiring c throws t r =
     (let r = foldl (\<lambda>r sid. poll_session c throws t sid r) r (rt_retiring r)
      in r\<lparr>rt_retiring := filter (\<lambda>sid. \<not> as_terminal (session_status sid r)) (rt_retiring r)\<rparr>)"

subsection \<open>Stopping\<close>

definition sup_fail ::
  "'k children \<Rightarrow> supervisor_ports \<Rightarrow> clocks \<Rightarrow> string \<Rightarrow> 'k tree \<Rightarrow> node_status \<times> 'k tree" where
  "sup_fail d p t reason = (\<lambda>(s, k, r).
     let (k, r) = ch_halt d t k (rt_fail reason (ck_steady t) r)
     in (FAILURE, s, k, cancel_motion (sp_cancel_throws p) t r))"

definition stop_then ::
  "'k children \<Rightarrow> recovery_config \<Rightarrow> supervisor_ports \<Rightarrow> clocks \<Rightarrow> nat \<Rightarrow> 'k tree \<Rightarrow> 'k tree" where
  "stop_then d c p t next = (\<lambda>(s, k, r).
     let (k, r) = ch_halt d t k (rt_permit False r);
         r = (if motion_busy r then cancel_motion (sp_cancel_throws p) t r else r);
         s = s\<lparr>sv_next := next\<rparr>;
         s = (if sv_switching s then s else s\<lparr>sv_switching := True,
           sv_cancel_deadline := after (ck_steady t) (rc_cancel_timeout c), sv_settle_started := 0\<rparr>)
     in (s, k, r))"

definition finish_stop ::
  "'k children \<Rightarrow> recovery_config \<Rightarrow> supervisor_ports \<Rightarrow> clocks \<Rightarrow> 'k tree \<Rightarrow> 'k stage" where
  "finish_stop d c p t = (\<lambda>(s, k, r).
     let r = rt_permit False r; now = ck_steady t in
     if motion_busy r
     then let r = poll_motion c (sp_cancel_throws p) t r
       in if sv_cancel_deadline s \<le> now then Inl (sup_fail d p t ''CANCEL_UNCONFIRMED'' (s, k, r))
          else Inl (RUNNING, s, k, r)
     else if sv_input_waiting s \<and> \<not> odom_fresh c t r
     then Inl (RUNNING, s\<lparr>sv_settle_started := 0\<rparr>, k, diagnostic ''INPUT_WAIT'' ''ODOM_EXPIRED'' now r)
     else let (s, r) = (if sv_settle_started s = 0
            then (s\<lparr>sv_settle_started := now\<rparr>, restart_stillness r) else (s, r))
       in if \<not> still c (rc_still_duration c) t r
          then if rc_settle_timeout c \<le> secs (now - sv_settle_started s)
            then Inl (sup_fail d p t ''STOP_NOT_CONFIRMED'' (s, k, r))
            else Inl (RUNNING, s, k, r)
          else Inr (s\<lparr>sv_switching := False, sv_active := sv_next s\<rparr>, k, r\<lparr>rt_motion := None\<rparr>))"

definition if_switching ::
  "'k children \<Rightarrow> recovery_config \<Rightarrow> supervisor_ports \<Rightarrow> clocks \<Rightarrow> 'k tree \<Rightarrow> 'k stage" where
  "if_switching d c p t = (\<lambda>(s, k, r).
     if sv_switching s then finish_stop d c p t (s, k, r) else Inr (s, k, r))"

subsection \<open>Starting a task\<close>

definition goal_port :: "supervisor_ports \<Rightarrow> pose_stamped" where
  "goal_port p = port (sp_goal p) default_stamped"

definition goals_port :: "supervisor_ports \<Rightarrow> pose_stamped list" where
  "goals_port p = port (sp_goals p) []"

definition adopt_uuid ::
  "'k children \<Rightarrow> recovery_config \<Rightarrow> supervisor_ports \<Rightarrow> clocks \<Rightarrow> string \<Rightarrow> 'k tree \<Rightarrow> 'k stage" where
  "adopt_uuid d c p t uuid = (\<lambda>(s, k, r).
     if sv_starting_uuid s \<noteq> [] then Inr (s, k, r)
     else if uuid = [] \<or> sv_uuid s \<noteq> [] \<and> uuid = sv_uuid s
     then let r = diagnostic ''TASK_START_PREPARING'' ''WAITING_NEW_UUID'' (ck_steady t) r
       in if Fin 2 < secs (ck_steady t - sv_uuid_wait s)
          then Inl (sup_fail d p t ''NAVIGATION_UUID_MISSING'' (s, k, r))
          else Inl (RUNNING, s, k, r)
     else let s = s\<lparr>sv_starting_uuid := uuid\<rparr>;
              r = r\<lparr>rt_previous_navigation_uuid := rt_navigation_uuid r, rt_navigation_uuid := uuid\<rparr>;
              r = diagnostic ''TASK_START_PREPARING'' ''STOPPING_PREVIOUS_TASK'' (ck_steady t) r
       in Inr (stop_then d c p t 0 (s, k, r)))"

definition enter_task ::
  "world \<Rightarrow> 'k children \<Rightarrow> recovery_config \<Rightarrow> supervisor_ports \<Rightarrow> clocks \<Rightarrow> 'k tree \<Rightarrow> node_status \<times> 'k tree" where
  "enter_task w d c p t = (\<lambda>(s, k, r).
     let (ready, r) = inputs_ready (w_m w) (w_tf w) c t r; now = ck_steady t in
     if \<not> sr_ok ready then (RUNNING, s, k, diagnostic ''TASK_START_BLOCKED'' (sr_code ready) now r)
     else if \<not> still c (rc_still_duration c) t r
     then (RUNNING, stop_then d c p t 0 (s, k, diagnostic ''TASK_START_PREPARING'' ''WAITING_STILLNESS'' now r))
     else (RUNNING, s\<lparr>sv_input_waiting := False, sv_input_wait_started := 0, sv_input_healthy_since := 0,
         sv_initialized := True, sv_goal := goal_port p, sv_goals := goals_port p,
         sv_uuid := sv_starting_uuid s, sv_replan_tried := False, sv_active := 0, sv_starting := False,
         sv_starting_uuid := [], sv_uuid_wait := 0\<rparr>, k, reset_for_new_task (sv_starting_uuid s) now r))"

definition start_task ::
  "world \<Rightarrow> 'k children \<Rightarrow> recovery_config \<Rightarrow> supervisor_ports \<Rightarrow> clocks \<Rightarrow> string \<Rightarrow> 'k tree \<Rightarrow> 'k stage" where
  "start_task w d c p t uuid = (\<lambda>(s, k, r).
     and_then (and_then (adopt_uuid d c p t uuid (s, k, rt_permit False r)) (if_switching d c p t))
       (\<lambda>x. Inl (enter_task w d c p t x)))"

subsection \<open>The stages of a tick\<close>

definition sup_enter :: "recovery_config \<Rightarrow> supervisor_ports \<Rightarrow> clocks \<Rightarrow> bool \<Rightarrow> 'k tree \<Rightarrow> 'k tree" where
  "sup_enter c p t idle = (\<lambda>(s, k, r).
     let r = poll_motion c (sp_cancel_throws p) t (poll_retiring c (sp_cancel_throws p) t (note_tick (ck_steady t) r))
     in (if idle then s\<lparr>sv_starting := True, sv_starting_uuid := [], sv_uuid_wait := ck_steady t\<rparr> else s, k, r))"

definition same_stamped :: "pose_stamped \<Rightarrow> pose_stamped \<Rightarrow> bool" where
  "same_stamped a b \<longleftrightarrow> ps_frame a = ps_frame b \<and> ps_stamp a = ps_stamp b \<and> same_pose (ps_pose a) (ps_pose b)"

definition same_goals :: "pose_stamped list \<Rightarrow> pose_stamped list \<Rightarrow> bool" where
  "same_goals a b \<longleftrightarrow> list_all2 same_stamped a b"

definition sup_goal ::
  "'k children \<Rightarrow> recovery_config \<Rightarrow> supervisor_ports \<Rightarrow> clocks \<Rightarrow> string \<Rightarrow> 'k tree \<Rightarrow> 'k stage" where
  "sup_goal d c p t uuid = (\<lambda>(s, k, r).
     if rt_fault r then Inl (sup_fail d p t (rt_fault_reason r) (s, k, r))
     else let r = (if uuid \<noteq> [] \<and> rt_navigation_uuid r \<noteq> uuid
            then let r = r\<lparr>rt_previous_navigation_uuid := rt_navigation_uuid r, rt_navigation_uuid := uuid\<rparr>
              in if rt_previous_navigation_uuid r \<noteq> []
                 then diagnostic ''STOPPING'' ''GOAL_REPLACED'' (ck_steady t) r else r
            else r);
          changed = (sv_initialized s \<and> (uuid \<noteq> [] \<and> sv_uuid s \<noteq> [] \<and> uuid \<noteq> sv_uuid s
            \<or> \<not> same_stamped (goal_port p) (sv_goal s) \<or> \<not> same_goals (goals_port p) (sv_goals s)))
       in if \<not> sv_initialized s \<or> changed
          then let s = s\<lparr>sv_initialized := True, sv_goal := goal_port p, sv_goals := goals_port p,
                   sv_uuid := (if uuid \<noteq> [] then uuid else sv_uuid s), sv_replan_tried := False\<rparr>
               in Inr (stop_then d c p t 0 (s, k, r\<lparr>rt_epoch := rt_epoch r + 1\<rparr>))
          else Inr (if sv_uuid s = [] \<and> uuid \<noteq> [] then s\<lparr>sv_uuid := uuid\<rparr> else s, k, r))"

definition sup_perception ::
  "'k children \<Rightarrow> recovery_config \<Rightarrow> supervisor_ports \<Rightarrow> clocks \<Rightarrow> 'k tree \<Rightarrow> 'k stage" where
  "sup_perception d c p t = (\<lambda>(s, k, r).
     let now = ck_steady t in
     if \<not> perception_ready c now r
     then let (s, k, r) = (if sv_perception_wait_started s = 0
            then stop_then d c p t 0 (s\<lparr>sv_perception_wait_started := now\<rparr>, k, r) else (s, k, r))
       in and_then (if_switching d c p t (s, k, rt_permit False r)) (\<lambda>(s, k, r).
            Inl (RUNNING, s, k, diagnostic ''PERCEPTION_WAIT'' ''WAITING_HEALTHY_DEPTH'' now r))
     else if sv_perception_wait_started s = 0 then Inr (s, k, r)
     else let paused = now - sv_perception_wait_started s;
              r = (if rt_recovery_active r then r\<lparr>rt_recovery_started := rt_recovery_started r + paused\<rparr> else r);
              s = (if sv_input_waiting s then s\<lparr>sv_input_wait_started := sv_input_wait_started s + paused\<rparr> else s);
              (s, k, r) = stop_then d c p t 0
                (s\<lparr>sv_perception_wait_started := 0\<rparr>, k, r\<lparr>rt_replan_required := True\<rparr>)
       in Inr (s, k, diagnostic ''PERCEPTION_RECOVERED'' ''REPLAN_WITH_FRESH_AUTHORIZATION'' now r))"

definition sup_timeouts ::
  "'k children \<Rightarrow> recovery_config \<Rightarrow> supervisor_ports \<Rightarrow> clocks \<Rightarrow> 'k tree \<Rightarrow> 'k stage" where
  "sup_timeouts d c p t = (\<lambda>(s, k, r).
     if rt_recovery_active r \<and> rc_recovery_timeout c \<le> secs (ck_steady t - rt_recovery_started r)
     then Inl (sup_fail d p t ''RECOVERY_TOTAL_TIMEOUT'' (s, k, r))
     else if sv_input_waiting s \<and> rc_input_wait_timeout c \<le> secs (ck_steady t - sv_input_wait_started s)
     then Inl (sup_fail d p t ''INPUT_WAIT_TIMEOUT'' (s, k, r))
     else Inr (s, k, r))"

text \<open>Readiness; the answer goes on with the state.\<close>

definition sup_recovered :: "recovery_config \<Rightarrow> clocks \<Rightarrow> 'k tree \<Rightarrow> 'k stage" where
  "sup_recovered c t = (\<lambda>(s, k, r).
     let now = ck_steady t;
         s = (if sv_input_healthy_since s = 0 then s\<lparr>sv_input_healthy_since := now\<rparr> else s)
     in if secs (now - sv_input_healthy_since s) < rc_input_healthy_duration c
        then Inl (RUNNING, s, k, diagnostic ''INPUT_WAIT'' ''HEALTHY_STABILIZING'' now r)
        else Inr (s\<lparr>sv_input_waiting := False\<rparr>, k,
          diagnostic ''INPUT_RECOVERED'' ''REPLAN_AFTER_INPUT_WAIT'' now (r\<lparr>rt_replan_required := True\<rparr>)))"

definition sup_inputs ::
  "'k children \<Rightarrow> recovery_config \<Rightarrow> supervisor_ports \<Rightarrow> clocks \<Rightarrow> safety_result \<Rightarrow> 'k tree \<Rightarrow> 'k stage" where
  "sup_inputs d c p t ready = (\<lambda>(s, k, r).
     let now = ck_steady t in
     if \<not> sr_ok ready \<and> sr_code ready \<noteq> ''LOCALIZATION_UNHEALTHY''
     then let s = (if sv_input_waiting s then s else s\<lparr>sv_input_waiting := True, sv_input_wait_started := now\<rparr>);
              (s, k, r) = stop_then d c p t 0 (s\<lparr>sv_input_healthy_since := 0\<rparr>, k, begin_recovery now r)
       in Inl (RUNNING, s, k, diagnostic ''INPUT_WAIT'' (sr_code ready) now r)
     else and_then
       (if \<not> sv_input_waiting s then Inr (s, k, r)
        else let r = rt_permit False r in
          if \<not> sr_ok ready
          then let (s, k, r) = stop_then d c p t 1 (s\<lparr>sv_input_healthy_since := 0\<rparr>, k, r)
            in Inl (RUNNING, s\<lparr>sv_input_waiting := False\<rparr>, k, diagnostic ''LOCALIZATION_WAIT'' (sr_code ready) now r)
          else sup_recovered c t (s, k, r))
       (\<lambda>(s, k, r). if \<not> sr_ok ready \<and> sv_active s = 0
          then let (s, k, r) = stop_then d c p t 1 (s, k, r)
            in Inl (RUNNING, s, k, diagnostic ''LOCALIZATION_WAIT'' (sr_code ready) now (begin_recovery now r))
          else Inr (s, k, r)))"

definition sup_uuid_wait ::
  "'k children \<Rightarrow> supervisor_ports \<Rightarrow> clocks \<Rightarrow> string \<Rightarrow> 'k tree \<Rightarrow> 'k stage" where
  "sup_uuid_wait d p t uuid = (\<lambda>(s, k, r).
     if \<not> (uuid = [] \<and> sv_active s = 0) then Inr (s, k, r)
     else let r = rt_permit False r;
              s = (if sv_uuid_wait s = 0 then s\<lparr>sv_uuid_wait := ck_steady t\<rparr> else s)
       in if Fin 2 < secs (ck_steady t - sv_uuid_wait s)
          then Inl (sup_fail d p t ''NAVIGATION_UUID_MISSING'' (s, k, r))
          else Inl (RUNNING, s, k, r))"

text \<open>Goals the child removed from the front are not a new task.\<close>

definition passed_goals :: "supervisor_ports \<Rightarrow> supervisor \<Rightarrow> supervisor" where
  "passed_goals p s = (if \<not> sp_through p then s else case sp_goals_after p of
       None \<Rightarrow> s
     | Some remaining \<Rightarrow>
         if remaining \<noteq> [] \<and> length remaining < length (sv_goals s)
           \<and> same_goals remaining (drop (length (sv_goals s) - length remaining) (sv_goals s))
         then s\<lparr>sv_goals := remaining\<rparr> else s)"

definition motion_allowed :: "safety_result \<Rightarrow> runtime \<Rightarrow> bool" where
  "motion_allowed ready r = (case rt_motion r of
       None \<Rightarrow> False
     | Some sid \<Rightarrow> let st = session_status sid r in sr_ok ready \<and> as_accepted st \<and> \<not> as_terminal st
         \<and> \<not> as_cancel_requested st \<and> \<not> as_timed_out st)"

text \<open>After the child's tick: the permit, and where the tree goes from here.\<close>

definition sup_permit ::
  "'k children \<Rightarrow> recovery_config \<Rightarrow> supervisor_ports \<Rightarrow> clocks \<Rightarrow> safety_result \<Rightarrow> 'k tree \<Rightarrow> 'k tree" where
  "sup_permit d c p t ready = (\<lambda>(s, k, r).
     let allow = motion_allowed ready r;
         (s, k, r) = (if \<not> sr_ok ready \<and> motion_busy r
           then stop_then d c p t 1 (s, k, cancel_motion (sp_cancel_throws p) t (rt_permit False r)) else (s, k, r))
     in (s, k, diagnostic (if sv_active s = 0 then ''NAVIGATING'' else ''RECOVERING'') (sr_code ready) (ck_steady t)
          (rt_permit (allow \<and> \<not> sv_switching s) r)))"

definition sup_leave ::
  "'k children \<Rightarrow> recovery_config \<Rightarrow> supervisor_ports \<Rightarrow> clocks \<Rightarrow> node_status \<Rightarrow> 'k tree \<Rightarrow> node_status \<times> 'k tree" where
  "sup_leave d c p t child = (\<lambda>(s, k, r).
     if rt_fault r then sup_fail d p t (rt_fault_reason r) (s, k, r)
     else if sv_switching s \<or> child = RUNNING then (RUNNING, s, k, r)
     else let r = rt_permit False r in
       if child = SUCCESS \<and> sv_active s = 0
       then let (k, r) = ch_halt d t k r in (SUCCESS, s\<lparr>sv_initialized := False\<rparr>, k, r)
       else if child = FAILURE \<and> sv_active s = 1 then sup_fail d p t ''RECOVERY_EXHAUSTED'' (s, k, r)
       else (RUNNING,
         if sv_active s = 0
         then let r = begin_recovery (ck_steady t) r in
           if \<not> sv_replan_tried s then stop_then d c p t 0 (s\<lparr>sv_replan_tried := True\<rparr>, k, r)
           else stop_then d c p t 1 (s, k, r)
         else stop_then d c p t 0 (s, k, r\<lparr>rt_replan_required := True\<rparr>)))"

definition sup_child ::
  "'k children \<Rightarrow> recovery_config \<Rightarrow> supervisor_ports \<Rightarrow> clocks \<Rightarrow> safety_result \<Rightarrow> 'k tree \<Rightarrow> node_status \<times> 'k tree" where
  "sup_child d c p t ready = (\<lambda>(s, k, r).
     let (child, k, r) = ch_tick d (sv_active s) t k r
     in sup_leave d c p t child (sup_permit d c p t ready (passed_goals p s, k, r)))"

definition sup_ready ::
  "world \<Rightarrow> 'k children \<Rightarrow> recovery_config \<Rightarrow> supervisor_ports \<Rightarrow> clocks \<Rightarrow> string \<Rightarrow> 'k tree \<Rightarrow> 'k stage" where
  "sup_ready w d c p t uuid = (\<lambda>(s, k, r).
     let (ready, r) = inputs_ready (w_m w) (w_tf w) c t r in
     and_then (sup_inputs d c p t ready (s, k, r)) (\<lambda>x.
     and_then (sup_uuid_wait d p t uuid x) (\<lambda>x. Inl (sup_child d c p t ready x))))"

definition sup_run ::
  "world \<Rightarrow> 'k children \<Rightarrow> recovery_config \<Rightarrow> supervisor_ports \<Rightarrow> clocks \<Rightarrow> string \<Rightarrow> 'k tree \<Rightarrow> 'k stage" where
  "sup_run w d c p t uuid x =
     and_then (sup_goal d c p t uuid x) (\<lambda>x.
     and_then (sup_perception d c p t x) (\<lambda>x.
     and_then (sup_timeouts d c p t x) (\<lambda>x.
     and_then (if_switching d c p t x) (sup_ready w d c p t uuid))))"

definition sup_stages ::
  "world \<Rightarrow> 'k children \<Rightarrow> recovery_config \<Rightarrow> supervisor_ports \<Rightarrow> clocks \<Rightarrow> bool \<Rightarrow> 'k tree \<Rightarrow> 'k stage" where
  "sup_stages w d c p t idle x =
     (let (s, k, r) = sup_enter c p t idle x; uuid = goal_uuid (sp_through p) r
      in if sv_starting s then start_task w d c p t uuid (s, k, r) else sup_run w d c p t uuid (s, k, r))"

text \<open>Every chain of stages ends the tick.\<close>

definition sup_tick ::
  "world \<Rightarrow> 'k children \<Rightarrow> recovery_config \<Rightarrow> supervisor_ports \<Rightarrow> clocks \<Rightarrow> bool \<Rightarrow> 'k tree \<Rightarrow> node_status \<times> 'k tree" where
  "sup_tick w d c p t idle x = (case sup_stages w d c p t idle x of Inl done \<Rightarrow> done | Inr x \<Rightarrow> (RUNNING, x))"

definition sup_halt ::
  "'k children \<Rightarrow> supervisor_ports \<Rightarrow> clocks \<Rightarrow> 'k tree \<Rightarrow> 'k tree" where
  "sup_halt d p t = (\<lambda>(s, k, r).
     let (k, r) = ch_halt d t k (rt_permit False (note_tick (ck_steady t) r));
         r = (if motion_busy r then cancel_motion (sp_cancel_throws p) t r else r);
         (k, r) = ch_halt d t k r
     in (s\<lparr>sv_initialized := False, sv_switching := False, sv_starting := False, sv_starting_uuid := [],
       sv_input_waiting := False, sv_input_wait_started := 0, sv_input_healthy_since := 0,
       sv_perception_wait_started := 0, sv_uuid_wait := 0\<rparr>, k, r))"

subsection \<open>Quiet children\<close>

text \<open>What the supervisor relies on: a child never opens the permit.\<close>

locale quiet_children =
  fixes d :: "'k children"
  assumes tick: "ch_tick d i t k r = (st, k', r') \<Longrightarrow> withdraws r r'"
    and halt: "ch_halt d t k r = (k', r') \<Longrightarrow> withdraws r r'"

text \<open>Besides, at least one permit of zero was published.\<close>

definition closes :: "runtime \<Rightarrow> runtime \<Rightarrow> bool" where
  "closes r r' \<longleftrightarrow> withdraws r r' \<and> length (rt_permits r) < length (rt_permits r')"

named_theorems quiet

lemma withdraws_refl [simp]: "withdraws r r"
  by (rule withdraws_same) simp

lemma withdraws_length: "withdraws r r' \<Longrightarrow> length (rt_permits r) \<le> length (rt_permits r')"
  unfolding withdraws_def by (elim conjE exE) simp

lemma closes_withdraws: "closes r r' \<Longrightarrow> withdraws r r'"
  by (simp add: closes_def)

lemma closes_view2: "rt_view a = rt_view b \<Longrightarrow> closes r a = closes r b"
  using withdraws_view2 [of a b r] view_permits [of a b] by (simp add: closes_def)

lemma withdraws_then: "withdraws r a \<Longrightarrow> withdraws a b \<Longrightarrow> withdraws r b"
  by (rule withdraws_trans)

lemma closes_then: "closes r a \<Longrightarrow> withdraws a b \<Longrightarrow> closes r b"
  using withdraws_trans [of r a b] withdraws_length [of a b] by (simp add: closes_def)

lemma then_closes: "withdraws r a \<Longrightarrow> closes a b \<Longrightarrow> closes r b"
  using withdraws_trans [of r a b] withdraws_length [of r a] by (simp add: closes_def)

lemma permit_closes: "closes r (rt_permit False r)"
  using withdraws_permit [of r] by (simp add: closes_def) (simp add: rt_permit_def)

lemma fail_closes: "closes r (rt_fail reason now r)"
  using view_permits [OF view_kept(1)] by (simp add: closes_def withdraws_fail) (simp add: rt_fail_def rt_permit_def)

lemma closes_intros [quiet]:
  "withdraws r a \<Longrightarrow> withdraws r (rt_permit False a)"
  "withdraws r a \<Longrightarrow> withdraws r (rt_fail reason now a)"
  "withdraws r a \<Longrightarrow> closes r (rt_permit False a)"
  "withdraws r a \<Longrightarrow> closes r (rt_fail reason now a)"
  by (blast intro: withdraws_trans withdraws_permit withdraws_fail then_closes permit_closes fail_closes)+

lemma view_motion [simp]:
  "rt_view (cancel_motion throws t r) = rt_view r"
  "rt_view (poll_session c throws t sid r) = rt_view r"
  "rt_view (poll_motion c throws t r) = rt_view r"
  "rt_view (poll_retiring c throws t r) = rt_view r"
proof -
  show 1: "rt_view (poll_session c throws t sid r) = rt_view r" for sid r by (simp add: poll_session_def)
  show "rt_view (cancel_motion throws t r) = rt_view r" by (simp add: cancel_motion_def split: option.split)
  show "rt_view (poll_motion c throws t r) = rt_view r" by (simp add: poll_motion_def 1 split: option.split)
  have "rt_view (foldl (\<lambda>r sid. poll_session c throws t sid r) r xs) = rt_view r" for xs
    by (induction xs arbitrary: r) (simp_all add: 1)
  then show "rt_view (poll_retiring c throws t r) = rt_view r"
    by (simp add: poll_retiring_def Let_def rt_view_def rt_inputs_def)
qed

text \<open>An update of the context that leaves the view is dropped.\<close>

lemmas view_drop [simp] =
  withdraws_view2 [OF view_kept(1)] closes_view2 [OF view_kept(1)]
  withdraws_view2 [OF view_kept(5)] closes_view2 [OF view_kept(5)]
  withdraws_view2 [OF view_kept(6)] closes_view2 [OF view_kept(6)]
  withdraws_view2 [OF view_kept(13)] closes_view2 [OF view_kept(13)]
  withdraws_view2 [OF view_kept(14)] closes_view2 [OF view_kept(14)]
  withdraws_view2 [OF view_motion(1)] closes_view2 [OF view_motion(1)]
  withdraws_view2 [OF view_motion(3)] closes_view2 [OF view_motion(3)]
  withdraws_view2 [OF view_motion(4)] closes_view2 [OF view_motion(4)]

lemma view_task [simp]:
  "rt_view (r\<lparr>rt_recovery_started := now\<rparr>) = rt_view r"
  "rt_view (r\<lparr>rt_epoch := n\<rparr>) = rt_view r"
  "rt_view (r\<lparr>rt_navigation_uuid := u\<rparr>) = rt_view r"
  "rt_view (r\<lparr>rt_previous_navigation_uuid := v, rt_navigation_uuid := u\<rparr>) = rt_view r"
  by (simp_all add: rt_view_def rt_inputs_def)

lemmas view_drop2 [simp] =
  withdraws_view2 [OF view_fields(1)] closes_view2 [OF view_fields(1)]
  withdraws_view2 [OF view_fields(4)] closes_view2 [OF view_fields(4)]
  withdraws_view2 [OF view_task(1)] closes_view2 [OF view_task(1)]
  withdraws_view2 [OF view_task(2)] closes_view2 [OF view_task(2)]
  withdraws_view2 [OF view_task(4)] closes_view2 [OF view_task(4)]

abbreviation ctx :: "'k tree \<Rightarrow> runtime" where
  "ctx x \<equiv> snd (snd x)"

text \<open>A stage that ends the tick has closed the permit; one that goes on has not opened it.\<close>

definition ends :: "runtime \<Rightarrow> 'k stage \<Rightarrow> bool" where
  "ends r x \<longleftrightarrow> (case x of Inl (st, y) \<Rightarrow> closes r (ctx y) | Inr y \<Rightarrow> withdraws r (ctx y))"

lemma ends_simps [simp]:
  "ends r (Inl (st, y)) = closes r (ctx y)"
  "ends r (Inr y) = withdraws r (ctx y)"
  by (simp_all add: ends_def)

lemma ends_Inl: "ends r (Inl v) = closes r (ctx (snd v))"
  by (cases v) simp

lemma and_then_ends:
  assumes "ends r x" "\<And>y. x = Inr y \<Longrightarrow> withdraws r (ctx y) \<Longrightarrow> ends r (f y)"
  shows "ends r (and_then x f)"
  using assms by (cases x) (auto simp: and_then_def)

lemma still_diagnostic [simp]: "still c u t (diagnostic phase reason now r) = still c u t r"
  by (simp add: still_def odom_fresh_def diagnostic_def Let_def split: option.split)

lemma uuid_diagnostic [simp]: "rt_navigation_uuid (diagnostic phase reason now r) = rt_navigation_uuid r"
  by (simp add: diagnostic_def Let_def)

lemma task_diagnostic [simp]:
  "rt_backup_used (diagnostic phase reason now r) = rt_backup_used r"
  "rt_spin_used (diagnostic phase reason now r) = rt_spin_used r"
  "rt_recovery_active (diagnostic phase reason now r) = rt_recovery_active r"
  by (simp_all add: diagnostic_def Let_def)

lemma reset_for_new_task_fields:
  "still c u t (reset_for_new_task uuid now r) = still c u t r"
  "rt_navigation_uuid (reset_for_new_task uuid now r) = uuid"
  "rt_permits (reset_for_new_task uuid now r) = rt_permits r @ [0]"
  "rt_backup_used (reset_for_new_task uuid now r) = Fin 0" "\<not> rt_spin_used (reset_for_new_task uuid now r)"
  "\<not> rt_recovery_active (reset_for_new_task uuid now r)"
  by (simp_all add: reset_for_new_task_def Let_def)
    (simp_all add: still_def odom_fresh_def rt_permit_def split: option.split)

lemma inputs_ready_inputs:
  assumes "rt_inputs a = rt_inputs b"
  shows "fst (inputs_ready m tf c t a) = fst (inputs_ready m tf c t b)"
proof -
  have e: "rt_perception a = rt_perception b" "rt_ready a = rt_ready b" "rt_odom a = rt_odom b"
    "rt_odom_received a = rt_odom_received b" "rt_sensors a = rt_sensors b"
    using assms by (simp_all add: rt_inputs_def)
  show ?thesis
    unfolding inputs_ready_def perception_ready_def healthy_def e Let_def input_failure_def sensor_failure_def
    by (cases "sn_scan (rt_sensors b)"; cases "sn_costmap (rt_sensors b)"; cases "sn_footprint (rt_sensors b)")
      (simp_all only: if_distrib [of fst] option.case prod.case fst_conv)
qed

lemma diagnostic_fields [simp]:
  "rt_action_sequence (diagnostic phase reason now r) = rt_action_sequence r"
  "rt_motion (diagnostic phase reason now r) = rt_motion r"
  "rt_sessions (diagnostic phase reason now r) = rt_sessions r"
  "rt_fault (diagnostic phase reason now r) = rt_fault r"
  by (simp_all add: diagnostic_def Let_def)

lemma permit_fields [simp]:
  "rt_action_sequence (rt_permit allowed r) = rt_action_sequence r"
  "rt_motion (rt_permit allowed r) = rt_motion r"
  "rt_sessions (rt_permit allowed r) = rt_sessions r"
  "rt_fault (rt_permit allowed r) = rt_fault r"
  by (simp_all add: rt_permit_def)

lemma motion_allowed_cong:
  "rt_motion a = rt_motion b \<Longrightarrow> rt_sessions a = rt_sessions b \<Longrightarrow> motion_allowed x a = motion_allowed x b"
  by (simp add: motion_allowed_def session_status_def split: option.split)

context quiet_children begin

lemma child_intros [quiet]:
  "withdraws r a \<Longrightarrow> withdraws r (snd (ch_halt d t k a))"
  "closes r a \<Longrightarrow> closes r (snd (ch_halt d t k a))"
  "withdraws r a \<Longrightarrow> withdraws r (snd (snd (ch_tick d i t k a)))"
proof -
  have h: "withdraws a (snd (ch_halt d t k a))" for a by (rule halt) (rule prod.collapse [symmetric])
  have "withdraws a (snd (snd (ch_tick d i t k a)))" for a
    using tick [of i t k a] by (metis prod.collapse)
  with h show "withdraws r a \<Longrightarrow> withdraws r (snd (ch_halt d t k a))"
    "closes r a \<Longrightarrow> closes r (snd (ch_halt d t k a))"
    "withdraws r a \<Longrightarrow> withdraws r (snd (snd (ch_tick d i t k a)))"
    by (blast intro: withdraws_trans closes_then)+
qed

lemma sup_fail_closes [quiet]: "withdraws r (ctx x) \<Longrightarrow> closes r (ctx (snd (sup_fail d p t reason x)))"
  by (auto simp: sup_fail_def case_prod_beta Let_def intro!: quiet)

lemma stop_then_closes [quiet]: "withdraws r (ctx x) \<Longrightarrow> closes r (ctx (stop_then d c p t n x))"
  by (auto simp: stop_then_def case_prod_beta Let_def intro!: quiet)

lemma stop_then_withdraws [quiet]: "withdraws r (ctx x) \<Longrightarrow> withdraws r (ctx (stop_then d c p t n x))"
  using stop_then_closes closes_withdraws by blast

lemma finish_stop_ends [quiet]: "withdraws r (ctx x) \<Longrightarrow> ends r (finish_stop d c p t x)"
  by (auto simp: finish_stop_def case_prod_beta Let_def ends_Inl intro!: quiet)

lemma if_switching_ends [quiet]: "withdraws r (ctx x) \<Longrightarrow> ends r (if_switching d c p t x)"
  using finish_stop_ends by (auto simp: if_switching_def split: prod.split)

lemma if_switching_Inr:
  "if_switching d c p t x = Inr y \<Longrightarrow> closes r (ctx x) \<Longrightarrow> closes r (ctx y)"
  using closes_withdraws
  by (auto simp: if_switching_def finish_stop_def case_prod_beta Let_def intro!: quiet split: if_split_asm)

lemma sup_goal_ends [quiet]: "withdraws r (ctx x) \<Longrightarrow> ends r (sup_goal d c p t uuid x)"
  by (auto simp: sup_goal_def case_prod_beta Let_def ends_Inl intro!: quiet)

lemma sup_perception_ends [quiet]:
  assumes "withdraws r (ctx x)"
  shows "ends r (sup_perception d c p t x)"
proof -
  have w: "ends r (and_then (if_switching d c p t (s, k, rt_permit False a)) (\<lambda>(s, k, r).
      Inl (RUNNING, s, k, diagnostic ''PERCEPTION_WAIT'' ''WAITING_HEALTHY_DEPTH'' now r)))"
    if a: "withdraws r a" for s k a now
  proof (rule and_then_ends)
    show "ends r (if_switching d c p t (s, k, rt_permit False a))" using a by (intro quiet) (simp add: closes_intros)
    fix y assume y: "if_switching d c p t (s, k, rt_permit False a) = Inr y"
    then have "closes r (ctx y)" using if_switching_Inr [OF y] a by (auto intro: quiet)
    then show "ends r (case y of (s, k, r) \<Rightarrow> Inl (RUNNING, s, k, diagnostic ''PERCEPTION_WAIT'' ''WAITING_HEALTHY_DEPTH'' now r))"
      by (simp add: case_prod_beta)
  qed
  then show ?thesis using assms
    by (auto simp: sup_perception_def case_prod_beta Let_def ends_Inl intro!: quiet w)
qed

lemma sup_timeouts_ends [quiet]: "withdraws r (ctx x) \<Longrightarrow> ends r (sup_timeouts d c p t x)"
  by (auto simp: sup_timeouts_def case_prod_beta Let_def ends_Inl intro!: quiet)

lemma sup_recovered_ends: "closes r (ctx x) \<Longrightarrow> ends r (sup_recovered c t x)"
  using closes_withdraws by (auto simp: sup_recovered_def case_prod_beta Let_def ends_Inl intro!: quiet)

lemma sup_inputs_ends [quiet]:
  assumes "withdraws r (ctx x)"
  shows "ends r (sup_inputs d c p t ready x)"
proof -
  obtain s k a where x: "x = (s, k, a)" by (cases x)
  have a: "withdraws r a" using assms by (simp add: x)
  show ?thesis
  proof (cases "\<not> sr_ok ready \<and> sr_code ready \<noteq> ''LOCALIZATION_UNHEALTHY''")
    case True
    then show ?thesis using a by (auto simp: sup_inputs_def x case_prod_beta Let_def ends_Inl intro!: quiet)
  next
    case False
    then show ?thesis using a unfolding sup_inputs_def x
      by (auto simp: case_prod_beta Let_def ends_Inl intro!: and_then_ends sup_recovered_ends quiet)
  qed
qed

lemma sup_uuid_wait_ends [quiet]: "withdraws r (ctx x) \<Longrightarrow> ends r (sup_uuid_wait d p t uuid x)"
  by (auto simp: sup_uuid_wait_def case_prod_beta Let_def ends_Inl intro!: quiet)

lemma adopt_uuid_ends: "closes r (ctx x) \<Longrightarrow> ends r (adopt_uuid d c p t uuid x)"
  using closes_withdraws by (auto simp: adopt_uuid_def case_prod_beta Let_def ends_Inl intro!: quiet)

lemma adopt_uuid_Inr: "adopt_uuid d c p t uuid x = Inr y \<Longrightarrow> closes r (ctx x) \<Longrightarrow> closes r (ctx y)"
  using closes_withdraws
  by (auto simp: adopt_uuid_def case_prod_beta Let_def intro!: quiet split: if_split_asm)

text \<open>Which task is being started: the one already adopted, or the goal's if it is another than the last.\<close>

definition names_task :: "bool \<Rightarrow> string \<Rightarrow> supervisor \<Rightarrow> string \<Rightarrow> bool" where
  "names_task idle u s v \<longleftrightarrow> (if \<not> idle \<and> sv_starting_uuid s \<noteq> [] then v = sv_starting_uuid s
     else v = u \<and> u \<noteq> [] \<and> u \<noteq> sv_uuid s)"

lemma stop_then_starting: "sv_starting_uuid (fst (stop_then d c p t n x)) = sv_starting_uuid (fst x)"
  by (simp add: stop_then_def case_prod_beta Let_def)

lemma if_switching_starting: "if_switching d c p t x = Inr y \<Longrightarrow> sv_starting_uuid (fst y) = sv_starting_uuid (fst x)"
  by (auto simp: if_switching_def finish_stop_def case_prod_beta Let_def split: if_split_asm)

lemma adopt_uuid_names:
  "adopt_uuid d c p t uuid x = Inr y \<Longrightarrow> names_task False uuid (fst x) (sv_starting_uuid (fst y))"
  by (auto simp: adopt_uuid_def names_task_def case_prod_beta stop_then_starting Let_def split: if_split_asm)

lemma goal_uuid_motion [simp]:
  "goal_uuid b (note_tick n r) = goal_uuid b r" "goal_uuid b (poll_motion c throws t r) = goal_uuid b r"
  "goal_uuid b (poll_retiring c throws t r) = goal_uuid b r"
proof -
  have 1: "goal_uuid b (with_session sid f r) = goal_uuid b r" for sid f r by (simp add: goal_uuid_def with_session_def)
  have g: "goal_uuid b (r\<lparr>rt_retiring := x\<rparr>) = goal_uuid b r" for r x by (simp add: goal_uuid_def)
  have f: "goal_uuid b (foldl (\<lambda>r sid. poll_session c throws t sid r) r xs) = goal_uuid b r" for xs
    by (induction xs arbitrary: r) (simp_all add: poll_session_def 1)
  show "goal_uuid b (poll_retiring c throws t r) = goal_uuid b r" by (simp add: poll_retiring_def Let_def g f)
  show "goal_uuid b (note_tick n r) = goal_uuid b r" by (simp add: goal_uuid_def note_tick_def)
  show "goal_uuid b (poll_motion c throws t r) = goal_uuid b r" by (simp add: poll_motion_def poll_session_def 1 split: option.split)
qed

lemma enter_task_outcome:
  assumes "closes r (ctx x)" "enter_task w d c p t x = (st, s', k', r')"
  shows "closes r r' \<or>
    sr_ok (fst (inputs_ready (w_m w) (w_tf w) c t (ctx x))) \<and> still c (rc_still_duration c) t r' \<and>
    st = RUNNING \<and> rt_navigation_uuid r' = sv_uuid s' \<and> sv_uuid s' = sv_starting_uuid (fst x) \<and> \<not> sv_starting s' \<and>
    rt_backup_used r' = Fin 0 \<and> \<not> rt_spin_used r' \<and> \<not> rt_recovery_active r' \<and>
    rt_permits r' = rt_permits (ctx x) @ [0]"
proof -
  obtain s k a where x: "x = (s, k, a)" by (cases x)
  obtain ready b where i: "inputs_ready (w_m w) (w_tf w) c t a = (ready, b)" by (metis surj_pair)
  have b: "closes r b" using assms(1) closes_view2 [OF view_kept(14)] by (metis i snd_conv x)
  have pb: "rt_permits b = rt_permits a" using permits_kept(4) by (metis i snd_conv)
  show ?thesis
  proof (cases "sr_ok ready \<and> still c (rc_still_duration c) t b")
    case True
    then have "r' = reset_for_new_task (sv_starting_uuid s) (ck_steady t) b" "sv_uuid s' = sv_starting_uuid s" "st = RUNNING"
      "\<not> sv_starting s'"
      using assms(2) by (auto simp: enter_task_def x i Let_def)
    then show ?thesis using True by (simp add: x i pb reset_for_new_task_fields)
  next
    case False
    then have "closes r (ctx (snd (enter_task w d c p t x)))"
      using b closes_withdraws by (auto simp: enter_task_def x i Let_def intro!: quiet)
    then show ?thesis using assms(2) by simp
  qed
qed

lemma start_task_outcome:
  assumes "withdraws r (ctx x)"
  obtains v where "start_task w d c p t uuid x = Inl v" "closes r (ctx (snd v))"
  | v y where "start_task w d c p t uuid x = Inl v" "closes r (ctx y)" "v = enter_task w d c p t y"
    "names_task False uuid (fst x) (sv_starting_uuid (fst y))"
proof -
  obtain s k a where x: "x = (s, k, a)" by (cases x)
  have a: "closes r (ctx (s, k, rt_permit False a))" using assms by (auto simp: x intro: quiet)
  show thesis
  proof (cases "adopt_uuid d c p t uuid (s, k, rt_permit False a)")
    case (Inl v)
    then show thesis using adopt_uuid_ends [OF a, of c p t uuid]
      by (intro that(1)) (auto simp: start_task_def x and_then_def ends_Inl)
  next
    case ad: (Inr y)
    have y: "closes r (ctx y)" using adopt_uuid_Inr [OF ad a] .
    show thesis
    proof (cases "if_switching d c p t y")
      case (Inl v)
      then show thesis using if_switching_ends [OF closes_withdraws [OF y], of c p t]
        by (intro that(1)) (auto simp: start_task_def x ad and_then_def ends_Inl)
    next
      case (Inr z)
      then show thesis using if_switching_Inr [OF Inr y] adopt_uuid_names [OF ad] if_switching_starting [OF Inr]
        by (intro that(2) [of _ z]) (auto simp: start_task_def x ad and_then_def)
    qed
  qed
qed

lemma sup_permit_outcome:
  assumes "withdraws r (ctx x)" "sup_permit d c p t ready x = (s', k', r')"
  shows "closes r r' \<or> (\<exists>n q. rt_permits r' = rt_permits r @ replicate n 0 @ [q] \<and> q \<noteq> 0 \<and> q = rt_action_sequence r' \<and>
    sr_ok ready \<and> motion_allowed ready r' \<and> \<not> sv_switching s' \<and> \<not> rt_fault r' \<and> \<not> rt_fault r)"
proof -
  obtain s k a where x: "x = (s, k, a)" by (cases x)
  have a: "withdraws r a" using assms(1) by (simp add: x)
  define y where "y = (if \<not> sr_ok ready \<and> motion_busy a
    then stop_then d c p t 1 (s, k, cancel_motion (sp_cancel_throws p) t (rt_permit False a)) else (s, k, a))"
  obtain s1 k1 b where y1: "y = (s1, k1, b)" by (cases y)
  have "withdraws r (ctx y)" using a unfolding y_def by (auto intro!: quiet)
  then have b: "withdraws r b" by (simp add: y1)
  define allow where "allow = (motion_allowed ready a \<and> \<not> sv_switching s1)"
  have r': "s' = s1" "r' = diagnostic (if sv_active s1 = 0 then ''NAVIGATING'' else ''RECOVERING'') (sr_code ready)
      (ck_steady t) (rt_permit allow b)"
    using assms(2) by (auto simp: sup_permit_def x y_def [symmetric] y1 allow_def Let_def)
  show ?thesis
  proof (cases "allow \<and> \<not> rt_fault b \<and> rt_action_sequence b \<noteq> 0")
    case False
    then have "rt_permit allow b = rt_permit False b" by (auto simp: rt_permit_def)
    then show ?thesis using b by (auto simp: r' intro: quiet)
  next
    case True
    then have ok: "sr_ok ready" by (auto simp: allow_def motion_allowed_def Let_def split: option.split_asm)
    then have "b = a" "s1 = s" using y1 by (simp_all add: y_def)
    obtain n where n: "rt_permits a = rt_permits r @ replicate n 0" "rt_fault r \<longrightarrow> rt_fault a"
      using a unfolding withdraws_def by blast
    have "rt_permits r' = rt_permits r @ replicate n 0 @ [rt_action_sequence r']"
      "rt_action_sequence r' = rt_action_sequence b" "motion_allowed ready r' = motion_allowed ready a" "rt_fault r' = rt_fault b"
      using True n(1) \<open>b = a\<close>
      by (simp_all add: r' motion_allowed_cong [of "diagnostic u v n (rt_permit x a)" a for u v n x])
        (simp add: rt_permit_def)
    then show ?thesis using True ok \<open>b = a\<close> n(2) r'(1) unfolding allow_def by metis
  qed
qed

lemma sup_leave_outcome:
  assumes "sup_leave d c p t child x = (st, s', k', r')"
  shows "closes (ctx x) r' \<or> st = RUNNING \<and> x = (s', k', r')"
proof -
  obtain s k a where x: "x = (s, k, a)" by (cases x)
  show ?thesis
  proof (cases "\<not> rt_fault a \<and> (sv_switching s \<or> child = RUNNING)")
    case True
    then show ?thesis using assms by (auto simp: sup_leave_def x)
  next
    case False
    then have "closes (ctx x) (ctx (snd (sup_leave d c p t child x)))"
      by (auto simp: sup_leave_def x case_prod_beta Let_def intro!: quiet)
    then show ?thesis using assms by simp
  qed
qed

text \<open>What a tick may have published.\<close>

lemma sup_child_outcome:
  assumes "withdraws r (ctx x)" "sup_child d c p t ready x = (st, s', k', r')"
  shows "closes r r' \<or> sr_ok ready \<and> \<not> rt_fault r \<and> (\<exists>ps. rt_permits r' = rt_permits r @ ps \<and> ps \<noteq> [] \<and>
    (List.last ps \<noteq> 0 \<longrightarrow> st = RUNNING \<and> List.last ps = rt_action_sequence r' \<and> motion_allowed ready r' \<and>
      \<not> sv_switching s' \<and> \<not> rt_fault r'))"
proof -
  obtain s k a where x: "x = (s, k, a)" by (cases x)
  obtain child k1 a1 where ch: "ch_tick d (sv_active s) t k a = (child, k1, a1)" by (metis surj_pair)
  have a1: "withdraws r a1" using assms(1) tick [OF ch] by (auto simp: x intro: withdraws_trans)
  obtain s2 k2 a2 where y: "sup_permit d c p t ready (passed_goals p s, k1, a1) = (s2, k2, a2)" by (metis surj_pair)
  have l: "closes a2 r' \<or> st = RUNNING \<and> (s2, k2, a2) = (s', k', r')"
    using assms(2) sup_leave_outcome [of c p t child "(s2, k2, a2)"] by (simp add: sup_child_def x ch y)
  show ?thesis
  proof (cases "closes r a2")
    case True
    then show ?thesis using l by (auto intro: then_closes [OF closes_withdraws])
  next
    case False
    then obtain n q where q: "rt_permits a2 = rt_permits r @ replicate n 0 @ [q]" "q = rt_action_sequence a2"
      "sr_ok ready" "motion_allowed ready a2" "\<not> sv_switching s2" "\<not> rt_fault a2" "\<not> rt_fault r"
      using sup_permit_outcome [OF _ y, of r] a1 by auto
    show ?thesis
    proof (cases "st = RUNNING \<and> (s2, k2, a2) = (s', k', r')")
      case True
      then show ?thesis using q by auto
    next
      case False
      then have "closes a2 r'" using l by blast
      then obtain m where m: "rt_permits r' = rt_permits a2 @ replicate m 0" "0 < m"
        unfolding closes_def withdraws_def by auto
      then show ?thesis using q by (intro disjI2 conjI exI [of _ "replicate n 0 @ [q] @ replicate m 0"]) simp_all
    qed
  qed
qed

definition final :: "world \<Rightarrow> recovery_config \<Rightarrow> clocks \<Rightarrow> runtime \<Rightarrow> 'k stage \<Rightarrow> bool" where
  "final w c t r x \<longleftrightarrow> (\<exists>v. x = Inl v \<and> (closes r (ctx (snd v)) \<or>
    sr_ok (fst (inputs_ready (w_m w) (w_tf w) c t r)) \<and> \<not> rt_fault r \<and> (\<exists>ps. rt_permits (ctx (snd v)) = rt_permits r @ ps \<and> ps \<noteq> [] \<and>
    (List.last ps \<noteq> 0 \<longrightarrow> fst v = RUNNING \<and> List.last ps = rt_action_sequence (ctx (snd v)) \<and> motion_allowed safety_ok (ctx (snd v)) \<and>
      \<not> sv_switching (fst (snd v)) \<and> \<not> rt_fault (ctx (snd v))))))"

lemma final_Inl: "closes r (ctx (snd v)) \<Longrightarrow> final w c t r (Inl v)"
  by (simp add: final_def)

lemma and_then_final:
  assumes "ends r x" "\<And>y. withdraws r (ctx y) \<Longrightarrow> final w c t r (f y)"
  shows "final w c t r (and_then x f)"
  using assms by (cases x) (auto simp: and_then_def ends_Inl intro: final_Inl)

lemma sup_child_final:
  assumes "withdraws r (ctx z)" "ready = fst (inputs_ready (w_m w) (w_tf w) c t r)"
  shows "final w c t r (Inl (sup_child d c p t ready z))"
proof -
  obtain st s' k' r' where v: "sup_child d c p t ready z = (st, s', k', r')" by (metis surj_pair)
  have m: "motion_allowed ready r' \<Longrightarrow> motion_allowed safety_ok r'"
    by (auto simp: motion_allowed_def safety_ok_def Let_def split: option.split_asm)
  show ?thesis
  proof (cases "closes r r'")
    case True
    then show ?thesis by (intro final_Inl) (simp add: v)
  next
    case False
    then have "sr_ok ready \<and> \<not> rt_fault r \<and> (\<exists>ps. rt_permits r' = rt_permits r @ ps \<and> ps \<noteq> [] \<and>
    (List.last ps \<noteq> 0 \<longrightarrow> st = RUNNING \<and> List.last ps = rt_action_sequence r' \<and> motion_allowed ready r' \<and>
      \<not> sv_switching s' \<and> \<not> rt_fault r'))"
      using sup_child_outcome [OF assms(1) v] by blast
    then obtain ps where ps: "sr_ok ready" "\<not> rt_fault r" "rt_permits r' = rt_permits r @ ps" "ps \<noteq> []"
      "List.last ps \<noteq> 0 \<longrightarrow> st = RUNNING \<and> List.last ps = rt_action_sequence r' \<and> motion_allowed ready r' \<and>
      \<not> sv_switching s' \<and> \<not> rt_fault r'" by blast
    show ?thesis
      unfolding final_def v
      by (intro exI [of _ "(st, s', k', r')"] conjI disjI2 exI [of _ ps])
        (use ps m in \<open>simp_all add: assms(2)\<close>)
  qed
qed

lemma sup_ready_final:
  assumes "withdraws r (ctx x)"
  shows "final w c t r (sup_ready w d c p t uuid x)"
proof -
  obtain s k a where x: "x = (s, k, a)" by (cases x)
  obtain ready b where i: "inputs_ready (w_m w) (w_tf w) c t a = (ready, b)" by (metis surj_pair)
  have b: "withdraws r b" using assms withdraws_view2 [OF view_kept(14)] by (metis i snd_conv x)
  have "rt_inputs a = rt_inputs r" using assms by (simp add: x withdraws_def)
  then have ready: "ready = fst (inputs_ready (w_m w) (w_tf w) c t r)" using inputs_ready_inputs by (metis i fst_conv)
  have "final w c t r (and_then (sup_inputs d c p t ready (s, k, b)) (\<lambda>x.
     and_then (sup_uuid_wait d p t uuid x) (\<lambda>x. Inl (sup_child d c p t ready x))))"
    by (intro and_then_final sup_inputs_ends sup_uuid_wait_ends sup_child_final ready) (simp_all add: b)
  then show ?thesis by (simp add: sup_ready_def x i)
qed

lemma sup_run_final:
  assumes "withdraws r (ctx x)"
  shows "final w c t r (sup_run w d c p t uuid x)"
  unfolding sup_run_def
  by (intro and_then_final sup_ready_final quiet assms) (assumption+)

end

subsection \<open>The tree of the robot\<close>

text \<open>A \<open>StatefulActionNode\<close> as its documentation describes it: started when idle, then polled until
  it is done; halted only while it runs. The flag says that it runs.\<close>

definition stateful_tick ::
  "(clocks \<Rightarrow> 'l \<Rightarrow> runtime \<Rightarrow> node_status \<times> 'l \<times> runtime) \<Rightarrow> (clocks \<Rightarrow> 'l \<Rightarrow> runtime \<Rightarrow> node_status \<times> 'l \<times> runtime) \<Rightarrow>
   clocks \<Rightarrow> bool \<times> 'l \<Rightarrow> runtime \<Rightarrow> node_status \<times> (bool \<times> 'l) \<times> runtime" where
  "stateful_tick start running t = (\<lambda>(on, l) r.
     let (st, l, r) = (if on then running t l r else start t l r) in (st, (st = RUNNING, l), r))"

definition stateful_halt ::
  "(clocks \<Rightarrow> 'l \<Rightarrow> runtime \<Rightarrow> runtime) \<Rightarrow> clocks \<Rightarrow> bool \<times> 'l \<Rightarrow> runtime \<Rightarrow> (bool \<times> 'l) \<times> runtime" where
  "stateful_halt halted t = (\<lambda>(on, l) r. ((False, l), if on then halted t l r else r))"

definition leaf_child ::
  "('g, 'u, 'v) leaf_class \<Rightarrow> recovery_config \<Rightarrow> 'v leaf_env \<Rightarrow> (bool \<times> ('g, 'u) leaf) decorated" where
  "leaf_child k c e = \<lparr>dc_running = fst, dc_tick = stateful_tick (leaf_start k c e) (leaf_running k c e),
     dc_halt = stateful_halt (leaf_halted k e), dc_base_halt = stateful_halt (leaf_halted k e)\<rparr>"

text \<open>Child 0 follows the path under the progress guard, child 1 backs up.\<close>

type_synonym robot_tree = "(bool \<times> progress_guard \<times> bool \<times> (follow_goal, unit) leaf) \<times> bool \<times> backup_leaf"

definition robot_children ::
  "world \<Rightarrow> recovery_config \<Rightarrow> guard_ports \<Rightarrow> unit leaf_env \<Rightarrow> robot_tree children" where
  "robot_children w c gp e =
     (let follow = leaf_child (safe_follow_path (gp_path gp) None None None) c e;
          backup = leaf_child (safe_backup w c None None None) c e in
      \<lparr>ch_tick = (\<lambda>i t ((on, g, f), b) r.
         if i = 0
         then let (st, g, f, r) = guard_tick w c gp follow t (\<not> on) g f r in (st, ((True, g, f), b), r)
         else let (st, b, r) = dc_tick backup t b r in (st, ((on, g, f), b), r)),
       ch_halt = (\<lambda>t ((on, g, f), b) r.
         let (g, f, r) = guard_halt follow t g f r; (b, r) = dc_halt backup t b r
         in (((False, g, f), b), r))\<rparr>)"

context quiet_class begin

lemma stateful_quiet:
  "withdraws r (snd (snd (stateful_tick (leaf_start k c e) (leaf_running k c e) t x r)))"
  "withdraws r (snd (stateful_halt (leaf_halted k e) t x r))"
  using start_withdraws running_withdraws halted_quiet
  by (auto simp: stateful_tick_def stateful_halt_def case_prod_beta Let_def)

end

interpretation follow_child: quiet_decorated "leaf_child (safe_follow_path path controller checker err) c e"
  by unfold_locales (simp_all add: leaf_child_def follow_class.stateful_quiet)

interpretation backup_child: quiet_decorated "leaf_child (safe_backup w c x s m) c' e"
  by unfold_locales (simp_all add: leaf_child_def backup_class.stateful_quiet)

interpretation robot: quiet_children "robot_children w c gp e"
proof
  fix i t k r st k' r'
  assume "ch_tick (robot_children w c gp e) i t k r = (st, k', r')"
  then show "withdraws r r'"
    using follow_child.guard_quiet [of r w c gp "gp_path gp" None None None c e t] backup_child.tick [of r w c None None None c e t]
    by (cases k) (auto simp: robot_children_def case_prod_beta Let_def split: if_split_asm)
next
  fix t k r k' r'
  assume a: "ch_halt (robot_children w c gp e) t k r = (k', r')"
  show "withdraws r r'"
    using a withdraws_trans [OF follow_child.guard_halt_quiet [of r "gp_path gp" None None None c e t]
      backup_child.halt [of _ w c None None None c e t]]
    by (cases k) (auto simp: robot_children_def case_prod_beta Let_def)
qed

subsection \<open>The permit\<close>

lemma sup_enter_withdraws: "withdraws r (ctx (sup_enter c p t idle (s, k, r)))"
  by (simp add: sup_enter_def Let_def)

lemma closes_permits:
  assumes "closes r r'"
  obtains n where "rt_permits r' = rt_permits r @ replicate n 0" "0 < n"
  using assms unfolding closes_def withdraws_def by auto

context quiet_children begin

lemma sup_tick_cases:
  assumes "sup_tick w d c p t idle (s, k, r) = (st, s', k', r')"
  obtains "closes r r'"
  | "idle \<or> sv_starting s" "sr_ok (fst (inputs_ready (w_m w) (w_tf w) c t r))" "still c (rc_still_duration c) t r'"
    "st = RUNNING" "rt_navigation_uuid r' = sv_uuid s'" "names_task idle (goal_uuid (sp_through p) r) s (sv_uuid s')"
    "\<not> sv_starting s'" "rt_backup_used r' = Fin 0" "\<not> rt_spin_used r'" "\<not> rt_recovery_active r'"
    "\<exists>n. rt_permits r' = rt_permits r @ replicate n 0 @ [0]"
  | "final w c t r (Inl (st, s', k', r'))"
proof -
  obtain s1 k1 r1 where e: "sup_enter c p t idle (s, k, r) = (s1, k1, r1)" by (metis surj_pair)
  have r1: "withdraws r r1" using sup_enter_withdraws [of r c p t idle s k] by (simp add: e)
  define uuid where "uuid = goal_uuid (sp_through p) r1"
  show thesis
  proof (cases "sv_starting s1")
    case False
    then have "final w c t r (sup_stages w d c p t idle (s, k, r))"
      using sup_run_final [of r "(s1, k1, r1)" w c t p uuid] r1 by (simp add: sup_stages_def e uuid_def [symmetric])
    moreover from this have "sup_stages w d c p t idle (s, k, r) = Inl (st, s', k', r')"
      using assms by (auto simp: sup_tick_def final_def)
    ultimately show thesis using that(3) by simp
  next
    case True
    then have st: "idle \<or> sv_starting s" using e by (auto simp: sup_enter_def Let_def split: if_split_asm)
    have g: "sup_stages w d c p t idle (s, k, r) = start_task w d c p t uuid (s1, k1, r1)"
      using True by (simp add: sup_stages_def e uuid_def [symmetric])
    have w1: "withdraws r (ctx (s1, k1, r1))" using r1 by simp
    show thesis
    proof (cases rule: start_task_outcome [OF w1, of w c p t uuid])
      case (1 v)
      then show thesis using assms that(1) by (simp add: sup_tick_def g)
    next
      case (2 v y)
      then have v: "enter_task w d c p t y = (st, s', k', r')" using assms by (simp add: sup_tick_def g)
      have "rt_inputs (ctx y) = rt_inputs r" using 2(2) by (simp add: closes_def withdraws_def)
      then have i: "fst (inputs_ready (w_m w) (w_tf w) c t (ctx y)) = fst (inputs_ready (w_m w) (w_tf w) c t r)"
        by (rule inputs_ready_inputs)
      have "uuid = goal_uuid (sp_through p) r" using e by (auto simp: uuid_def sup_enter_def Let_def split: if_split_asm)
      then have names: "names_task idle (goal_uuid (sp_through p) r) s (sv_starting_uuid (fst y))"
        using 2(4) e by (auto simp: names_task_def sup_enter_def Let_def split: if_split_asm)
      from 2(2) obtain n where n: "rt_permits (ctx y) = rt_permits r @ replicate n 0" by (rule closes_permits)
      show thesis
        using enter_task_outcome [OF 2(2) v] that(1) that(2) [OF st] names unfolding i n by auto
    qed
  qed
qed

lemma tick_permits:
  assumes "sup_tick w d c p t idle (s, k, r) = (st, s', k', r')"
  shows "\<exists>ps. rt_permits r' = rt_permits r @ ps \<and> ps \<noteq> [] \<and>
    (List.last ps \<noteq> 0 \<longrightarrow> st = RUNNING \<and> List.last ps = rt_action_sequence r' \<and>
      motion_allowed safety_ok r' \<and> \<not> sv_switching s' \<and> \<not> rt_fault r') \<and>
    ((\<exists>q \<in> set ps. q \<noteq> 0) \<longrightarrow> sr_ok (fst (inputs_ready (w_m w) (w_tf w) c t r)) \<and> \<not> rt_fault r)"
  using assms
proof (cases rule: sup_tick_cases)
  case 1
  then obtain n where "rt_permits r' = rt_permits r @ replicate n 0" "0 < n" by (rule closes_permits)
  then show ?thesis by (intro exI [of _ "replicate n 0"]) simp
next
  case 2
  then obtain n where "rt_permits r' = rt_permits r @ replicate n 0 @ [0]" by blast
  then show ?thesis by (intro exI [of _ "replicate n 0 @ [0]"]) simp
next
  case 3
  show ?thesis
  proof (cases "closes r r'")
    case True
    then obtain n where "rt_permits r' = rt_permits r @ replicate n 0" "0 < n" by (rule closes_permits)
    then show ?thesis by (intro exI [of _ "replicate n 0"]) simp
  next
    case False
    then have "sr_ok (fst (inputs_ready (w_m w) (w_tf w) c t r))" "\<not> rt_fault r"
      "\<exists>ps. rt_permits r' = rt_permits r @ ps \<and> ps \<noteq> [] \<and>
        (List.last ps \<noteq> 0 \<longrightarrow> st = RUNNING \<and> List.last ps = rt_action_sequence r' \<and>
          motion_allowed safety_ok r' \<and> \<not> sv_switching s' \<and> \<not> rt_fault r')"
      using 3 by (simp_all add: final_def)
    then show ?thesis by blast
  qed
qed

lemma tick_fault:
  assumes "sup_tick w d c p t idle (s, k, r) = (st, s', k', r')" "rt_fault r" "\<not> rt_fault r'"
  shows "(idle \<or> sv_starting s) \<and> sr_ok (fst (inputs_ready (w_m w) (w_tf w) c t r)) \<and>
    still c (rc_still_duration c) t r' \<and> rt_navigation_uuid r' = sv_uuid s' \<and>
    (if \<not> idle \<and> sv_starting_uuid s \<noteq> [] then sv_uuid s' = sv_starting_uuid s
     else sv_uuid s' = goal_uuid (sp_through p) r \<and> sv_uuid s' \<noteq> [] \<and> sv_uuid s' \<noteq> sv_uuid s) \<and>
    \<not> sv_starting s' \<and> rt_backup_used r' = Fin 0 \<and> \<not> rt_spin_used r' \<and> \<not> rt_recovery_active r'"
  using assms(1)
proof (cases rule: sup_tick_cases)
  case 1
  then show ?thesis using assms(2,3) by (simp add: closes_def withdraws_def)
next
  case 2
  then show ?thesis by (simp add: names_task_def split: if_split_asm)
next
  case 3
  then show ?thesis using assms(2,3) by (simp add: final_def closes_def withdraws_def)
qed

lemma view_fault: "rt_view a = rt_view b \<Longrightarrow> rt_fault a = rt_fault b"
  by (simp add: rt_view_def)

lemma fail_fault: "rt_fault (ctx (snd (sup_fail d p t reason x)))"
proof -
  obtain s k a where x: "x = (s, k, a)" by (cases x)
  define b where "b = rt_fail reason (ck_steady t) a"
  have "rt_fault b" by (simp add: b_def rt_fail_def)
  then have "rt_fault (snd (ch_halt d t k b))"
    using child_intros(1) [of b b t k, OF withdraws_refl] by (simp add: withdraws_def)
  then show ?thesis
    by (simp add: sup_fail_def x b_def [symmetric] case_prod_beta view_fault [OF view_motion(1)])
qed

lemma stop_outcome:
  "case finish_stop d c p t (s, k, r) of
     Inr (s', k', r') \<Rightarrow> \<not> motion_busy r \<and> rt_motion r' = None \<and> still c (rc_still_duration c) t r' \<and>
       sv_active s' = sv_next s \<and> \<not> sv_switching s'
   | Inl (st, s', k', r') \<Rightarrow> st = FAILURE \<and> rt_fault r' \<or> st = RUNNING \<and>
       (if motion_busy r then \<not> sv_cancel_deadline s \<le> ck_steady t
        else sv_input_waiting s \<and> \<not> odom_fresh c t r \<or>
          \<not> rc_settle_timeout c \<le> secs (ck_steady t - sv_settle_started s'))"
proof -
  have f: "case Inl (sup_fail d p t reason x) of Inr y \<Rightarrow> A y | Inl (st, s', k', r') \<Rightarrow> st = FAILURE \<and> rt_fault r' \<or> B st s' k' r'"
    for reason x A B
    using fail_fault [of p t reason x] by (auto simp: sup_fail_def case_prod_beta)
  have p: "motion_busy (rt_permit False r) = motion_busy r" "odom_fresh c t (rt_permit False r) = odom_fresh c t r"
    by (simp_all add: motion_busy_def session_status_def odom_fresh_def rt_permit_def cong: option.case_cong)
  show ?thesis
  proof (cases "motion_busy r")
    case True
    show ?thesis
    proof (cases "sv_cancel_deadline s \<le> ck_steady t")
      case True
      with \<open>motion_busy r\<close> show ?thesis by (simp only: finish_stop_def prod.case Let_def p if_True f)
    qed (use True in \<open>simp add: finish_stop_def Let_def p\<close>)
  next
    case busy: False
    show ?thesis
    proof (cases "sv_input_waiting s \<and> \<not> odom_fresh c t r")
      case True
      then show ?thesis using busy by (simp add: finish_stop_def Let_def p)
    next
      case False
      define x where "x = (if sv_settle_started s = 0
        then (s\<lparr>sv_settle_started := ck_steady t\<rparr>, restart_stillness (rt_permit False r)) else (s, rt_permit False r))"
      obtain s1 r1 where x1: "x = (s1, r1)" by (cases x)
      have s1: "sv_next s1 = sv_next s" using x1 by (auto simp: x_def split: if_split_asm)
      have e: "finish_stop d c p t (s, k, r) = (if \<not> still c (rc_still_duration c) t r1
          then if rc_settle_timeout c \<le> secs (ck_steady t - sv_settle_started s1)
            then Inl (sup_fail d p t ''STOP_NOT_CONFIRMED'' (s1, k, r1))
            else Inl (RUNNING, s1, k, r1)
          else Inr (s1\<lparr>sv_switching := False, sv_active := sv_next s1\<rparr>, k, r1\<lparr>rt_motion := None\<rparr>))"
        using busy by (simp only: finish_stop_def prod.case Let_def p if_False if_not_P [OF False] x_def [symmetric] x1)
      show ?thesis
      proof (cases "\<not> still c (rc_still_duration c) t r1 \<and> rc_settle_timeout c \<le> secs (ck_steady t - sv_settle_started s1)")
        case True
        then show ?thesis by (simp only: e if_True simp_thms f)
      qed (use busy s1 in \<open>auto simp: e\<close>)
    qed
  qed
qed

end

text \<open>C4. The robot may move after a tick of the recovery tree only if, in that tick, every input was
  found ready, no fault is latched, no switch of behaviour is under way, and the motion that may move
  was accepted, has not ended and was neither cancelled nor timed out; the permit names the newest
  motion. Every tick publishes a permit, and every tick with a fault or an input that is not ready
  publishes only withdrawals.\<close>
theorem supervisor_permits:
  assumes "quiet_children d" "sup_tick w d c p t idle (s, k, r) = (st, s', k', r')"
  shows "\<exists>ps. rt_permits r' = rt_permits r @ ps \<and> ps \<noteq> [] \<and>
    (List.last ps \<noteq> 0 \<longrightarrow> st = RUNNING \<and> List.last ps = rt_action_sequence r' \<and>
      motion_allowed safety_ok r' \<and> \<not> sv_switching s' \<and> \<not> rt_fault r') \<and>
    ((\<exists>q \<in> set ps. q \<noteq> 0) \<longrightarrow> sr_ok (fst (inputs_ready (w_m w) (w_tf w) c t r)) \<and> \<not> rt_fault r)"
  using quiet_children.tick_permits [OF assms] .

text \<open>C5. A latched fault is released only by the start of a task, and only with every input ready and
  the robot seen standing for the required time. The task then is the new one: the one whose start was
  under way, or else the one the goal names, which is another than the task before; and it starts with the whole
  backup budget, its turn unused and no recovery under way.\<close>
theorem fault_latched:
  assumes "quiet_children d" "sup_tick w d c p t idle (s, k, r) = (st, s', k', r')" "rt_fault r" "\<not> rt_fault r'"
  shows "(idle \<or> sv_starting s) \<and> sr_ok (fst (inputs_ready (w_m w) (w_tf w) c t r)) \<and>
    still c (rc_still_duration c) t r' \<and> rt_navigation_uuid r' = sv_uuid s' \<and>
    (if \<not> idle \<and> sv_starting_uuid s \<noteq> [] then sv_uuid s' = sv_starting_uuid s
     else sv_uuid s' = goal_uuid (sp_through p) r \<and> sv_uuid s' \<noteq> [] \<and> sv_uuid s' \<noteq> sv_uuid s) \<and>
    \<not> sv_starting s' \<and> rt_backup_used r' = Fin 0 \<and> \<not> rt_spin_used r' \<and> \<not> rt_recovery_active r'"
  using quiet_children.tick_fault [OF assms] .

text \<open>C7. A switch of behaviour is completed only after the motion ended and the robot was seen
  standing for the required time; it stays pending only while the deadline for the cancellation or
  for coming to rest has not passed (or the odometry is missing while inputs are awaited); after that
  it ends in a fault.\<close>
theorem stop_barrier:
  assumes "quiet_children d"
  shows "case finish_stop d c p t (s, k, r) of
     Inr (s', k', r') \<Rightarrow> \<not> motion_busy r \<and> rt_motion r' = None \<and> still c (rc_still_duration c) t r' \<and>
       sv_active s' = sv_next s \<and> \<not> sv_switching s'
   | Inl (st, s', k', r') \<Rightarrow> st = FAILURE \<and> rt_fault r' \<or> st = RUNNING \<and>
       (if motion_busy r then \<not> sv_cancel_deadline s \<le> ck_steady t
        else sv_input_waiting s \<and> \<not> odom_fresh c t r \<or>
          \<not> rc_settle_timeout c \<le> secs (ck_steady t - sv_settle_started s'))"
  by (rule quiet_children.stop_outcome [OF assms])

subsection \<open>A tick that permits motion\<close>

definition idle_children :: "unit children" where
  "idle_children = \<lparr>ch_tick = (\<lambda>_ _ k r. (RUNNING, k, r)), ch_halt = (\<lambda>_ k r. (k, r))\<rparr>"

lemma idle_quiet: "quiet_children idle_children"
  by unfold_locales (simp_all add: idle_children_def)

definition live_session :: shared where
  "live_session = shared_init\<lparr>records := [(1, new_record\<lparr>r_handle := Some ''h'', r_response_done := True\<rparr>)],
     revision := 1, status := (status shared_init)\<lparr>as_accepted := True, as_cancel_ack := False\<rparr>, sent_at := 1\<rparr>"

definition live_runtime :: runtime where
  "live_runtime = runtime_init\<lparr>rt_sensors := demo_snapshot, rt_odom := Some (demo_odom 1), rt_odom_received := 1,
     rt_still_since := 1, rt_ready := \<lparr>hs_received = True, hs_value = True, hs_received_at = 1\<rparr>,
     rt_pose_uuid := ''ab'', rt_navigation_uuid := ''ab'', rt_motion := Some 0, rt_sessions := (\<lambda>_. live_session)\<rparr>"

definition live_supervisor :: supervisor where
  "live_supervisor = supervisor_init\<lparr>sv_initialized := True, sv_uuid := ''ab''\<rparr>"

definition live_ports :: supervisor_ports where
  "live_ports = \<lparr>sp_through = False, sp_goal = None, sp_goals = None, sp_goals_after = None,
     sp_cancel_throws = (\<lambda>_. False)\<rparr>"

definition live_config :: recovery_config where
  "live_config = demo_config\<lparr>rc_still_duration := Fin 0\<rparr>"

lemma live_times: "secs 0 = Fin 0" "fresh_stamp 1 1 1 1 (Fin 1)"
  by (code_simp, code_simp)

lemma live_poll: "poll (session_limits live_config) throws 1 live_session = live_session"
  using live_times
  by (simp add: poll_def live_session_def shared_init_def session_limits_def live_config_def demo_config_def
      default_config_def find_record_def refresh_terminal_def is_orphan_def new_record_def Let_def)

lemma demo_snapshot_fields:
  "sn_scan demo_snapshot = Some demo_scan" "sn_costmap demo_snapshot = Some demo_costmap"
  "sn_footprint demo_snapshot = Some demo_footprint" "sn_scan_received demo_snapshot = 1"
  "sn_costmap_received demo_snapshot = 1" "sn_footprint_received demo_snapshot = 1"
  by (simp_all add: demo_snapshot_def snapshot_init_def on_footprint_def on_scan_msg_def on_costmap_def)

lemma live_inputs:
  assumes "rt_inputs r = rt_inputs live_runtime"
  shows "inputs_ready demo_libm demo_tf live_config demo_clocks r = (safety_ok, r)"
proof -
  have pts: "scan_points_in_base demo_libm demo_tf demo_scan base = (True, [])" for base
    by (simp add: scan_points_in_base_def demo_scan_def in_range_def)
  have st: "sc_stamp demo_scan = 1" "cm_stamp demo_costmap = 1" "fp_stamp demo_footprint = 1" "od_stamp (demo_odom 1) = 1"
    "\<not> maps_invalid demo_costmap demo_footprint"
    by (simp_all add: demo_scan_def demo_costmap_def demo_footprint_def demo_odom_def maps_invalid_def)
  have e: "rt_odom r = Some (demo_odom 1)" "rt_odom_received r = 1" "rt_sensors r = demo_snapshot"
    "rt_ready r = \<lparr>hs_received = True, hs_value = True, hs_received_at = 1\<rparr>"
    using assms by (simp_all add: rt_inputs_def live_runtime_def)
  have c: "rc_data_age live_config = Fin 1" "\<not> rc_require_perception live_config" "ck_ros demo_clocks = 1" "ck_steady demo_clocks = 1"
    by (simp_all add: live_config_def demo_config_def default_config_def demo_clocks_def)
  have rp: "runtime_pose demo_tf live_config [] 1 \<noteq> None" by (simp add: runtime_pose_def)
  show ?thesis
    using live_times rp
    by (auto simp: inputs_ready_def perception_ready_def healthy_def health_ok_def health_fresh_def e c stale_def st pts
        demo_snapshot_fields)
qed


definition ticked_runtime :: runtime where
  "ticked_runtime = live_runtime\<lparr>rt_last_bt_tick := 1\<rparr>"

lemma live_enter:
  "sup_enter live_config live_ports demo_clocks idle (s, k, live_runtime) =
     (if idle then s\<lparr>sv_starting := True, sv_starting_uuid := [], sv_uuid_wait := 1\<rparr> else s, k, ticked_runtime)"
proof -
  have "poll_motion live_config throws demo_clocks (note_tick 1 live_runtime) = ticked_runtime" for throws
    by (simp add: poll_motion_def poll_session_def with_session_def live_poll live_runtime_def note_tick_def
        ticked_runtime_def demo_clocks_def fun_upd_idem)
  moreover have "poll_retiring live_config throws demo_clocks (note_tick 1 live_runtime) = note_tick 1 live_runtime" for throws
    by (simp add: poll_retiring_def note_tick_def live_runtime_def runtime_init_def)
  ultimately show ?thesis by (simp add: sup_enter_def demo_clocks_def live_ports_def)
qed

lemma live_tick:
  "\<exists>r'. sup_tick demo_world idle_children live_config live_ports demo_clocks False (live_supervisor, (), live_runtime) =
      (RUNNING, live_supervisor, (), r') \<and> rt_permits r' = [1]"
proof -
  let ?r = ticked_runtime
  have f: "rt_pose_uuid ?r = ''ab''" "rt_navigation_uuid ?r = ''ab''" "\<not> rt_fault ?r" "\<not> rt_recovery_active ?r"
    "rt_motion ?r = Some 0" "rt_sessions ?r 0 = live_session" "rt_permits ?r = []" "rt_action_sequence ?r = 1"
    by (simp_all add: ticked_runtime_def live_runtime_def runtime_init_def)
  have s: "sv_initialized live_supervisor" "sv_uuid live_supervisor = ''ab''" "\<not> sv_switching live_supervisor"
    "\<not> sv_starting live_supervisor" "sv_goal live_supervisor = default_stamped" "sv_goals live_supervisor = []"
    "\<not> sv_input_waiting live_supervisor" "sv_perception_wait_started live_supervisor = 0" "sv_active live_supervisor = 0"
    by (simp_all add: live_supervisor_def supervisor_init_def)
  have same: "same_stamped default_stamped default_stamped"
    by (simp add: same_stamped_def same_pose_def default_stamped_def)
  have p: "goal_port live_ports = default_stamped" "goals_port live_ports = []" "\<not> sp_through live_ports"
    by (simp_all add: goal_port_def goals_port_def live_ports_def port_def)
  have i: "inputs_ready (w_m demo_world) (w_tf demo_world) live_config demo_clocks ?r = (safety_ok, ?r)"
    by (simp add: demo_world_def live_inputs ticked_runtime_def rt_inputs_def)
  have pr: "perception_ready live_config n ?r" for n
    by (simp add: perception_ready_def live_config_def demo_config_def default_config_def)
  have m: "motion_allowed safety_ok ?r"
    by (simp add: motion_allowed_def f session_status_def live_session_def safety_ok_def shared_init_def)
  have 1: "sup_goal idle_children live_config live_ports demo_clocks ''ab'' (live_supervisor, (), ?r) = Inr (live_supervisor, (), ?r)"
    by (simp add: sup_goal_def f s p same same_goals_def)
  have 2: "sup_perception idle_children live_config live_ports demo_clocks (live_supervisor, (), ?r) = Inr (live_supervisor, (), ?r)"
    by (simp add: sup_perception_def pr s)
  have 3: "sup_timeouts idle_children live_config live_ports demo_clocks (live_supervisor, (), ?r) = Inr (live_supervisor, (), ?r)"
    by (simp add: sup_timeouts_def f s)
  have 4: "sup_inputs idle_children live_config live_ports demo_clocks safety_ok (live_supervisor, (), ?r) = Inr (live_supervisor, (), ?r)"
    by (simp add: sup_inputs_def s and_then_def safety_ok_def)
  have 5: "\<exists>r'. sup_child idle_children live_config live_ports demo_clocks safety_ok (live_supervisor, (), ?r) =
      (RUNNING, live_supervisor, (), r') \<and> rt_permits r' = [1]"
    using m by (simp add: sup_child_def idle_children_def sup_permit_def passed_goals_def p sup_leave_def s f safety_ok_def)
      (simp add: rt_permit_def f)
  have "sup_stages demo_world idle_children live_config live_ports demo_clocks False (live_supervisor, (), live_runtime) =
      Inl (sup_child idle_children live_config live_ports demo_clocks safety_ok (live_supervisor, (), ?r))"
    by (simp add: sup_stages_def live_enter goal_uuid_def f s p sup_run_def 1 2 3 4 and_then_def if_switching_def
      sup_ready_def i sup_uuid_wait_def)
  with 5 show ?thesis by (simp add: sup_tick_def)
qed

theorem supervisor_permits_witness:
  "\<exists>r'. sup_tick demo_world idle_children live_config live_ports demo_clocks False (live_supervisor, (), live_runtime) =
      (RUNNING, live_supervisor, (), r') \<and> rt_permits r' = [1] \<and> rt_action_sequence r' = 1 \<and> motion_allowed safety_ok r'"
proof -
  obtain r' where r': "sup_tick demo_world idle_children live_config live_ports demo_clocks False (live_supervisor, (), live_runtime) =
      (RUNNING, live_supervisor, (), r')" "rt_permits r' = [1]" using live_tick by blast
  have "rt_permits live_runtime = []" by (simp add: live_runtime_def runtime_init_def)
  then show ?thesis using supervisor_permits [OF idle_quiet r'(1)] r' by auto
qed

theorem stop_barrier_witness:
  "\<exists>s k r. finish_stop idle_children live_config live_ports demo_clocks
      (live_supervisor\<lparr>sv_settle_started := 1, sv_next := 1\<rparr>, (), live_runtime\<lparr>rt_motion := None\<rparr>) = Inr (s, k, r) \<and>
    sv_active s = 1 \<and> rt_motion r = None"
proof -
  let ?s = "live_supervisor\<lparr>sv_settle_started := 1, sv_next := 1\<rparr>" and ?r = "live_runtime\<lparr>rt_motion := None\<rparr>"
  have "Fin 0 \<le> secs 0" using live_times by simp
  then obtain s k r where v: "finish_stop idle_children live_config live_ports demo_clocks (?s, (), ?r) = Inr (s, k, r)"
    using live_times
    by (simp add: finish_stop_def motion_busy_def rt_permit_def still_def odom_fresh_def live_supervisor_def supervisor_init_def
        live_runtime_def demo_clocks_def live_config_def demo_config_def default_config_def) (simp add: demo_odom_def)
  then show ?thesis using stop_barrier [OF idle_quiet, where c = live_config and p = live_ports and t = demo_clocks and s = ?s
      and k = "()" and r = ?r] by (simp add: v)
qed

lemma live_start:
  "\<exists>s r. sup_tick demo_world idle_children live_config live_ports demo_clocks False
      (live_supervisor\<lparr>sv_starting := True, sv_starting_uuid := ''cd''\<rparr>, (),
       live_runtime\<lparr>rt_fault := True, rt_motion := None\<rparr>) = (RUNNING, s, (), r) \<and> \<not> rt_fault r"
proof -
  let ?s = "live_supervisor\<lparr>sv_starting := True, sv_starting_uuid := ''cd''\<rparr>"
  define r where "r = rt_permit False (note_tick 1 (live_runtime\<lparr>rt_fault := True, rt_motion := None\<rparr>))"
  have e: "sup_enter live_config live_ports demo_clocks False (?s, (), live_runtime\<lparr>rt_fault := True, rt_motion := None\<rparr>) =
      (?s, (), note_tick 1 (live_runtime\<lparr>rt_fault := True, rt_motion := None\<rparr>))"
    by (simp add: sup_enter_def poll_retiring_def poll_motion_def note_tick_def live_runtime_def runtime_init_def demo_clocks_def)
  have i: "inputs_ready (w_m demo_world) (w_tf demo_world) live_config demo_clocks r = (safety_ok, r)"
    by (simp add: demo_world_def live_inputs r_def rt_permit_def note_tick_def rt_inputs_def)
  have st: "still live_config (rc_still_duration live_config) demo_clocks r"
    using live_times by (simp add: still_def odom_fresh_def r_def rt_permit_def note_tick_def live_runtime_def demo_clocks_def
      live_config_def demo_config_def default_config_def) (simp add: demo_odom_def)
  have f: "\<not> rt_fault (reset_for_new_task u n r)" for u n
    by (simp add: reset_for_new_task_def Let_def)
  have n: "\<not> sv_switching live_supervisor" "ck_steady demo_clocks = 1"
    by (simp_all add: live_supervisor_def supervisor_init_def demo_clocks_def)
  have "\<exists>s. sup_tick demo_world idle_children live_config live_ports demo_clocks False
      (?s, (), live_runtime\<lparr>rt_fault := True, rt_motion := None\<rparr>) =
      (RUNNING, s, (), reset_for_new_task ''cd'' 1 r)"
    using st by (simp add: sup_tick_def sup_stages_def e start_task_def adopt_uuid_def and_then_def if_switching_def
      n r_def [symmetric] enter_task_def i safety_ok_def)
  then show ?thesis using f by blast
qed

theorem fault_latched_witness:
  "\<exists>s r. sup_tick demo_world idle_children live_config live_ports demo_clocks False
      (live_supervisor\<lparr>sv_starting := True, sv_starting_uuid := ''cd''\<rparr>, (),
       live_runtime\<lparr>rt_fault := True, rt_motion := None\<rparr>) = (RUNNING, s, (), r) \<and>
     still live_config (rc_still_duration live_config) demo_clocks r \<and> rt_navigation_uuid r = ''cd'' \<and> sv_uuid s = ''cd''"
proof -
  have "rt_fault (live_runtime\<lparr>rt_fault := True, rt_motion := None\<rparr>)" by simp
  then show ?thesis using live_start fault_latched [OF idle_quiet] by fastforce
qed

end
