(* ===== verification/Localization_Monitor.thy ===== *)
theory Localization_Monitor
  imports Swept_Clearance Prelude
begin

text \<open>
  The monitor of the localisation, \<open>localization_monitor.cpp\<close>: the callbacks that keep the newest
  scan, odometry, pose, particles and map, the comparison of the scan's end points with the map, and
  the timer that latches readiness. \<open>have_x_\<close> with its stamp is an option. \<open>std::sqrt\<close> is a parameter.
  A conversion of a double outside the range of \<open>int\<close>, undefined in C++, is unbounded here, and the
  counters of cycles, one per 200 ms, are natural numbers. The Chinese message texts are constructors.
\<close>

subsection \<open>Messages and state\<close>

record particle =
  pt_x :: dbl
  pt_y :: dbl
  pt_weight :: dbl

record occupancy_grid =
  og_frame :: string
  og_resolution :: dbl
  og_origin_x :: dbl
  og_origin_y :: dbl
  og_width :: nat
  og_height :: nat
  og_data :: "int list"

record monitor_params =
  mp_global_frame :: string
  mp_max_data_age :: dbl
  mp_min_endpoint_count :: int
  mp_min_hit_ratio :: dbl
  mp_match_radius :: dbl
  mp_min_particles :: int
  mp_max_spread :: dbl
  mp_required_healthy :: int
  mp_required_fault :: int
  mp_scan_stride :: int

definition default_params :: monitor_params where
  "default_params = \<lparr>mp_global_frame = ''map'', mp_max_data_age = fl 0.5, mp_min_endpoint_count = 12,
     mp_min_hit_ratio = fl 0.30, mp_match_radius = fl 0.15, mp_min_particles = 100,
     mp_max_spread = fl 0.75, mp_required_healthy = 5, mp_required_fault = 3, mp_scan_stride = 4\<rparr>"

datatype monitor_reason = Healthy | Wait_pose | Scan_expired | Odom_expired | Scan_tf_missing
  | Map_mismatch | Particles_spread | Wait_cycles

text \<open>What one evaluation publishes.\<close>

record monitor_report =
  mr_ready :: bool
  mr_fault :: bool
  mr_recovery_allowed :: bool
  mr_reason :: monitor_reason
  mr_healthy_cycles :: nat
  mr_fault_cycles :: nat

record monitor =
  mn_map :: "occupancy_grid option"
  mn_scan_stamp :: "time_ns option"
  mn_odom_stamp :: "time_ns option"
  mn_amcl_stamp :: "time_ns option"
  mn_have_particles :: bool
  mn_scan_tf_valid :: bool
  mn_endpoint_count :: nat
  mn_hit_ratio :: dbl
  mn_particle_count :: nat
  mn_spread :: dbl
  mn_healthy_cycles :: nat
  mn_fault_cycles :: nat
  mn_ready :: bool
  mn_reports :: "monitor_report list"

definition monitor_init :: monitor where
  "monitor_init = \<lparr>mn_map = None, mn_scan_stamp = None, mn_odom_stamp = None, mn_amcl_stamp = None,
     mn_have_particles = False, mn_scan_tf_valid = False, mn_endpoint_count = 0, mn_hit_ratio = Fin 0,
     mn_particle_count = 0, mn_spread = PInf, mn_healthy_cycles = 0, mn_fault_cycles = 0,
     mn_ready = False, mn_reports = []\<rparr>"

subsection \<open>Particles\<close>

definition particle_weight :: "bool \<Rightarrow> particle \<Rightarrow> dbl" where
  "particle_weight uniform p = (if uniform then Fin 1 else dmax (Fin 0) (pt_weight p))"

definition particle_mean :: "(particle \<Rightarrow> dbl) \<Rightarrow> (particle \<Rightarrow> dbl) \<Rightarrow> dbl \<Rightarrow> particle list \<Rightarrow> dbl" where
  "particle_mean w coord weight_sum ps = foldl (\<lambda>s p. s + w p * coord p) (Fin 0) ps / weight_sum"

definition particle_spread :: "(dbl \<Rightarrow> dbl) \<Rightarrow> particle list \<Rightarrow> dbl" where
  "particle_spread sq ps =
     (let total = foldl (\<lambda>s p. s + dmax (Fin 0) (pt_weight p)) (Fin 0) ps;
          tiny = fl (1 / 1000000000000);
          w = particle_weight (\<not> tiny < total);
          total = (if total \<le> tiny then i2d (int (length ps)) else total);
          mx = particle_mean w pt_x total ps; my = particle_mean w pt_y total ps;
          variance = foldl (\<lambda>s p. let dx = pt_x p - mx; dy = pt_y p - my in s + w p * (dx * dx + dy * dy))
            (Fin 0) ps
      in sq (variance / total))"

definition on_particles :: "(dbl \<Rightarrow> dbl) \<Rightarrow> particle list \<Rightarrow> monitor \<Rightarrow> monitor" where
  "on_particles sq ps s =
     (if ps = [] then s\<lparr>mn_particle_count := 0, mn_spread := PInf, mn_have_particles := False\<rparr>
      else s\<lparr>mn_particle_count := length ps, mn_spread := particle_spread sq ps, mn_have_particles := True\<rparr>)"

subsection \<open>End points of the scan against the map\<close>

text \<open>\<open>static_cast<int>\<close> of a finite double.\<close>

fun trunc_int :: "dbl \<Rightarrow> int" where
  "trunc_int (Fin q) = trunc q"
| "trunc_int _ = 0"

definition cell_occupied :: "occupancy_grid \<Rightarrow> int \<Rightarrow> int \<Rightarrow> bool" where
  "cell_occupied g x y \<longleftrightarrow> \<not> (x < 0 \<or> y < 0 \<or> int (og_width g) \<le> x \<or> int (og_height g) \<le> y) \<and>
     (let index = nat y * og_width g + nat x in index < length (og_data g) \<and> 65 \<le> og_data g ! index)"

definition occupied_near :: "monitor_params \<Rightarrow> occupancy_grid option \<Rightarrow> dbl \<Rightarrow> dbl \<Rightarrow> bool" where
  "occupied_near p gm x y = (case gm of None \<Rightarrow> False | Some g \<Rightarrow>
     if og_resolution g \<le> Fin 0 \<or> og_data g = [] then False
     else let cx = trunc_int ((x - og_origin_x g) / og_resolution g);
              cy = trunc_int ((y - og_origin_y g) / og_resolution g);
              radius = max 1 (ceil_int (mp_match_radius p / og_resolution g))
          in list_ex (\<lambda>dy. list_ex (\<lambda>dx. cell_occupied g (cx + dx) (cy + dy)) [- radius..radius])
               [- radius..radius])"

definition finite_range :: "laser_scan \<Rightarrow> dbl \<Rightarrow> bool" where
  "finite_range scan r \<longleftrightarrow> isfinite r \<and> sc_range_min scan \<le> r \<and> r \<le> sc_range_max scan"

definition usable_beam :: "laser_scan \<Rightarrow> dbl \<Rightarrow> bool" where
  "usable_beam scan r \<longleftrightarrow> finite_range scan r \<and> \<not> stimes (sc_range_max scan) (fl32 (98 / 100)) \<le> r"

definition beam_end :: "libm \<Rightarrow> tf_env \<Rightarrow> transform \<Rightarrow> laser_scan \<Rightarrow> nat \<Rightarrow> dbl \<Rightarrow> dbl \<times> dbl" where
  "beam_end m tf tr scan i r =
     (let yaw = tf_yaw tf (tr_rotation tr); c = m_cos m yaw; sn = m_sin m yaw;
          angle = sc_angle_min scan + i2d (int i) * sc_angle_increment scan;
          lx = r * m_cos m angle; ly = r * m_sin m angle
      in (px (tr_translation tr) + c * lx - sn * ly, py (tr_translation tr) + sn * lx + c * ly))"

definition scan_endpoints :: "monitor_params \<Rightarrow> laser_scan \<Rightarrow> (nat \<times> dbl) list" where
  "scan_endpoints p scan =
     (let stride = nat (max 1 (mp_scan_stride p))
      in filter (\<lambda>(i, r). i mod stride = 0 \<and> usable_beam scan r)
           (zip [0..<length (sc_ranges scan)] (sc_ranges scan)))"

definition mon_on_scan :: "libm \<Rightarrow> tf_env \<Rightarrow> monitor_params \<Rightarrow> laser_scan \<Rightarrow> monitor \<Rightarrow> monitor" where
  "mon_on_scan m tf p scan s =
     (let s = s\<lparr>mn_scan_stamp := Some (sc_stamp scan), mn_scan_tf_valid := False, mn_endpoint_count := 0,
            mn_hit_ratio := Fin 0\<rparr>
      in if mn_map s = None \<or> sc_frame scan = [] then s
         else case tf_lookup tf (mp_global_frame p) (sc_frame scan) (sc_stamp scan) of
             None \<Rightarrow> s
           | Some tr \<Rightarrow>
               let ends = scan_endpoints p scan;
                   hits = filter (\<lambda>(i, r). let (x, y) = beam_end m tf tr scan i r in occupied_near p (mn_map s) x y) ends
               in s\<lparr>mn_endpoint_count := length ends,
                    mn_hit_ratio := (if 0 < length ends
                      then i2d (int (length hits)) / i2d (int (length ends)) else Fin 0),
                    mn_scan_tf_valid := True\<rparr>)"

definition on_map :: "occupancy_grid \<Rightarrow> monitor \<Rightarrow> monitor" where
  "on_map g s = s\<lparr>mn_map := Some g\<rparr>"

definition mon_on_odom :: "time_ns \<Rightarrow> monitor \<Rightarrow> monitor" where
  "mon_on_odom stamp s = s\<lparr>mn_odom_stamp := Some stamp\<rparr>"

definition on_amcl_pose :: "time_ns \<Rightarrow> monitor \<Rightarrow> monitor" where
  "on_amcl_pose stamp s = s\<lparr>mn_amcl_stamp := Some stamp\<rparr>"

subsection \<open>The evaluation\<close>

definition age_seconds :: "time_ns \<Rightarrow> time_ns option \<Rightarrow> dbl" where
  "age_seconds now stamp = (case stamp of None \<Rightarrow> PInf | Some s \<Rightarrow> secs (now - s))"

definition source_fresh :: "monitor_params \<Rightarrow> time_ns \<Rightarrow> time_ns option \<Rightarrow> bool" where
  "source_fresh p now stamp \<longleftrightarrow> Fin 0 \<le> age_seconds now stamp \<and> age_seconds now stamp \<le> mp_max_data_age p"

definition map_alignment :: "monitor_params \<Rightarrow> monitor \<Rightarrow> bool" where
  "map_alignment p s \<longleftrightarrow> mn_scan_tf_valid s \<and> mp_min_endpoint_count p \<le> int (mn_endpoint_count s) \<and>
     mp_min_hit_ratio p \<le> mn_hit_ratio s"

definition particle_ok :: "monitor_params \<Rightarrow> monitor \<Rightarrow> bool" where
  "particle_ok p s \<longleftrightarrow> mn_have_particles s \<and> mp_min_particles p \<le> int (mn_particle_count s) \<and>
     mn_spread s \<le> mp_max_spread p"

definition mon_candidate :: "monitor_params \<Rightarrow> time_ns \<Rightarrow> monitor \<Rightarrow> bool" where
  "mon_candidate p now s \<longleftrightarrow> mn_amcl_stamp s \<noteq> None \<and> source_fresh p now (mn_scan_stamp s) \<and>
     source_fresh p now (mn_odom_stamp s) \<and> map_alignment p s \<and> particle_ok p s"

definition source_chain_valid :: "monitor_params \<Rightarrow> time_ns \<Rightarrow> monitor \<Rightarrow> bool" where
  "source_chain_valid p now s \<longleftrightarrow> mn_amcl_stamp s \<noteq> None \<and> mn_map s \<noteq> None \<and>
     source_fresh p now (mn_scan_stamp s) \<and> source_fresh p now (mn_odom_stamp s) \<and> mn_scan_tf_valid s"

definition failure_reason :: "monitor_params \<Rightarrow> time_ns \<Rightarrow> monitor \<Rightarrow> monitor_reason" where
  "failure_reason p now s =
     (if mn_amcl_stamp s = None then Wait_pose
      else if \<not> source_fresh p now (mn_scan_stamp s) then Scan_expired
      else if \<not> source_fresh p now (mn_odom_stamp s) then Odom_expired
      else if \<not> mn_scan_tf_valid s then Scan_tf_missing
      else if \<not> map_alignment p s then Map_mismatch
      else if \<not> particle_ok p s then Particles_spread
      else Wait_cycles)"

definition latch :: "monitor_params \<Rightarrow> bool \<Rightarrow> nat \<Rightarrow> nat \<Rightarrow> bool \<Rightarrow> bool" where
  "latch p chain healthy fault ready =
     (if \<not> chain then False
      else if \<not> ready \<and> mp_required_healthy p \<le> int healthy then True
      else if ready \<and> mp_required_fault p \<le> int fault then False
      else ready)"

definition mon_evaluate :: "monitor_params \<Rightarrow> time_ns \<Rightarrow> monitor \<Rightarrow> monitor" where
  "mon_evaluate p now s =
     (let ok = mon_candidate p now s; chain = source_chain_valid p now s;
          healthy = (if ok then mn_healthy_cycles s + 1 else 0);
          fault = (if ok then 0 else mn_fault_cycles s + 1);
          ready = latch p chain healthy fault (mn_ready s)
      in s\<lparr>mn_healthy_cycles := healthy, mn_fault_cycles := fault, mn_ready := ready,
           mn_reports := mn_reports s @ [\<lparr>mr_ready = ready, mr_fault = (\<not> ready), mr_recovery_allowed = chain,
             mr_reason = (if ready then Healthy else failure_reason p now s), mr_healthy_cycles = healthy,
             mr_fault_cycles = fault\<rparr>]\<rparr>)"

datatype monitor_event = Map_msg occupancy_grid | Odom_msg time_ns | Amcl_msg time_ns
  | Particles_msg "particle list" | Scan_msg laser_scan | Evaluate

definition monitor_handle ::
  "libm \<Rightarrow> (dbl \<Rightarrow> dbl) \<Rightarrow> tf_env \<Rightarrow> monitor_params \<Rightarrow> monitor_event \<Rightarrow> time_ns \<Rightarrow> monitor \<Rightarrow> monitor" where
  "monitor_handle m sq tf p e now s = (case e of
       Map_msg g \<Rightarrow> on_map g s
     | Odom_msg t \<Rightarrow> mon_on_odom t s
     | Amcl_msg t \<Rightarrow> on_amcl_pose t s
     | Particles_msg ps \<Rightarrow> on_particles sq ps s
     | Scan_msg scan \<Rightarrow> mon_on_scan m tf p scan s
     | Evaluate \<Rightarrow> mon_evaluate p now s)"

subsection \<open>Readiness is earned\<close>

text \<open>Every event but the evaluation leaves the counters, the latch and the reports alone; only the
  evaluation publishes.\<close>

definition same_latch :: "monitor \<Rightarrow> monitor \<Rightarrow> bool" where
  "same_latch s t \<longleftrightarrow> mn_healthy_cycles t = mn_healthy_cycles s \<and> mn_fault_cycles t = mn_fault_cycles s \<and>
     mn_ready t = mn_ready s \<and> mn_reports t = mn_reports s"

lemma callbacks_keep_latch:
  "same_latch s (on_map g s)" "same_latch s (mon_on_odom t s)" "same_latch s (on_amcl_pose t s)"
  "same_latch s (on_particles sq ps s)" "same_latch s (mon_on_scan m tf p scan s)"
  by (simp_all add: same_latch_def on_map_def mon_on_odom_def on_amcl_pose_def on_particles_def
      mon_on_scan_def Let_def split: option.split)

lemma handle_keeps_latch:
  "e \<noteq> Evaluate \<Longrightarrow> same_latch s (monitor_handle m sq tf p e now s)"
  by (cases e) (simp_all add: monitor_handle_def callbacks_keep_latch)

text \<open>A scan can only have been placed on a map that exists, and maps are never withdrawn.\<close>

definition placed_on_map :: "monitor \<Rightarrow> bool" where
  "placed_on_map s \<longleftrightarrow> (mn_scan_tf_valid s \<longrightarrow> mn_map s \<noteq> None)"

interpretation placing: invariant "monitor_handle m sq tf p" placed_on_map
  by unfold_locales (auto simp: monitor_handle_def placed_on_map_def on_map_def mon_on_odom_def
      on_amcl_pose_def on_particles_def mon_on_scan_def mon_evaluate_def Let_def
      split: monitor_event.split option.split)

text \<open>The evaluations of a history: the state each one found, and the clock.\<close>

fun evaluations :: "(monitor_event \<Rightarrow> time_ns \<Rightarrow> monitor \<Rightarrow> monitor) \<Rightarrow> (monitor_event \<times> time_ns) list \<Rightarrow> monitor \<Rightarrow>
    (monitor \<times> time_ns) list" where
  "evaluations h [] s = []"
| "evaluations h ((e, t) # es) s = (if e = Evaluate then [(s, t)] else []) @ evaluations h es (h e t s)"

lemma evaluations_snoc:
  "evaluations h (es @ [(e, t)]) s = evaluations h es s @ (if e = Evaluate then [(run_events h es s, t)] else [])"
  by (induction es arbitrary: s) (auto simp: run_events_def)

text \<open>What an evaluation is to check, written out: a source that never came is as old as can be.\<close>

definition fresh_enough :: "monitor_params \<Rightarrow> time_ns \<Rightarrow> time_ns option \<Rightarrow> bool" where
  "fresh_enough p now stamp \<longleftrightarrow> (case stamp of None \<Rightarrow> mp_max_data_age p = PInf
     | Some t \<Rightarrow> Fin 0 \<le> secs (now - t) \<and> secs (now - t) \<le> mp_max_data_age p)"

definition sources_complete :: "monitor_params \<Rightarrow> monitor \<times> time_ns \<Rightarrow> bool" where
  "sources_complete p = (\<lambda>(u, t). mn_amcl_stamp u \<noteq> None \<and> mn_map u \<noteq> None \<and> fresh_enough p t (mn_scan_stamp u) \<and>
     fresh_enough p t (mn_odom_stamp u) \<and> mn_scan_tf_valid u)"

definition passes :: "monitor_params \<Rightarrow> monitor \<times> time_ns \<Rightarrow> bool" where
  "passes p = (\<lambda>(u, t). sources_complete p (u, t) \<and>
     mp_min_endpoint_count p \<le> int (mn_endpoint_count u) \<and> mp_min_hit_ratio p \<le> mn_hit_ratio u \<and>
     mn_have_particles u \<and> mp_min_particles p \<le> int (mn_particle_count u) \<and> mn_spread u \<le> mp_max_spread p)"

lemma fresh_enough: "source_fresh p now stamp = fresh_enough p now stamp"
proof -
  have "PInf \<le> x \<longleftrightarrow> x = PInf" for x by (cases x) simp_all
  then show ?thesis by (simp add: source_fresh_def fresh_enough_def age_seconds_def split: option.split)
qed

lemma chain_complete: "source_chain_valid p t u = sources_complete p (u, t)"
  by (simp add: source_chain_valid_def sources_complete_def fresh_enough)

lemma candidate_passes: "placed_on_map u \<Longrightarrow> mon_candidate p t u = passes p (u, t)"
  by (auto simp: mon_candidate_def passes_def sources_complete_def fresh_enough map_alignment_def particle_ok_def placed_on_map_def)

text \<open>Readiness was earned by a run of passes, and since then failures in a row were too few.\<close>

definition earned_ready :: "monitor_params \<Rightarrow> (monitor \<times> time_ns) list \<Rightarrow> bool" where
  "earned_ready p xs \<longleftrightarrow> (\<exists>pre mid post. xs = pre @ mid @ post \<and> mp_required_healthy p \<le> int (length mid) \<and>
     (\<forall>x \<in> set mid. passes p x) \<and> (\<forall>x \<in> set post. sources_complete p x) \<and>
     (\<forall>a fs b. post = a @ fs @ b \<longrightarrow> fs \<noteq> [] \<longrightarrow> (\<forall>x \<in> set fs. \<not> passes p x) \<longrightarrow>
       int (length fs) < mp_required_fault p))"

text \<open>The counters count the passes and the failures at the end of the history.\<close>

definition monitor_inv :: "monitor_params \<Rightarrow> (monitor \<times> time_ns) list \<Rightarrow> monitor \<Rightarrow> bool" where
  "monitor_inv p xs s \<longleftrightarrow> placed_on_map s \<and> mn_healthy_cycles s = length (takeWhile (passes p) (rev xs)) \<and>
     mn_fault_cycles s = length (takeWhile (\<lambda>x. \<not> passes p x) (rev xs)) \<and> (mn_ready s \<longrightarrow> earned_ready p xs)"

lemma trailing_run: "xs = pre @ fs \<Longrightarrow> \<forall>x \<in> set fs. P x \<Longrightarrow> length fs \<le> length (takeWhile P (rev xs))"
  by (simp add: takeWhile_append)

lemma earned_start:
  assumes "mp_required_healthy p \<le> int (length (takeWhile (passes p) (rev xs)))"
  shows "earned_ready p xs"
proof -
  let ?m = "rev (takeWhile (passes p) (rev xs))" and ?n = "rev (dropWhile (passes p) (rev xs))"
  have "xs = ?n @ ?m @ []" by (metis append_Nil2 rev_append rev_rev_ident takeWhile_dropWhile_id)
  moreover have "\<forall>x \<in> set ?m. passes p x" by (auto dest: set_takeWhileD)
  ultimately show ?thesis using assms unfolding earned_ready_def
    by (intro exI [of _ ?n] exI [of _ ?m] exI [of _ "[]"]) simp
qed

lemma earned_step:
  assumes "earned_ready p xs" "sources_complete p x"
    and few: "int (length (takeWhile (\<lambda>x. \<not> passes p x) (rev (xs @ [x])))) < mp_required_fault p"
  shows "earned_ready p (xs @ [x])"
proof -
  obtain pre mid post where e: "xs = pre @ mid @ post" "mp_required_healthy p \<le> int (length mid)" "\<forall>y \<in> set mid. passes p y"
    "\<forall>y \<in> set post. sources_complete p y"
    "\<And>a fs b. post = a @ fs @ b \<Longrightarrow> fs \<noteq> [] \<Longrightarrow> \<forall>y \<in> set fs. \<not> passes p y \<Longrightarrow> int (length fs) < mp_required_fault p"
    using assms(1) unfolding earned_ready_def by blast
  have "int (length fs) < mp_required_fault p"
    if "post @ [x] = a @ fs @ b" "fs \<noteq> []" "\<forall>y \<in> set fs. \<not> passes p y" for a fs b
  proof (cases b rule: rev_cases)
    case Nil
    then have "xs @ [x] = (pre @ mid @ a) @ fs" using that(1) e(1) by simp
    from trailing_run [OF this that(3)] few show ?thesis by linarith
  next
    case (snoc c y)
    then have "post = a @ fs @ c" using that(1) by simp
    then show ?thesis using e(5) that by blast
  qed
  then show ?thesis using e assms(2) unfolding earned_ready_def
    by (intro exI [of _ pre] exI [of _ mid] exI [of _ "post @ [x]"]) auto
qed

lemma evaluate_counts:
  assumes "monitor_inv p xs s"
  shows "mn_healthy_cycles (mon_evaluate p now s) = length (takeWhile (passes p) (rev (xs @ [(s, now)])))"
    "mn_fault_cycles (mon_evaluate p now s) = length (takeWhile (\<lambda>x. \<not> passes p x) (rev (xs @ [(s, now)])))"
  using assms candidate_passes [of s p now] by (simp_all add: monitor_inv_def mon_evaluate_def Let_def)

lemma evaluate_earned:
  assumes "monitor_inv p xs s" "mn_ready (mon_evaluate p now s)"
  shows "sources_complete p (s, now) \<and> earned_ready p (xs @ [(s, now)])"
proof -
  let ?s = "mon_evaluate p now s"
  have l: "mn_ready ?s = latch p (source_chain_valid p now s) (mn_healthy_cycles ?s) (mn_fault_cycles ?s) (mn_ready s)"
    by (simp add: mon_evaluate_def Let_def)
  then have c: "sources_complete p (s, now)" using assms(2) by (auto simp: latch_def chain_complete split: if_splits)
  show ?thesis
  proof (cases "mn_ready s")
    case True
    then have "int (mn_fault_cycles ?s) < mp_required_fault p" using l assms(2) by (auto simp: latch_def split: if_splits)
    then show ?thesis using c earned_step [OF _ c, of xs] True assms(1) unfolding evaluate_counts [OF assms(1)]
      by (simp add: monitor_inv_def)
  next
    case False
    then have "mp_required_healthy p \<le> int (mn_healthy_cycles ?s)" using l assms(2) by (auto simp: latch_def split: if_splits)
    then show ?thesis using c earned_start [of p "xs @ [(s, now)]"] unfolding evaluate_counts [OF assms(1)] by simp
  qed
qed

lemma monitor_inv_evaluate:
  assumes "monitor_inv p xs s"
  shows "monitor_inv p (xs @ [(s, t)]) (mon_evaluate p t s)"
proof -
  have "placed_on_map (mon_evaluate p t s)" using assms by (simp add: monitor_inv_def placed_on_map_def mon_evaluate_def Let_def)
  then show ?thesis unfolding monitor_inv_def using evaluate_counts [OF assms] evaluate_earned [OF assms] by metis
qed

lemma monitor_inv_run:
  "monitor_inv p (evaluations (monitor_handle m sq tf p) es monitor_init) (run_events (monitor_handle m sq tf p) es monitor_init)"
proof (induction es rule: rev_induct)
  case Nil
  show ?case by (simp add: monitor_inv_def monitor_init_def placed_on_map_def)
next
  case (snoc x es)
  obtain e t where x: "x = (e, t)" by (cases x)
  let ?s = "run_events (monitor_handle m sq tf p) es monitor_init"
  show ?case
  proof (cases "e = Evaluate")
    case True
    have "monitor_handle m sq tf p Evaluate t ?s = mon_evaluate p t ?s" by (simp add: monitor_handle_def)
    then show ?thesis using monitor_inv_evaluate [OF snoc, of t] by (simp add: x evaluations_snoc True)
  next
    case False
    have "placed_on_map (monitor_handle m sq tf p e t ?s)" using snoc by (intro placing.step) (simp add: monitor_inv_def)
    then show ?thesis using snoc handle_keeps_latch [OF False, of ?s m sq tf p t]
      by (simp add: monitor_inv_def x evaluations_snoc False same_latch_def)
  qed
qed

text \<open>C17. The latch of the localisation is earned and kept honestly: when, after any history of messages, the timer publishes
  ready, then at that moment the initial pose and the map have arrived, the scan and the odometry are fresh and the scan could be
  placed in the map. The evaluations of the history end in a run of at least \<open>required_healthy_cycles\<close> that all passed every
  check (besides the above: enough end points, the share of them that meet the map, enough particles, and their spread),
  followed only by evaluations with complete sources of which fewer than \<open>required_fault_cycles\<close> in a row failed.\<close>

theorem ready_is_earned:
  assumes "s = run_events (monitor_handle m sq tf p) es monitor_init"
    and "mr_ready (List.last (mn_reports (monitor_handle m sq tf p Evaluate now s)))"
  shows "sources_complete p (s, now) \<and>
    earned_ready p (evaluations (monitor_handle m sq tf p) (es @ [(Evaluate, now)]) monitor_init)"
proof -
  have "mn_ready (mon_evaluate p now s)" using assms(2) by (simp add: monitor_handle_def mon_evaluate_def Let_def)
  then show ?thesis using evaluate_earned [OF monitor_inv_run] assms(1) by (simp add: evaluations_snoc)
qed

text \<open>One beam that meets a wall, one particle, one evaluation required.\<close>

definition watch_params :: monitor_params where
  "watch_params = default_params\<lparr>mp_max_data_age := Fin 1, mp_min_endpoint_count := 1, mp_min_hit_ratio := Fin 1,
     mp_match_radius := Fin 1, mp_min_particles := 1, mp_max_spread := Fin 1, mp_required_healthy := 1, mp_scan_stride := 1\<rparr>"

definition watch_map :: occupancy_grid where
  "watch_map = \<lparr>og_frame = ''map'', og_resolution = Fin 1, og_origin_x = Fin 0, og_origin_y = Fin 0,
     og_width = 2, og_height = 1, og_data = [0, 100]\<rparr>"

definition watch_scan :: laser_scan where
  "watch_scan = \<lparr>sc_frame = ''laser'', sc_stamp = 1, sc_angle_min = Fin 0, sc_angle_increment = Fin 0,
     sc_range_min = Fin 0, sc_range_max = Fin 8, sc_ranges = [Fin 1]\<rparr>"

definition watch_particle :: particle where
  "watch_particle = \<lparr>pt_x = Fin 1, pt_y = Fin 1, pt_weight = Fin 1\<rparr>"

definition watch_history :: "(monitor_event \<times> time_ns) list" where
  "watch_history = [(Map_msg watch_map, 1), (Amcl_msg 1, 1), (Odom_msg 1, 1), (Particles_msg [watch_particle], 1),
     (Scan_msg watch_scan, 1)]"

definition watch_libm :: libm where
  "watch_libm = \<lparr>m_sin = (\<lambda>_. Fin 0), m_cos = (\<lambda>_. Fin 1), m_atan2 = (\<lambda>_ _. Fin 0), m_hypot = (\<lambda>_ _. Fin 0)\<rparr>"

definition watch_sqrt :: "dbl \<Rightarrow> dbl" where
  "watch_sqrt x = x"

definition watch_state :: monitor where
  "watch_state = run_events (monitor_handle watch_libm watch_sqrt demo_tf watch_params) watch_history monitor_init"

lemma watch_spread: "particle_spread watch_sqrt [watch_particle] = Fin 0"
  by code_simp

lemma watch_ends: "scan_endpoints watch_params watch_scan = [(0, Fin 1)]"
  by code_simp

lemma watch_hit: "occupied_near watch_params (Some watch_map) (Fin 1) (Fin 0)"
  by code_simp

lemma watch_beam: "beam_end watch_libm demo_tf demo_transform watch_scan 0 (Fin 1) = (Fin 1, Fin 0)"
proof -
  have f: "fl 1 = Fin 1" "fl 0 = Fin 0" by (code_simp, code_simp)
  show ?thesis by (simp add: beam_end_def watch_libm_def demo_tf_def demo_transform_def f Let_def)
qed

lemma watch_state: "watch_state = monitor_init\<lparr>mn_map := Some watch_map, mn_scan_stamp := Some 1,
   mn_odom_stamp := Some 1, mn_amcl_stamp := Some 1, mn_have_particles := True, mn_scan_tf_valid := True,
   mn_endpoint_count := 1, mn_hit_ratio := Fin 1, mn_particle_count := 1, mn_spread := Fin 0\<rparr>"
proof -
  have d: "i2d 1 / i2d 1 = Fin 1" by code_simp
  have n: "sc_frame watch_scan \<noteq> []" "sc_stamp watch_scan = 1"
    by (simp_all add: watch_scan_def)
  have l: "tf_lookup demo_tf a b c = Some demo_transform" for a b c by (simp add: demo_tf_def)
  have "mon_on_scan watch_libm demo_tf watch_params watch_scan s = s\<lparr>mn_scan_stamp := Some 1, mn_scan_tf_valid := True,
      mn_endpoint_count := 1, mn_hit_ratio := Fin 1\<rparr>" if "mn_map s = Some watch_map" for s
    using that d by (simp add: mon_on_scan_def n l watch_ends watch_beam watch_hit Let_def)
  then show ?thesis
    by (simp add: watch_state_def watch_history_def run_events_def monitor_handle_def on_map_def mon_on_odom_def
        on_amcl_pose_def on_particles_def watch_spread)
qed

lemma watch_ready: "mn_ready (mon_evaluate watch_params 2 watch_state)"
proof -
  have a: "Fin 0 \<le> secs 1" "secs 1 \<le> Fin 1" by (code_simp, code_simp)
  show ?thesis
    by (simp add: watch_state mon_evaluate_def latch_def mon_candidate_def source_chain_valid_def source_fresh_def
        age_seconds_def map_alignment_def particle_ok_def watch_params_def a Let_def monitor_init_def)
qed

lemma watch_published: "mr_ready (List.last (mn_reports (monitor_handle watch_libm watch_sqrt demo_tf watch_params Evaluate 2 watch_state)))"
  using watch_ready by (simp add: monitor_handle_def mon_evaluate_def Let_def)

theorem ready_is_earned_witness:
  "sources_complete watch_params (watch_state, 2) \<and> earned_ready watch_params
     (evaluations (monitor_handle watch_libm watch_sqrt demo_tf watch_params) (watch_history @ [(Evaluate, 2)]) monitor_init)"
  by (rule ready_is_earned [OF watch_state_def watch_published])

end
