(* ===== verification/Localization_Recovery.thy ===== *)
theory Localization_Recovery
  imports Recovery_Nodes
begin

text \<open>
  The leaves of \<open>carcar_nav_bt_nodes.cpp\<close> that wait for the localisation and restore it:
  \<open>WaitForLocalizationStatus\<close>, \<open>LocalizationHealthy\<close> and \<open>RecoverLocalization\<close>. The services of AMCL
  are the environment: whether they are ready and whether an outstanding request has been answered
  is an argument of the tick (\<open>service_env\<close>), and the requests sent are recorded in \<open>rl_sent\<close>. A request
  is answered after the tick that sent it. An outstanding request is the time it was sent at.
\<close>

subsection \<open>Waiting\<close>

record wait_leaf =
  wl_timeout :: dbl
  wl_deadline :: time_ns

definition wait_init :: "dbl option \<Rightarrow> wait_leaf" where
  "wait_init timeout_port = \<lparr>wl_timeout = port timeout_port (Fin 2), wl_deadline = 0\<rparr>"

definition wait_evaluate :: "clocks \<Rightarrow> wait_leaf \<Rightarrow> runtime \<Rightarrow> node_status" where
  "wait_evaluate t l r =
     (if health_fresh (rt_ready r) (Fin 1) (ck_steady t)
      then if hs_value (rt_ready r) then SUCCESS else FAILURE
      else if wl_deadline l \<le> ck_steady t then FAILURE else RUNNING)"

definition wait_start :: "dbl option \<Rightarrow> clocks \<Rightarrow> wait_leaf \<Rightarrow> runtime \<Rightarrow> node_status \<times> wait_leaf" where
  "wait_start timeout_port t l r =
     (let l = l\<lparr>wl_timeout := port timeout_port (wl_timeout l)\<rparr> in
      if \<not> isfinite (wl_timeout l) \<or> wl_timeout l \<le> Fin 0 then (FAILURE, l)
      else let l = l\<lparr>wl_deadline := after (ck_steady t) (wl_timeout l)\<rparr> in (wait_evaluate t l r, l))"

definition localization_healthy :: "clocks \<Rightarrow> runtime \<Rightarrow> node_status" where
  "localization_healthy t r = (if healthy (ck_steady t) r then SUCCESS else FAILURE)"

subsection \<open>Restoring\<close>

datatype service_call = Nomotion_update | Global_localization

record service_env =
  se_nomotion_ready :: bool
  se_global_ready :: bool
  se_nomotion_done :: bool
  se_global_done :: bool

record recover_leaf =
  rl_nomotion_pending :: "time_ns option"
  rl_global_pending :: "time_ns option"
  rl_local_deadline :: time_ns
  rl_global_deadline :: time_ns
  rl_last_nomotion :: time_ns
  rl_local_timeout :: dbl
  rl_global_timeout :: dbl
  rl_global_requested :: bool
  rl_sent :: "(time_ns \<times> service_call) list"

definition recover_init :: recover_leaf where
  "recover_init = \<lparr>rl_nomotion_pending = None, rl_global_pending = None, rl_local_deadline = 0,
     rl_global_deadline = 0, rl_last_nomotion = 0, rl_local_timeout = Fin 10, rl_global_timeout = Fin 20,
     rl_global_requested = False, rl_sent = []\<rparr>"

definition reap :: "bool \<Rightarrow> time_ns \<Rightarrow> time_ns option \<Rightarrow> time_ns option" where
  "reap done now pending = (case pending of
       None \<Rightarrow> None
     | Some sent \<Rightarrow> if done \<or> Fin 1 < secs (now - sent) then None else Some sent)"

definition reap_requests :: "bool \<Rightarrow> bool \<Rightarrow> time_ns \<Rightarrow> recover_leaf \<Rightarrow> recover_leaf" where
  "reap_requests nomotion_done global_done now l =
     l\<lparr>rl_nomotion_pending := reap nomotion_done now (rl_nomotion_pending l),
       rl_global_pending := reap global_done now (rl_global_pending l)\<rparr>"

definition request_nomotion_update :: "service_env \<Rightarrow> bool \<Rightarrow> bool \<Rightarrow> time_ns \<Rightarrow> recover_leaf \<Rightarrow> recover_leaf" where
  "request_nomotion_update e nomotion_done global_done now l =
     (let l = reap_requests nomotion_done global_done now (l\<lparr>rl_last_nomotion := now\<rparr>)
      in if rl_nomotion_pending l = None \<and> se_nomotion_ready e
         then l\<lparr>rl_nomotion_pending := Some now, rl_sent := rl_sent l @ [(now, Nomotion_update)]\<rparr> else l)"

definition request_global_localization :: "service_env \<Rightarrow> time_ns \<Rightarrow> recover_leaf \<Rightarrow> recover_leaf" where
  "request_global_localization e now l =
     (let l = reap_requests False False now l
      in if rl_global_pending l = None \<and> se_global_ready e
         then l\<lparr>rl_global_pending := Some now, rl_sent := rl_sent l @ [(now, Global_localization)]\<rparr> else l)"

definition clear_requests :: "recover_leaf \<Rightarrow> recover_leaf" where
  "clear_requests l = l\<lparr>rl_nomotion_pending := None, rl_global_pending := None\<rparr>"

definition recovery_permitted :: "time_ns \<Rightarrow> runtime \<Rightarrow> bool" where
  "recovery_permitted now r = health_ok (rt_recovery_allowed r) (Fin 1) now"

definition recover_start ::
  "service_env \<Rightarrow> dbl option \<Rightarrow> dbl option \<Rightarrow> clocks \<Rightarrow> recover_leaf \<Rightarrow> runtime \<Rightarrow> node_status \<times> recover_leaf" where
  "recover_start e local_port global_port t l r =
     (let now = ck_steady t in
      if healthy now r then (SUCCESS, l)
      else if \<not> recovery_permitted now r then (FAILURE, l)
      else let l = l\<lparr>rl_local_timeout := port local_port (rl_local_timeout l),
                 rl_global_timeout := port global_port (rl_global_timeout l)\<rparr>
           in if \<not> isfinite (rl_local_timeout l) \<or> \<not> isfinite (rl_global_timeout l)
                \<or> rl_local_timeout l \<le> Fin 0 \<or> Fin 10 < rl_local_timeout l
                \<or> rl_global_timeout l \<le> Fin 0 \<or> Fin 20 < rl_global_timeout l
              then (FAILURE, l)
              else (RUNNING, request_nomotion_update e (se_nomotion_done e) (se_global_done e) now
                (l\<lparr>rl_global_requested := False, rl_local_deadline := after now (rl_local_timeout l)\<rparr>)))"

definition recover_running ::
  "service_env \<Rightarrow> clocks \<Rightarrow> recover_leaf \<Rightarrow> runtime \<Rightarrow> node_status \<times> recover_leaf" where
  "recover_running e t l r =
     (let now = ck_steady t; l = reap_requests (se_nomotion_done e) (se_global_done e) now l in
      if healthy now r then (SUCCESS, l)
      else if \<not> recovery_permitted now r then (FAILURE, l)
      else if \<not> rl_global_requested l \<and> rl_local_deadline l \<le> now
      then (RUNNING, request_nomotion_update e False False now (request_global_localization e now
        (l\<lparr>rl_global_requested := True, rl_global_deadline := after now (rl_global_timeout l)\<rparr>)))
      else if rl_global_requested l \<and> rl_global_deadline l \<le> now then (FAILURE, l)
      else if fl 0.5 \<le> secs (now - rl_last_nomotion l)
      then (RUNNING, request_nomotion_update e False False now l)
      else (RUNNING, l))"

definition recover_halted :: "recover_leaf \<Rightarrow> recover_leaf" where
  "recover_halted l = clear_requests l"

subsection \<open>One activation\<close>

text \<open>The tree starts the leaf once and ticks it until it stops running.\<close>

type_synonym recover_tick = "service_env \<times> clocks \<times> runtime"

fun tick_time :: "recover_tick \<Rightarrow> time_ns" where
  "tick_time (e, t, r) = ck_steady t"

fun recover_ticks :: "recover_tick list \<Rightarrow> recover_leaf \<Rightarrow> node_status \<times> recover_leaf" where
  "recover_ticks [] l = (RUNNING, l)"
| "recover_ticks ((e, t, r) # ts) l = (case recover_running e t l r of (st, l') \<Rightarrow>
     if st = RUNNING then recover_ticks ts l' else (st, l'))"

definition global_calls :: "(time_ns \<times> service_call) list \<Rightarrow> time_ns list" where
  "global_calls calls = map fst (filter (\<lambda>c. snd c = Global_localization) calls)"

lemma global_calls_append [simp]: "global_calls (a @ b) = global_calls a @ global_calls b"
  by (simp add: global_calls_def)

lemma global_calls_nomotion [simp]: "global_calls [(t, Nomotion_update)] = []" "global_calls [] = []"
  by (simp_all add: global_calls_def)

lemma reap_keeps [simp]:
  "rl_local_deadline (reap_requests a b now l) = rl_local_deadline l"
  "rl_global_deadline (reap_requests a b now l) = rl_global_deadline l"
  "rl_local_timeout (reap_requests a b now l) = rl_local_timeout l"
  "rl_global_timeout (reap_requests a b now l) = rl_global_timeout l"
  "rl_global_requested (reap_requests a b now l) = rl_global_requested l"
  "rl_last_nomotion (reap_requests a b now l) = rl_last_nomotion l"
  "rl_sent (reap_requests a b now l) = rl_sent l"
  by (simp_all add: reap_requests_def)

lemma nomotion_keeps [simp]:
  "rl_local_deadline (request_nomotion_update e a b now l) = rl_local_deadline l"
  "rl_global_deadline (request_nomotion_update e a b now l) = rl_global_deadline l"
  "rl_local_timeout (request_nomotion_update e a b now l) = rl_local_timeout l"
  "rl_global_timeout (request_nomotion_update e a b now l) = rl_global_timeout l"
  "rl_global_requested (request_nomotion_update e a b now l) = rl_global_requested l"
  "global_calls (rl_sent (request_nomotion_update e a b now l)) = global_calls (rl_sent l)"
  by (simp_all add: request_nomotion_update_def Let_def)

lemma global_keeps [simp]:
  "rl_local_deadline (request_global_localization e now l) = rl_local_deadline l"
  "rl_global_deadline (request_global_localization e now l) = rl_global_deadline l"
  "rl_global_timeout (request_global_localization e now l) = rl_global_timeout l"
  "rl_global_requested (request_global_localization e now l) = rl_global_requested l"
  by (simp_all add: request_global_localization_def Let_def)

lemma global_call:
  "global_calls (rl_sent (request_global_localization e now l)) = global_calls (rl_sent l) \<or>
   global_calls (rl_sent (request_global_localization e now l)) = global_calls (rl_sent l) @ [now]"
  by (simp add: request_global_localization_def global_calls_def Let_def)

text \<open>What one tick does to the deadlines, the flag and the requests.\<close>

lemma recover_running_keeps:
  assumes "recover_running e t l r = (st, l')"
  shows "rl_local_deadline l' = rl_local_deadline l" "rl_global_timeout l' = rl_global_timeout l"
  using assms by (auto simp: recover_running_def Let_def split: if_splits)

lemma recover_running_cases:
  assumes "recover_running e t l r = (RUNNING, l')"
  obtains (local) "\<not> rl_global_requested l" "ck_steady t < rl_local_deadline l" "\<not> rl_global_requested l'"
    | (request) "\<not> rl_global_requested l" "rl_local_deadline l \<le> ck_steady t" "rl_global_requested l'"
        "rl_global_deadline l' = after (ck_steady t) (rl_global_timeout l)"
    | (global) "rl_global_requested l" "ck_steady t < rl_global_deadline l" "rl_global_requested l'"
        "rl_global_deadline l' = rl_global_deadline l"
  using assms by (cases "rl_global_requested l") (auto simp: recover_running_def Let_def not_le split: if_splits)

lemma recover_running_calls:
  assumes "recover_running e t l r = (st, l')"
  shows "global_calls (rl_sent l') = global_calls (rl_sent l) \<or>
    (\<not> rl_global_requested l \<and> rl_global_requested l' \<and> rl_local_deadline l \<le> ck_steady t \<and>
     recovery_permitted (ck_steady t) r \<and> global_calls (rl_sent l') = global_calls (rl_sent l) @ [ck_steady t])"
proof -
  note g = global_call [of e "ck_steady t" "(reap_requests (se_nomotion_done e) (se_global_done e) (ck_steady t) l)
    \<lparr>rl_global_requested := True, rl_global_deadline := after (ck_steady t) (rl_global_timeout l)\<rparr>"]
  show ?thesis using assms g by (auto simp: recover_running_def Let_def split: if_splits)
qed

lemma recover_running_requested:
  "recover_running e t l r = (st, l') \<Longrightarrow> rl_global_requested l \<Longrightarrow> rl_global_requested l'"
  by (auto simp: recover_running_def Let_def split: if_splits)

lemma recover_success: "recover_running e t l r = (SUCCESS, l') \<Longrightarrow> healthy (ck_steady t) r"
  by (auto simp: recover_running_def Let_def split: if_splits)

subsection \<open>The run of ticks\<close>

lemma requested_before_deadline:
  assumes "recover_ticks ts l = (RUNNING, l')" "rl_global_requested l" "x \<in> set ts"
  shows "tick_time x < rl_global_deadline l"
  using assms
proof (induction ts arbitrary: l)
  case (Cons y ts)
  obtain e t r where y: "y = (e, t, r)" by (metis surj_pair)
  obtain st k where k: "recover_running e t l r = (st, k)" by (metis surj_pair)
  with Cons.prems(1) y have st: "st = RUNNING" "recover_ticks ts k = (RUNNING, l')"
    by (auto split: if_splits)
  from k [unfolded st(1)] show ?case
    by (cases rule: recover_running_cases) (use Cons.prems(2,3) Cons.IH [OF st(2)] y in auto)
qed simp

lemma run_within_budget:
  assumes "recover_ticks ts l = (RUNNING, l')" "sorted (map tick_time ts)" "i < j" "j < length ts"
    and "rl_local_deadline l \<le> tick_time (ts ! i)"
    and "rl_global_requested l \<longrightarrow> rl_global_deadline l \<le> after (tick_time (ts ! i)) (rl_global_timeout l)"
  shows "tick_time (ts ! j) < after (tick_time (ts ! i)) (rl_global_timeout l)"
  using assms
proof (induction ts arbitrary: l i j)
  case (Cons y ts)
  obtain e t r where y: "y = (e, t, r)" by (metis surj_pair)
  obtain st k where k: "recover_running e t l r = (st, k)" by (metis surj_pair)
  with Cons.prems(1) y have st: "st = RUNNING" and run: "recover_ticks ts k = (RUNNING, l')"
    by (auto split: if_splits)
  note keep = recover_running_keeps [OF k]
  obtain j' where j: "j = Suc j'" "j' < length ts" using Cons.prems(3,4) by (cases j) auto
  then have jt: "ts ! j' \<in> set ts" by simp
  show ?case
  proof (cases i)
    case 0
    from k [unfolded st] show ?thesis
      by (cases rule: recover_running_cases)
        (use 0 j y Cons.prems(5,6) requested_before_deadline [OF run _ jt] in auto)
  next
    case (Suc i')
    have i: "i' < j'" "rl_local_deadline k \<le> tick_time (ts ! i')" "sorted (map tick_time ts)"
      using Suc j Cons.prems by (auto simp: keep)
    have le: "tick_time y \<le> tick_time (ts ! i')" using Cons.prems(2) i(1) j by auto
    have "rl_global_requested k \<longrightarrow> rl_global_deadline k \<le> after (tick_time (ts ! i')) (rl_global_timeout k)"
      using k [unfolded st] by (cases rule: recover_running_cases)
        (use Suc y le Cons.prems(6) in \<open>auto simp: keep after_def\<close>)
    from Cons.IH [OF run i(3,1) j(2) i(2) this] show ?thesis by (simp add: Suc j keep)
  qed
qed simp

lemma run_calls:
  assumes "recover_ticks ts l = (st, l')"
  shows "\<exists>new. global_calls (rl_sent l') = global_calls (rl_sent l) @ new \<and> (rl_global_requested l \<longrightarrow> new = []) \<and>
    length new \<le> 1 \<and> (\<forall>now \<in> set new. rl_local_deadline l \<le> now \<and>
      (\<exists>(e, t, r) \<in> set ts. ck_steady t = now \<and> recovery_permitted now r))"
  using assms
proof (induction ts arbitrary: l)
  case (Cons y ts)
  obtain e t r where y: "y = (e, t, r)" by (metis surj_pair)
  obtain st1 k where k: "recover_running e t l r = (st1, k)" by (metis surj_pair)
  have later: "\<exists>new. global_calls (rl_sent l') = global_calls (rl_sent k) @ new \<and> (rl_global_requested k \<longrightarrow> new = []) \<and>
    length new \<le> 1 \<and> (\<forall>now \<in> set new. rl_local_deadline l \<le> now \<and>
      (\<exists>(e, t, r) \<in> set (y # ts). ck_steady t = now \<and> recovery_permitted now r))"
  proof (cases "st1 = RUNNING")
    case True
    then have "recover_ticks ts k = (st, l')" using Cons.prems y k by simp
    from Cons.IH [OF this] recover_running_keeps(1) [OF k] show ?thesis by auto
  next
    case False
    then show ?thesis using Cons.prems y k by (intro exI [of _ "[]"]) auto
  qed
  from recover_running_calls [OF k] show ?case
  proof
    assume "global_calls (rl_sent k) = global_calls (rl_sent l)"
    with later recover_running_requested [OF k] show ?thesis by auto
  next
    assume n: "\<not> rl_global_requested l \<and> rl_global_requested k \<and> rl_local_deadline l \<le> ck_steady t \<and>
     recovery_permitted (ck_steady t) r \<and> global_calls (rl_sent k) = global_calls (rl_sent l) @ [ck_steady t]"
    with later have "global_calls (rl_sent l') = global_calls (rl_sent l) @ [ck_steady t]" by auto
    with n y show ?thesis by (intro exI [of _ "[ck_steady t]"]) auto
  qed
qed simp

lemma run_success:
  "recover_ticks ts l = (SUCCESS, l') \<Longrightarrow> \<exists>(e, t, r) \<in> set ts. healthy (ck_steady t) r"
proof (induction ts arbitrary: l)
  case (Cons y ts)
  obtain e t r where y: "y = (e, t, r)" by (metis surj_pair)
  obtain st1 k where k: "recover_running e t l r = (st1, k)" by (metis surj_pair)
  with Cons y recover_success [of e t l r] show ?case by (auto split: if_splits)
qed simp

text \<open>One activation of the leaf, from its start.\<close>

definition recover_activation ::
  "dbl option \<Rightarrow> dbl option \<Rightarrow> recover_tick \<Rightarrow> recover_tick list \<Rightarrow> recover_leaf \<Rightarrow> node_status \<times> recover_leaf" where
  "recover_activation local_port global_port first ts l = (case first of (e, t, r) \<Rightarrow>
     (case recover_start e local_port global_port t l r of (st, l') \<Rightarrow>
        if st = RUNNING then recover_ticks ts l' else (st, l')))"

lemma finite_not_above: "isfinite x \<Longrightarrow> \<not> Fin b < x \<Longrightarrow> x \<le> Fin b"
  by (auto simp: isfinite_iff)

lemma recover_start_cases:
  assumes "recover_start e lp gp t l r = (st, l')"
  obtains "st = SUCCESS" "l' = l" "healthy (ck_steady t) r"
    | "st = FAILURE" "rl_sent l' = rl_sent l"
    | "st = RUNNING" "\<not> rl_global_requested l'" "global_calls (rl_sent l') = global_calls (rl_sent l)"
      "rl_local_timeout l' = port lp (rl_local_timeout l)" "rl_global_timeout l' = port gp (rl_global_timeout l)"
      "rl_local_timeout l' \<le> Fin 10" "rl_global_timeout l' \<le> Fin 20"
      "rl_local_deadline l' = after (ck_steady t) (rl_local_timeout l')"
  using assms finite_not_above [of "port lp (rl_local_timeout l)" 10] finite_not_above [of "port gp (rl_global_timeout l)" 20]
  by (auto simp: recover_start_def Let_def split: if_splits)

lemma recover_activation_running:
  assumes "recover_activation lp gp first ts l = (RUNNING, l')"
  obtains k where "recover_ticks ts k = (RUNNING, l')" "\<not> rl_global_requested k"
    "rl_local_deadline k = after (tick_time first) (port lp (rl_local_timeout l))"
    "rl_global_timeout k = port gp (rl_global_timeout l)"
    "port lp (rl_local_timeout l) \<le> Fin 10" "port gp (rl_global_timeout l) \<le> Fin 20"
proof -
  obtain e t r where y: "first = (e, t, r)" by (metis surj_pair)
  obtain st k where k: "recover_start e lp gp t l r = (st, k)" by (metis surj_pair)
  with assms y have st: "st = RUNNING" "recover_ticks ts k = (RUNNING, l')"
    by (auto simp: recover_activation_def split: if_splits)
  from k [unfolded st(1)] show ?thesis
    by (cases rule: recover_start_cases) (use that [OF st(2)] y in auto)
qed

text \<open>C29. The leaf that restores the localisation asks AMCL to scatter its estimate at most once in an
  activation, only when the budget of the stationary update is spent and while the sensor chain
  permits recovery, and it reports success only when a tick found the localisation healthy.\<close>

theorem relocalisation_once:
  assumes "recover_activation lp gp first ts l = (st, l')"
  shows "(\<exists>new. global_calls (rl_sent l') = global_calls (rl_sent l) @ new \<and> length new \<le> 1 \<and>
      (\<forall>now \<in> set new. after (tick_time first) (port lp (rl_local_timeout l)) \<le> now \<and>
        (\<exists>(e, t, r) \<in> set ts. ck_steady t = now \<and> recovery_permitted now r))) \<and>
    (st = SUCCESS \<longrightarrow> (\<exists>(e, t, r) \<in> set (first # ts). healthy (ck_steady t) r))"
proof -
  obtain e t r where y: "first = (e, t, r)" by (metis surj_pair)
  obtain st1 k where k: "recover_start e lp gp t l r = (st1, k)" by (metis surj_pair)
  then show ?thesis
  proof (cases rule: recover_start_cases)
    case 3
    then have run: "recover_ticks ts k = (st, l')" using assms y k by (simp add: recover_activation_def)
    show ?thesis using run_calls [OF run] run_success [of ts k l'] run 3(3,4,8) y by auto
  qed (use assms y k in \<open>auto simp: recover_activation_def\<close>)
qed

text \<open>C30. Restoring the localisation ends: with the budgets the leaf accepts, at most 10 s and 20 s, a
  tick more than the global budget after any tick that found the local budget spent does not leave
  the leaf running.\<close>

theorem relocalisation_bounded:
  assumes "recover_activation lp gp first ts l = (RUNNING, l')"
    and "sorted (map tick_time ts)" "i < j" "j < length ts"
    and "after (tick_time first) (port lp (rl_local_timeout l)) \<le> tick_time (ts ! i)"
  shows "tick_time (ts ! j) < after (tick_time (ts ! i)) (port gp (rl_global_timeout l)) \<and>
    port lp (rl_local_timeout l) \<le> Fin 10 \<and> port gp (rl_global_timeout l) \<le> Fin 20"
proof -
  obtain k where k: "recover_ticks ts k = (RUNNING, l')" "\<not> rl_global_requested k"
    "rl_local_deadline k = after (tick_time first) (port lp (rl_local_timeout l))"
    "rl_global_timeout k = port gp (rl_global_timeout l)"
    "port lp (rl_local_timeout l) \<le> Fin 10" "port gp (rl_global_timeout l) \<le> Fin 20"
    using recover_activation_running [OF assms(1)] .
  from run_within_budget [OF k(1) assms(2,3,4)] k assms(5) show ?thesis by simp
qed

text \<open>A budget of one second each, with the services ready.\<close>

definition allowed_tick :: "time_ns \<Rightarrow> recover_tick" where
  "allowed_tick now = (\<lparr>se_nomotion_ready = True, se_global_ready = True, se_nomotion_done = False,
     se_global_done = False\<rparr>, \<lparr>ck_ros = now, ck_steady = now\<rparr>, on_recovery_allowed True now runtime_init)"

definition healthy_tick :: "time_ns \<Rightarrow> recover_tick" where
  "healthy_tick now = (case allowed_tick now of (e, t, r) \<Rightarrow> (e, t, on_ready True now r))"

definition second_port :: "dbl option" where
  "second_port = Some (Fin 1)"

lemma relocalisation_facts:
  "after now (Fin 1) = now + 1000000000" "health_ok \<lparr>hs_received = True, hs_value = True, hs_received_at = 1\<rparr> (Fin 1) 1"
  "recovery_permitted 1000000001 (on_recovery_allowed True 1000000001 runtime_init)"
  "recovery_permitted 1000000002 (on_recovery_allowed True 1000000002 runtime_init)"
  "recovery_permitted 1 (on_recovery_allowed True 1 runtime_init)"
  "healthy 1000000002 (on_ready True 1000000002 (on_recovery_allowed True 1000000002 runtime_init))"
  "\<not> healthy now (on_recovery_allowed True now runtime_init)"
proof -
  have s: "secs 0 \<le> Fin 1" by code_simp
  have a: "trunc (val (Fin 1 * Fin 1000000000)) = 1000000000" by code_simp
  show "after now (Fin 1) = now + 1000000000" by (simp only: after_def a)
  show "health_ok \<lparr>hs_received = True, hs_value = True, hs_received_at = 1\<rparr> (Fin 1) 1"
    "recovery_permitted 1000000001 (on_recovery_allowed True 1000000001 runtime_init)"
    "recovery_permitted 1000000002 (on_recovery_allowed True 1000000002 runtime_init)"
    "recovery_permitted 1 (on_recovery_allowed True 1 runtime_init)"
    "healthy 1000000002 (on_ready True 1000000002 (on_recovery_allowed True 1000000002 runtime_init))"
    "\<not> healthy now (on_recovery_allowed True now runtime_init)"
    using s by (simp_all add: health_ok_def health_fresh_def recovery_permitted_def on_recovery_allowed_def
        on_ready_def healthy_def runtime_init_def health_init_def)
qed

definition relocalisation :: "recover_tick \<Rightarrow> node_status \<times> recover_leaf" where
  "relocalisation final = recover_activation second_port second_port (allowed_tick 1)
     [allowed_tick 1000000001, final] recover_init"

lemma relocalisation_runs:
  "fst (relocalisation (allowed_tick 1000000002)) = RUNNING"
  "fst (relocalisation (healthy_tick 1000000002)) = SUCCESS"
  "global_calls (rl_sent (snd (relocalisation (healthy_tick 1000000002)))) = [1000000001]"
proof -
  show "fst (relocalisation (allowed_tick 1000000002)) = RUNNING"
    "fst (relocalisation (healthy_tick 1000000002)) = SUCCESS"
    "global_calls (rl_sent (snd (relocalisation (healthy_tick 1000000002)))) = [1000000001]"
    by (simp_all add: relocalisation_def recover_activation_def allowed_tick_def healthy_tick_def recover_start_def
      recover_running_def second_port_def port_def relocalisation_facts recover_init_def Let_def)
      (simp add: request_global_localization_def request_nomotion_update_def reap_requests_def reap_def
        global_calls_def)
qed

theorem relocalisation_once_witness:
  "\<exists>l'. relocalisation (healthy_tick 1000000002) = (SUCCESS, l') \<and> global_calls (rl_sent l') = [1000000001]"
proof -
  obtain l' where l: "relocalisation (healthy_tick 1000000002) = (SUCCESS, l')" "global_calls (rl_sent l') = [1000000001]"
    using relocalisation_runs(2,3) by (metis prod.collapse)
  from relocalisation_once [OF l(1) [unfolded relocalisation_def]] l show ?thesis by auto
qed

theorem relocalisation_bounded_witness:
  "1000000002 < after 1000000001 (Fin 1) \<and> Fin 1 \<le> Fin 10"
proof -
  obtain l' where l: "relocalisation (allowed_tick 1000000002) = (RUNNING, l')"
    using relocalisation_runs(1) by (metis prod.collapse)
  from relocalisation_bounded [OF l [unfolded relocalisation_def], of 0 1] show ?thesis
    by (simp add: allowed_tick_def second_port_def port_def relocalisation_facts)
qed

end
