(* ===== verification/Protected_Backup.thy ===== *)
theory Protected_Backup
  imports Recovery_Nodes
begin

text \<open>
  The behaviour plugin that drives the robot backwards, \<open>protected_backup.cpp\<close>. Its base class
  \<open>DriveOnHeading\<close> is Nav2's: \<open>base_run\<close>, its \<open>onRun\<close>, gives the status, the speed it will command and
  the pose it starts from. The pose \<open>getCurrentPose\<close> finds in a cycle is an argument of the cycle.
  What the plugin sends is the list \<open>pb_out\<close>, where \<open>Stop_robot\<close> is the base class's \<open>stopRobot\<close>. The
  stamps kept beside the newest scan and odometry are those of the messages. A callback or a cycle
  reads the clocks once.
\<close>

subsection \<open>State\<close>

datatype behavior_status = Succeeded | Failed | Running

datatype backup_output = Stop_robot | Feedback dbl | Drive dbl

record goal_backup =
  gb_x :: dbl
  gb_y :: dbl
  gb_z :: dbl
  gb_speed :: dbl
  gb_allowance :: time_ns

type_synonym base_run = "goal_backup \<Rightarrow> behavior_status \<times> dbl \<times> pose"

record protected =
  pb_data :: sensor_snapshot
  pb_scan :: "laser_scan option"
  pb_scan_recv :: time_ns
  pb_scan_received :: time_ns
  pb_odom :: "odometry option"
  pb_odom_received :: time_ns
  pb_deadline :: time_ns
  pb_requested :: dbl
  pb_speed :: dbl
  pb_initial :: pose
  pb_out :: "backup_output list"

record protected_params =
  pp_max_data_age :: dbl
  pp_rear_clearance :: dbl
  pp_half_length :: dbl
  pp_base_frame :: string

definition protected_defaults :: protected_params where
  "protected_defaults = \<lparr>pp_max_data_age = fl 0.5, pp_rear_clearance = fl 0.08, pp_half_length = fl 0.14,
     pp_base_frame = ''base_footprint''\<rparr>"

definition protected_init :: "pose \<Rightarrow> protected" where
  "protected_init p = \<lparr>pb_data = snapshot_init, pb_scan = None, pb_scan_recv = 0, pb_scan_received = 0,
     pb_odom = None, pb_odom_received = 0, pb_deadline = 0, pb_requested = kMaxSingleBackupDistance,
     pb_speed = Fin 0, pb_initial = p, pb_out = []\<rparr>"

definition emit_out :: "backup_output \<Rightarrow> protected \<Rightarrow> protected" where
  "emit_out x s = s\<lparr>pb_out := pb_out s @ [x]\<rparr>"

subsection \<open>Sensors\<close>

definition pb_on_scan :: "laser_scan \<Rightarrow> clocks \<Rightarrow> protected \<Rightarrow> protected" where
  "pb_on_scan msg t s = s\<lparr>pb_scan := Some msg, pb_scan_recv := ck_ros t, pb_scan_received := ck_steady t,
     pb_data := (pb_data s)\<lparr>sn_scan := Some msg, sn_scan_received := ck_steady t\<rparr>\<rparr>"

definition pb_on_odom :: "odometry \<Rightarrow> clocks \<Rightarrow> protected \<Rightarrow> protected" where
  "pb_on_odom msg t s = s\<lparr>pb_odom := Some msg, pb_odom_received := ck_steady t\<rparr>"

definition pb_on_costmap :: "costmap_msg \<Rightarrow> clocks \<Rightarrow> protected \<Rightarrow> protected" where
  "pb_on_costmap msg t s = s\<lparr>pb_data := (pb_data s)\<lparr>sn_costmap := Some msg, sn_costmap_received := ck_steady t\<rparr>\<rparr>"

definition pb_on_footprint :: "polygon_msg \<Rightarrow> clocks \<Rightarrow> protected \<Rightarrow> protected" where
  "pb_on_footprint msg t s =
     s\<lparr>pb_data := (pb_data s)\<lparr>sn_footprint := Some msg, sn_footprint_received := ck_steady t\<rparr>\<rparr>"

subsection \<open>The start of an action\<close>

definition rear_sweep :: "world \<Rightarrow> protected_params \<Rightarrow> clocks \<Rightarrow> dbl \<Rightarrow> protected \<Rightarrow> safety_result" where
  "rear_sweep w p t distance s = swept_clear (w_m w) (w_tf w) (w_nv w) (pb_data s) (ck_ros t) (ck_steady t)
     (pp_base_frame p) (- distance) (Fin 0) (pp_max_data_age p)"

definition goal_accepted :: "goal_backup \<Rightarrow> bool" where
  "goal_accepted g \<longleftrightarrow> \<not> (\<not> isfinite (gb_x g) \<or> \<not> isfinite (gb_y g) \<or> \<not> isfinite (gb_z g) \<or> \<not> isfinite (gb_speed g)
     \<or> \<not> deq (gb_y g) (Fin 0) \<or> \<not> deq (gb_z g) (Fin 0) \<or> deq (gb_x g) (Fin 0) \<or> gb_speed g \<le> Fin 0)"

definition modified_goal :: "goal_backup \<Rightarrow> goal_backup" where
  "modified_goal g = g\<lparr>gb_x := - dmin kMaxSingleBackupDistance \<bar>gb_x g\<bar>,
     gb_speed := to_single (- dmin (fl 0.05) \<bar>gb_speed g\<bar>)\<rparr>"

definition protected_run ::
  "world \<Rightarrow> protected_params \<Rightarrow> base_run \<Rightarrow> goal_backup \<Rightarrow> clocks \<Rightarrow> protected \<Rightarrow> behavior_status \<times> protected" where
  "protected_run w p base g t s =
     (let s = emit_out Stop_robot s in
      if \<not> goal_accepted g then (Failed, emit_out Stop_robot s)
      else let s = s\<lparr>pb_requested := dmin kMaxSingleBackupDistance \<bar>gb_x g\<bar>\<rparr>; budget = secs (gb_allowance g) in
        if budget \<le> Fin 0 \<or> kMaxBackupTimeAllowance < budget then (Failed, emit_out Stop_robot s)
        else let s = s\<lparr>pb_deadline := after (ck_steady t) budget\<rparr> in
          if \<not> sr_ok (rear_sweep w p t (pb_requested s + pp_rear_clearance p) s) then (Failed, emit_out Stop_robot s)
          else case base (modified_goal g) of (st, speed, initial) \<Rightarrow>
            (st, s\<lparr>pb_speed := speed, pb_initial := initial\<rparr>))"

subsection \<open>A cycle\<close>

definition backup_traveled :: "world \<Rightarrow> pose \<Rightarrow> protected \<Rightarrow> dbl" where
  "backup_traveled w pose s =
     (let yaw = tf_yaw (w_tf w) (p_orientation (pb_initial s));
          dx = px (p_position pose) - px (p_position (pb_initial s));
          dy = py (p_position pose) - py (p_position (pb_initial s))
      in - (m_cos (w_m w) yaw * dx + m_sin (w_m w) yaw * dy))"

definition backup_lateral :: "world \<Rightarrow> pose \<Rightarrow> protected \<Rightarrow> dbl" where
  "backup_lateral w pose s =
     (let yaw = tf_yaw (w_tf w) (p_orientation (pb_initial s));
          dx = px (p_position pose) - px (p_position (pb_initial s));
          dy = py (p_position pose) - py (p_position (pb_initial s))
      in - m_sin (w_m w) yaw * dx + m_cos (w_m w) yaw * dy)"

definition on_course :: "world \<Rightarrow> pose \<Rightarrow> protected \<Rightarrow> bool" where
  "on_course w pose s \<longleftrightarrow>
     (let yaw = tf_yaw (w_tf w) (p_orientation (pb_initial s)); now = tf_yaw (w_tf w) (p_orientation pose);
          traveled = backup_traveled w pose s; lateral = backup_lateral w pose s
      in \<not> (\<not> isfinite traveled \<or> \<not> isfinite lateral \<or> \<not> isfinite now \<or> traveled < - fl 0.02
           \<or> fl 0.03 < \<bar>lateral\<bar> \<or> fl 0.10 < \<bar>normalize (w_m w) (now - yaw)\<bar>))"

definition sources_fresh :: "protected_params \<Rightarrow> clocks \<Rightarrow> protected \<Rightarrow> bool" where
  "sources_fresh p t s = (case (pb_scan s, pb_odom s) of
       (Some scan, Some odom) \<Rightarrow>
         \<not> (pb_scan_received s = 0 \<or> pb_odom_received s = 0) \<and>
         \<not> (pp_max_data_age p < secs (ck_steady t - pb_scan_received s)
           \<or> pp_max_data_age p < secs (ck_steady t - pb_odom_received s)
           \<or> \<not> ros_age_fresh (secs (ck_ros t - sc_stamp scan)) (pp_max_data_age p) kRosTimeJitter
           \<or> \<not> ros_age_fresh (secs (ck_ros t - pb_scan_recv s)) (pp_max_data_age p) kRosTimeJitter) \<and>
         ros_age_fresh (secs (ck_ros t - od_stamp odom)) (pp_max_data_age p) kRosTimeJitter
     | _ \<Rightarrow> False)"

definition rear_point :: "protected_params \<Rightarrow> point \<Rightarrow> bool" where
  "rear_point p q \<longleftrightarrow> px q < Fin 0 \<and> - (pp_half_length p + pp_rear_clearance p) \<le> px q \<and> \<bar>py q\<bar> \<le> fl 0.16"

definition rear_points_clear :: "world \<Rightarrow> protected_params \<Rightarrow> protected \<Rightarrow> bool" where
  "rear_points_clear w p s = (case pb_scan s of None \<Rightarrow> False
     | Some scan \<Rightarrow> (case scan_points_in_base (w_m w) (w_tf w) scan (pp_base_frame p) of
         (usable, points) \<Rightarrow> usable \<and> \<not> list_ex (rear_point p) points))"

definition protected_cycle ::
  "world \<Rightarrow> protected_params \<Rightarrow> pose option \<Rightarrow> clocks \<Rightarrow> protected \<Rightarrow> behavior_status \<times> protected" where
  "protected_cycle w p pose t s =
     (if pb_deadline s \<le> ck_steady t then (Failed, emit_out Stop_robot s)
      else case pose of None \<Rightarrow> (Failed, emit_out Stop_robot s)
      | Some pose \<Rightarrow>
          if \<not> on_course w pose s then (Failed, emit_out Stop_robot s)
          else let traveled = backup_traveled w pose s; s = emit_out (Feedback (to_single (dmax (Fin 0) traveled))) s in
            if pb_requested s \<le> traveled then (Succeeded, emit_out Stop_robot s)
            else if \<not> sources_fresh p t s then (Failed, emit_out Stop_robot s)
            else if \<not> sr_ok (rear_sweep w p t (pb_requested s - dmax (Fin 0) traveled + pp_rear_clearance p) s)
            then (Failed, emit_out Stop_robot s)
            else if \<not> rear_points_clear w p s then (Failed, emit_out Stop_robot s)
            else (Running, emit_out (Drive (pb_speed s)) s))"

subsection \<open>An action\<close>

datatype backup_event = Backup_scan laser_scan | Backup_odom odometry | Backup_costmap costmap_msg
  | Backup_footprint polygon_msg | Backup_cycle "pose option"

definition backup_handle :: "world \<Rightarrow> protected_params \<Rightarrow> backup_event \<Rightarrow> clocks \<Rightarrow> protected \<Rightarrow> protected" where
  "backup_handle w p e t s = (case e of
       Backup_scan m \<Rightarrow> pb_on_scan m t s
     | Backup_odom m \<Rightarrow> pb_on_odom m t s
     | Backup_costmap m \<Rightarrow> pb_on_costmap m t s
     | Backup_footprint m \<Rightarrow> pb_on_footprint m t s
     | Backup_cycle pose \<Rightarrow> snd (protected_cycle w p pose t s))"

subsection \<open>What a cycle lets through\<close>

lemma rnd32_error: "\<bar>rnd32 q - q\<bar> \<le> 2 powi ulp_exp32 q / 2"
proof (cases "q = 0")
  case False
  define u :: rat where "u = 2 powi ulp_exp32 q"
  have u: "0 < u" by (simp add: u_def)
  have "\<bar>of_int (rhe (q / u)) * u - q\<bar> = \<bar>of_int (rhe (q / u)) - q / u\<bar> * u"
    using u by (simp add: abs_mult [symmetric] field_simps abs_of_pos)
  also have "\<dots> \<le> 1 / 2 * u" using u rhe_bound [of "q / u"] by (intro mult_right_mono) auto
  finally show ?thesis using False by (simp add: rnd32_def Let_def u_def)
qed (simp add: rnd32_def)

lemma rnd32_nonpos: "q \<le> 0 \<Longrightarrow> rnd32 q \<le> 0"
proof -
  assume "q \<le> 0"
  then have "rhe (q / 2 powi ulp_exp32 q) \<le> rhe (of_int 0)"
    by (intro rhe_mono) (simp add: divide_nonpos_pos)
  then show ?thesis by (simp only: rhe_of_int) (simp add: rnd32_def Let_def mult_nonpos_nonneg)
qed

lemma fl32_small:
  assumes "0 \<le> q" "q < 1 / 16"
  shows "\<exists>r. fl32 (- q) = Fin r \<and> - q - 1 / 10000 \<le> r \<and> r \<le> 0"
proof (cases "q = 0")
  case False
  have "flog2 \<bar>- q\<bar> < - 4" using assms False by (intro flog2_less) (auto simp: power_int_minus)
  then have "ulp_exp32 (- q) \<le> - 28" by (simp add: ulp_exp32_def)
  then have "(2 :: rat) powi ulp_exp32 (- q) \<le> 2 powi (- 28)" by (rule powi2_mono)
  then have e: "\<bar>rnd32 (- q) - (- q)\<bar> \<le> 1 / 10000"
    using rnd32_error [of "- q"] by (simp add: power_int_minus)
  have n: "rnd32 (- q) \<le> 0" using assms by (intro rnd32_nonpos) simp
  have b: "- q - 1 / 10000 \<le> rnd32 (- q)" using e unfolding abs_le_iff by linarith
  then have "- 1 \<le> rnd32 (- q)" using assms by simp
  then have "\<not> rnd32 (- q) \<le> - (2 ^ 128)" by (rule contrapos_pn) simp
  with n b show ?thesis by (simp add: fl32_def Let_def)
qed (simp add: fl32_def rnd32_def Let_def)

lemma modified_speed:
  assumes "isfinite (gb_speed g)"
  shows "Fin (- 51 / 1000) \<le> gb_speed (modified_goal g) \<and> gb_speed (modified_goal g) \<le> Fin 0"
proof -
  obtain v where v: "gb_speed g = Fin v" using assms by (auto simp: isfinite_iff)
  obtain c where c: "fl 0.05 = Fin c" "0 \<le> c" "c \<le> 501 / 10000"
  proof -
    have "fl 0.05 \<le> Fin (501 / 10000)" "Fin 0 \<le> fl 0.05" by (code_simp, code_simp)
    then show ?thesis using that by (cases "fl 0.05") auto
  qed
  define q where "q = (if \<bar>v\<bar> < c then \<bar>v\<bar> else c)"
  have q: "0 \<le> q" "q \<le> 501 / 10000" "dmin (fl 0.05) \<bar>gb_speed g\<bar> = Fin q"
    using c by (auto simp: q_def v dmin_def)
  obtain r where "fl32 (- q) = Fin r" "- q - 1 / 10000 \<le> r" "r \<le> 0"
    using fl32_small [of q] q by auto
  then show ?thesis using q by (simp add: modified_goal_def)
qed

lemma protected_run_succeeded:
  assumes "protected_run w p base g t s = (Succeeded, s1)"
  shows "goal_accepted g" "secs (gb_allowance g) \<le> kMaxBackupTimeAllowance"
    "pb_deadline s1 = after (ck_steady t) (secs (gb_allowance g))"
    "pb_requested s1 = dmin kMaxSingleBackupDistance \<bar>gb_x g\<bar>"
    "\<exists>initial. base (modified_goal g) = (Succeeded, pb_speed s1, initial)"
proof -
  show "goal_accepted g" "pb_deadline s1 = after (ck_steady t) (secs (gb_allowance g))"
    "pb_requested s1 = dmin kMaxSingleBackupDistance \<bar>gb_x g\<bar>"
    "\<exists>initial. base (modified_goal g) = (Succeeded, pb_speed s1, initial)"
    using assms by (auto simp: protected_run_def Let_def split: if_splits prod.split_asm)
  have "\<not> (secs (gb_allowance g) \<le> Fin 0 \<or> kMaxBackupTimeAllowance < secs (gb_allowance g))"
    using assms by (auto simp: protected_run_def Let_def split: if_splits)
  then show "secs (gb_allowance g) \<le> kMaxBackupTimeAllowance"
    using secs_not_nan [of "gb_allowance g"] by (cases "secs (gb_allowance g)") (auto simp: kMaxBackupTimeAllowance_def)
qed

text \<open>Sensor data and cycles leave what the start fixed.\<close>

definition same_action :: "protected \<Rightarrow> protected \<Rightarrow> bool" where
  "same_action s s' \<longleftrightarrow> pb_deadline s' = pb_deadline s \<and> pb_requested s' = pb_requested s \<and>
     pb_speed s' = pb_speed s \<and> pb_initial s' = pb_initial s"

lemma cycle_keeps_action: "same_action s (snd (protected_cycle w p pose t s))"
  by (simp add: protected_cycle_def same_action_def emit_out_def Let_def split: option.split)

interpretation action: invariant "backup_handle w p" "same_action s"
proof
  fix r e t
  assume r: "same_action s r"
  show "same_action s (backup_handle w p e t r)"
    using r cycle_keeps_action [of r w p _ t] by (cases e) (simp_all add: backup_handle_def same_action_def pb_on_scan_def
      pb_on_odom_def pb_on_costmap_def pb_on_footprint_def)
qed

lemma emit_views:
  "sources_fresh p t (emit_out x s) = sources_fresh p t s" "rear_sweep w p t d (emit_out x s) = rear_sweep w p t d s"
  "rear_points_clear w p (emit_out x s) = rear_points_clear w p s" "pb_requested (emit_out x s) = pb_requested s"
  "pb_speed (emit_out x s) = pb_speed s" "pb_out (emit_out x s) = pb_out s @ [x]"
  by (simp_all add: sources_fresh_def rear_sweep_def rear_points_clear_def emit_out_def split: option.split)

lemma cycle_running:
  assumes "protected_cycle w p pose t s = (st, s')"
  shows "(st = Running \<and> (\<exists>q. pose = Some q \<and> ck_steady t < pb_deadline s \<and> on_course w q s \<and>
      \<not> pb_requested s \<le> backup_traveled w q s \<and> sources_fresh p t s \<and>
      sr_ok (rear_sweep w p t (pb_requested s - dmax (Fin 0) (backup_traveled w q s) + pp_rear_clearance p) s) \<and>
      rear_points_clear w p s \<and>
      pb_out s' = pb_out s @ [Feedback (to_single (dmax (Fin 0) (backup_traveled w q s))), Drive (pb_speed s)])) \<or>
    (st \<noteq> Running \<and> (pb_out s' = pb_out s @ [Stop_robot] \<or> (\<exists>d. pb_out s' = pb_out s @ [Feedback d, Stop_robot])))"
  using assms by (auto simp: protected_cycle_def emit_views Let_def not_le split: option.split_asm if_splits)

text \<open>C6. While the robot backs up, every cycle either drives slowly backwards with every reason to, or
  stops. After an accepted start and any sensor data and cycles since, a cycle publishes a velocity
  only if it is between -0.051 and 0 m/s, the time the goal allowed (at most 6 s) has not run out,
  the robot is on course and has not travelled the distance asked for (at most 0.20 m), scan and
  odometry are fresh, the outline swept over the distance still to go and the stopping clearance is
  clear, and no laser point is close behind; in every other case the last thing it sends is a stop.\<close>

theorem reverse_drive_guarded:
  assumes "\<And>g' v initial. base g' = (Succeeded, v, initial) \<Longrightarrow> v = gb_speed g'"
    and "protected_run w p base g t0 s0 = (Succeeded, s1)"
    and "s = run_events (backup_handle w p) es s1"
    and "protected_cycle w p pose t s = (st, s')"
  shows "(st = Running \<and> (\<exists>q v d. pose = Some q \<and> pb_out s' = pb_out s @ [Feedback d, Drive v] \<and>
      Fin (- 51 / 1000) \<le> v \<and> v \<le> Fin 0 \<and> ck_steady t < after (ck_steady t0) (secs (gb_allowance g)) \<and>
      secs (gb_allowance g) \<le> kMaxBackupTimeAllowance \<and> on_course w q s \<and>
      \<not> dmin kMaxSingleBackupDistance \<bar>gb_x g\<bar> \<le> backup_traveled w q s \<and> sources_fresh p t s \<and>
      sr_ok (rear_sweep w p t (dmin kMaxSingleBackupDistance \<bar>gb_x g\<bar> - dmax (Fin 0) (backup_traveled w q s)
        + pp_rear_clearance p) s) \<and> rear_points_clear w p s)) \<or>
    (st \<noteq> Running \<and> (pb_out s' = pb_out s @ [Stop_robot] \<or> (\<exists>d. pb_out s' = pb_out s @ [Feedback d, Stop_robot])))"
proof -
  note r = protected_run_succeeded [OF assms(2)]
  have same: "same_action s1 s" unfolding assms(3) by (rule action.always) (simp add: same_action_def)
  have "isfinite (gb_speed g)" using r(1) by (simp add: goal_accepted_def)
  from modified_speed [OF this] r(5) assms(1) same
  have v: "Fin (- 51 / 1000) \<le> pb_speed s" "pb_speed s \<le> Fin 0" by (auto simp: same_action_def)
  have d: "pb_deadline s = after (ck_steady t0) (secs (gb_allowance g))"
    "pb_requested s = dmin kMaxSingleBackupDistance \<bar>gb_x g\<bar>"
    using same r(3,4) by (simp_all add: same_action_def)
  from cycle_running [OF assms(4), unfolded d] v r(2) show ?thesis by blast
qed

text \<open>The robot at rest in the open, asked to back up by a quarter of a metre.\<close>

definition reverse_params :: protected_params where
  "reverse_params = protected_defaults\<lparr>pp_max_data_age := Fin 1\<rparr>"

definition reverse_goal :: goal_backup where
  "reverse_goal = \<lparr>gb_x = Fin (1 / 4), gb_y = Fin 0, gb_z = Fin 0, gb_speed = Fin 1, gb_allowance = 1000000000\<rparr>"

definition reverse_base :: base_run where
  "reverse_base g = (Succeeded, gb_speed g, ps_pose (demo_stamped 0 0))"

definition reverse_clocks :: clocks where
  "reverse_clocks = \<lparr>ck_ros = 1, ck_steady = 1\<rparr>"

definition reverse_start :: protected where
  "reverse_start = (protected_init (ps_pose (demo_stamped 0 0)))\<lparr>pb_data := demo_snapshot, pb_scan := Some demo_scan,
     pb_scan_recv := 1, pb_scan_received := 1, pb_odom := Some (demo_odom 1), pb_odom_received := 1\<rparr>"

lemma reverse_sweep:
  assumes "isfinite d" "pb_data s = demo_snapshot"
  shows "sr_ok (rear_sweep demo_world reverse_params reverse_clocks d s)"
proof -
  have "isfinite (- d)" using assms(1) by (auto simp: isfinite_iff)
  then show ?thesis using assms(2)
    by (simp add: rear_sweep_def swept_clear_def demo_world_def reverse_clocks_def reverse_params_def demo_clear
        sweep_finite_def)
qed

lemma reverse_facts:
  "isfinite (dmin kMaxSingleBackupDistance \<bar>Fin (1 / 4)\<bar> + fl 0.08)"
  "isfinite (dmin kMaxSingleBackupDistance \<bar>Fin (1 / 4)\<bar> - Fin 0 + fl 0.08)"
  "\<not> dmin kMaxSingleBackupDistance \<bar>Fin (1 / 4)\<bar> \<le> Fin 0" "secs 1000000000 = Fin 1" "after 1 (Fin 1) = 1000000001"
  by (code_simp, code_simp, code_simp, code_simp, code_simp)

lemma reverse_run:
  "\<exists>s. protected_run demo_world reverse_params reverse_base reverse_goal reverse_clocks reverse_start = (Succeeded, s) \<and>
     pb_data s = demo_snapshot \<and> pb_scan s = Some demo_scan \<and> pb_scan_recv s = 1 \<and> pb_scan_received s = 1 \<and>
     pb_odom s = Some (demo_odom 1) \<and> pb_odom_received s = 1 \<and> pb_deadline s = 1000000001 \<and>
     pb_requested s = dmin kMaxSingleBackupDistance \<bar>Fin (1 / 4)\<bar> \<and> pb_initial s = ps_pose (demo_stamped 0 0)"
proof -
  have a: "goal_accepted reverse_goal" by (simp add: goal_accepted_def reverse_goal_def)
  have b: "reverse_base g = (Succeeded, gb_speed g, ps_pose (demo_stamped 0 0))" for g by (simp add: reverse_base_def)
  have g: "gb_x reverse_goal = Fin (1 / 4)" "gb_allowance reverse_goal = 1000000000" by (simp_all add: reverse_goal_def)
  have c: "ck_steady reverse_clocks = 1" "pp_rear_clearance reverse_params = fl 0.08"
    by (simp_all add: reverse_clocks_def reverse_params_def protected_defaults_def)
  have "sr_ok (rear_sweep demo_world reverse_params reverse_clocks (dmin kMaxSingleBackupDistance \<bar>Fin (1 / 4)\<bar> + fl 0.08) s)"
    if "pb_data s = demo_snapshot" for s
    using reverse_facts(1) that by (rule reverse_sweep)
  then show ?thesis
    unfolding protected_run_def Let_def g c b reverse_facts(4,5) using a
    by (simp add: emit_out_def kMaxBackupTimeAllowance_def reverse_start_def protected_init_def del: abs_dbl.simps)
qed

theorem reverse_drive_guarded_witness:
  "\<exists>s s' d v. protected_cycle demo_world reverse_params (Some (ps_pose (demo_stamped 0 0))) reverse_clocks s = (Running, s') \<and>
     pb_out s' = pb_out s @ [Feedback d, Drive v] \<and> Fin (- 51 / 1000) \<le> v \<and> v \<le> Fin 0"
proof -
  obtain s where s: "protected_run demo_world reverse_params reverse_base reverse_goal reverse_clocks reverse_start = (Succeeded, s)"
    "pb_data s = demo_snapshot" "pb_scan s = Some demo_scan" "pb_scan_recv s = 1" "pb_scan_received s = 1"
    "pb_odom s = Some (demo_odom 1)" "pb_odom_received s = 1" "pb_deadline s = 1000000001"
    "pb_requested s = dmin kMaxSingleBackupDistance \<bar>Fin (1 / 4)\<bar>" "pb_initial s = ps_pose (demo_stamped 0 0)"
    using reverse_run by blast
  let ?pose = "ps_pose (demo_stamped 0 0)"
  obtain st s' where c: "protected_cycle demo_world reverse_params (Some ?pose) reverse_clocks s = (st, s')"
    by (metis surj_pair)
  have f: "fl 1 = Fin 1" "fl 0 = Fin 0" "\<not> Fin 0 < - fl 0.02" "\<not> fl 0.03 < Fin 0" "\<not> fl 0.10 < Fin 0"
    "ros_age_fresh (Fin 0) (Fin 1) kRosTimeJitter" "dmax (Fin 0) (Fin 0) = Fin 0"
    by (code_simp, code_simp, code_simp, code_simp, code_simp, code_simp, code_simp)
  have p: "pp_max_data_age reverse_params = Fin 1" "pp_rear_clearance reverse_params = fl 0.08"
    "ck_ros reverse_clocks = 1" "ck_steady reverse_clocks = 1"
    by (simp_all add: reverse_clocks_def reverse_params_def protected_defaults_def)
  have tr: "backup_traveled demo_world ?pose s = Fin 0" "backup_lateral demo_world ?pose s = Fin 0"
    by (simp_all add: backup_traveled_def backup_lateral_def s(10) demo_stamped_def demo_world_def demo_libm_def f Let_def)
  have "on_course demo_world ?pose s"
    using f by (simp add: on_course_def tr s(10) Let_def) (simp add: demo_world_def demo_tf_def normalize_def demo_libm_def)
  moreover have "sources_fresh reverse_params reverse_clocks s"
    using f by (simp add: sources_fresh_def s p demo_scan_def demo_odom_def)
  moreover have "rear_points_clear demo_world reverse_params s"
    by (simp add: rear_points_clear_def s(3) demo_world_def scan_points_in_base_def demo_scan_def in_range_def)
  moreover have "sr_ok (rear_sweep demo_world reverse_params reverse_clocks
      (dmin kMaxSingleBackupDistance \<bar>Fin (1 / 4)\<bar> - Fin 0 + fl 0.08) s)"
    using reverse_facts(2) s(2) by (rule reverse_sweep)
  ultimately have "protected_cycle demo_world reverse_params (Some ?pose) reverse_clocks s =
      (Running, emit_out (Drive (pb_speed s)) (emit_out (Feedback (to_single (Fin 0))) s))"
    using reverse_facts(3) by (simp only: protected_cycle_def tr f p s(8,9) emit_views Let_def option.case if_True if_False
      not_True_eq_False not_False_eq_True) simp
  then have "st = Running" using c by simp
  with reverse_drive_guarded [OF _ s(1) _ c, of "[]"] c show ?thesis by (auto simp: reverse_base_def)
qed

end
