(* ===== verification/Depth_Filter.thy ===== *)
theory Depth_Filter
  imports Ieee_Double Prelude
begin

text \<open>
  The filter of the depth camera's point cloud: the classification of a point (\<open>depth_logic.hpp\<close>),
  voxels (\<open>flicker_logic.hpp\<close>), the confirmation over several frames (\<open>temporal_confirmation.hpp\<close>),
  the down-sampling (\<open>obstacle_voxel_grid.hpp\<close>) and the node \<open>depth_cloud_filter.cpp\<close>. A point is its three
  coordinates. \<open>std::sqrt\<close>, the transform buffer and PCL's voxel grid are parameters. The iterators
  of the message library deliver the points of a cloud or throw (\<open>None\<close>). The conversion of a double
  outside the range of \<open>int32_t\<close>, undefined in C++, is unbounded here. Counters and durations that only
  appear in the diagnostics are left out.
\<close>

type_synonym xyz = "dbl \<times> dbl \<times> dbl"

subsection \<open>Classification of a point\<close>

record filter_limits =
  fl_min_range :: dbl
  fl_max_range :: dbl
  fl_max_clearing :: dbl
  fl_min_height :: dbl
  fl_max_height :: dbl
  fl_self_min_x :: dbl
  fl_self_max_x :: dbl
  fl_self_min_y :: dbl
  fl_self_max_y :: dbl
  fl_self_min_z :: dbl
  fl_self_max_z :: dbl




definition valid_limits :: "filter_limits \<Rightarrow> bool" where
  "valid_limits l \<longleftrightarrow> isfinite (fl_min_range l) \<and> isfinite (fl_max_range l) \<and> isfinite (fl_max_clearing l) \<and>
     fl_max_range l \<le> fl_max_clearing l \<and> isfinite (fl_min_height l) \<and> isfinite (fl_max_height l) \<and>
     Fin 0 \<le> fl_min_range l \<and> fl_min_range l < fl_max_range l \<and> fl_min_height l < fl_max_height l \<and>
     fl_self_min_x l < fl_self_max_x l \<and> fl_self_min_y l < fl_self_max_y l \<and> fl_self_min_z l < fl_self_max_z l"




subsection \<open>Voxels and their confirmation\<close>

type_synonym voxel = "int \<times> int \<times> int"

definition valid_resolution :: "dbl \<Rightarrow> bool" where
  "valid_resolution r \<longleftrightarrow> isfinite r \<and> Fin 0 < r \<and> r \<le> Fin 1"

definition axis_index :: "dbl \<Rightarrow> dbl \<Rightarrow> int" where
  "axis_index v r = \<lfloor>val (v / r)\<rfloor>"

definition voxel_key :: "xyz \<Rightarrow> dbl \<Rightarrow> voxel" where
  "voxel_key = (\<lambda>(x, y, z) r. (axis_index x r, axis_index y r, axis_index z r))"

record confirmation =
  tc_resolution :: dbl
  tc_window :: int
  tc_min_hits :: int
  tc_hits :: "voxel \<Rightarrow> int list option"

definition confirmation_init :: "dbl \<Rightarrow> int \<Rightarrow> int \<Rightarrow> confirmation" where
  "confirmation_init r window hits = \<lparr>tc_resolution = r, tc_window = window, tc_min_hits = hits, tc_hits = (\<lambda>_. None)\<rparr>"

definition confirmation_valid :: "confirmation \<Rightarrow> bool" where
  "confirmation_valid c \<longleftrightarrow> valid_resolution (tc_resolution c) \<and> 1 \<le> tc_window c \<and> tc_window c \<le> 60 \<and>
     1 \<le> tc_min_hits c \<and> tc_min_hits c \<le> tc_window c"

definition oldest_frame :: "int \<Rightarrow> confirmation \<Rightarrow> int" where
  "oldest_frame frame c = frame - tc_window c + 1"

definition begin_frame :: "int \<Rightarrow> confirmation \<Rightarrow> confirmation" where
  "begin_frame frame c = c\<lparr>tc_hits := (\<lambda>k. case tc_hits c k of None \<Rightarrow> None
     | Some h \<Rightarrow> if h = [] \<or> List.last h < oldest_frame frame c then None else Some h)\<rparr>"

definition accept_point :: "xyz \<Rightarrow> int \<Rightarrow> confirmation \<Rightarrow> bool \<times> confirmation" where
  "accept_point p frame c =
     (let key = voxel_key p (tc_resolution c);
          hits = (case tc_hits c key of None \<Rightarrow> [] | Some h \<Rightarrow> h);
          hits = (if hits = [] \<or> List.last hits \<noteq> frame then hits @ [frame] else hits);
          hits = dropWhile (\<lambda>g. g < oldest_frame frame c) hits
      in (tc_min_hits c \<le> int (length hits), c\<lparr>tc_hits := (tc_hits c)(key \<mapsto> hits)\<rparr>))"

subsection \<open>The node\<close>


record filter_params =
  ft_limits :: filter_limits
  ft_base_frame :: string
  ft_max_age :: dbl
  ft_tf_timeout :: dbl
  ft_voxel :: bool
  ft_leaf :: dbl
  ft_temporal :: bool

datatype filter_error = No_error | Stamp_expired | Frame_empty | Tf_unavailable | No_valid_depth | Format_invalid

datatype filter_output = Obstacles string time_ns "xyz list" | Clearing string time_ns "xyz list" | Healthy bool

record depth_filter =
  ft_confirmation :: confirmation
  ft_frame_index :: int
  ft_last_raw :: time_ns
  ft_last_valid :: time_ns
  ft_healthy :: bool
  ft_error :: filter_error
  ft_out :: "filter_output list"

definition valid_voxel_leaf_size :: "dbl \<Rightarrow> bool" where
  "valid_voxel_leaf_size leaf \<longleftrightarrow> isfinite leaf \<and> fl 0.001 \<le> leaf \<and> leaf \<le> fl 0.05"


definition filter_init :: "filter_params \<Rightarrow> confirmation \<Rightarrow> depth_filter result" where
  "filter_init p c =
     (if \<not> valid_limits (ft_limits p) \<or> ft_max_age p \<le> Fin 0 \<or> ft_tf_timeout p \<le> Fin 0
        \<or> \<not> valid_voxel_leaf_size (ft_leaf p) \<or> (ft_temporal p \<and> \<not> confirmation_valid c)
      then Inl Invalid_argument
      else Inr \<lparr>ft_confirmation = c, ft_frame_index = 0, ft_last_raw = 0, ft_last_valid = 0, ft_healthy = False,
        ft_error = No_error, ft_out = [Healthy False]\<rparr>)"




definition emit_cloud :: "filter_output list \<Rightarrow> depth_filter \<Rightarrow> depth_filter" where
  "emit_cloud xs s = s\<lparr>ft_out := ft_out s @ xs\<rparr>"


definition age_of :: "time_ns \<Rightarrow> time_ns \<Rightarrow> dbl" where
  "age_of now point = (if point = 0 then PInf else secs (now - point))"

definition publish_health :: "filter_params \<Rightarrow> time_ns \<Rightarrow> depth_filter \<Rightarrow> depth_filter" where
  "publish_health p now s = emit_cloud [Healthy (ft_healthy s \<and> age_of now (ft_last_raw s) \<le> ft_max_age p \<and>
     age_of now (ft_last_valid s) \<le> ft_max_age p)] s"

subsection \<open>Confirmation over frames\<close>

text \<open>\<open>tracked H f c\<close>: at frame \<open>f\<close> the stored hits of a voxel are, in order, frames of \<open>H\<close>, the frames it was
  hit in, and none inside the window is missing.\<close>

definition tracked :: "(voxel \<Rightarrow> int set) \<Rightarrow> int \<Rightarrow> confirmation \<Rightarrow> bool" where
  "tracked H f c \<longleftrightarrow> (\<forall>k. let h = (case tc_hits c k of None \<Rightarrow> [] | Some h \<Rightarrow> h) in
     sorted_wrt (<) h \<and> set h \<subseteq> H k \<and> (\<forall>g \<in> H k. g \<le> f \<and> (f - tc_window c < g \<longrightarrow> g \<in> set h)))"

definition stored :: "confirmation \<Rightarrow> voxel \<Rightarrow> int list" where
  "stored c k = (case tc_hits c k of None \<Rightarrow> [] | Some h \<Rightarrow> h)"

lemma tracked_iff: "tracked H f c \<longleftrightarrow> (\<forall>k. sorted_wrt (<) (stored c k) \<and> set (stored c k) \<subseteq> H k \<and>
    (\<forall>g \<in> H k. g \<le> f \<and> (f - tc_window c < g \<longrightarrow> g \<in> set (stored c k))))"
  by (simp add: tracked_def stored_def Let_def)

lemma sorted_last: "sorted_wrt (<) (h :: int list) \<Longrightarrow> g \<in> set h \<Longrightarrow> g \<le> List.last h"
  by (induction h rule: rev_induct) (auto simp: sorted_wrt_append less_imp_le)

lemma tracked_later:
  assumes "tracked H f c" "f \<le> f'"
  shows "tracked H f' c"
  using assms unfolding tracked_iff by fastforce

lemma stored_begin:
  "stored (begin_frame f c) k = (if stored c k = [] \<or> List.last (stored c k) < oldest_frame f c then [] else stored c k)"
  "tc_window (begin_frame f c) = tc_window c"
  by (auto simp: stored_def begin_frame_def split: option.split)

lemma begin_frame_tracked:
  assumes "tracked H f c"
  shows "tracked H f (begin_frame f c)"
proof -
  have "g \<in> set (stored (begin_frame f c) k)" if "g \<in> H k" "f - tc_window c < g" for g k
  proof -
    have "g \<in> set (stored c k)" "g \<le> List.last (stored c k)"
      using assms that sorted_last unfolding tracked_iff by blast+
    then show ?thesis using that(2) by (auto simp: stored_begin oldest_frame_def)
  qed
  moreover have "sorted_wrt (<) (stored (begin_frame f c) k)" "set (stored (begin_frame f c) k) \<subseteq> H k"
    "\<And>g. g \<in> H k \<Longrightarrow> g \<le> f" for k
    using assms unfolding tracked_iff stored_begin(1) by (cases k, auto)+
  ultimately show ?thesis unfolding tracked_iff stored_begin(2) by blast
qed

lemma sorted_dropWhile:
  "sorted_wrt (<) (h :: int list) \<Longrightarrow> set (dropWhile (\<lambda>g. g < b) h) = {g \<in> set h. b \<le> g}"
  by (induction h) auto

lemma sorted_dropWhile_sorted: "sorted_wrt (<) (h :: int list) \<Longrightarrow> sorted_wrt (<) (dropWhile P h)"
  by (induction h) auto

definition hit_voxel :: "xyz \<Rightarrow> int \<Rightarrow> confirmation \<Rightarrow> (voxel \<Rightarrow> int set) \<Rightarrow> voxel \<Rightarrow> int set" where
  "hit_voxel p f c H = H(voxel_key p (tc_resolution c) := insert f (H (voxel_key p (tc_resolution c))))"

lemma accept_tracked:
  assumes H: "tracked H f c" and w: "1 \<le> tc_window c" and a: "accept_point p f c = (ok, c')"
  shows "tracked (hit_voxel p f c H) f c'"
    "ok \<longleftrightarrow> tc_min_hits c \<le> int (card {g. f - tc_window c < g \<and> g \<in> hit_voxel p f c H (voxel_key p (tc_resolution c))})"
    "tc_window c' = tc_window c" "tc_resolution c' = tc_resolution c" "tc_min_hits c' = tc_min_hits c"
proof -
  define k where "k = voxel_key p (tc_resolution c)"
  define h where "h = stored c k"
  define h1 where "h1 = (if h = [] \<or> List.last h \<noteq> f then h @ [f] else h)"
  define h2 where "h2 = dropWhile (\<lambda>g. g < oldest_frame f c) h1"
  have c': "c' = c\<lparr>tc_hits := (tc_hits c)(k \<mapsto> h2)\<rparr>" and ok: "ok \<longleftrightarrow> tc_min_hits c \<le> int (length h2)"
    using a by (auto simp: accept_point_def k_def h_def h1_def h2_def stored_def Let_def)
  show "tc_window c' = tc_window c" "tc_resolution c' = tc_resolution c" "tc_min_hits c' = tc_min_hits c"
    by (simp_all add: c')
  have t: "sorted_wrt (<) h" "set h \<subseteq> H k" "\<And>g. g \<in> H k \<Longrightarrow> g \<le> f \<and> (f - tc_window c < g \<longrightarrow> g \<in> set h)"
    using H unfolding tracked_iff h_def by blast+
  have le: "g < f" if "g \<in> set h" "List.last h \<noteq> f" for g
  proof -
    have "List.last h \<in> set h" using that(1) by (cases h) auto
    then have "List.last h < f" using t(2,3) that(2) by force
    then show ?thesis using sorted_last [OF t(1) that(1)] by simp
  qed
  have h1: "sorted_wrt (<) h1" "set h1 = insert f (set h)"
    using t(1) le by (auto simp: h1_def sorted_wrt_append)
  have h2: "sorted_wrt (<) h2" "set h2 = {g \<in> insert f (set h). f - tc_window c < g}"
    using sorted_dropWhile [OF h1(1), of "oldest_frame f c"] sorted_dropWhile_sorted [OF h1(1)] h1(2)
    by (auto simp: h2_def oldest_frame_def)
  have s: "stored c' k' = (if k' = k then h2 else stored c k')" for k'
    by (simp add: c' stored_def)
  have hv: "hit_voxel p f c H k' = (if k' = k then insert f (H k) else H k')" for k'
    by (simp add: hit_voxel_def k_def)
  show "tracked (hit_voxel p f c H) f c'"
    unfolding tracked_iff
  proof (rule allI)
    fix k'
    have w': "tc_window c' = tc_window c" by (simp add: c')
    have o: "sorted_wrt (<) (stored c k')" "set (stored c k') \<subseteq> H k'"
      "\<forall>g \<in> H k'. g \<le> f \<and> (f - tc_window c < g \<longrightarrow> g \<in> set (stored c k'))"
      using H unfolding tracked_iff by blast+
    show "sorted_wrt (<) (stored c' k') \<and> set (stored c' k') \<subseteq> hit_voxel p f c H k' \<and>
      (\<forall>g \<in> hit_voxel p f c H k'. g \<le> f \<and> (f - tc_window c' < g \<longrightarrow> g \<in> set (stored c' k')))"
    proof (cases "k' = k")
      case True
      have "g \<le> f \<and> (f - tc_window c < g \<longrightarrow> g \<in> set h2)" if "g \<in> insert f (H k)" for g
        using that t(3) [of g] by (auto simp: h2(2))
      moreover have "set h2 \<subseteq> insert f (H k)" using t(2) by (auto simp: h2(2))
      ultimately show ?thesis using True h2(1) by (simp add: s hv w')
    next
      case False
      then show ?thesis using o by (simp add: s hv w')
    qed
  qed
  have "{g. f - tc_window c < g \<and> g \<in> hit_voxel p f c H k} = set h2"
    using t(2,3) h2(2) by (auto simp: hv)
  moreover have "card (set h2) = length h2"
    using h2(1) strict_sorted_iff distinct_card by blast
  ultimately show "ok \<longleftrightarrow> tc_min_hits c \<le> int (card {g. f - tc_window c < g \<and> g \<in> hit_voxel p f c H (voxel_key p (tc_resolution c))})"
    using ok by (simp add: k_def)
qed

text \<open>A history of frames: \<open>New_frame\<close> is \<open>begin_frame\<close>, \<open>Point_at\<close> is \<open>accept\<close>, with the index of the frame.\<close>

datatype confirm_event = New_frame | Point_at xyz

definition confirm_handle :: "confirm_event \<Rightarrow> int \<Rightarrow> confirmation \<Rightarrow> confirmation" where
  "confirm_handle e f c = (case e of New_frame \<Rightarrow> begin_frame f c | Point_at p \<Rightarrow> snd (accept_point p f c))"

definition hits_of :: "dbl \<Rightarrow> (confirm_event \<times> int) list \<Rightarrow> voxel \<Rightarrow> int set" where
  "hits_of r es k = {f. \<exists>p. (Point_at p, f) \<in> set es \<and> voxel_key p r = k}"

lemma confirm_params:
  "tc_window (run_events confirm_handle es c) = tc_window c" "tc_resolution (run_events confirm_handle es c) = tc_resolution c"
  "tc_min_hits (run_events confirm_handle es c) = tc_min_hits c"
  by (induction es rule: rev_induct)
    (auto simp: confirm_handle_def begin_frame_def accept_point_def Let_def split: confirm_event.split)

lemma confirm_tracked:
  assumes "confirmation_valid c" "c = confirmation_init r w n" "sorted (map snd es)" "\<forall>x \<in> set es. snd x \<le> f"
  shows "tracked (hits_of r es) f (run_events confirm_handle es c)"
  using assms(3,4)
proof (induction es arbitrary: f rule: rev_induct)
  case Nil
  then show ?case by (simp add: tracked_def hits_of_def assms(2) confirmation_init_def)
next
  case (snoc x es)
  obtain e g where x: "x = (e, g)" by (cases x)
  define d where "d = run_events confirm_handle es c"
  have g: "g \<le> f" "\<forall>y \<in> set es. snd y \<le> g" using snoc.prems by (auto simp: x sorted_append)
  have IH: "tracked (hits_of r es) g d" using snoc.IH [of g] snoc.prems g by (simp add: sorted_append d_def)
  have "tracked (hits_of r (es @ [x])) g (confirm_handle e g d)"
  proof (cases e)
    case New_frame
    then have "hits_of r (es @ [x]) = hits_of r es" by (auto simp: hits_of_def x fun_eq_iff)
    with begin_frame_tracked [OF IH] New_frame show ?thesis by (simp add: confirm_handle_def)
  next
    case (Point_at p)
    have r: "tc_resolution d = r" "1 \<le> tc_window d" using assms(1,2)
      by (simp_all add: d_def confirm_params confirmation_init_def confirmation_valid_def)
    obtain ok c' where a: "accept_point p g d = (ok, c')" by (metis surj_pair)
    have "hits_of r (es @ [x]) = hit_voxel p g d (hits_of r es)"
    proof
      fix k
      show "hits_of r (es @ [x]) k = hit_voxel p g d (hits_of r es) k"
        by (auto simp: hits_of_def hit_voxel_def x Point_at r simp del: split_paired_Ex split_paired_All)
    qed
    with accept_tracked(1) [OF IH r(2) a] Point_at a show ?thesis by (simp add: confirm_handle_def)
  qed
  then show ?case using tracked_later g(1) by (simp add: x d_def)
qed

text \<open>C37. A point is confirmed as an obstacle exactly when its voxel was hit in at least the required
  number of distinct frames among the last \<open>window\<close> frames, the current one included; forgetting old
  frames and voxels changes nothing.\<close>

theorem confirmed_by_frames:
  assumes "c = confirmation_init r w n" "confirmation_valid c" "sorted (map snd es)" "\<forall>x \<in> set es. snd x \<le> f"
  shows "fst (accept_point p f (run_events confirm_handle es c)) \<longleftrightarrow>
    n \<le> int (card {g. f - w < g \<and> (g = f \<or> (\<exists>q. (Point_at q, g) \<in> set es \<and> voxel_key q r = voxel_key p r))})"
proof -
  define d where "d = run_events confirm_handle es c"
  have d: "tc_resolution d = r" "tc_window d = w" "tc_min_hits d = n" "1 \<le> tc_window d" using assms(1,2)
    by (simp_all add: d_def confirm_params confirmation_init_def confirmation_valid_def)
  have "tracked (hits_of r es) f d" unfolding d_def using assms by (intro confirm_tracked) auto
  moreover obtain ok c' where a: "accept_point p f d = (ok, c')" by (metis surj_pair)
  ultimately have "ok \<longleftrightarrow> n \<le> int (card {g. f - w < g \<and> g \<in> hit_voxel p f d (hits_of r es) (voxel_key p r)})"
    using accept_tracked(2) [of "hits_of r es" f d p ok c'] d by simp
  moreover have "{g. f - w < g \<and> g \<in> hit_voxel p f d (hits_of r es) (voxel_key p r)} =
      {g. f - w < g \<and> (g = f \<or> (\<exists>q. (Point_at q, g) \<in> set es \<and> voxel_key q r = voxel_key p r))}"
    by (auto simp: hit_voxel_def hits_of_def d)
  ultimately show ?thesis using a by (simp add: d_def)
qed

theorem confirmed_by_frames_witness:
  "fst (accept_point (Fin 0, Fin 0, Fin 0) 2 (run_events confirm_handle
     [(New_frame, 1), (Point_at (Fin 0, Fin 0, Fin 0), 1), (New_frame, 2)] (confirmation_init (Fin 1) 3 2)))"
proof -
  have v: "confirmation_valid (confirmation_init (Fin 1) 3 2)" by code_simp
  let ?es = "[(New_frame, 1), (Point_at (Fin 0, Fin 0, Fin 0), 1), (New_frame, 2 :: int)]"
  have "{g :: int. 2 - 3 < g \<and> (g = 2 \<or> (\<exists>q. (Point_at q, g) \<in> set ?es \<and> voxel_key q (Fin 1) = voxel_key (Fin 0, Fin 0, Fin 0) (Fin 1)))}
      = {1, 2}" by auto
  then show ?thesis using confirmed_by_frames [OF refl v, of ?es 2 "(Fin 0, Fin 0, Fin 0)"] by simp
qed

subsection \<open>What the node publishes\<close>













end
