(* ===== verification/Stvl_Health.thy ===== *)
theory Stvl_Health
  imports Ieee_Double Prelude "HOL-Library.Word"
begin

text \<open>
  Health of the depth layers: \<open>RequiredStvlHealth\<close> of \<open>required_stvl_health.hpp\<close>, and the reports
  \<open>MonitoredStvlLayer\<close> (\<open>monitored_stvl_layer.cpp\<close>) sends it. Times are readings of the monotonic
  clock in seconds. What the layer's base class computes (whether its sources are current) is an
  argument; the indices 0 and 1 of the layers are \<open>Local_layer\<close> and \<open>Global_layer\<close>.
\<close>

subsection \<open>State\<close>

datatype layer_id = Local_layer | Global_layer

record stvl_layer =
  sl_seen :: bool
  sl_current :: bool
  sl_sequence :: "64 word"
  sl_updates :: "64 word"
  sl_time :: dbl

definition layer_init :: stvl_layer where
  "layer_init = \<lparr>sl_seen = False, sl_current = False, sl_sequence = 0, sl_updates = 0, sl_time = NInf\<rparr>"

record required_health =
  rh_input_timeout :: dbl
  rh_layer_timeout :: dbl
  rh_stable_time :: dbl
  rh_camera_ok :: bool
  rh_cloud_ok :: bool
  rh_camera_time :: dbl
  rh_cloud_time :: dbl
  rh_healthy_since :: dbl
  rh_cloud_stamp :: int
  rh_layers :: "layer_id \<Rightarrow> stvl_layer"
  rh_barrier :: "layer_id \<Rightarrow> 64 word"
  rh_reason :: string

definition required_health_init :: "dbl \<Rightarrow> dbl \<Rightarrow> dbl \<Rightarrow> required_health result" where
  "required_health_init input_timeout layer_timeout stable_time =
     (if list_ex (\<lambda>v. \<not> isfinite v \<or> v \<le> Fin 0) [input_timeout, layer_timeout, stable_time]
      then Inl Invalid_argument
      else Inr \<lparr>rh_input_timeout = input_timeout, rh_layer_timeout = layer_timeout, rh_stable_time = stable_time,
        rh_camera_ok = False, rh_cloud_ok = False, rh_camera_time = NInf, rh_cloud_time = NInf,
        rh_healthy_since = PInf, rh_cloud_stamp = 0, rh_layers = (\<lambda>_. layer_init), rh_barrier = (\<lambda>_. 0),
        rh_reason = ''STARTUP_STOP''\<rparr>)"

subsection \<open>Messages\<close>

definition close_health :: "required_health \<Rightarrow> required_health" where
  "close_health s = s\<lparr>rh_healthy_since := PInf\<rparr>"

definition health_camera :: "bool \<Rightarrow> dbl \<Rightarrow> required_health \<Rightarrow> required_health" where
  "health_camera ok now s =
     (let s = s\<lparr>rh_camera_ok := ok, rh_camera_time := now\<rparr> in if \<not> ok then close_health s else s)"

definition cloud_refused :: "int \<Rightarrow> dbl \<Rightarrow> required_health \<Rightarrow> bool" where
  "cloud_refused stamp stamp_age s \<longleftrightarrow>
     stamp \<le> 0 \<or> \<not> isfinite stamp_age \<or> stamp_age < Fin 0 \<or> rh_input_timeout s < stamp_age"

definition health_cloud :: "int \<Rightarrow> dbl \<Rightarrow> dbl \<Rightarrow> required_health \<Rightarrow> required_health" where
  "health_cloud stamp stamp_age now s =
     (if cloud_refused stamp stamp_age s then close_health (s\<lparr>rh_cloud_ok := False\<rparr>)
      else if stamp \<le> rh_cloud_stamp s then s
      else s\<lparr>rh_cloud_stamp := stamp, rh_cloud_time := now, rh_cloud_ok := True\<rparr>)"

definition set_layer :: "layer_id \<Rightarrow> stvl_layer \<Rightarrow> required_health \<Rightarrow> required_health" where
  "set_layer i l s = s\<lparr>rh_layers := (rh_layers s)(i := l)\<rparr>"

definition layer_regressed :: "64 word \<Rightarrow> stvl_layer \<Rightarrow> bool" where
  "layer_regressed seq l \<longleftrightarrow> sl_seen l \<and> seq < sl_sequence l"

definition health_layer :: "layer_id \<Rightarrow> bool \<Rightarrow> 64 word \<Rightarrow> dbl \<Rightarrow> required_health \<Rightarrow> required_health" where
  "health_layer i current seq now s =
     (let l = rh_layers s i in
      if sl_seen l \<and> seq = sl_sequence l
      then if \<not> current then close_health (set_layer i (l\<lparr>sl_current := False\<rparr>) s) else s
      else let s = (if layer_regressed seq l then close_health s else s);
               l = (if layer_regressed seq l then l\<lparr>sl_updates := 0\<rparr> else l);
               l = \<lparr>sl_seen = True, sl_current = current, sl_sequence = seq, sl_updates = sl_updates l + 1, sl_time = now\<rparr>;
               s = set_layer i l s
           in if \<not> current then close_health s else s)"

subsection \<open>The verdict\<close>

definition fresh_at :: "dbl \<Rightarrow> dbl \<Rightarrow> dbl \<Rightarrow> bool" where
  "fresh_at t now timeout \<longleftrightarrow> isfinite t \<and> t \<le> now \<and> now - t \<le> timeout"

definition layer_fails :: "layer_id \<Rightarrow> dbl \<Rightarrow> required_health \<Rightarrow> bool" where
  "layer_fails i now s \<longleftrightarrow> \<not> sl_current (rh_layers s i) \<or> \<not> fresh_at (sl_time (rh_layers s i)) now (rh_layer_timeout s)"

definition health_failure :: "dbl \<Rightarrow> required_health \<Rightarrow> string" where
  "health_failure now s =
     (if \<not> rh_camera_ok s \<or> \<not> fresh_at (rh_camera_time s) now (rh_input_timeout s) then ''CAMERA_UNHEALTHY''
      else if \<not> rh_cloud_ok s \<or> \<not> fresh_at (rh_cloud_time s) now (rh_input_timeout s) then ''CLOUD_STAMP_NOT_ADVANCING''
      else if layer_fails Local_layer now s then ''LOCAL_STVL_UNHEALTHY''
      else if layer_fails Global_layer now s then ''GLOBAL_STVL_UNHEALTHY''
      else [])"

definition updates_since :: "layer_id \<Rightarrow> required_health \<Rightarrow> 64 word" where
  "updates_since i s = sl_updates (rh_layers s i) - rh_barrier s i"

definition open_health :: "dbl \<Rightarrow> required_health \<Rightarrow> required_health" where
  "open_health now s =
     (if \<not> isfinite (rh_healthy_since s)
      then s\<lparr>rh_healthy_since := now, rh_barrier := (\<lambda>i. sl_updates (rh_layers s i))\<rparr> else s)"

definition required_allowed :: "dbl \<Rightarrow> required_health \<Rightarrow> bool \<times> required_health" where
  "required_allowed now s =
     (let s = s\<lparr>rh_reason := health_failure now s\<rparr> in
      if rh_reason s \<noteq> [] then (False, close_health s)
      else let s = open_health now s in
        if now < rh_healthy_since s \<or> now - rh_healthy_since s < rh_stable_time s
          \<or> updates_since Local_layer s < 2 \<or> updates_since Global_layer s < 2
        then (False, s\<lparr>rh_reason := ''RECOVERING''\<rparr>)
        else (True, s\<lparr>rh_reason := ''HEALTHY''\<rparr>))"

datatype stvl_event = Camera_msg bool | Cloud_msg int dbl | Layer_msg layer_id bool "64 word" | Allowed

definition stvl_handle :: "stvl_event \<Rightarrow> dbl \<Rightarrow> required_health \<Rightarrow> required_health" where
  "stvl_handle e now s = (case e of
       Camera_msg ok \<Rightarrow> health_camera ok now s
     | Cloud_msg stamp age \<Rightarrow> health_cloud stamp age now s
     | Layer_msg i current seq \<Rightarrow> health_layer i current seq now s
     | Allowed \<Rightarrow> snd (required_allowed now s))"

subsection \<open>Continuous health\<close>

text \<open>The events that end a run of health.\<close>

definition interrupts :: "required_health \<Rightarrow> stvl_event \<Rightarrow> dbl \<Rightarrow> bool" where
  "interrupts s e now = (case e of
       Camera_msg ok \<Rightarrow> \<not> ok
     | Cloud_msg stamp age \<Rightarrow> cloud_refused stamp age s
     | Layer_msg i current seq \<Rightarrow> \<not> current \<or> layer_regressed seq (rh_layers s i)
     | Allowed \<Rightarrow> health_failure now s \<noteq> [])"

fun reports_of :: "layer_id \<Rightarrow> (stvl_event \<times> dbl) list \<Rightarrow> nat" where
  "reports_of i [] = 0"
| "reports_of i ((Layer_msg j current seq, t) # es) = (if i = j then 1 else 0) + reports_of i es"
| "reports_of i (_ # es) = reports_of i es"

lemma reports_of_append [simp]: "reports_of i (es @ es') = reports_of i es + reports_of i es'"
  by (induction i es rule: reports_of.induct) auto

text \<open>\<open>healthy_from s0 pre h post\<close>: the evaluation at \<open>h\<close> after \<open>pre\<close> opened a run that no event of
  \<open>post\<close> interrupted.\<close>

definition uninterrupted :: "required_health \<Rightarrow> (stvl_event \<times> dbl) list \<Rightarrow> dbl \<Rightarrow> (stvl_event \<times> dbl) list \<Rightarrow> bool" where
  "uninterrupted s0 pre h post \<longleftrightarrow> \<not> interrupts (run_events stvl_handle pre s0) Allowed h \<and>
     (\<forall>us e t vs. post = us @ (e, t) # vs \<longrightarrow>
        \<not> interrupts (run_events stvl_handle (pre @ (Allowed, h) # us) s0) e t)"

lemma uninterrupted_snoc:
  assumes "uninterrupted s0 pre h post" "\<not> interrupts (run_events stvl_handle (pre @ (Allowed, h) # post) s0) e t"
  shows "uninterrupted s0 pre h (post @ [(e, t)])"
  unfolding uninterrupted_def
proof (intro conjI allI impI)
  fix us e' t' vs
  assume "post @ [(e, t)] = us @ (e', t') # vs"
  then consider "vs = []" "us = post" "e' = e" "t' = t" | vs' where "post = us @ (e', t') # vs'"
    by (cases vs rule: rev_cases) auto
  then show "\<not> interrupts (run_events stvl_handle (pre @ (Allowed, h) # us) s0) e' t'"
    using assms by cases (auto simp: uninterrupted_def)
qed (use assms in \<open>simp add: uninterrupted_def\<close>)

lemma closed [simp]:
  "\<not> isfinite (rh_healthy_since (close_health s))" "rh_healthy_since (close_health s) = PInf"
  by (simp_all add: close_health_def)

lemma set_layer_keeps [simp]:
  "rh_healthy_since (set_layer i l s) = rh_healthy_since s" "rh_barrier (set_layer i l s) = rh_barrier s"
  "rh_layers (set_layer i l s) = (rh_layers s)(i := l)"
  by (simp_all add: set_layer_def)

lemma interrupted_closes:
  "interrupts s e now \<Longrightarrow> \<not> isfinite (rh_healthy_since (stvl_handle e now s))"
  by (cases e) (auto simp: interrupts_def stvl_handle_def health_camera_def health_cloud_def health_layer_def
      required_allowed_def layer_regressed_def Let_def)

lemma uninterrupted_message:
  assumes "\<not> interrupts s e now" "e \<noteq> Allowed"
  shows "rh_healthy_since (stvl_handle e now s) = rh_healthy_since s" "rh_barrier (stvl_handle e now s) = rh_barrier s"
    "\<exists>n \<le> reports_of i [(e, now)]. sl_updates (rh_layers (stvl_handle e now s) i) = sl_updates (rh_layers s i) + of_nat n"
proof -
  show "rh_healthy_since (stvl_handle e now s) = rh_healthy_since s" "rh_barrier (stvl_handle e now s) = rh_barrier s"
    using assms by (cases e; auto simp: interrupts_def stvl_handle_def health_camera_def health_cloud_def health_layer_def Let_def)+
  show "\<exists>n \<le> reports_of i [(e, now)]. sl_updates (rh_layers (stvl_handle e now s) i) = sl_updates (rh_layers s i) + of_nat n"
  proof (cases e)
    case (Layer_msg j current seq)
    show ?thesis
    proof (cases "i = j \<and> \<not> (sl_seen (rh_layers s j) \<and> seq = sl_sequence (rh_layers s j))")
      case True
      then show ?thesis using assms Layer_msg
        by (intro exI [of _ 1]) (simp add: interrupts_def stvl_handle_def health_layer_def Let_def)
    next
      case False
      then show ?thesis using assms Layer_msg
        by (intro exI [of _ 0]) (auto simp: interrupts_def stvl_handle_def health_layer_def Let_def)
    qed
  qed (use assms in \<open>auto simp: stvl_handle_def health_camera_def health_cloud_def interrupts_def Let_def\<close>)
qed

lemma open_health_simps [simp]:
  "isfinite (rh_healthy_since s) \<Longrightarrow> open_health now s = s"
  "\<not> isfinite (rh_healthy_since s) \<Longrightarrow> rh_healthy_since (open_health now s) = now"
  "\<not> isfinite (rh_healthy_since s) \<Longrightarrow> updates_since i (open_health now s) = 0"
  by (simp_all add: open_health_def updates_since_def)

lemma health_failure_reason [simp]: "health_failure now (s\<lparr>rh_reason := r\<rparr>) = health_failure now s"
  by (simp add: health_failure_def layer_fails_def)

lemma open_health_reason: "open_health now (s\<lparr>rh_reason := r\<rparr>) = (open_health now s)\<lparr>rh_reason := r\<rparr>"
  by (simp add: open_health_def)

lemma evaluation_state:
  assumes "health_failure now s = []"
  shows "rh_healthy_since (snd (required_allowed now s)) = rh_healthy_since (open_health now s)"
    "updates_since i (snd (required_allowed now s)) = updates_since i (open_health now s)"
  using assms by (simp_all add: required_allowed_def Let_def open_health_reason updates_since_def)

definition explained :: "required_health \<Rightarrow> (stvl_event \<times> dbl) list \<Rightarrow> required_health \<Rightarrow> bool" where
  "explained s0 es s \<longleftrightarrow> (isfinite (rh_healthy_since s) \<longrightarrow> (\<exists>pre h post. es = pre @ (Allowed, h) # post \<and>
     rh_healthy_since s = h \<and> uninterrupted s0 pre h post \<and>
     (\<forall>i. \<exists>n \<le> reports_of i post. updates_since i s = of_nat n)))"

lemma explained_extend:
  assumes "explained s0 es s" "s = run_events stvl_handle es s0" "isfinite (rh_healthy_since s)" "\<not> interrupts s e t"
    and "rh_healthy_since s' = rh_healthy_since s"
    and "\<And>i. \<exists>n \<le> reports_of i [(e, t)]. updates_since i s' = updates_since i s + of_nat n"
  shows "explained s0 (es @ [(e, t)]) s'"
proof -
  obtain pre h post where p: "es = pre @ (Allowed, h) # post" "rh_healthy_since s = h" "uninterrupted s0 pre h post"
    "\<And>i. \<exists>n \<le> reports_of i post. updates_since i s = of_nat n"
    using assms(1,3) unfolding explained_def by blast
  have u: "uninterrupted s0 pre h (post @ [(e, t)])"
    using p(3) assms(2,4) p(1) by (intro uninterrupted_snoc) simp_all
  have n: "\<exists>n \<le> reports_of i (post @ [(e, t)]). updates_since i s' = of_nat n" for i
  proof -
    obtain n m where "n \<le> reports_of i post" "updates_since i s = of_nat n" "m \<le> reports_of i [(e, t)]"
      "updates_since i s' = updates_since i s + of_nat m"
      using p(4) assms(6) by blast
    then show ?thesis by (intro exI [of _ "n + m"]) (simp only: of_nat_add reports_of_append add_mono)
  qed
  show ?thesis unfolding explained_def
    by (intro impI exI [of _ pre] exI [of _ h] exI [of _ "post @ [(e, t)]"]) (use p u n assms(5) in simp)
qed

lemma explained_run: "explained s0 es (run_events stvl_handle es s0)" if "\<not> isfinite (rh_healthy_since s0)"
proof (induction es rule: rev_induct)
  case Nil
  then show ?case using that by (simp add: explained_def)
next
  case (snoc x es)
  obtain e t where x: "x = (e, t)" by (cases x)
  define s where "s = run_events stvl_handle es s0"
  have IH: "explained s0 es s" using snoc s_def by simp
  have goal: "explained s0 (es @ [(e, t)]) (stvl_handle e t s)"
  proof (cases "interrupts s e t")
    case True
    then show ?thesis using interrupted_closes by (auto simp: explained_def)
  next
    case quiet: False
    show ?thesis
    proof (cases "e = Allowed")
      case False
      note m = uninterrupted_message [OF quiet False]
      show ?thesis
      proof (cases "isfinite (rh_healthy_since s)")
        case True
        show ?thesis
        proof (rule explained_extend [OF IH s_def True quiet m(1)])
          fix i
          obtain n where "n \<le> reports_of i [(e, t)]"
            "sl_updates (rh_layers (stvl_handle e t s) i) = sl_updates (rh_layers s i) + of_nat n"
            using m(3) by blast
          then show "\<exists>n \<le> reports_of i [(e, t)]. updates_since i (stvl_handle e t s) = updates_since i s + of_nat n"
            by (intro exI [of _ n]) (simp add: updates_since_def m(2))
        qed
      qed (simp add: explained_def m(1))
    next
      case e: True
      with quiet have f: "health_failure t s = []" by (simp add: interrupts_def)
      note ev = evaluation_state [OF f]
      show ?thesis
      proof (cases "isfinite (rh_healthy_since s)")
        case True
        show ?thesis
          by (rule explained_extend [OF IH s_def True quiet])
            (use True in \<open>simp_all add: e stvl_handle_def ev\<close>)
      next
        case False
        have "uninterrupted s0 es t []" using quiet by (simp add: uninterrupted_def s_def e)
        then show ?thesis unfolding explained_def
          by (intro impI exI [of _ es] exI [of _ t] exI [of _ "[]"])
            (use False in \<open>simp add: e stvl_handle_def ev\<close>)
      qed
    qed
  qed
  then show ?case by (simp add: x s_def)
qed

lemma unat_bounded: "n \<le> m \<Longrightarrow> w = of_nat n \<Longrightarrow> \<not> w < (2 :: 64 word) \<Longrightarrow> 2 \<le> m"
proof -
  assume a: "n \<le> m" "w = of_nat n" "\<not> w < (2 :: 64 word)"
  have "2 \<le> unat w" using a(3) by (simp add: not_less word_le_nat_alt)
  moreover have "unat w \<le> n" by (simp add: a(2) unat_of_nat)
  ultimately show "2 \<le> m" using a(1) by simp
qed

text \<open>The timeouts are fixed at the start.\<close>

interpretation stable: invariant stvl_handle "\<lambda>s. rh_stable_time s = st"
  by unfold_locales (auto simp: stvl_handle_def health_camera_def health_cloud_def health_layer_def set_layer_def
      close_health_def required_allowed_def open_health_def Let_def split: stvl_event.split)

lemma not_less_dbl: "a \<noteq> NaN \<Longrightarrow> b \<noteq> NaN \<Longrightarrow> \<not> a < b \<Longrightarrow> b \<le> (a :: dbl)"
  by (cases a; cases b) auto

lemma diff_not_nan: "a \<noteq> NaN \<Longrightarrow> isfinite b \<Longrightarrow> a - b \<noteq> NaN"
  by (cases a; cases b) (auto simp: minus_dbl_def)

lemma healthy_time: "health_failure now s = [] \<Longrightarrow> now \<noteq> NaN"
  by (cases "rh_camera_time s") (auto simp: health_failure_def fresh_at_def split: if_splits)

text \<open>Driving with the depth layers is allowed only after continuous health: when an evaluation
  allows it, the camera, the cloud and both layers are healthy and fresh at that moment, and an
  earlier evaluation at least the stable time ago found the same, and since then no event
  interrupted the health (a camera fault, a refused cloud, a stale or restarted layer, an evaluation
  that found anything stale), while each layer reported at least twice.\<close>

lemma allowed_after_stable_health:
  assumes "required_health_init it lt st = Inr s0" "s = run_events stvl_handle es s0" "fst (required_allowed now s)"
  shows "health_failure now s = [] \<and> (\<exists>pre h post. es = pre @ (Allowed, h) # post \<and> h \<le> now \<and> st \<le> now - h \<and>
    uninterrupted s0 pre h post \<and> 2 \<le> reports_of Local_layer post \<and> 2 \<le> reports_of Global_layer post)"
proof -
  have ok: "health_failure now s = []" using assms(3) by (auto simp: required_allowed_def Let_def split: if_splits)
  have u: "\<not> (now < rh_healthy_since (open_health now s) \<or>
      now - rh_healthy_since (open_health now s) < rh_stable_time (open_health now s) \<or>
      updates_since Local_layer (open_health now s) < 2 \<or> updates_since Global_layer (open_health now s) < 2)"
    using assms(3) ok by (simp add: required_allowed_def Let_def open_health_reason updates_since_def split: if_split_asm)
  have fin: "isfinite (rh_healthy_since s)"
    using u by (cases "isfinite (rh_healthy_since s)") auto
  have "\<not> isfinite (rh_healthy_since s0)" using assms(1) by (auto simp: required_health_init_def split: if_splits)
  from explained_run [OF this, of es] fin obtain pre h post where p: "es = pre @ (Allowed, h) # post"
    "rh_healthy_since s = h" "uninterrupted s0 pre h post" "\<And>i. \<exists>n \<le> reports_of i post. updates_since i s = of_nat n"
    unfolding explained_def assms(2) by blast
  have r: "2 \<le> reports_of i post" if "\<not> updates_since i s < 2" for i
    using p(4) [of i] unat_bounded that by blast
  have st: "rh_stable_time s = st" "isfinite st"
    using stable.always [of s0 st es] assms(1,2) by (auto simp: required_health_init_def split: if_splits)
  have "now \<noteq> NaN" "isfinite h" using healthy_time [OF ok] fin p(2) by simp_all
  then have "h \<le> now" "st \<le> now - h"
    using u fin p(2) st by (auto intro!: not_less_dbl dest: diff_not_nan)
  then show ?thesis using ok p r u fin by (intro conjI exI [of _ pre] exI [of _ h] exI [of _ post]) auto
qed

text \<open>Two reports of each layer within a second of the first good evaluation.\<close>

definition stable_layer :: "64 word \<Rightarrow> dbl \<Rightarrow> stvl_layer" where
  "stable_layer n t = \<lparr>sl_seen = True, sl_current = True, sl_sequence = n, sl_updates = n, sl_time = t\<rparr>"

definition stable_state :: "dbl \<Rightarrow> stvl_layer \<Rightarrow> stvl_layer \<Rightarrow> 64 word \<Rightarrow> string \<Rightarrow> required_health" where
  "stable_state since l g barrier reason = \<lparr>rh_input_timeout = Fin 1, rh_layer_timeout = Fin 1, rh_stable_time = Fin 1,
     rh_camera_ok = True, rh_cloud_ok = True, rh_camera_time = Fin 1, rh_cloud_time = Fin 1,
     rh_healthy_since = since, rh_cloud_stamp = 1,
     rh_layers = (\<lambda>i. if i = Local_layer then l else g), rh_barrier = (\<lambda>_. barrier), rh_reason = reason\<rparr>"

definition stable_start :: required_health where
  "stable_start = (case required_health_init (Fin 1) (Fin 1) (Fin 1) of Inr s \<Rightarrow> s)"

definition stable_history :: "(stvl_event \<times> dbl) list" where
  "stable_history = [(Camera_msg True, Fin 1), (Cloud_msg 1 (Fin 0), Fin 1), (Layer_msg Local_layer True 1, Fin 1),
     (Layer_msg Global_layer True 1, Fin 1), (Allowed, Fin 1), (Layer_msg Local_layer True 2, Fin 1),
     (Layer_msg Local_layer True 3, Fin 2), (Layer_msg Global_layer True 2, Fin 1), (Layer_msg Global_layer True 3, Fin 2)]"

lemma stable_start: "required_health_init (Fin 1) (Fin 1) (Fin 1) = Inr stable_start"
  by (simp add: stable_start_def required_health_init_def)

lemma stable_camera: "health_cloud 1 (Fin 0) (Fin 1) (health_camera True (Fin 1) stable_start) =
    stable_state PInf layer_init layer_init 0 ''STARTUP_STOP''"
  by (simp add: stable_start_def required_health_init_def health_camera_def health_cloud_def cloud_refused_def
      stable_state_def Let_def)

lemma layers_eq: "f = g \<longleftrightarrow> f Local_layer = g Local_layer \<and> f Global_layer = g Global_layer"
  by (metis ext layer_id.exhaust)

lemma stable_report:
  "health_layer Local_layer True 1 t (stable_state h layer_init g b r) = stable_state h (stable_layer 1 t) g b r"
  "health_layer Global_layer True 1 t (stable_state h l layer_init b r) = stable_state h l (stable_layer 1 t) b r"
  "health_layer Local_layer True 2 t (stable_state h (stable_layer 1 u) g b r) = stable_state h (stable_layer 2 t) g b r"
  "health_layer Global_layer True 2 t (stable_state h l (stable_layer 1 u) b r) = stable_state h l (stable_layer 2 t) b r"
  "health_layer Local_layer True 3 t (stable_state h (stable_layer 2 u) g b r) = stable_state h (stable_layer 3 t) g b r"
  "health_layer Global_layer True 3 t (stable_state h l (stable_layer 2 u) b r) = stable_state h l (stable_layer 3 t) b r"
  by (auto simp: stable_state_def health_layer_def layer_init_def stable_layer_def layer_regressed_def set_layer_def layers_eq Let_def)

lemma stable_verdict:
  "snd (required_allowed (Fin 1) (stable_state PInf (stable_layer 1 (Fin 1)) (stable_layer 1 (Fin 1)) 0 r)) =
     stable_state (Fin 1) (stable_layer 1 (Fin 1)) (stable_layer 1 (Fin 1)) 1 ''RECOVERING''"
  "fst (required_allowed (Fin 2) (stable_state (Fin 1) (stable_layer 3 (Fin 2)) (stable_layer 3 (Fin 2)) 1 r))"
proof -
  have f: "fresh_at (Fin 1) (Fin 1) (Fin 1)" "fresh_at (Fin 1) (Fin 2) (Fin 1)" "fresh_at (Fin 2) (Fin 2) (Fin 1)"
    "Fin 1 - Fin 1 < Fin 1" "\<not> Fin 2 - Fin 1 < Fin 1"
    by (code_simp, code_simp, code_simp, code_simp, code_simp)
  have h: "health_failure (Fin 1) (stable_state x (stable_layer 1 (Fin 1)) (stable_layer 1 (Fin 1)) b r) = []"
    "health_failure (Fin 2) (stable_state x (stable_layer 3 (Fin 2)) (stable_layer 3 (Fin 2)) b r) = []" for x b r
    by (simp_all add: health_failure_def layer_fails_def stable_state_def stable_layer_def f)
  have o: "open_health (Fin 1) (stable_state PInf (stable_layer 1 (Fin 1)) (stable_layer 1 (Fin 1)) 0 r) =
      stable_state (Fin 1) (stable_layer 1 (Fin 1)) (stable_layer 1 (Fin 1)) 1 r" for r
    by (simp add: open_health_def stable_state_def stable_layer_def)
  have o2: "open_health (Fin 2) (stable_state (Fin 1) l g b r) = stable_state (Fin 1) l g b r" for l g b r
    by (simp add: open_health_def stable_state_def)
  have p: "rh_healthy_since (stable_state x l g b r) = x" "rh_stable_time (stable_state x l g b r) = Fin 1"
    "rh_reason (stable_state x l g b r) = r" "(stable_state x l g b r)\<lparr>rh_reason := r'\<rparr> = stable_state x l g b r'" for x l g b r r'
    by (simp_all add: stable_state_def)
  have u: "updates_since i (stable_state x (stable_layer n t) (stable_layer n t) b r) = n - b" for i x n t b r
    by (simp add: updates_since_def stable_state_def stable_layer_def)
  show "snd (required_allowed (Fin 1) (stable_state PInf (stable_layer 1 (Fin 1)) (stable_layer 1 (Fin 1)) 0 r)) =
     stable_state (Fin 1) (stable_layer 1 (Fin 1)) (stable_layer 1 (Fin 1)) 1 ''RECOVERING''"
    by (simp add: required_allowed_def h o p f Let_def)
  show "fst (required_allowed (Fin 2) (stable_state (Fin 1) (stable_layer 3 (Fin 2)) (stable_layer 3 (Fin 2)) 1 r))"
    using f(5) by (simp only: required_allowed_def h o2 p u Let_def) simp
qed

lemma stable_allowed: "fst (required_allowed (Fin 2) (run_events stvl_handle stable_history stable_start))"
  by (simp add: stable_history_def run_events_def stvl_handle_def stable_camera stable_report stable_verdict)

end
