(* ===== verification/Depth_Supervision.thy ===== *)
theory Depth_Supervision
  imports Stvl_Health
begin

text \<open>
  The node that decides whether the robot may move with the depth camera,
  \<open>depth_layer_supervisor.cpp\<close>, and the layer whose reports it reads, \<open>monitored_stvl_layer.cpp\<close>.
  The answers of the parameter and clearing services arrive as events; whether the services are
  ready is an argument of the timer. The requests sent and the permissions published are recorded
  in \<open>ds_requests\<close> and \<open>ds_published\<close>; the status message and the marker, which only present the state,
  are left out. A callback reads the monotonic clock once.
\<close>

subsection \<open>The reports of the layer\<close>

text \<open>A status is its name with its key-value pairs. \<open>current\<close> is what the base class computed in
  \<open>updateBounds\<close>; the text of the duration is left out.\<close>

type_synonym diag_status = "string \<times> (string \<times> string) list"

record monitored_layer =
  ml_name :: string
  ml_sources_current :: bool
  ml_sequence :: "64 word"

definition monitored_init :: "string \<Rightarrow> monitored_layer" where
  "monitored_init name = \<lparr>ml_name = name, ml_sources_current = False, ml_sequence = 0\<rparr>"

definition update_bounds :: "bool \<Rightarrow> monitored_layer \<Rightarrow> monitored_layer" where
  "update_bounds current l = l\<lparr>ml_sources_current := current\<rparr>"

definition update_costs :: "monitored_layer \<Rightarrow> diag_status \<times> monitored_layer" where
  "update_costs l = (let seq = ml_sequence l + 1 in
     ((ml_name l, [(''source_current'', if ml_sources_current l then ''true'' else ''false''),
        (''update_seq'', nat_to_string (unat seq))]), l\<lparr>ml_sequence := seq\<rparr>))"

definition guard_parameters :: "string list \<Rightarrow> monitored_layer \<Rightarrow> bool" where
  "guard_parameters names l \<longleftrightarrow> \<not> list_ex (starts_with (ml_name l @ ''.'')) names"

subsection \<open>Reading a report\<close>

text \<open>\<open>std::stoull\<close> in base ten: the value and the number of characters read, or an exception.\<close>

definition is_space :: "char \<Rightarrow> bool" where
  "is_space c \<longleftrightarrow> of_char c \<in> {9, 10, 11, 12, 13, 32 :: nat}"

definition is_digit :: "char \<Rightarrow> bool" where
  "is_digit c \<longleftrightarrow> 48 \<le> (of_char c :: nat) \<and> (of_char c :: nat) \<le> 57"

definition digits_value :: "string \<Rightarrow> nat" where
  "digits_value ds = foldl (\<lambda>n c. 10 * n + (of_char c - 48)) 0 ds"

definition stoull :: "string \<Rightarrow> (64 word \<times> nat) option" where
  "stoull s =
     (let blank = takeWhile is_space s; r = dropWhile is_space s;
          sign = (case r of c # _ \<Rightarrow> c = CHR ''+'' \<or> c = CHR ''-'' | [] \<Rightarrow> False);
          negative = (case r of c # _ \<Rightarrow> c = CHR ''-'' | [] \<Rightarrow> False);
          digits = takeWhile is_digit (if sign then tl r else r); n = digits_value digits
      in if digits = [] \<or> 2 ^ 64 \<le> n then None
         else Some (if negative then - of_nat n else of_nat n,
           length blank + (if sign then 1 else 0) + length digits))"

definition scan_value :: "bool \<times> string \<Rightarrow> string \<times> string \<Rightarrow> bool \<times> string" where
  "scan_value acc kv = (case (acc, kv) of ((current, seq), (key, v)) \<Rightarrow>
     (if key = ''source_current'' then v = ''true'' else current, if key = ''update_seq'' then v else seq))"

definition scan_status :: "bool \<times> string \<Rightarrow> diag_status \<Rightarrow> bool \<times> string" where
  "scan_status acc s = (if fst s \<noteq> ''depth_stvl'' then acc else foldl scan_value acc (snd s))"

definition read_report :: "diag_status list \<Rightarrow> bool \<times> 64 word" where
  "read_report msg = (case foldl scan_status (False, []) msg of (current, seq) \<Rightarrow>
     (case stoull seq of
        None \<Rightarrow> (False, 0)
      | Some (v, used) \<Rightarrow>
          if used \<noteq> length seq \<or> seq = [] \<or> hd seq = CHR ''-'' then (False, 0) else (current, v)))"

subsection \<open>State of the supervisor\<close>

datatype switch_phase = Idle | Set_parameters | Clear_costmaps | Rebuild | Switch_failed

datatype fusion_state = Laser_only | Recovering | Fused

datatype layer_request = Set_layer layer_id bool | Clear_maps layer_id

record depth_params =
  dp_required :: bool
  dp_health_timeout :: dbl
  dp_recovery_stable :: dbl
  dp_rebuild_wait :: dbl
  dp_switch_timeout :: dbl

record depth_supervisor =
  ds_required_health :: required_health
  ds_raw_health :: bool
  ds_active :: bool
  ds_target :: bool
  ds_motion_allowed :: bool
  ds_initial_sync :: bool
  ds_operation_ok :: bool
  ds_pending :: int
  ds_phase :: switch_phase
  ds_state :: fusion_state
  ds_last_health :: time_ns
  ds_healthy_since :: time_ns
  ds_switch_started :: time_ns
  ds_rebuild_started :: time_ns
  ds_last_local :: time_ns
  ds_last_global :: time_ns
  ds_failure :: string
  ds_requests :: "layer_request list"
  ds_published :: "bool list"

definition publish_allowed :: "bool \<Rightarrow> depth_supervisor \<Rightarrow> depth_supervisor" where
  "publish_allowed a s = s\<lparr>ds_motion_allowed := a, ds_published := ds_published s @ [a]\<rparr>"

text \<open>The constructor: \<open>mode\<close> is the parameter, \<open>layer_timeout\<close> only configures the required mode.\<close>

definition depth_init ::
  "string \<Rightarrow> dbl \<Rightarrow> dbl \<Rightarrow> dbl \<Rightarrow> dbl \<Rightarrow> dbl \<Rightarrow> (depth_params \<times> depth_supervisor) result" where
  "depth_init mode health_timeout recovery_stable layer_timeout rebuild_wait switch_timeout =
     (if mode \<noteq> ''legacy_switch'' \<and> mode \<noteq> ''required_stvl'' then Inl Invalid_argument
      else bind_res (required_health_init health_timeout layer_timeout recovery_stable) (\<lambda>h.
        if health_timeout \<le> Fin 0 \<or> recovery_stable \<le> Fin 0 \<or> rebuild_wait < Fin 0 \<or> switch_timeout \<le> Fin 0
        then Inl Invalid_argument
        else let required = (mode = ''required_stvl'') in
          Inr (\<lparr>dp_required = required, dp_health_timeout = health_timeout, dp_recovery_stable = recovery_stable,
                 dp_rebuild_wait = rebuild_wait, dp_switch_timeout = switch_timeout\<rparr>,
               publish_allowed (\<not> required) \<lparr>ds_required_health = h, ds_raw_health = False, ds_active = False,
                 ds_target = False, ds_motion_allowed = True, ds_initial_sync = True, ds_operation_ok = True,
                 ds_pending = 0, ds_phase = Idle, ds_state = Laser_only, ds_last_health = 0, ds_healthy_since = 0,
                 ds_switch_started = 0, ds_rebuild_started = 0, ds_last_local = 0, ds_last_global = 0,
                 ds_failure = [], ds_requests = [], ds_published = []\<rparr>)))"

subsection \<open>Switching the layer\<close>

definition depth_health_fresh :: "depth_params \<Rightarrow> time_ns \<Rightarrow> depth_supervisor \<Rightarrow> bool" where
  "depth_health_fresh p now s \<longleftrightarrow> \<not> (\<not> ds_raw_health s \<or> ds_last_health s = 0)
     \<and> secs (now - ds_last_health s) \<le> dp_health_timeout p"

definition begin_switch :: "bool \<Rightarrow> bool \<Rightarrow> time_ns \<Rightarrow> depth_supervisor \<Rightarrow> depth_supervisor" where
  "begin_switch enable interfaces now s =
     (if ds_phase s \<noteq> Idle \<or> \<not> interfaces then s
      else let s = publish_allowed False (s\<lparr>ds_target := enable, ds_phase := Set_parameters, ds_switch_started := now,
             ds_pending := 2, ds_operation_ok := True, ds_failure := []\<rparr>)
           in s\<lparr>ds_requests := ds_requests s @ [Set_layer Local_layer enable, Set_layer Global_layer enable]\<rparr>)"

definition begin_clear :: "depth_supervisor \<Rightarrow> depth_supervisor" where
  "begin_clear s = s\<lparr>ds_phase := Clear_costmaps, ds_pending := 2, ds_requests := ds_requests s @ [Clear_maps Local_layer, Clear_maps Global_layer]\<rparr>"

definition fail_switch :: "string \<Rightarrow> depth_supervisor \<Rightarrow> depth_supervisor" where
  "fail_switch reason s = publish_allowed False (s\<lparr>ds_phase := Switch_failed, ds_failure := reason\<rparr>)"

definition tick_switch :: "depth_params \<Rightarrow> time_ns \<Rightarrow> depth_supervisor \<Rightarrow> depth_supervisor" where
  "tick_switch p now s =
     (if ds_phase s = Idle \<or> ds_phase s = Switch_failed then s
      else if dp_switch_timeout p < secs (now - ds_switch_started s) then fail_switch ''SWITCH_TIMEOUT'' s
      else if ds_phase s = Set_parameters \<and> ds_pending s = 0
      then if \<not> ds_operation_ok s then fail_switch (ds_failure s) s else begin_clear s
      else if ds_phase s = Clear_costmaps \<and> ds_pending s = 0
      then if \<not> ds_operation_ok s then fail_switch (ds_failure s) s
           else s\<lparr>ds_phase := Rebuild, ds_rebuild_started := now\<rparr>
      else if ds_phase s = Rebuild \<and> dp_rebuild_wait p \<le> secs (now - ds_rebuild_started s)
        \<and> ds_rebuild_started s < ds_last_local s \<and> ds_rebuild_started s < ds_last_global s
      then publish_allowed True (s\<lparr>ds_active := ds_target s, ds_phase := Idle, ds_initial_sync := False,
        ds_state := (if ds_target s then Fused else Laser_only)\<rparr>)
      else s)"

text \<open>The answers of the services: \<open>None\<close> is an exception with its text.\<close>

definition parameters_answered :: "(bool \<times> string) list + string \<Rightarrow> depth_supervisor \<Rightarrow> depth_supervisor" where
  "parameters_answered answer s =
     (let s = (case answer of
          Inr what \<Rightarrow> s\<lparr>ds_operation_ok := False, ds_failure := ''SET_PARAMETER_EXCEPTION: '' @ what\<rparr>
        | Inl results \<Rightarrow>
            foldl (\<lambda>s (ok, reason). if ok then s
                else s\<lparr>ds_operation_ok := False, ds_failure := ''SET_PARAMETER_FAILED: '' @ reason\<rparr>)
              (if results = [] then s\<lparr>ds_operation_ok := False, ds_failure := ''EMPTY_PARAMETER_RESULT''\<rparr> else s) results)
      in s\<lparr>ds_pending := ds_pending s - 1\<rparr>)"

definition clear_answered :: "string option \<Rightarrow> depth_supervisor \<Rightarrow> depth_supervisor" where
  "clear_answered failure s =
     (let s = (case failure of None \<Rightarrow> s
        | Some what \<Rightarrow> s\<lparr>ds_operation_ok := False, ds_failure := ''CLEAR_COSTMAP_EXCEPTION: '' @ what\<rparr>)
      in s\<lparr>ds_pending := ds_pending s - 1\<rparr>)"

subsection \<open>The timer\<close>

definition depth_decide :: "depth_params \<Rightarrow> bool \<Rightarrow> bool \<Rightarrow> time_ns \<Rightarrow> depth_supervisor \<Rightarrow> depth_supervisor" where
  "depth_decide p healthy interfaces now s =
     (if ds_initial_sync s
      then begin_switch False interfaces now (s\<lparr>ds_state := (if healthy then Recovering else Laser_only)\<rparr>)
      else if ds_active s \<and> \<not> healthy
      then let s = s\<lparr>ds_state := Laser_only\<rparr> in
        if interfaces then begin_switch False interfaces now s
        else fail_switch ''COSTMAP_INTERFACES_UNAVAILABLE_DURING_DEGRADE'' s
      else if \<not> ds_active s \<and> healthy
      then let s = s\<lparr>ds_state := Recovering\<rparr> in
        if dp_recovery_stable p \<le> secs (now - ds_healthy_since s) then begin_switch True interfaces now s else s
      else s\<lparr>ds_state := (if ds_active s then Fused else Laser_only)\<rparr>)"

definition depth_tick_legacy :: "depth_params \<Rightarrow> bool \<Rightarrow> time_ns \<Rightarrow> depth_supervisor \<Rightarrow> depth_supervisor" where
  "depth_tick_legacy p interfaces now s =
     (let healthy = depth_health_fresh p now s;
          s = s\<lparr>ds_healthy_since := (if healthy then if ds_healthy_since s = 0 then now else ds_healthy_since s else 0)\<rparr>
      in if ds_phase s = Switch_failed then publish_allowed False s
         else let s = tick_switch p now s in
           if ds_phase s \<noteq> Idle then publish_allowed False s
           else let s = depth_decide p healthy interfaces now s
                in if ds_phase s = Idle then publish_allowed True s else s)"

definition depth_tick :: "depth_params \<Rightarrow> bool \<Rightarrow> time_ns \<Rightarrow> depth_supervisor \<Rightarrow> depth_supervisor" where
  "depth_tick p interfaces now s =
     (if dp_required p
      then case required_allowed (secs now) (ds_required_health s) of (a, h) \<Rightarrow>
        publish_allowed a (s\<lparr>ds_required_health := h\<rparr>)
      else depth_tick_legacy p interfaces now s)"

subsection \<open>Events\<close>

text \<open>Clouds and reports of the layers are only subscribed to in the required mode; a cloud event has
  the stamp and its age.\<close>

datatype depth_event = Depth_health bool | Depth_cloud int dbl | Depth_report layer_id "diag_status list"
  | Local_map | Global_map | Parameters_answer "(bool \<times> string) list + string" | Clear_answer "string option"
  | Depth_timer bool

definition on_required :: "(required_health \<Rightarrow> required_health) \<Rightarrow> depth_supervisor \<Rightarrow> depth_supervisor" where
  "on_required f s = s\<lparr>ds_required_health := f (ds_required_health s)\<rparr>"

definition depth_handle :: "depth_params \<Rightarrow> depth_event \<Rightarrow> time_ns \<Rightarrow> depth_supervisor \<Rightarrow> depth_supervisor" where
  "depth_handle p e now s = (case e of
       Depth_health ok \<Rightarrow> on_required (health_camera ok (secs now)) (s\<lparr>ds_raw_health := ok, ds_last_health := now\<rparr>)
     | Depth_cloud stamp age \<Rightarrow> if dp_required p then on_required (health_cloud stamp age (secs now)) s else s
     | Depth_report i msg \<Rightarrow> if dp_required p
         then case read_report msg of (current, seq) \<Rightarrow> on_required (health_layer i current seq (secs now)) s else s
     | Local_map \<Rightarrow> s\<lparr>ds_last_local := now\<rparr>
     | Global_map \<Rightarrow> s\<lparr>ds_last_global := now\<rparr>
     | Parameters_answer a \<Rightarrow> parameters_answered a s
     | Clear_answer a \<Rightarrow> clear_answered a s
     | Depth_timer interfaces \<Rightarrow> depth_tick p interfaces now s)"

subsection \<open>A report is read as it was sent\<close>

lemma digit_char: "k < 10 \<Longrightarrow> of_char (char_of (48 + k :: nat)) = 48 + k"
  by simp

lemma nat_string_digits: "list_all is_digit (nat_to_string n)"
proof (induction n rule: nat_to_string.induct)
  case (1 n)
  have "is_digit (char_of (48 + k :: nat))" if "k < 10" for k
    using that by (simp add: is_digit_def)
  then show ?case using 1 by (subst nat_to_string.simps) simp
qed

lemma nat_string_not_empty: "nat_to_string n \<noteq> []"
  by (subst nat_to_string.simps) simp

lemma nat_string_value: "digits_value (nat_to_string n) = n"
proof (induction n rule: nat_to_string.induct)
  case (1 n)
  have c: "of_char (char_of (48 + n mod 10 :: nat)) = 48 + n mod 10" by simp
  show ?case
  proof (cases "n < 10")
    case True
    then show ?thesis by (subst nat_to_string.simps) (simp add: digits_value_def)
  next
    case False
    with 1 have "foldl (\<lambda>n c. 10 * n + (of_char c - 48)) 0 (nat_to_string (n div 10)) = n div 10"
      by (simp add: digits_value_def)
    with False c show ?thesis by (subst nat_to_string.simps) (simp add: digits_value_def)
  qed
qed

lemma digit_not_space: "is_digit c \<Longrightarrow> \<not> is_space c \<and> c \<noteq> CHR ''+'' \<and> c \<noteq> CHR ''-''"
  by (auto simp: is_digit_def is_space_def)

lemma stoull_number: "stoull (nat_to_string (unat w)) = Some (w, length (nat_to_string (unat w)))"
proof -
  obtain c cs where s: "nat_to_string (unat w) = c # cs" using nat_string_not_empty by (metis list.exhaust)
  have d: "list_all is_digit (c # cs)" using nat_string_digits [of "unat w"] s by simp
  then have c: "\<not> is_space c" "c \<noteq> CHR ''+''" "c \<noteq> CHR ''-''" using digit_not_space by auto
  have t: "takeWhile is_digit (c # cs) = c # cs" using d by (simp add: takeWhile_eq_all_conv list_all_iff)
  have v: "digits_value (c # cs) = unat w" using nat_string_value s by metis
  have "\<not> 2 ^ 64 \<le> unat w" using unsigned_less [of w, where ?'a = nat] by simp
  moreover have "takeWhile is_space (c # cs) = []" "dropWhile is_space (c # cs) = c # cs" using c(1) by simp_all
  ultimately show ?thesis unfolding s using c by (simp add: stoull_def Let_def t v del: takeWhile.simps dropWhile.simps)
qed

lemma written_report:
  "read_report [(''depth_stvl'', [(''source_current'', if c then ''true'' else ''false''),
     (''update_seq'', nat_to_string (unat w))])] = (c, w)"
proof -
  have "hd (nat_to_string (unat w)) \<noteq> CHR ''-''"
    using nat_string_digits [of "unat w"] nat_string_not_empty [of "unat w"] digit_not_space
    by (cases "nat_to_string (unat w)") auto
  then show ?thesis
    by (simp add: read_report_def scan_status_def scan_value_def stoull_number nat_string_not_empty)
qed

text \<open>The supervisor reads from a report of the depth layer exactly what the layer wrote: whether
  its sources are current and the number of the update.\<close>

theorem report_roundtrip:
  assumes "ml_name l = ''depth_stvl''"
  shows "read_report [fst (update_costs l)] = (ml_sources_current l, ml_sequence (snd (update_costs l)))"
  using assms by (simp add: update_costs_def Let_def written_report)

theorem report_roundtrip_witness:
  "read_report [fst (update_costs (update_bounds True (monitored_init ''depth_stvl'')))] = (True, 1)"
  by (subst report_roundtrip) (simp_all add: update_bounds_def monitored_init_def update_costs_def)

subsection \<open>The required mode\<close>

text \<open>What the node passes on to the health object.\<close>

fun stvl_events :: "(depth_event \<times> time_ns) list \<Rightarrow> (stvl_event \<times> dbl) list" where
  "stvl_events [] = []"
| "stvl_events ((Depth_health ok, t) # es) = (Camera_msg ok, secs t) # stvl_events es"
| "stvl_events ((Depth_cloud stamp age, t) # es) = (Cloud_msg stamp age, secs t) # stvl_events es"
| "stvl_events ((Depth_report i msg, t) # es) =
     (Layer_msg i (fst (read_report msg)) (snd (read_report msg)), secs t) # stvl_events es"
| "stvl_events ((Depth_timer ready, t) # es) = (Allowed, secs t) # stvl_events es"
| "stvl_events (_ # es) = stvl_events es"

lemma stvl_events_append: "stvl_events (es @ es') = stvl_events es @ stvl_events es'"
  by (induction es rule: stvl_events.induct) auto

lemma answers_keep_health:
  "ds_required_health (parameters_answered a s) = ds_required_health s"
  "ds_required_health (clear_answered c s) = ds_required_health s"
proof -
  have "ds_required_health (foldl (\<lambda>s (ok, reason). if ok then s
        else s\<lparr>ds_operation_ok := False, ds_failure := ''SET_PARAMETER_FAILED: '' @ reason\<rparr>) s rs) = ds_required_health s"
    for rs s by (induction rs rule: rev_induct) (auto split: prod.split)
  then show "ds_required_health (parameters_answered a s) = ds_required_health s"
    "ds_required_health (clear_answered c s) = ds_required_health s"
    by (auto simp: parameters_answered_def clear_answered_def Let_def split: sum.split option.split)
qed

lemma health_of_run:
  assumes "dp_required p"
  shows "ds_required_health (run_events (depth_handle p) es s) =
    run_events stvl_handle (stvl_events es) (ds_required_health s)"
proof (induction es rule: rev_induct)
  case (snoc x es)
  obtain e t where x: "x = (e, t)" by (cases x)
  show ?case using snoc assms
    by (cases e) (auto simp: x stvl_events_append depth_handle_def on_required_def stvl_handle_def answers_keep_health
      depth_tick_def publish_allowed_def run_events_append run_events_def split: prod.split)
qed simp

lemma stvl_events_split:
  assumes "stvl_events es = pre @ (Allowed, h) # post"
  obtains es1 ready t es2 where "es = es1 @ (Depth_timer ready, t) # es2" "stvl_events es1 = pre" "h = secs t"
    "stvl_events es2 = post"
proof -
  have "\<exists>es1 ready t es2. es = es1 @ (Depth_timer ready, t) # es2 \<and> stvl_events es1 = pre \<and> h = secs t \<and> stvl_events es2 = post"
    using assms
  proof (induction es arbitrary: pre)
    case (Cons x es)
    obtain e t where x: "x = (e, t)" by (cases x)
    have one: "stvl_events (x # es) = stvl_events [x] @ stvl_events es"
      using stvl_events_append [of "[x]" es] by simp
    have later: ?case if l: "pre = stvl_events [x] @ pre'" "stvl_events es = pre' @ (Allowed, h) # post" for pre'
    proof -
      obtain es1 ready u es2 where "es = es1 @ (Depth_timer ready, u) # es2" "stvl_events es1 = pre'" "h = secs u"
        "stvl_events es2 = post" using Cons.IH [OF l(2)] by blast
      with l(1) show ?thesis using stvl_events_append [of "[x]" es1]
        by (intro exI [of _ "x # es1"] exI [of _ ready] exI [of _ u] exI [of _ es2]) simp
    qed
    show ?case
    proof (cases "stvl_events [x] = []")
      case True
      then show ?thesis using Cons.prems one by (intro later [of pre]) simp_all
    next
      case False
      then obtain y where y: "stvl_events [x] = [y]" by (cases e) (auto simp: x)
      show ?thesis
      proof (cases pre)
        case Nil
        then have e: "y = (Allowed, h)" "stvl_events es = post" using Cons.prems one y by auto
        then obtain ready where "e = Depth_timer ready" "h = secs t" using y by (cases e) (auto simp: x)
        then show ?thesis using Nil e x by (intro exI [of _ "[]"] exI [of _ ready] exI [of _ t] exI [of _ es]) simp
      next
        case (Cons z pre')
        then show ?thesis using Cons.prems one y by (intro later [of pre']) simp_all
      qed
    qed
  qed simp
  then show ?thesis using that by blast
qed

lemma depth_init_required:
  "depth_init mode ht rs lt rw st = Inr (p, s0) \<Longrightarrow> required_health_init ht lt rs = Inr (ds_required_health s0) \<and>
     dp_required p = (mode = ''required_stvl'')"
  by (auto simp: depth_init_def bind_res_Inr publish_allowed_def Let_def split: if_splits)

text \<open>C8. With the depth layers required, the node publishes that the robot may move only after
  continuous health: when the timer allows motion, the camera, the cloud and both layers are healthy
  at that moment, an earlier run of the timer at least the configured stable time ago found the same,
  and no message or timer since interrupted it (a camera fault, a refused cloud, a stale or restarted
  layer, anything stale at a timer), while each layer reported at least twice.\<close>

theorem depth_motion_required:
  assumes "depth_init ''required_stvl'' ht rs lt rw st = Inr (p, s0)" "s = run_events (depth_handle p) es s0"
    "ds_motion_allowed (depth_handle p (Depth_timer ready) now s)"
  shows "health_failure (secs now) (ds_required_health s) = [] \<and>
    (\<exists>pre ready' t post. es = pre @ (Depth_timer ready', t) # post \<and> secs t \<le> secs now \<and> rs \<le> secs now - secs t \<and>
      uninterrupted (ds_required_health s0) (stvl_events pre) (secs t) (stvl_events post) \<and>
      2 \<le> reports_of Local_layer (stvl_events post) \<and> 2 \<le> reports_of Global_layer (stvl_events post))"
proof -
  have i: "required_health_init ht lt rs = Inr (ds_required_health s0)" "dp_required p"
    using depth_init_required [OF assms(1)] by simp_all
  have h: "ds_required_health s = run_events stvl_handle (stvl_events es) (ds_required_health s0)"
    using health_of_run [OF i(2)] assms(2) by simp
  have a: "fst (required_allowed (secs now) (ds_required_health s))"
    using assms(3) i(2) by (simp add: depth_handle_def depth_tick_def publish_allowed_def split: prod.splits)
  obtain pre h post where p: "stvl_events es = pre @ (Allowed, h) # post" "h \<le> secs now" "rs \<le> secs now - h"
    "uninterrupted (ds_required_health s0) pre h post" "2 \<le> reports_of Local_layer post" "2 \<le> reports_of Global_layer post"
    and f: "health_failure (secs now) (ds_required_health s) = []"
    using allowed_after_stable_health [OF i(1) h a] by blast
  obtain es1 ready' t es2 where "es = es1 @ (Depth_timer ready', t) # es2" "stvl_events es1 = pre" "h = secs t"
    "stvl_events es2 = post" using stvl_events_split [OF p(1)] .
  then show ?thesis using p f by blast
qed

subsection \<open>The switching mode\<close>

definition switched :: "bool \<Rightarrow> depth_supervisor \<Rightarrow> bool" where
  "switched a s \<longleftrightarrow> (\<exists>rs. ds_requests s = rs @ [Set_layer Local_layer a, Set_layer Global_layer a, Clear_maps Local_layer, Clear_maps Global_layer])"

definition switch_inv :: "depth_supervisor \<Rightarrow> bool" where
  "switch_inv s \<longleftrightarrow> (ds_initial_sync s \<longrightarrow> \<not> ds_active s) \<and> (case ds_phase s of
       Idle \<Rightarrow> ds_initial_sync s \<or> switched (ds_active s) s
     | Set_parameters \<Rightarrow> \<exists>rs. ds_requests s = rs @ [Set_layer Local_layer (ds_target s), Set_layer Global_layer (ds_target s)]
     | Clear_costmaps \<Rightarrow> switched (ds_target s) s
     | Rebuild \<Rightarrow> switched (ds_target s) s
     | Switch_failed \<Rightarrow> True)"

text \<open>What the invariant does not look at.\<close>

definition same_switch :: "depth_supervisor \<Rightarrow> depth_supervisor \<Rightarrow> bool" where
  "same_switch s s' \<longleftrightarrow> ds_initial_sync s' = ds_initial_sync s \<and> ds_active s' = ds_active s \<and> ds_phase s' = ds_phase s \<and>
     ds_target s' = ds_target s \<and> ds_requests s' = ds_requests s"

lemma same_switch_inv: "same_switch s s' \<Longrightarrow> switch_inv s' = switch_inv s"
  by (simp add: same_switch_def switch_inv_def switched_def split: switch_phase.split)

lemma publish_views [simp]:
  "ds_phase (publish_allowed a s) = ds_phase s" "ds_motion_allowed (publish_allowed a s) = a"
  "ds_active (publish_allowed a s) = ds_active s" "ds_initial_sync (publish_allowed a s) = ds_initial_sync s"
  "ds_requests (publish_allowed a s) = ds_requests s"
  by (simp_all add: publish_allowed_def)

lemma kept_inv [simp]:
  "switch_inv (publish_allowed a s) = switch_inv s" "switch_inv (s\<lparr>ds_state := x\<rparr>) = switch_inv s"
  "switch_inv (s\<lparr>ds_healthy_since := t\<rparr>) = switch_inv s" "switch_inv (s\<lparr>ds_required_health := h\<rparr>) = switch_inv s"
  by (rule same_switch_inv, simp add: same_switch_def publish_allowed_def)+

lemma begin_switch_inv:
  assumes "switch_inv s"
  shows "switch_inv (begin_switch e i now s)"
  using assms by (auto simp: begin_switch_def switch_inv_def publish_allowed_def Let_def)

lemma fail_switch_inv: "switch_inv s \<Longrightarrow> switch_inv (fail_switch r s)"
  by (simp add: fail_switch_def switch_inv_def publish_allowed_def)

lemma tick_switch_inv:
  assumes "switch_inv s"
  shows "switch_inv (tick_switch p now s)"
proof -
  have "switch_inv (begin_clear s)" if "ds_phase s = Set_parameters"
    using assms that by (auto simp: switch_inv_def begin_clear_def switched_def)
  moreover have "switch_inv (s\<lparr>ds_phase := Rebuild, ds_rebuild_started := now\<rparr>)" if "ds_phase s = Clear_costmaps"
    using assms that by (auto simp: switch_inv_def switched_def)
  moreover have "switch_inv (s\<lparr>ds_active := ds_target s, ds_phase := Idle, ds_initial_sync := False, ds_state := x\<rparr>)"
    if "ds_phase s = Rebuild" for x
    using assms that by (auto simp: switch_inv_def switched_def)
  ultimately show ?thesis using assms fail_switch_inv [OF assms] by (simp add: tick_switch_def)
qed

lemma depth_decide_inv:
  assumes "switch_inv s"
  shows "switch_inv (depth_decide p h i now s)"
  using assms by (simp add: depth_decide_def begin_switch_inv fail_switch_inv Let_def)

lemma depth_tick_inv: "switch_inv s \<Longrightarrow> switch_inv (depth_tick p i now s)"
  by (simp add: depth_tick_def depth_tick_legacy_def tick_switch_inv depth_decide_inv Let_def split: prod.split)

lemma answers_same: "same_switch s (parameters_answered a s)" "same_switch s (clear_answered c s)"
proof -
  have "same_switch s (foldl (\<lambda>s (ok, reason). if ok then s
        else s\<lparr>ds_operation_ok := False, ds_failure := ''SET_PARAMETER_FAILED: '' @ reason\<rparr>) s rs)"
    for rs s by (induction rs rule: rev_induct) (auto simp: same_switch_def split: prod.split)
  then show "same_switch s (parameters_answered a s)" "same_switch s (clear_answered c s)"
    by (auto simp: parameters_answered_def clear_answered_def same_switch_def Let_def split: sum.split option.split)
qed

lemma message_same: "\<not> (\<exists>i. e = Depth_timer i) \<Longrightarrow> same_switch s (depth_handle p e t s)"
  by (cases e) (simp_all add: depth_handle_def on_required_def answers_same split: prod.split,
    simp_all add: same_switch_def)

interpretation switching: invariant "depth_handle p" switch_inv
proof
  fix s e t
  assume s: "switch_inv s"
  show "switch_inv (depth_handle p e t s)"
  proof (cases "\<exists>i. e = Depth_timer i")
    case True
    then show ?thesis using depth_tick_inv [OF s] by (auto simp: depth_handle_def)
  next
    case False
    then show ?thesis using s same_switch_inv [OF message_same] by blast
  qed
qed

lemma begin_switch_idle:
  "ds_phase (begin_switch e i now s) = Idle \<Longrightarrow> ds_phase s = Idle \<and> \<not> i \<and> begin_switch e i now s = s"
  by (auto simp: begin_switch_def publish_allowed_def Let_def split: if_splits)

lemma decide_idle:
  assumes "ds_phase (depth_decide p healthy i now s) = Idle" "ds_active (depth_decide p healthy i now s)"
    "switch_inv s"
  shows "healthy"
proof -
  have "\<not> (ds_initial_sync s \<and> ds_active s)" using assms(3) by (simp add: switch_inv_def)
  with assms(1,2) begin_switch_idle [of False i now "s\<lparr>ds_state := Laser_only\<rparr>"]
    begin_switch_idle [of False i now "s\<lparr>ds_state := (if healthy then Recovering else Laser_only)\<rparr>"]
    begin_switch_idle [of True i now "s\<lparr>ds_state := Recovering\<rparr>"]
  show ?thesis by (auto simp: depth_decide_def fail_switch_def Let_def split: if_splits)
qed

text \<open>C9. In the switching mode the node publishes that the robot may move only between switches: the
  timer allows motion only when no switch is in progress and none has failed; if the depth layer is
  in use, the camera is healthy and fresh at that moment; and once the first switch is done, the last
  requests it sent set both layers to the mode in use and then cleared both cost maps.\<close>

theorem depth_motion_switching:
  assumes "depth_init ''legacy_switch'' ht rs lt rw st = Inr (p, s0)" "s = run_events (depth_handle p) es s0"
    "s' = depth_handle p (Depth_timer ready) now s" "ds_motion_allowed s'"
  shows "ds_phase s' = Idle \<and> (ds_active s' \<longrightarrow> depth_health_fresh p now s) \<and>
    (ds_initial_sync s' \<or> switched (ds_active s') s')"
proof -
  have legacy: "\<not> dp_required p" using depth_init_required [OF assms(1)] by simp
  have "switch_inv s0" using assms(1)
    by (auto simp: depth_init_def bind_res_Inr switch_inv_def publish_allowed_def Let_def split: if_splits)
  then have inv: "switch_inv s" unfolding assms(2) by (rule switching.always)
  have inv': "switch_inv s'" unfolding assms(3) using inv by (rule switching.step)
  define s1 where "s1 = tick_switch p now (s\<lparr>ds_healthy_since := (if depth_health_fresh p now s
    then if ds_healthy_since s = 0 then now else ds_healthy_since s else 0)\<rparr>)"
  have i1: "switch_inv s1" unfolding s1_def using inv by (intro tick_switch_inv) simp
  have s': "s' = (if ds_phase s = Switch_failed then publish_allowed False (s\<lparr>ds_healthy_since := (if depth_health_fresh p now s
    then if ds_healthy_since s = 0 then now else ds_healthy_since s else 0)\<rparr>)
    else if ds_phase s1 \<noteq> Idle then publish_allowed False s1
    else let d = depth_decide p (depth_health_fresh p now s) ready now s1
      in if ds_phase d = Idle then publish_allowed True d else d)"
    using legacy by (simp add: assms(3) depth_handle_def depth_tick_def depth_tick_legacy_def s1_def Let_def)
  define d where "d = depth_decide p (depth_health_fresh p now s) ready now s1"
  have notidle: "\<not> ds_motion_allowed d" if "ds_phase d \<noteq> Idle" "ds_phase s1 = Idle"
    using that by (auto simp: d_def depth_decide_def begin_switch_def fail_switch_def Let_def split: if_splits)
  have d: "ds_phase d = Idle" "s' = publish_allowed True d"
    using s' assms(4) notidle by (auto simp: d_def [symmetric] Let_def split: if_splits)
  have "ds_active s' \<Longrightarrow> depth_health_fresh p now s"
    using decide_idle [OF _ _ i1] d by (simp add: d_def)
  moreover have "ds_initial_sync s' \<or> switched (ds_active s') s'"
    using inv' d by (simp add: switch_inv_def)
  ultimately show ?thesis using d by simp
qed

text \<open>A first switch with both services answering.\<close>

definition switch_start :: "depth_params \<times> depth_supervisor" where
  "switch_start = (case depth_init ''legacy_switch'' (Fin 1) (Fin 1) (Fin 1) (Fin 0) (Fin 5) of Inr x \<Rightarrow> x)"

definition switch_history :: "(depth_event \<times> time_ns) list" where
  "switch_history = [(Depth_timer True, 1), (Parameters_answer (Inl [(True, [])]), 1), (Parameters_answer (Inl [(True, [])]), 1),
     (Depth_timer True, 2), (Clear_answer None, 2), (Clear_answer None, 2), (Depth_timer True, 3), (Local_map, 4), (Global_map, 4)]"

lemma switch_start: "depth_init ''legacy_switch'' (Fin 1) (Fin 1) (Fin 1) (Fin 0) (Fin 5) = Inr switch_start"
  by (simp add: switch_start_def depth_init_def required_health_init_def)

lemma switch_params:
  "\<not> dp_required (fst switch_start)" "dp_health_timeout (fst switch_start) = Fin 1" "dp_rebuild_wait (fst switch_start) = Fin 0"
  "dp_switch_timeout (fst switch_start) = Fin 5"
  by (simp_all add: switch_start_def depth_init_def required_health_init_def)

lemma switch_times: "\<not> Fin 5 < secs 1" "\<not> Fin 5 < secs 2" "\<not> Fin 5 < secs 4" "Fin 0 \<le> secs 2"
  by (code_simp, code_simp, code_simp, code_simp)

definition answered_switch :: "depth_supervisor" where
  "answered_switch = run_events (depth_handle (fst switch_start)) switch_history (snd switch_start)"

definition switch_state :: "switch_phase \<Rightarrow> int \<Rightarrow> time_ns \<Rightarrow> time_ns \<Rightarrow> layer_request list \<Rightarrow> bool list \<Rightarrow> depth_supervisor" where
  "switch_state phase pending rebuild maps requests published = \<lparr>ds_required_health = stable_start, ds_raw_health = False,
     ds_active = False, ds_target = False, ds_motion_allowed = False, ds_initial_sync = True, ds_operation_ok = True,
     ds_pending = pending, ds_phase = phase, ds_state = Laser_only, ds_last_health = 0, ds_healthy_since = 0,
     ds_switch_started = 1, ds_rebuild_started = rebuild, ds_last_local = maps, ds_last_global = maps, ds_failure = [],
     ds_requests = requests, ds_published = published\<rparr>"

lemma switch_steps:
  "depth_tick (fst switch_start) True 1 (snd switch_start) =
     switch_state Set_parameters 2 0 0 [Set_layer Local_layer False, Set_layer Global_layer False] [True, False]"
  "parameters_answered (Inl [(True, [])]) (switch_state ph n r m q b) = switch_state ph (n - 1) r m q b"
  "clear_answered None (switch_state ph n r m q b) = switch_state ph (n - 1) r m q b"
  "depth_tick (fst switch_start) True 2 (switch_state Set_parameters 0 r m q b) =
     switch_state Clear_costmaps 2 r m (q @ [Clear_maps Local_layer, Clear_maps Global_layer]) (b @ [False])"
  "depth_tick (fst switch_start) True 3 (switch_state Clear_costmaps 0 r m q b) =
     switch_state Rebuild 0 3 m q (b @ [False])"
  "(switch_state ph n r m q b)\<lparr>ds_last_local := t, ds_last_global := t\<rparr> = switch_state ph n r t q b"
proof -
  have s: "snd switch_start = switch_state Idle 0 0 0 [] [True] \<lparr>ds_motion_allowed := True, ds_switch_started := 0\<rparr>"
    by (simp add: switch_start_def depth_init_def stable_start switch_state_def publish_allowed_def)
  show "depth_tick (fst switch_start) True 1 (snd switch_start) =
     switch_state Set_parameters 2 0 0 [Set_layer Local_layer False, Set_layer Global_layer False] [True, False]"
    by (simp add: s depth_tick_def depth_tick_legacy_def switch_params depth_health_fresh_def tick_switch_def depth_decide_def
        begin_switch_def publish_allowed_def switch_state_def Let_def)
  show "depth_tick (fst switch_start) True 2 (switch_state Set_parameters 0 r m q b) =
     switch_state Clear_costmaps 2 r m (q @ [Clear_maps Local_layer, Clear_maps Global_layer]) (b @ [False])"
    "depth_tick (fst switch_start) True 3 (switch_state Clear_costmaps 0 r m q b) =
     switch_state Rebuild 0 3 m q (b @ [False])"
    using switch_times by (simp_all add: depth_tick_def depth_tick_legacy_def switch_params depth_health_fresh_def
        tick_switch_def begin_clear_def publish_allowed_def switch_state_def Let_def)
qed (simp_all add: switch_state_def parameters_answered_def clear_answered_def)

lemma answered_switch: "answered_switch = switch_state Rebuild 0 3 4 [Set_layer Local_layer False, Set_layer Global_layer False, Clear_maps Local_layer, Clear_maps Global_layer]
    [True, False, False, False]"
  by (simp add: answered_switch_def switch_history_def run_events_def depth_handle_def switch_steps)

theorem depth_motion_switching_witness:
  "\<exists>s'. s' = depth_handle (fst switch_start) (Depth_timer True) 5 answered_switch \<and> ds_motion_allowed s' \<and>
     ds_phase s' = Idle \<and> switched False s'"
proof -
  define s' where "s' = depth_handle (fst switch_start) (Depth_timer True) 5 answered_switch"
  have m: "ds_motion_allowed s'" "\<not> ds_initial_sync s'" "\<not> ds_active s'"
  proof -
    define q where "q = [Set_layer Local_layer False, Set_layer Global_layer False, Clear_maps Local_layer, Clear_maps Global_layer]"
    define d where "d = (switch_state Idle 0 3 4 q [True, False, False, False, True])\<lparr>ds_motion_allowed := True, ds_initial_sync := False\<rparr>"
    have h: "depth_health_fresh (fst switch_start) 5 answered_switch = False"
      by (simp add: depth_health_fresh_def answered_switch switch_state_def)
    have z: "answered_switch\<lparr>ds_healthy_since := 0\<rparr> = answered_switch" "ds_phase answered_switch = Rebuild"
      by (simp_all add: answered_switch switch_state_def)
    have t: "tick_switch (fst switch_start) 5 answered_switch = d"
      using switch_times by (simp add: tick_switch_def answered_switch switch_params publish_allowed_def switch_state_def d_def q_def)
    have e: "depth_decide (fst switch_start) False True 5 d = d" by (simp add: depth_decide_def d_def switch_state_def)
    have "s' = publish_allowed True d"
      by (simp add: s'_def depth_handle_def depth_tick_def depth_tick_legacy_def switch_params(1) h z t e Let_def)
        (simp add: d_def switch_state_def)
    then show "ds_motion_allowed s'" "\<not> ds_initial_sync s'" "\<not> ds_active s'" by (simp_all add: d_def switch_state_def)
  qed
  have "depth_init ''legacy_switch'' (Fin 1) (Fin 1) (Fin 1) (Fin 0) (Fin 5) = Inr (fst switch_start, snd switch_start)"
    by (simp add: switch_start)
  from depth_motion_switching [OF this answered_switch_def s'_def m(1)] m show ?thesis
    by (auto simp: s'_def)
qed

text \<open>Two reports of each layer within a second.\<close>

definition layer_text :: "64 word \<Rightarrow> diag_status list" where
  "layer_text n = [(''depth_stvl'', [(''source_current'', ''true''), (''update_seq'', nat_to_string (unat n))])]"

definition required_start :: "depth_params \<times> depth_supervisor" where
  "required_start = (case depth_init ''required_stvl'' (Fin 1) (Fin 1) (Fin 1) (Fin 0) (Fin 5) of Inr x \<Rightarrow> x)"

definition required_history :: "(depth_event \<times> time_ns) list" where
  "required_history = [(Depth_health True, 1000000000), (Depth_cloud 1 (Fin 0), 1000000000),
     (Depth_report Local_layer (layer_text 1), 1000000000), (Depth_report Global_layer (layer_text 1), 1000000000),
     (Depth_timer True, 1000000000), (Depth_report Local_layer (layer_text 2), 1000000000),
     (Depth_report Local_layer (layer_text 3), 2000000000), (Depth_report Global_layer (layer_text 2), 1000000000),
     (Depth_report Global_layer (layer_text 3), 2000000000)]"

lemma required_history: "stvl_events required_history = stable_history"
proof -
  have r: "read_report (layer_text n) = (True, n)" for n
    using written_report [of True n] by (simp add: layer_text_def)
  have t: "secs 1000000000 = Fin 1" "secs 2000000000 = Fin 2" by (code_simp, code_simp)
  show ?thesis by (simp add: required_history_def stable_history_def r t)
qed

lemma required_start:
  "depth_init ''required_stvl'' (Fin 1) (Fin 1) (Fin 1) (Fin 0) (Fin 5) = Inr (fst required_start, snd required_start)"
  by (simp add: required_start_def depth_init_def stable_start)

theorem depth_motion_required_witness:
  "\<exists>s. s = run_events (depth_handle (fst required_start)) required_history (snd required_start) \<and>
     ds_motion_allowed (depth_handle (fst required_start) (Depth_timer True) 2000000000 s) \<and>
     health_failure (secs 2000000000) (ds_required_health s) = []"
proof -
  define s where "s = run_events (depth_handle (fst required_start)) required_history (snd required_start)"
  note i = depth_init_required [OF required_start]
  have "ds_required_health s = run_events stvl_handle stable_history stable_start"
    using health_of_run [of "fst required_start" required_history "snd required_start"] i stable_start
    by (simp add: s_def required_history)
  moreover have "secs 2000000000 = Fin 2" by code_simp
  ultimately have a: "ds_motion_allowed (depth_handle (fst required_start) (Depth_timer True) 2000000000 s)"
    using stable_allowed i by (simp add: depth_handle_def depth_tick_def publish_allowed_def case_prod_beta)
  from depth_motion_required [OF required_start s_def a] a show ?thesis unfolding s_def by blast
qed

end
