(* ===== verification/Inspection.thy ===== *)
theory Inspection
  imports Ieee_Double Prelude "HOL-Library.Word"
begin

text \<open>
  The inspection application: the angle of the camera servo (\<open>domain.hpp\<close>), the dialogue that teaches
  an angle (\<open>teaching.hpp\<close>) and the mission that visits the points (\<open>executor.cpp\<close>). A failed \<open>require\<close> is
  an error value; its Chinese text is a constructor. JSON objects are records of the fields the code
  reads. The behaviour-tree library runs the steps of a tree: what one \<open>tickRoot\<close> answers and the
  kinds of the steps it called are arguments of \<open>mission_tick\<close>.
\<close>

subsection \<open>The servo\<close>

fun lround :: "dbl \<Rightarrow> int" where
  "lround (Fin q) = (if q < 0 then - \<lfloor>- q + 1 / 2\<rfloor> else \<lfloor>q + 1 / 2\<rfloor>)"
| "lround _ = 0"

definition servo_command :: "dbl \<Rightarrow> int option" where
  "servo_command target =
     (if \<not> (isfinite target \<and> Fin 85 \<le> target \<and> target \<le> Fin 160) then None
      else Some (max 57 (min 106 (lround (target / Fin (3 / 2))))))"

subsection \<open>Teaching\<close>

datatype teach_phase = Teach_idle | Acquiring_hold | Waiting_stop | Ready | Sending | Waiting_frame
  | Awaiting_confirmation | Teach_confirmed | Teach_fault

datatype teach_error = Unfinished | Hold_changed | Board_out_of_range | Revision_changed | Not_ready | Not_still
  | Target_too_far | Target_invalid | Board_too_far | Recheck_image | No_new_image | Not_confirmable | Image_not_viewed

datatype fault_reason = No_fault | Reported string | Send_mismatch | Page_closed

record teaching =
  te_phase :: teach_phase
  te_error :: fault_reason
  te_owner :: string
  te_epoch :: string
  te_target :: dbl
  te_command_at :: dbl
  te_board :: int
  te_pending :: int
  te_revision :: "64 word"
  te_frame :: "64 word"
  te_displayed :: "64 word"

definition teaching_init :: teaching where
  "teaching_init = \<lparr>te_phase = Teach_idle, te_error = No_fault, te_owner = [], te_epoch = [], te_target = fl 140.5,
     te_command_at = Fin 0, te_board = 94, te_pending = 94, te_revision = 0, te_frame = 0, te_displayed = 0\<rparr>"

definition enter_phase :: "teach_phase \<Rightarrow> teaching \<Rightarrow> teaching" where
  "enter_phase ph s = s\<lparr>te_phase := ph, te_revision := te_revision s + 1\<rparr>"

definition teach_begin :: "string \<Rightarrow> teaching \<Rightarrow> teach_error + teaching" where
  "teach_begin session s =
     (if \<not> (te_phase s = Teach_idle \<or> te_phase s = Teach_confirmed \<or> te_phase s = Teach_fault) then Inl Unfinished
      else Inr (enter_phase Acquiring_hold (s\<lparr>te_owner := session, te_error := No_fault\<rparr>)))"

definition teach_acquired :: "string \<Rightarrow> int \<Rightarrow> teaching \<Rightarrow> teach_error + teaching" where
  "teach_acquired epoch current_board s =
     (if te_phase s \<noteq> Acquiring_hold then Inl Hold_changed
      else if \<not> (57 \<le> current_board \<and> current_board \<le> 106) then Inl Board_out_of_range
      else Inr (enter_phase Waiting_stop (s\<lparr>te_epoch := epoch, te_board := current_board,
        te_target := (if current_board = 94 then fl 140.5 else i2d current_board * Fin (3 / 2))\<rparr>)))"

definition teach_stopped :: "bool \<Rightarrow> teaching \<Rightarrow> teaching" where
  "teach_stopped fresh_and_still s =
     (if te_phase s = Waiting_stop \<and> fresh_and_still then enter_phase Ready s else s)"

text \<open>A step that is refused for its distance has already stored the command it computed.\<close>

definition teach_step ::
  "dbl \<Rightarrow> 64 word \<Rightarrow> bool \<Rightarrow> 64 word \<Rightarrow> dbl \<Rightarrow> teaching \<Rightarrow> (teach_error + int) \<times> teaching" where
  "teach_step requested expected_revision fresh_and_still current_frame now s =
     (if te_revision s \<noteq> expected_revision then (Inl Revision_changed, s)
      else if \<not> (te_phase s = Ready \<or> te_phase s = Awaiting_confirmation) then (Inl Not_ready, s)
      else if \<not> fresh_and_still then (Inl Not_still, s)
      else if \<not> \<bar>requested - te_target s\<bar> \<le> fl 1.000001 then (Inl Target_too_far, s)
      else case servo_command requested of
        None \<Rightarrow> (Inl Target_invalid, s)
      | Some c \<Rightarrow>
          let s = s\<lparr>te_pending := c\<rparr> in
          if \<not> \<bar>te_pending s - te_board s\<bar> \<le> 1 then (Inl Board_too_far, s)
          else (Inr c, enter_phase Sending (s\<lparr>te_target := requested, te_command_at := now, te_frame := current_frame,
            te_displayed := 0\<rparr>)))"

definition teach_fault :: "fault_reason \<Rightarrow> teaching \<Rightarrow> teaching" where
  "teach_fault reason s = (enter_phase Teach_fault (s\<lparr>te_error := reason\<rparr>))\<lparr>te_displayed := 0\<rparr>"

definition teach_sent :: "bool \<Rightarrow> int \<Rightarrow> string \<Rightarrow> dbl \<Rightarrow> teaching \<Rightarrow> teaching" where
  "teach_sent ok actual_command reason now s =
     (if te_phase s \<noteq> Sending then s
      else if \<not> ok \<or> actual_command \<noteq> te_pending s
      then teach_fault (if reason = [] then Send_mismatch else Reported reason) s
      else enter_phase Waiting_frame (s\<lparr>te_board := actual_command, te_command_at := now\<rparr>))"

definition teach_image :: "64 word \<Rightarrow> bool \<Rightarrow> dbl \<Rightarrow> dbl \<Rightarrow> teaching \<Rightarrow> teaching" where
  "teach_image seq fresh now settle s =
     (if te_phase s = Waiting_frame \<and> fresh \<and> te_frame s < seq \<and> settle \<le> now - te_command_at s
      then enter_phase Awaiting_confirmation s else s)"

definition teach_viewed :: "64 word \<Rightarrow> teaching \<Rightarrow> teaching" where
  "teach_viewed seq s = s\<lparr>te_displayed := seq\<rparr>"

definition check_confirm ::
  "64 word \<Rightarrow> 64 word \<Rightarrow> bool \<Rightarrow> bool \<Rightarrow> dbl \<Rightarrow> dbl \<Rightarrow> teaching \<Rightarrow> teach_error + unit" where
  "check_confirm expected_revision displayed fresh_and_still fresh_image now settle s =
     (if expected_revision \<noteq> te_revision s then Inl Recheck_image
      else if te_phase s \<noteq> Awaiting_confirmation then Inl No_new_image
      else if \<not> (fresh_and_still \<and> fresh_image \<and> settle \<le> now - te_command_at s) then Inl Not_confirmable
      else if \<not> (displayed = te_displayed s \<and> te_frame s < displayed) then Inl Image_not_viewed
      else Inr ())"

definition teach_confirm :: "teaching \<Rightarrow> teaching" where
  "teach_confirm s = enter_phase Teach_confirmed s"

definition teach_disconnect :: "string \<Rightarrow> teaching \<Rightarrow> teaching" where
  "teach_disconnect session s =
     (if te_owner s = session \<and> te_phase s \<noteq> Teach_idle \<and> te_phase s \<noteq> Teach_confirmed then teach_fault Page_closed s else s)"

text \<open>The calls of the console, with the time of each; a refused call leaves what it left.\<close>

datatype teach_event = Begin_teaching string | Acquired string int | Stopped bool
  | Step_request dbl "64 word" bool "64 word" | Sent_result bool int string | Image_seen "64 word" bool dbl
  | Viewed "64 word" | Confirmed | Fault_reported fault_reason | Disconnected string

definition or_same :: "'e + 's \<Rightarrow> 's \<Rightarrow> 's" where
  "or_same r s = (case r of Inl _ \<Rightarrow> s | Inr s' \<Rightarrow> s')"

definition teach_handle :: "teach_event \<Rightarrow> dbl \<Rightarrow> teaching \<Rightarrow> teaching" where
  "teach_handle e now s = (case e of
       Begin_teaching session \<Rightarrow> or_same (teach_begin session s) s
     | Acquired epoch board \<Rightarrow> or_same (teach_acquired epoch board s) s
     | Stopped b \<Rightarrow> teach_stopped b s
     | Step_request requested revision still frame \<Rightarrow> snd (teach_step requested revision still frame now s)
     | Sent_result ok actual reason \<Rightarrow> teach_sent ok actual reason now s
     | Image_seen seq fresh settle \<Rightarrow> teach_image seq fresh now settle s
     | Viewed seq \<Rightarrow> teach_viewed seq s
     | Confirmed \<Rightarrow> teach_confirm s
     | Fault_reported reason \<Rightarrow> teach_fault reason s
     | Disconnected session \<Rightarrow> teach_disconnect session s)"

subsection \<open>Points and tasks\<close>

text \<open>The bytes of an identifier are characters of the lists below.\<close>

record stop_pose =
  po_x :: dbl
  po_y :: dbl
  po_yaw :: dbl

record approach =
  ap_pose :: stop_pose
  ap_target :: dbl
  ap_board :: int
  ap_verified :: bool
  ap_reference :: "string option"

record mission_point =
  mp_id :: string
  mp_map_id :: string
  mp_name :: string
  mp_map_version :: string
  mp_views :: bool
  mp_pose :: stop_pose
  mp_target :: dbl
  mp_board :: int
  mp_verified :: bool
  mp_reference :: "string option"
  mp_approaches :: "approach list option"

record inspection_task =
  it_id :: string
  it_map_id :: string
  it_name :: string
  it_points :: "string list"
  it_parking :: stop_pose

datatype inspection_error = Bad_id | Bad_pose | Bad_target | Board_mismatch | Approach_count | Bad_name | No_map_version
  | Views_unsupported | Bad_point_list | Repeated_point | Mission_busy | No_points | Cannot_pause | Cannot_resume
  | Index_out_of_range

definition require :: "bool \<Rightarrow> inspection_error \<Rightarrow> inspection_error + unit" where
  "require condition reason = (if condition then Inr () else Inl reason)"

definition id_characters :: string where
  "id_characters = ''abcdefghijklmnopqrstuvwxyzABCDEFGHIJKLMNOPQRSTUVWXYZ0123456789_-''"

definition valid_id :: "string \<Rightarrow> inspection_error + unit" where
  "valid_id i = require (i \<noteq> [] \<and> length i \<le> 100 \<and> list_all (\<lambda>c. c \<in> set id_characters) i) Bad_id"

definition m_pi :: dbl where
  "m_pi = fl 3.14159265358979323846"

definition validate_pose :: "stop_pose \<Rightarrow> inspection_error + unit" where
  "validate_pose p = require (isfinite (po_x p) \<and> isfinite (po_y p) \<and> isfinite (po_yaw p) \<and> \<bar>po_yaw p\<bar> \<le> m_pi) Bad_pose"

definition validate_approach :: "approach \<Rightarrow> inspection_error + unit" where
  "validate_approach a = bind_res (validate_pose (ap_pose a)) (\<lambda>_.
     case servo_command (ap_target a) of
       None \<Rightarrow> Inl Bad_target
     | Some c \<Rightarrow> require (c = ap_board a) Board_mismatch)"

definition own_approach :: "mission_point \<Rightarrow> inspection_error + approach" where
  "own_approach p =
     (if \<not> isfinite (mp_target p) then Inl Bad_target
      else Inr \<lparr>ap_pose = mp_pose p, ap_target = mp_target p, ap_board = mp_board p, ap_verified = mp_verified p,
        ap_reference = mp_reference p\<rparr>)"

definition approach_list :: "mission_point \<Rightarrow> inspection_error + approach list" where
  "approach_list p = (case mp_approaches p of
       Some l \<Rightarrow> Inr l
     | None \<Rightarrow> bind_res (own_approach p) (\<lambda>a. Inr [a]))"

fun validate_all :: "('a \<Rightarrow> inspection_error + unit) \<Rightarrow> 'a list \<Rightarrow> inspection_error + unit" where
  "validate_all f [] = Inr ()"
| "validate_all f (a # l) = bind_res (f a) (\<lambda>_. validate_all f l)"

definition normalize_point :: "mission_point \<Rightarrow> inspection_error + mission_point" where
  "normalize_point p =
     bind_res (require (\<not> mp_views p) Views_unsupported) (\<lambda>_.
     bind_res (approach_list p) (\<lambda>l.
     bind_res (require (1 \<le> length l \<and> length l \<le> 3) Approach_count) (\<lambda>_.
     bind_res (validate_all validate_approach l) (\<lambda>_.
     Inr (p\<lparr>mp_approaches := Some l, mp_pose := ap_pose (hd l), mp_target := ap_target (hd l),
       mp_board := ap_board (hd l), mp_verified := list_all ap_verified l\<rparr>)))))"

definition validate_point :: "mission_point \<Rightarrow> inspection_error + unit" where
  "validate_point p =
     bind_res (valid_id (mp_id p)) (\<lambda>_.
     bind_res (valid_id (mp_map_id p)) (\<lambda>_.
     bind_res (require (mp_name p \<noteq> [] \<and> length (mp_name p) \<le> 180) Bad_name) (\<lambda>_.
     bind_res (require (mp_map_version p \<noteq> []) No_map_version) (\<lambda>_.
     bind_res (require (\<not> mp_views p) Views_unsupported) (\<lambda>_.
     bind_res (normalize_point p) (\<lambda>n.
     bind_res (approach_list n) (\<lambda>l.
     require (1 \<le> length l \<and> length l \<le> 3) Approach_count)))))))"

fun unseen_ids :: "string list \<Rightarrow> string list \<Rightarrow> inspection_error + unit" where
  "unseen_ids seen [] = Inr ()"
| "unseen_ids seen (text # rest) =
     bind_res (valid_id text) (\<lambda>_.
     bind_res (require (text \<notin> set seen) Repeated_point) (\<lambda>_. unseen_ids (seen @ [text]) rest))"

definition validate_task :: "inspection_task \<Rightarrow> inspection_error + unit" where
  "validate_task t =
     bind_res (valid_id (it_id t)) (\<lambda>_.
     bind_res (valid_id (it_map_id t)) (\<lambda>_.
     bind_res (require (it_name t \<noteq> []) Bad_name) (\<lambda>_.
     bind_res (require (it_points t \<noteq> [] \<and> length (it_points t) \<le> 100) Bad_point_list) (\<lambda>_.
     bind_res (unseen_ids [] (it_points t)) (\<lambda>_.
     validate_pose (it_parking t))))))"

subsection \<open>The mission\<close>

record mission_snapshot =
  ms_points :: "mission_point list"
  ms_parking :: stop_pose

datatype step_kind = Restore | Navigate | Stop | Adjust | Capture

datatype bt_status = Bt_idle | Bt_running | Bt_success | Bt_failure

datatype mission_phase = Mission_idle | Mission_running | Mission_paused | Mission_failed | Mission_succeeded
  | Mission_canceled

record executor =
  ex_phase :: mission_phase
  ex_point :: nat
  ex_approach :: nat
  ex_parking :: bool
  ex_missed :: "string list"
  ex_last_kind :: "step_kind option"
  ex_tree :: "step_kind list option"
  ex_snapshot :: mission_snapshot
  ex_halts :: nat

definition executor_init :: "stop_pose \<Rightarrow> executor" where
  "executor_init anywhere = \<lparr>ex_phase = Mission_idle, ex_point = 0, ex_approach = 0, ex_parking = False, ex_missed = [],
     ex_last_kind = None, ex_tree = None, ex_snapshot = \<lparr>ms_points = [], ms_parking = anywhere\<rparr>, ex_halts = 0\<rparr>"

definition make_tree :: "executor \<Rightarrow> executor" where
  "make_tree s = s\<lparr>ex_tree := Some (if ex_parking s then [Restore, Navigate, Stop]
     else [Restore, Navigate, Stop, Adjust, Capture, Restore])\<rparr>"

definition halt_tree :: "executor \<Rightarrow> executor" where
  "halt_tree s = s\<lparr>ex_halts := ex_halts s + 1\<rparr>"

text \<open>What a step is given: the point at one of its approaches, or the parking pose.\<close>

record step_context =
  sx_point :: "mission_point option"
  sx_pose :: stop_pose
  sx_target :: dbl
  sx_board :: int
  sx_approach :: nat
  sx_count :: nat
  sx_reference :: "string option"

definition at_index :: "'a list \<Rightarrow> nat \<Rightarrow> inspection_error + 'a" where
  "at_index l i = (if i < length l then Inr (l ! i) else Inl Index_out_of_range)"

definition context_of :: "executor \<Rightarrow> inspection_error + step_context" where
  "context_of s =
     (if ex_parking s
      then Inr \<lparr>sx_point = None, sx_pose = ms_parking (ex_snapshot s), sx_target = Fin 0, sx_board = 0, sx_approach = 0,
        sx_count = 0, sx_reference = None\<rparr>
      else bind_res (at_index (ms_points (ex_snapshot s)) (ex_point s)) (\<lambda>p.
        bind_res (approach_list p) (\<lambda>l.
        bind_res (at_index l (ex_approach s)) (\<lambda>a.
        Inr \<lparr>sx_point = Some p, sx_pose = ap_pose a, sx_target = ap_target a, sx_board = ap_board a,
          sx_approach = ex_approach s, sx_count = length l,
          sx_reference = (case ap_reference a of None \<Rightarrow> mp_reference p | Some r \<Rightarrow> Some r)\<rparr>))))"

definition few_approaches :: "mission_point \<Rightarrow> inspection_error + unit" where
  "few_approaches p = bind_res (approach_list p) (\<lambda>l. require (length l \<le> 3) Approach_count)"

definition mission_start :: "mission_snapshot \<Rightarrow> executor \<Rightarrow> inspection_error + executor" where
  "mission_start snap s =
     bind_res (require (ex_phase s \<noteq> Mission_running \<and> ex_phase s \<noteq> Mission_paused) Mission_busy) (\<lambda>_.
     bind_res (require (ms_points snap \<noteq> []) No_points) (\<lambda>_.
     bind_res (validate_pose (ms_parking snap)) (\<lambda>_.
     bind_res (validate_all few_approaches (ms_points snap)) (\<lambda>_.
     Inr (make_tree (s\<lparr>ex_snapshot := snap, ex_point := 0, ex_approach := 0, ex_parking := False, ex_missed := [],
        ex_last_kind := None, ex_phase := Mission_running\<rparr>))))))"

definition next_point :: "executor \<Rightarrow> executor" where
  "next_point s = make_tree (s\<lparr>ex_approach := 0, ex_point := ex_point s + 1,
     ex_parking := (ex_point s + 1 = length (ms_points (ex_snapshot s)))\<rparr>)"

definition unreachable :: "executor \<Rightarrow> (inspection_error + bt_status) \<times> executor" where
  "unreachable s = (case bind_res (at_index (ms_points (ex_snapshot s)) (ex_point s))
         (\<lambda>p. bind_res (approach_list p) (\<lambda>l. Inr (p, length l))) of
       Inl e \<Rightarrow> (Inl e, s)
     | Inr (p, count) \<Rightarrow>
         if ex_approach s + 1 < count
         then (Inr Bt_running, make_tree (s\<lparr>ex_approach := ex_approach s + 1\<rparr>))
         else (Inr Bt_running, next_point (s\<lparr>ex_missed := ex_missed s @ [mp_id p]\<rparr>)))"

definition mission_tick ::
  "bt_status \<Rightarrow> step_kind list \<Rightarrow> executor \<Rightarrow> (inspection_error + bt_status) \<times> executor" where
  "mission_tick status called s =
     (if ex_phase s \<noteq> Mission_running then (Inr Bt_idle, s)
      else let s = s\<lparr>ex_last_kind := (if called = [] then ex_last_kind s else Some (List.last called))\<rparr> in
        if status = Bt_failure
        then if \<not> ex_parking s \<and> ex_last_kind s = Some Navigate then unreachable s
          else (Inr Bt_failure, halt_tree (s\<lparr>ex_phase := Mission_failed\<rparr>))
        else if status = Bt_success
        then if ex_parking s then (Inr Bt_success, s\<lparr>ex_phase := Mission_succeeded\<rparr>)
          else (Inr Bt_running, next_point s)
        else (Inr Bt_running, s))"

definition mission_pause :: "executor \<Rightarrow> inspection_error + executor" where
  "mission_pause s = (if ex_phase s \<noteq> Mission_running then Inl Cannot_pause
     else Inr (halt_tree (s\<lparr>ex_phase := Mission_paused\<rparr>)))"

definition mission_resume :: "executor \<Rightarrow> inspection_error + executor" where
  "mission_resume s = (if ex_phase s \<noteq> Mission_paused then Inl Cannot_resume
     else Inr (make_tree (s\<lparr>ex_phase := Mission_running\<rparr>)))"

definition mission_cancel :: "executor \<Rightarrow> executor" where
  "mission_cancel s = (if ex_tree s \<noteq> None then halt_tree s else s)\<lparr>ex_phase := Mission_canceled\<rparr>"

datatype mission_event = Start_mission mission_snapshot | Tree_tick bt_status "step_kind list" | Pause | Resume | Cancel

definition mission_handle :: "mission_event \<Rightarrow> unit \<Rightarrow> executor \<Rightarrow> executor" where
  "mission_handle e u s = (case e of
       Start_mission snap \<Rightarrow> or_same (mission_start snap s) s
     | Tree_tick status called \<Rightarrow> snd (mission_tick status called s)
     | Pause \<Rightarrow> or_same (mission_pause s) s
     | Resume \<Rightarrow> or_same (mission_resume s) s
     | Cancel \<Rightarrow> mission_cancel s)"

subsection \<open>What a confirmation rests on\<close>

text \<open>The accepted step the current target comes from, with the calls since.\<close>

definition stepped_at :: "(teach_event \<times> dbl) list \<Rightarrow> dbl \<Rightarrow> 64 word \<Rightarrow> (teach_event \<times> dbl) list \<Rightarrow> bool" where
  "stepped_at es req frame since \<longleftrightarrow> (\<exists>pre rev t. es = pre @ (Step_request req rev True frame, t) # since)"

lemma stepped_at_snoc: "stepped_at es req frame since \<Longrightarrow> stepped_at (es @ [x]) req frame (since @ [x])"
  unfolding stepped_at_def by auto

definition sent_since :: "(teach_event \<times> dbl) list \<Rightarrow> int \<Rightarrow> dbl \<Rightarrow> bool" where
  "sent_since since board t \<longleftrightarrow> (\<exists>r. (Sent_result True board r, t) \<in> set since)"

definition seen_since :: "(teach_event \<times> dbl) list \<Rightarrow> 64 word \<Rightarrow> dbl \<Rightarrow> bool" where
  "seen_since since frame t0 \<longleftrightarrow>
     (\<exists>seq settle t. (Image_seen seq True settle, t) \<in> set since \<and> frame < seq \<and> settle \<le> t - t0)"

definition viewed_since :: "(teach_event \<times> dbl) list \<Rightarrow> 64 word \<Rightarrow> bool" where
  "viewed_since since seq \<longleftrightarrow> (\<exists>t. (Viewed seq, t) \<in> set since)"

lemma since_snoc:
  "sent_since since board t \<Longrightarrow> sent_since (since @ [x]) board t"
  "seen_since since frame t0 \<Longrightarrow> seen_since (since @ [x]) frame t0"
  "viewed_since since seq \<Longrightarrow> viewed_since (since @ [x]) seq"
  unfolding sent_since_def seen_since_def viewed_since_def by auto

definition backed :: "(teach_event \<times> dbl) list \<Rightarrow> teaching \<Rightarrow> bool" where
  "backed since s \<longleftrightarrow>
     (te_phase s = Sending \<longrightarrow> servo_command (te_target s) = Some (te_pending s)) \<and>
     (te_phase s \<noteq> Sending \<longrightarrow> servo_command (te_target s) = Some (te_board s) \<and>
       sent_since since (te_board s) (te_command_at s)) \<and>
     (te_phase s = Awaiting_confirmation \<longrightarrow> seen_since since (te_frame s) (te_command_at s)) \<and>
     (te_displayed s = 0 \<or> viewed_since since (te_displayed s))"

definition taught :: "(teach_event \<times> dbl) list \<Rightarrow> teaching \<Rightarrow> bool" where
  "taught es s \<longleftrightarrow> (te_phase s = Sending \<or> te_phase s = Waiting_frame \<or> te_phase s = Awaiting_confirmation \<longrightarrow>
     (\<exists>since. stepped_at es (te_target s) (te_frame s) since \<and> backed since s))"

text \<open>A call that leaves the target, the board and the image alone keeps what they rest on.\<close>

definition same_backing :: "teaching \<Rightarrow> teaching \<Rightarrow> bool" where
  "same_backing s s' \<longleftrightarrow> te_phase s' = te_phase s \<and> te_target s' = te_target s \<and> te_frame s' = te_frame s \<and>
     te_board s' = te_board s \<and> te_command_at s' = te_command_at s \<and> te_displayed s' = te_displayed s \<and>
     (te_phase s = Sending \<longrightarrow> te_pending s' = te_pending s)"

lemma taught_same: "taught es s \<Longrightarrow> same_backing s s' \<Longrightarrow> taught (es @ [x]) s'"
  unfolding taught_def same_backing_def backed_def
  by (metis stepped_at_snoc since_snoc)

lemma taught_outside:
  "te_phase s \<notin> {Sending, Waiting_frame, Awaiting_confirmation} \<Longrightarrow> taught es s"
  by (auto simp: taught_def)

lemma same_backing_refl: "same_backing s s"
  by (simp add: same_backing_def)

lemma taught_begin: "taught es s \<Longrightarrow> taught (es @ [x]) (or_same (teach_begin session s) s)"
  by (auto simp: teach_begin_def or_same_def enter_phase_def intro: taught_same same_backing_refl taught_outside)

lemma taught_acquired: "taught es s \<Longrightarrow> taught (es @ [x]) (or_same (teach_acquired epoch board s) s)"
  by (auto simp: teach_acquired_def or_same_def enter_phase_def intro: taught_same same_backing_refl taught_outside)

lemma taught_stopped: "taught es s \<Longrightarrow> taught (es @ [x]) (teach_stopped b s)"
  by (auto simp: teach_stopped_def enter_phase_def intro: taught_same same_backing_refl taught_outside)

lemma taught_fault: "taught es (teach_fault reason s)"
  by (auto simp: teach_fault_def enter_phase_def intro: taught_outside)

lemma taught_confirm: "taught es (teach_confirm s)"
  by (auto simp: teach_confirm_def enter_phase_def intro: taught_outside)

lemma taught_disconnect: "taught es s \<Longrightarrow> taught (es @ [x]) (teach_disconnect session s)"
  by (auto simp: teach_disconnect_def intro: taught_same same_backing_refl taught_fault)

lemma step_accepted:
  assumes "teach_step requested revision still frame now s = (Inr c, s')"
  shows "still" "servo_command requested = Some c" "te_phase s' = Sending" "te_target s' = requested"
    "te_frame s' = frame" "te_pending s' = c" "te_displayed s' = 0"
  using assms by (auto simp: teach_step_def Let_def enter_phase_def split: if_splits option.splits)

lemma step_refused:
  assumes "teach_step requested revision still frame now s = (Inl e, s')"
  shows "same_backing s s'"
  using assms by (auto simp: teach_step_def Let_def same_backing_def split: if_splits option.splits)

lemma taught_step:
  assumes "taught es s"
  shows "taught (es @ [(Step_request requested revision still frame, t)]) (snd (teach_step requested revision still frame now s))"
proof (cases "teach_step requested revision still frame now s")
  case (Pair r s')
  show ?thesis
  proof (cases r)
    case (Inl e)
    show ?thesis using taught_same [OF assms step_refused] Pair Inl by simp
  next
    case (Inr c)
    note ok = step_accepted [OF Pair [unfolded Inr]]
    have "stepped_at (es @ [(Step_request requested revision still frame, t)]) requested frame []"
      unfolding stepped_at_def using ok(1) by blast
    moreover have "backed [] s'" using ok by (simp add: backed_def)
    ultimately show ?thesis using ok Pair by (auto simp: taught_def)
  qed
qed

lemma taught_sent:
  assumes "taught es s"
  shows "taught (es @ [(Sent_result ok actual reason, t)]) (teach_sent ok actual reason t s)"
proof (cases "te_phase s = Sending \<and> ok \<and> actual = te_pending s")
  case False
  then show ?thesis
    by (auto simp: teach_sent_def intro: taught_same [OF assms same_backing_refl] taught_fault)
next
  case True
  obtain since where b: "stepped_at es (te_target s) (te_frame s) since" "backed since s"
    using assms True by (auto simp: taught_def)
  let ?x = "(Sent_result ok actual reason, t)"
  have "sent_since (since @ [?x]) actual t" using True by (auto simp: sent_since_def)
  then have "backed (since @ [?x]) (teach_sent ok actual reason t s)"
    using b(2) True by (auto simp: backed_def teach_sent_def enter_phase_def intro: since_snoc)
  with stepped_at_snoc [OF b(1)] True show ?thesis
    by (auto simp: taught_def teach_sent_def enter_phase_def)
qed

lemma taught_image:
  assumes "taught es s"
  shows "taught (es @ [(Image_seen seq fresh settle, t)]) (teach_image seq fresh t settle s)"
proof (cases "te_phase s = Waiting_frame \<and> fresh \<and> te_frame s < seq \<and> settle \<le> t - te_command_at s")
  case False
  then show ?thesis
    by (auto simp: teach_image_def intro: taught_same [OF assms same_backing_refl])
next
  case True
  obtain since where b: "stepped_at es (te_target s) (te_frame s) since" "backed since s"
    using assms True by (auto simp: taught_def)
  let ?x = "(Image_seen seq fresh settle, t)"
  have "seen_since (since @ [?x]) (te_frame s) (te_command_at s)"
    unfolding seen_since_def using True by (intro exI [of _ seq] exI [of _ settle] exI [of _ t]) simp
  then have "backed (since @ [?x]) (teach_image seq fresh t settle s)"
    using b(2) True by (auto simp: backed_def teach_image_def enter_phase_def intro: since_snoc)
  with stepped_at_snoc [OF b(1)] True show ?thesis
    by (auto simp: taught_def teach_image_def enter_phase_def)
qed

lemma taught_viewed:
  assumes "taught es s"
  shows "taught (es @ [(Viewed seq, t)]) (teach_viewed seq s)"
proof (cases "te_phase s = Sending \<or> te_phase s = Waiting_frame \<or> te_phase s = Awaiting_confirmation")
  case False
  then show ?thesis by (auto simp: teach_viewed_def intro: taught_outside)
next
  case True
  obtain since where b: "stepped_at es (te_target s) (te_frame s) since" "backed since s"
    using assms True by (auto simp: taught_def)
  have "viewed_since (since @ [(Viewed seq, t)]) seq" by (auto simp: viewed_since_def)
  then have "backed (since @ [(Viewed seq, t)]) (teach_viewed seq s)"
    using b(2) by (auto simp: backed_def teach_viewed_def intro: since_snoc)
  with stepped_at_snoc [OF b(1)] show ?thesis by (auto simp: taught_def teach_viewed_def)
qed

lemma taught_handle:
  assumes "taught es s"
  shows "taught (es @ [(e, t)]) (teach_handle e t s)"
proof (cases e)
  case Confirmed
  then show ?thesis by (simp add: teach_handle_def taught_confirm)
qed (use assms in \<open>simp_all add: teach_handle_def taught_begin taught_acquired taught_stopped taught_step taught_sent
  taught_image taught_viewed taught_fault taught_disconnect\<close>)

lemma taught_always: "taught es (run_events teach_handle es teaching_init)"
proof (induction es rule: rev_induct)
  case Nil
  show ?case by (simp add: taught_def teaching_init_def)
next
  case (snoc x es)
  then show ?case by (cases x) (simp add: taught_handle)
qed

text \<open>C31. An angle can be confirmed only after the whole dialogue for it: the console asked for exactly this target
  while the robot stood still, the board reported that the command of this target was sent, a fresh image newer than the
  one before the step arrived after the settling time, and the image the user says he saw was shown since the step and
  is newer than it; the checks of the robot, the image and the settling time hold again now.\<close>
theorem confirmation_earned:
  assumes "s = run_events teach_handle es teaching_init"
    and "check_confirm revision displayed still fresh now settle s = Inr ()"
  shows "\<exists>pre rev frame t since board r seq settle' t' t''.
     es = pre @ (Step_request (te_target s) rev True frame, t) # since \<and>
     servo_command (te_target s) = Some board \<and> te_board s = board \<and>
     (Sent_result True board r, te_command_at s) \<in> set since \<and>
     (Image_seen seq True settle', t') \<in> set since \<and> frame < seq \<and> settle' \<le> t' - te_command_at s \<and>
     (Viewed displayed, t'') \<in> set since \<and> frame < displayed \<and>
     still \<and> fresh \<and> settle \<le> now - te_command_at s"
proof -
  have ok: "te_phase s = Awaiting_confirmation" "still" "fresh" "settle \<le> now - te_command_at s"
    "displayed = te_displayed s" "te_frame s < displayed"
    using assms(2) by (auto simp: check_confirm_def split: if_splits)
  obtain since where b: "stepped_at es (te_target s) (te_frame s) since" "backed since s"
    using taught_always [of es] ok(1) assms(1) by (auto simp: taught_def)
  have "te_displayed s \<noteq> 0" using ok(5,6) by auto
  then obtain r seq settle' t' t'' where
    c: "servo_command (te_target s) = Some (te_board s)" "(Sent_result True (te_board s) r, te_command_at s) \<in> set since"
      "(Image_seen seq True settle', t') \<in> set since" "te_frame s < seq" "settle' \<le> t' - te_command_at s"
      "(Viewed displayed, t'') \<in> set since"
    using b(2) ok(1,5) unfolding backed_def sent_since_def seen_since_def viewed_since_def by auto
  obtain pre rev t where e: "es = pre @ (Step_request (te_target s) rev True (te_frame s), t) # since"
    using b(1) unfolding stepped_at_def by blast
  show ?thesis
    by (rule exI [of _ pre], rule exI [of _ rev], rule exI [of _ "te_frame s"], rule exI [of _ t], rule exI [of _ since],
      rule exI [of _ "te_board s"], rule exI [of _ r], rule exI [of _ seq], rule exI [of _ settle'], rule exI [of _ t'],
      rule exI [of _ t''], intro conjI; (fact e | fact c | fact ok | rule refl))
qed

definition demo_dialogue :: "(teach_event \<times> dbl) list" where
  "demo_dialogue = [(Begin_teaching [], Fin 0), (Acquired [] 60, Fin 1), (Stopped True, Fin 2),
     (Step_request (Fin 90) 3 True 5, Fin 3), (Sent_result True 60 [], Fin 4), (Image_seen 6 True (Fin 1), Fin 6),
     (Viewed 6, Fin 7)]"

lemma demo_doubles:
  "i2d 60 * Fin (3 / 2) = Fin 90" "\<bar>Fin 90 - Fin 90\<bar> \<le> fl 1.000001" "servo_command (Fin 90) = Some 60"
  "Fin 1 \<le> fl 2" "Fin 1 \<le> fl 5" "Fin 0 \<le> fl (1000001 / 1000000)"
  by (code_simp, code_simp, code_simp, code_simp, code_simp, code_simp)

lemma demo_confirms:
  "check_confirm 6 6 True True (Fin 9) (Fin 1) (run_events teach_handle demo_dialogue teaching_init) = Inr ()"
  by (simp add: demo_dialogue_def run_events_def teaching_init_def teach_handle_def teach_begin_def or_same_def
    enter_phase_def teach_acquired_def teach_stopped_def teach_step_def teach_sent_def teach_image_def teach_viewed_def
    check_confirm_def demo_doubles)

theorem confirmation_earned_witness:
  "check_confirm 6 6 True True (Fin 9) (Fin 1) (run_events teach_handle demo_dialogue teaching_init) = Inr () \<and>
   (\<exists>t. (Viewed 6, t) \<in> set demo_dialogue)"
proof (rule conjI, fact demo_confirms)
  from confirmation_earned [OF refl demo_confirms]
  obtain pre rev frame t since t'' where "demo_dialogue = pre @ (Step_request
      (te_target (run_events teach_handle demo_dialogue teaching_init)) rev True frame, t) # since" "(Viewed 6, t'') \<in> set since"
    by (elim exE conjE)
  then have "(Viewed 6, t'') \<in> set demo_dialogue" by (metis Un_iff set_append list.set_intros(2))
  then show "\<exists>t. (Viewed 6, t) \<in> set demo_dialogue" ..
qed

subsection \<open>What a step of the mission is given\<close>

lemma require_ok [simp]: "require b e = Inr u \<longleftrightarrow> b"
  by (simp add: require_def)

lemma validate_all_ok: "validate_all f l = Inr u \<longleftrightarrow> (\<forall>a\<in>set l. f a = Inr ())"
  by (induction l) (auto simp: bind_res_Inr)

lemma normalized:
  assumes "normalize_point q = Inr p"
  obtains l where "mp_approaches p = Some l" "1 \<le> length l" "length l \<le> 3"
    "\<forall>a\<in>set l. validate_approach a = Inr ()"
  using assms by (auto simp: normalize_point_def bind_res_Inr validate_all_ok)

lemma approach_ok:
  assumes "validate_approach a = Inr ()"
  shows "validate_pose (ap_pose a) = Inr ()" "servo_command (ap_target a) = Some (ap_board a)"
  using assms by (auto simp: validate_approach_def bind_res_Inr split: option.splits)

definition stored_points :: "mission_snapshot \<Rightarrow> bool" where
  "stored_points snap \<longleftrightarrow> (\<forall>p\<in>set (ms_points snap). \<exists>q. normalize_point q = Inr p)"

lemma stored_point:
  assumes "stored_points snap" "i < length (ms_points snap)"
  obtains l where "mp_approaches (ms_points snap ! i) = Some l" "1 \<le> length l" "length l \<le> 3"
    "\<forall>a\<in>set l. validate_approach a = Inr ()"
proof -
  obtain q where q: "normalize_point q = Inr (ms_points snap ! i)"
    using assms nth_mem [OF assms(2)] unfolding stored_points_def by blast
  show ?thesis by (rule normalized [OF q]) (rule that)
qed

definition approach_count :: "mission_point \<Rightarrow> nat" where
  "approach_count p = (case mp_approaches p of None \<Rightarrow> 1 | Some l \<Rightarrow> length l)"

definition in_mission :: "executor \<Rightarrow> bool" where
  "in_mission s \<longleftrightarrow> ex_phase s = Mission_running \<or> ex_phase s = Mission_paused"

definition on_route :: "executor \<Rightarrow> bool" where
  "on_route s \<longleftrightarrow> stored_points (ex_snapshot s) \<and> validate_pose (ms_parking (ex_snapshot s)) = Inr () \<and>
     ex_point s \<le> length (ms_points (ex_snapshot s)) \<and>
     (ex_parking s \<longleftrightarrow> ex_point s = length (ms_points (ex_snapshot s))) \<and>
     (if ex_parking s then ex_approach s = 0
      else ex_approach s < approach_count (ms_points (ex_snapshot s) ! ex_point s))"

lemma on_route_frame [simp]:
  "on_route (s\<lparr>ex_phase := a\<rparr>) = on_route s" "on_route (s\<lparr>ex_missed := b\<rparr>) = on_route s"
  "on_route (s\<lparr>ex_last_kind := c\<rparr>) = on_route s" "on_route (s\<lparr>ex_halts := d\<rparr>) = on_route s"
  "on_route (s\<lparr>ex_tree := f\<rparr>) = on_route s" "on_route (make_tree s) = on_route s" "on_route (halt_tree s) = on_route s"
  by (simp_all add: on_route_def make_tree_def halt_tree_def)

lemma stored_count:
  assumes "stored_points snap" "i < length (ms_points snap)"
  shows "0 < approach_count (ms_points snap ! i)"
  by (rule stored_point [OF assms]) (auto simp: approach_count_def)

lemma next_point_on_route:
  assumes "on_route s" "\<not> ex_parking s"
  shows "on_route (next_point s)"
proof -
  have "ex_point s < length (ms_points (ex_snapshot s))" using assms by (auto simp: on_route_def)
  then show ?thesis using assms stored_count [of "ex_snapshot s" "ex_point s + 1"]
    by (auto simp: on_route_def next_point_def make_tree_def)
qed

lemma on_route_list:
  assumes "on_route s" "\<not> ex_parking s"
  obtains l where "ex_point s < length (ms_points (ex_snapshot s))"
    "approach_list (ms_points (ex_snapshot s) ! ex_point s) = Inr l" "ex_approach s < length l" "length l \<le> 3"
    "\<forall>a\<in>set l. validate_approach a = Inr ()"
proof -
  have i: "ex_point s < length (ms_points (ex_snapshot s))" using assms by (auto simp: on_route_def)
  have st: "stored_points (ex_snapshot s)" using assms by (simp add: on_route_def)
  show ?thesis
    by (rule stored_point [OF st i], rule that [OF i])
      (use assms in \<open>auto simp: on_route_def approach_list_def approach_count_def\<close>)
qed

lemma unreachable_on_route:
  assumes "on_route s" "\<not> ex_parking s"
  shows "on_route (snd (unreachable s)) \<and> ex_phase (snd (unreachable s)) = ex_phase s"
proof (rule on_route_list [OF assms])
  fix l
  assume l: "ex_point s < length (ms_points (ex_snapshot s))"
    "approach_list (ms_points (ex_snapshot s) ! ex_point s) = Inr l" "ex_approach s < length l" "length l \<le> 3"
    "\<forall>a\<in>set l. validate_approach a = Inr ()"
  have c: "approach_count (ms_points (ex_snapshot s) ! ex_point s) = length l"
    using l(2) by (auto simp: approach_count_def approach_list_def bind_res_Inr split: option.splits)
  have more: "on_route (make_tree (s\<lparr>ex_approach := ex_approach s + 1\<rparr>))" if "ex_approach s + 1 < length l"
    using assms that c by (simp add: on_route_def make_tree_def)
  have further: "on_route (next_point (s\<lparr>ex_missed := m\<rparr>))" for m
    by (rule next_point_on_route) (use assms in simp_all)
  show ?thesis using l c more further
    by (simp add: unreachable_def at_index_def) (simp add: next_point_def make_tree_def)
qed

lemma tick_on_route:
  assumes "on_route s"
  shows "on_route (snd (mission_tick status called s))"
  using assms unreachable_on_route next_point_on_route by (simp add: mission_tick_def Let_def)

lemma start_on_route:
  assumes "mission_start snap s = Inr s'" "stored_points snap"
  shows "on_route s'"
proof -
  have "ms_points snap \<noteq> []" "validate_pose (ms_parking snap) = Inr ()"
    using assms(1) by (auto simp: mission_start_def bind_res_Inr)
  then show ?thesis using assms stored_count [of snap 0]
    by (auto simp: mission_start_def bind_res_Inr on_route_def make_tree_def)
qed

lemma handle_on_route:
  assumes "in_mission s \<longrightarrow> on_route s" "\<And>snap. e = Start_mission snap \<Longrightarrow> stored_points snap"
    and "in_mission (mission_handle e u s)"
  shows "on_route (mission_handle e u s)"
proof (cases e)
  case (Start_mission snap)
  show ?thesis
  proof (cases "mission_start snap s")
    case (Inl a)
    then show ?thesis using assms by (simp add: Start_mission mission_handle_def or_same_def)
  next
    case (Inr a)
    then show ?thesis using start_on_route [OF Inr] assms(2) by (simp add: Start_mission mission_handle_def or_same_def)
  qed
next
  case (Tree_tick status called)
  have "in_mission s"
    using assms(3) by (auto simp: Tree_tick mission_handle_def in_mission_def mission_tick_def split: if_splits)
  then show ?thesis using assms(1) tick_on_route by (simp add: Tree_tick mission_handle_def)
qed (use assms in \<open>auto simp: mission_handle_def or_same_def mission_pause_def mission_resume_def mission_cancel_def
  in_mission_def halt_tree_def split: if_splits\<close>)

lemma mission_on_route:
  assumes "\<And>snap t. (Start_mission snap, t) \<in> set es \<Longrightarrow> stored_points snap"
  shows "in_mission (run_events mission_handle es (executor_init anywhere)) \<Longrightarrow>
    on_route (run_events mission_handle es (executor_init anywhere))"
  using assms
proof (induction es rule: rev_induct)
  case Nil
  then show ?case by (simp add: executor_init_def in_mission_def)
next
  case (snoc x es)
  obtain e t where x: "x = (e, t)" by (cases x)
  have "stored_points snap" if "e = Start_mission snap" for snap using snoc.prems(2) that x by simp
  then show ?case using handle_on_route [of "run_events mission_handle es (executor_init anywhere)" e t] snoc x by auto
qed

text \<open>C32. While a mission over stored points (each an output of normalize_point) runs or is paused, every step it
  may call is given something it can act on: the context never throws, its pose is valid, and either the robot is at the
  parking pose, exactly when every point is done, or the camera command is the servo command of the approach's angle
  and the approach is one of the at most three of its point.\<close>
theorem mission_context_sound:
  assumes "s = run_events mission_handle es (executor_init anywhere)"
    and "\<forall>snap t. (Start_mission snap, t) \<in> set es \<longrightarrow> (\<forall>p\<in>set (ms_points snap). \<exists>q. normalize_point q = Inr p)"
    and "ex_phase s = Mission_running \<or> ex_phase s = Mission_paused"
  shows "\<exists>c. context_of s = Inr c \<and> validate_pose (sx_pose c) = Inr () \<and>
     (sx_point c = None \<longleftrightarrow> ex_point s = length (ms_points (ex_snapshot s))) \<and>
     (sx_point c \<noteq> None \<longrightarrow> servo_command (sx_target c) = Some (sx_board c) \<and>
       sx_approach c < sx_count c \<and> sx_count c \<le> 3)"
proof -
  have r: "on_route s"
    using mission_on_route [of es anywhere] assms unfolding stored_points_def in_mission_def by blast
  show ?thesis
  proof (cases "ex_parking s")
    case True
    then show ?thesis using r by (simp add: context_of_def on_route_def)
  next
    case False
    obtain l where l: "ex_point s < length (ms_points (ex_snapshot s))"
      "approach_list (ms_points (ex_snapshot s) ! ex_point s) = Inr l" "ex_approach s < length l" "length l \<le> 3"
      "\<forall>a\<in>set l. validate_approach a = Inr ()"
      by (rule on_route_list [OF r False])
    have "validate_approach (l ! ex_approach s) = Inr ()" using l by simp
    then show ?thesis using l False approach_ok by (simp add: context_of_def at_index_def)
  qed
qed

subsection \<open>A mission ends\<close>

text \<open>The answers that end a run of the tree.\<close>

fun finishes :: "mission_event \<Rightarrow> bool" where
  "finishes (Tree_tick status called) \<longleftrightarrow> status = Bt_success \<or> status = Bt_failure"
| "finishes e \<longleftrightarrow> False"

fun completions :: "(mission_event \<times> unit) list \<Rightarrow> executor \<Rightarrow> nat" where
  "completions [] s = 0"
| "completions ((e, u) # es) s =
     (if ex_phase s = Mission_running \<and> finishes e then 1 else 0) + completions es (mission_handle e u s)"

definition approaches_from :: "nat \<Rightarrow> mission_snapshot \<Rightarrow> nat" where
  "approaches_from i snap = sum_list (map approach_count (drop i (ms_points snap)))"

definition remaining :: "executor \<Rightarrow> nat" where
  "remaining s = (if in_mission s then 1 + approaches_from (ex_point s) (ex_snapshot s) - ex_approach s else 0)"

lemma approaches_from_Suc:
  "i < length (ms_points snap) \<Longrightarrow>
     approaches_from i snap = approach_count (ms_points snap ! i) + approaches_from (Suc i) snap"
  by (simp add: approaches_from_def Cons_nth_drop_Suc [symmetric])

lemma tick_unfinished:
  assumes "\<not> finishes (Tree_tick status called)"
  shows "remaining (snd (mission_tick status called s)) = remaining s"
    "in_mission s \<longrightarrow> on_route s \<Longrightarrow> in_mission (snd (mission_tick status called s)) \<longrightarrow>
      on_route (snd (mission_tick status called s))"
  using assms by (simp_all add: mission_tick_def Let_def remaining_def in_mission_def)

lemma next_point_remaining:
  assumes "on_route s" "\<not> ex_parking s" "ex_phase s = Mission_running"
  shows "remaining (next_point (s\<lparr>ex_missed := m\<rparr>)) < remaining s"
proof -
  have i: "ex_point s < length (ms_points (ex_snapshot s))" using assms by (auto simp: on_route_def)
  have "ex_approach s < approach_count (ms_points (ex_snapshot s) ! ex_point s)" using assms by (simp add: on_route_def)
  then show ?thesis using assms(3) approaches_from_Suc [OF i]
    by (simp add: remaining_def next_point_def make_tree_def in_mission_def)
qed

lemma unreachable_remaining:
  assumes "on_route s" "\<not> ex_parking s" "ex_phase s = Mission_running"
  shows "remaining (snd (unreachable s)) < remaining s"
proof (rule on_route_list [OF assms(1,2)])
  fix l
  assume l: "ex_point s < length (ms_points (ex_snapshot s))"
    "approach_list (ms_points (ex_snapshot s) ! ex_point s) = Inr l" "ex_approach s < length l" "length l \<le> 3"
    "\<forall>a\<in>set l. validate_approach a = Inr ()"
  have c: "approach_count (ms_points (ex_snapshot s) ! ex_point s) = length l"
    using l(2) by (auto simp: approach_count_def approach_list_def bind_res_Inr split: option.splits)
  have "remaining (make_tree (s\<lparr>ex_approach := ex_approach s + 1\<rparr>)) < remaining s" if "ex_approach s + 1 < length l"
    using that c assms approaches_from_Suc [OF l(1)] by (simp add: remaining_def make_tree_def in_mission_def)
  then show ?thesis using l(1,2) next_point_remaining [OF assms]
    by (simp add: unreachable_def at_index_def)
qed

lemma remaining_last_kind [simp]: "remaining (s\<lparr>ex_last_kind := k\<rparr>) = remaining s"
  by (simp add: remaining_def in_mission_def)

lemma tick_finished:
  assumes "on_route s" "ex_phase s = Mission_running" "finishes (Tree_tick status called)"
  shows "remaining (snd (mission_tick status called s)) < remaining s"
proof -
  let ?s = "s\<lparr>ex_last_kind := (if called = [] then ex_last_kind s else Some (List.last called))\<rparr>"
  have pos: "0 < remaining s"
  proof (cases "ex_parking s")
    case True
    then show ?thesis using assms by (simp add: remaining_def in_mission_def on_route_def approaches_from_def)
  next
    case False
    then show ?thesis using next_point_remaining [OF assms(1) False assms(2), of "[]"] by simp
  qed
  have u: "remaining (snd (unreachable ?s)) < remaining s" if "\<not> ex_parking s"
    using unreachable_remaining [of ?s] assms that by simp
  have n: "remaining (next_point ?s) < remaining s" if "\<not> ex_parking s"
    using next_point_remaining [of ?s "ex_missed s"] assms that by simp
  have ended: "remaining (halt_tree (?s\<lparr>ex_phase := Mission_failed\<rparr>)) = 0" "remaining (?s\<lparr>ex_phase := Mission_succeeded\<rparr>) = 0"
    by (simp_all add: remaining_def in_mission_def halt_tree_def)
  show ?thesis using assms(2,3) pos u n ended by (auto simp: mission_tick_def Let_def)
qed

lemma handle_remaining:
  assumes "in_mission s \<longrightarrow> on_route s" "\<And>snap. e \<noteq> Start_mission snap"
  shows "(if ex_phase s = Mission_running \<and> finishes e then 1 else 0) + remaining (mission_handle e u s) \<le> remaining s"
proof (cases e)
  case (Start_mission snap)
  then show ?thesis using assms(2) by simp
next
  case (Tree_tick status called)
  show ?thesis
  proof (cases "ex_phase s = Mission_running \<and> finishes e")
    case True
    then have "in_mission s" by (simp add: in_mission_def)
    then show ?thesis using tick_finished [of s status called] assms(1) True by (simp add: Tree_tick mission_handle_def)
  next
    case False
    then have "remaining (snd (mission_tick status called s)) = remaining s"
      using tick_unfinished(1) [of status called s] by (auto simp: Tree_tick mission_tick_def)
    then show ?thesis using False by (simp add: Tree_tick mission_handle_def)
  qed
qed (simp_all add: mission_handle_def or_same_def mission_pause_def mission_resume_def mission_cancel_def
  make_tree_def halt_tree_def remaining_def in_mission_def)

lemma completions_bounded:
  assumes "in_mission s \<longrightarrow> on_route s" "\<And>snap u. (Start_mission snap, u) \<notin> set es"
  shows "completions es s + remaining (run_events mission_handle es s) \<le> remaining s"
  using assms
proof (induction es arbitrary: s)
  case (Cons x es)
  obtain e u where x: "x = (e, u)" by (cases x)
  have e: "e \<noteq> Start_mission snap" for snap using Cons.prems(2) [of snap u] x by auto
  have "in_mission (mission_handle e u s) \<longrightarrow> on_route (mission_handle e u s)"
    using handle_on_route [OF Cons.prems(1)] e by blast
  moreover have "(Start_mission snap, u) \<notin> set es" for snap u using Cons.prems(2) [of snap u] by simp
  ultimately have "completions es (mission_handle e u s) + remaining (run_events mission_handle es (mission_handle e u s))
      \<le> remaining (mission_handle e u s)" by (rule Cons.IH)
  then show ?case using handle_remaining [OF Cons.prems(1) e, of u] by (simp add: x run_events_def)
qed simp

text \<open>C36. A mission over stored points ends: once started, whatever the trees answer and however the mission is
  paused and resumed, at most one tree per approach of its points and one for parking can finish while it runs.\<close>
theorem mission_bounded:
  assumes "mission_start snap s0 = Inr s"
    and "\<forall>p\<in>set (ms_points snap). \<exists>q. normalize_point q = Inr p"
    and "\<forall>snap u. (Start_mission snap, u) \<notin> set es"
  shows "completions es s \<le> sum_list (map approach_count (ms_points snap)) + 1"
proof -
  have r: "on_route s" using start_on_route [OF assms(1)] assms(2) by (simp add: stored_points_def)
  have "completions es s \<le> remaining s" using completions_bounded [of s es] r assms(3) by fastforce
  moreover have "remaining s \<le> sum_list (map approach_count (ms_points snap)) + 1"
    using assms(1) by (auto simp: mission_start_def bind_res_Inr remaining_def approaches_from_def make_tree_def)
  ultimately show ?thesis by simp
qed

definition demo_point :: mission_point where
  "demo_point = \<lparr>mp_id = [], mp_map_id = [], mp_name = [], mp_map_version = [], mp_views = False,
     mp_pose = \<lparr>po_x = Fin 0, po_y = Fin 0, po_yaw = Fin 0\<rparr>, mp_target = Fin 90, mp_board = 60, mp_verified = True,
     mp_reference = None, mp_approaches = None\<rparr>"

definition demo_stored :: mission_point where
  "demo_stored = demo_point\<lparr>mp_approaches := Some [\<lparr>ap_pose = mp_pose demo_point, ap_target = Fin 90, ap_board = 60,
     ap_verified = True, ap_reference = None\<rparr>]\<rparr>"

lemma demo_pose: "validate_pose \<lparr>po_x = Fin 0, po_y = Fin 0, po_yaw = Fin 0\<rparr> = Inr ()"
  by code_simp

lemma demo_normal: "normalize_point demo_point = Inr demo_stored"
  using demo_doubles(3) demo_pose
  by (simp add: normalize_point_def demo_point_def demo_stored_def require_def approach_list_def own_approach_def
    validate_approach_def)

definition demo_snapshot :: mission_snapshot where
  "demo_snapshot = \<lparr>ms_points = [demo_stored], ms_parking = \<lparr>po_x = Fin 0, po_y = Fin 0, po_yaw = Fin 0\<rparr>\<rparr>"

lemma demo_started: "\<exists>s. mission_start demo_snapshot (executor_init a) = Inr s \<and> ex_phase s = Mission_running"
  using demo_pose by (simp add: mission_start_def demo_snapshot_def executor_init_def require_def few_approaches_def
    approach_list_def demo_stored_def make_tree_def)

lemma demo_points: "\<forall>p\<in>set (ms_points demo_snapshot). \<exists>q. normalize_point q = Inr p"
  using demo_normal by (auto simp: demo_snapshot_def)

theorem mission_context_sound_witness:
  "\<exists>c. context_of (run_events mission_handle [(Start_mission demo_snapshot, ())]
     (executor_init \<lparr>po_x = Fin 0, po_y = Fin 0, po_yaw = Fin 0\<rparr>)) = Inr c"
proof -
  let ?init = "executor_init \<lparr>po_x = Fin 0, po_y = Fin 0, po_yaw = Fin 0\<rparr>"
  have "ex_phase (run_events mission_handle [(Start_mission demo_snapshot, ())] ?init) = Mission_running"
    using demo_started [of "\<lparr>po_x = Fin 0, po_y = Fin 0, po_yaw = Fin 0\<rparr>"]
    by (auto simp: run_events_def mission_handle_def or_same_def)
  then show ?thesis
    using mission_context_sound [OF refl, of "[(Start_mission demo_snapshot, ())]"
      "\<lparr>po_x = Fin 0, po_y = Fin 0, po_yaw = Fin 0\<rparr>"] demo_points by auto
qed

theorem mission_bounded_witness:
  "\<exists>s. mission_start demo_snapshot (executor_init \<lparr>po_x = Fin 0, po_y = Fin 0, po_yaw = Fin 0\<rparr>) = Inr s \<and>
     completions [(Tree_tick Bt_failure [Navigate], ()), (Tree_tick Bt_success [Stop], ())] s \<le> 2"
proof -
  let ?es = "[(Tree_tick Bt_failure [Navigate], ()), (Tree_tick Bt_success [Stop], ())]"
  obtain s where s: "mission_start demo_snapshot (executor_init \<lparr>po_x = Fin 0, po_y = Fin 0, po_yaw = Fin 0\<rparr>) = Inr s"
    using demo_started by blast
  have "completions ?es s \<le> sum_list (map approach_count (ms_points demo_snapshot)) + 1"
    using mission_bounded [OF s, of ?es] demo_points by simp
  moreover have "sum_list (map approach_count (ms_points demo_snapshot)) = 1"
    by (simp add: demo_snapshot_def demo_stored_def approach_count_def)
  ultimately show ?thesis using s by auto
qed

end
