(* ===== verification/Inspection_Console.thy ===== *)
theory Inspection_Console
  imports Inspection Teleop_Safety Motion_Gate Depth_Supervision Localization_Monitor
begin

text \<open>
  The node of the inspection application, \<open>console_node.cpp\<close>: the state its subscriptions keep, the
  requests to the base (holding still, one notch of the camera servo), the steps of a mission, the
  commands of the page that move or arm something, and the timer that publishes the velocity. It
  composes \<open>Teaching\<close>, \<open>Executor\<close> and the class \<open>Safety\<close> of the mapping console. Outside the repository, and
  arguments in \<open>console_env\<close>: the clocks, the transform buffer, the graph query, the services' readiness and
  answers, the records read from the database, whether a write succeeds, \<open>std::hypot\<close>, \<open>std::remainder\<close>, and which steps
  the behaviour-tree library calls in a tick and what its root answers. What the node sends is appended to \<open>cn_out\<close>.
  A continuation of a request is a constructor; texts are short codes. A callback reads the clock once.
\<close>

subsection \<open>State\<close>

record console_params =
  cp_hardware :: bool
  cp_navigation :: bool
  cp_settle :: dbl
  cp_stop_seconds :: dbl
  cp_frame_age :: dbl
  cp_operation_timeout :: dbl
  cp_navigation_timeout :: dbl
  cp_name :: string

definition console_params_ok :: "console_params \<Rightarrow> bool" where
  "console_params_ok p \<longleftrightarrow> fl 0.2 \<le> cp_settle p \<and> fl 0.2 \<le> cp_stop_seconds p \<and> Fin 0 < cp_frame_age p \<and>
     cp_frame_age p \<le> Fin 2 \<and> Fin 5 \<le> cp_operation_timeout p \<and> Fin 10 \<le> cp_navigation_timeout p"

record camera_frame =
  fr_sequence :: "64 word"
  fr_received :: dbl
  fr_stamp :: time_ns

datatype hold_done = Hold_nothing | Hold_teaching "64 word" | Hold_manual | Hold_restored nat

datatype servo_done = Servo_nothing | Servo_teaching "64 word" int

datatype hardware_request = Hold_request bool string hold_done | Servo_request int int string servo_done

datatype restore_stage = Stage_none | Wait_depth | Rebuild_maps | Releasing | Stage_done

datatype run_status = Run_running | Run_succeeded | Run_paused | Run_canceled | Run_failed | Run_locked
  | Run_pausing | Run_canceling | Run_stopping

datatype parking_status = Parking_pending | Parking_succeeded | Parking_failed

record run_record =
  rn_captures :: "string list"
  rn_status :: run_status
  rn_parking_status :: parking_status
  rn_point :: nat
  rn_approach :: nat
  rn_parking :: bool
  rn_missed :: "string list"
  rn_step :: "step_kind option"

datatype console_output = Sent hardware_request | Send_goal stop_pose | Cancel_goal | Clear_costmaps | Forward_cloud time_ns
  | Photo camera_frame string | Saved_run run_status | Velocity twist | Light nat nat bool

text \<open>The members only subscriptions write.\<close>

record console_layer =
  cl_stamp :: time_ns
  cl_sequence :: "64 word"
  cl_current :: bool

record watch =
  wt_odom_at :: dbl
  wt_still_since :: dbl
  wt_scan_at :: dbl
  wt_localized :: bool
  wt_ready_at :: dbl
  wt_fault :: bool
  wt_fault_at :: dbl
  wt_perception :: bool
  wt_perception_at :: dbl
  wt_filter_ok :: bool
  wt_filter_at :: dbl
  wt_obstacle_stamp :: time_ns
  wt_clearing_stamp :: time_ns
  wt_layers :: "layer_id \<Rightarrow> console_layer"
  wt_local_map_stamp :: time_ns
  wt_global_map_stamp :: time_ns
  wt_live_version :: string
  wt_last_image_stamp :: time_ns
  wt_frame_sequence :: "64 word"
  wt_frames :: "camera_frame list"

text \<open>The goal of the navigation.\<close>

record nav_goal_state =
  ng_generation :: nat
  ng_goal :: bool
  ng_terminal :: bool
  ng_waiting :: bool
  ng_success :: bool
  ng_cancel_requested :: bool

record console =
  cn_watch :: watch
  cn_nav :: nav_goal_state
  cn_nav_velocity :: twist
  cn_nav_velocity_at :: dbl
  cn_held :: bool
  cn_board :: int
  cn_driver_epoch :: string
  cn_last_servo_at :: dbl
  cn_last_servo_stamp :: time_ns
  cn_pending :: "hardware_request option"
  cn_pending_deadline :: dbl
  cn_depth_enabled :: bool
  cn_depth_open_at :: dbl
  cn_depth_open_stamp :: time_ns
  cn_depth_forwarded_at :: dbl
  cn_clear_stamp :: time_ns
  cn_barrier :: "layer_id \<Rightarrow> 64 word"
  cn_session :: string
  cn_map_id :: string
  cn_map_version :: string
  cn_planning :: bool
  cn_teaching :: teaching
  cn_executor :: executor
  cn_manual :: safety
  cn_operation :: "step_kind option"
  cn_stage :: restore_stage
  cn_operation_at :: dbl
  cn_generation :: nat
  cn_terminal :: "run_status option"
  cn_run :: "run_record option"
  cn_puts :: nat
  cn_view :: "(string \<times> bool) option"
  cn_alarm_until :: dbl
  cn_alarm_trigger :: bool
  cn_alarm_color :: nat
  cn_out :: "console_output list"

definition long_ago :: dbl where
  "long_ago = Fin (- 1000000000)"

definition watch_init :: watch where
  "watch_init = \<lparr>wt_odom_at = long_ago, wt_still_since = Fin 0, wt_scan_at = long_ago, wt_localized = False,
     wt_ready_at = long_ago, wt_fault = True, wt_fault_at = long_ago, wt_perception = False, wt_perception_at = long_ago,
     wt_filter_ok = False, wt_filter_at = long_ago, wt_obstacle_stamp = 0, wt_clearing_stamp = 0,
     wt_layers = (\<lambda>_. \<lparr>cl_stamp = 0, cl_sequence = 0, cl_current = False\<rparr>), wt_local_map_stamp = 0,
     wt_global_map_stamp = 0, wt_live_version = [], wt_last_image_stamp = 0, wt_frame_sequence = 0, wt_frames = []\<rparr>"

text \<open>The default pose of an executor without a mission and the record of the view come from outside.\<close>

definition console_init :: "stop_pose \<Rightarrow> (string \<times> bool) option \<Rightarrow> console" where
  "console_init anywhere view = \<lparr>cn_watch = watch_init,
     cn_nav = \<lparr>ng_generation = 0, ng_goal = False, ng_terminal = True, ng_waiting = False, ng_success = False,
       ng_cancel_requested = False\<rparr>,
     cn_nav_velocity = zero_twist, cn_nav_velocity_at = long_ago, cn_held = False, cn_board = - 1, cn_driver_epoch = [],
     cn_last_servo_at = long_ago, cn_last_servo_stamp = 0, cn_pending = None, cn_pending_deadline = Fin 0,
     cn_depth_enabled = False, cn_depth_open_at = Fin 0, cn_depth_open_stamp = 0, cn_depth_forwarded_at = long_ago,
     cn_clear_stamp = 0, cn_barrier = (\<lambda>_. 0), cn_session = [], cn_map_id = [], cn_map_version = [], cn_planning = False,
     cn_teaching = teaching_init, cn_executor = executor_init anywhere, cn_manual = safety_init, cn_operation = None,
     cn_stage = Stage_none, cn_operation_at = Fin 0, cn_generation = 0, cn_terminal = None, cn_run = None, cn_puts = 0,
     cn_view = view, cn_alarm_until = Fin 0, cn_alarm_trigger = False, cn_alarm_color = 0, cn_out = []\<rparr>"

subsection \<open>Subscriptions\<close>

definition recent :: "dbl \<Rightarrow> time_ns \<Rightarrow> time_ns \<Rightarrow> bool" where
  "recent limit ros stamp \<longleftrightarrow> fl (- 0.05) \<le> secs (ros - stamp) \<and> secs (ros - stamp) \<le> limit"

definition watch_odom ::
  "(dbl \<Rightarrow> dbl \<Rightarrow> dbl) \<Rightarrow> time_ns \<Rightarrow> dbl \<Rightarrow> time_ns \<Rightarrow> twist \<Rightarrow> watch \<Rightarrow> watch" where
  "watch_odom hypot ros now stamp v w =
     (let age = secs (ros - stamp);
          quiet = (isfinite (lin_x v) \<and> isfinite (lin_y v) \<and> isfinite (ang_z v) \<and>
            hypot (lin_x v) (lin_y v) < fl 0.005 \<and> \<bar>ang_z v\<bar> < fl 0.01);
          w = (if age < fl (- 0.05) \<or> fl 0.3 < age \<or> \<not> quiet then w\<lparr>wt_still_since := Fin 0\<rparr>
            else if wt_still_since w = Fin 0 \<or> fl 0.3 < now - wt_odom_at w then w\<lparr>wt_still_since := now\<rparr> else w)
      in if recent (fl 0.3) ros stamp then w\<lparr>wt_odom_at := now\<rparr> else w)"

definition watch_scan :: "time_ns \<Rightarrow> dbl \<Rightarrow> time_ns \<Rightarrow> bool \<Rightarrow> watch \<Rightarrow> watch" where
  "watch_scan ros now stamp nonempty w = (if recent (fl 0.5) ros stamp \<and> nonempty then w\<lparr>wt_scan_at := now\<rparr> else w)"

record filter_status =
  fs_name :: string
  fs_level :: int
  fs_values :: "(string \<times> string) list"

definition watch_filter_value :: "filter_status \<Rightarrow> watch \<Rightarrow> string \<times> string \<Rightarrow> watch" where
  "watch_filter_value st w item = (if fst item = ''valid_measurements''
     then w\<lparr>wt_filter_ok := (case stoull (snd item) of None \<Rightarrow> False | Some (n, _) \<Rightarrow> fs_level st = 0 \<and> 0 < n)\<rparr> else w)"

definition watch_filter :: "dbl \<Rightarrow> filter_status list \<Rightarrow> watch \<Rightarrow> watch" where
  "watch_filter now msg w = foldl (\<lambda>w st. if fs_name st = ''D435DepthFilter''
     then foldl (watch_filter_value st) (w\<lparr>wt_filter_ok := False, wt_filter_at := now\<rparr>) (fs_values st) else w) w msg"

definition watch_layer_value :: "filter_status \<Rightarrow> console_layer \<Rightarrow> string \<times> string \<Rightarrow> console_layer" where
  "watch_layer_value st l item =
     (let l = (if fst item = ''source_current'' then l\<lparr>cl_current := (fs_level st = 0 \<and> snd item = ''true'')\<rparr> else l)
      in if fst item = ''update_seq'' then (case stoull (snd item) of
           None \<Rightarrow> l\<lparr>cl_current := False\<rparr> | Some (n, _) \<Rightarrow> l\<lparr>cl_sequence := n\<rparr>) else l)"

definition watch_layer :: "layer_id \<Rightarrow> time_ns \<Rightarrow> filter_status list \<Rightarrow> watch \<Rightarrow> watch" where
  "watch_layer i stamp msg w = w\<lparr>wt_layers := (wt_layers w)(i :=
     foldl (\<lambda>l st. if fs_name st = ''depth_stvl'' then foldl (watch_layer_value st) (l\<lparr>cl_stamp := stamp\<rparr>) (fs_values st)
       else l) (wt_layers w i\<lparr>cl_current := False\<rparr>) msg)\<rparr>"

record camera_image =
  ci_stamp :: time_ns
  ci_width :: nat
  ci_height :: nat
  ci_step :: nat
  ci_bytes :: nat
  ci_encoding :: string

definition watch_image :: "console_params \<Rightarrow> time_ns \<Rightarrow> dbl \<Rightarrow> camera_image \<Rightarrow> watch \<Rightarrow> watch" where
  "watch_image p ros now v w =
     (let age = secs (ros - ci_stamp v) in
      if age < fl (- 0.05) \<or> cp_frame_age p < age \<or> ci_width v = 0 \<or> ci_height v = 0 \<or> 4096 < ci_width v \<or> 2160 < ci_height v
        \<or> ci_step v < ci_width v * 3 \<or> ci_bytes v < ci_step v * ci_height v
        \<or> ci_encoding v \<noteq> ''rgb8'' \<and> ci_encoding v \<noteq> ''bgr8'' then w
      else if ci_stamp v \<le> wt_last_image_stamp w then w
      else let seq = wt_frame_sequence w + 1;
               l = wt_frames w @ [\<lparr>fr_sequence = seq, fr_received = now, fr_stamp = ci_stamp v\<rparr>]
        in w\<lparr>wt_last_image_stamp := ci_stamp v, wt_frame_sequence := seq, wt_frames := drop (length l - 12) l\<rparr>)"

subsection \<open>Health\<close>

record hardware_response =
  rs_accepted :: bool
  rs_held :: bool
  rs_sent :: bool
  rs_epoch :: string
  rs_board :: int

record console_env =
  en_now :: dbl
  en_ros :: time_ns
  en_transform :: "(stop_pose \<times> time_ns) option"
  en_publishers :: "string list"
  en_hold_ready :: bool
  en_servo_ready :: bool
  en_clear_ready :: bool
  en_nav_ready :: bool
  en_local_cleared :: bool
  en_global_cleared :: bool
  en_answer :: "hardware_response option"
  en_put_ok :: "nat \<Rightarrow> bool"
  en_photo_ok :: bool
  en_nonce :: string
  en_mapping :: bool
  en_hypot :: "dbl \<Rightarrow> dbl \<Rightarrow> dbl"
  en_remainder :: "dbl \<Rightarrow> dbl \<Rightarrow> dbl"
  en_calls :: "(step_kind \<times> bool) list"
  en_root :: bt_status
  en_halted :: bool

definition console_still :: "console_params \<Rightarrow> console_env \<Rightarrow> console \<Rightarrow> bool" where
  "console_still p e s \<longleftrightarrow> en_now e - wt_odom_at (cn_watch s) < fl 0.3 \<and> Fin 0 < wt_still_since (cn_watch s) \<and>
     cp_stop_seconds p \<le> en_now e - wt_still_since (cn_watch s)"

definition console_pose :: "console_env \<Rightarrow> stop_pose option" where
  "console_pose e = (case en_transform e of
       None \<Rightarrow> None
     | Some (pose, stamp) \<Rightarrow> let age = secs (en_ros e - stamp) in if age < fl (- 0.05) \<or> fl 0.5 < age then None else Some pose)"

definition base_health :: "console_env \<Rightarrow> console \<Rightarrow> bool" where
  "base_health e s \<longleftrightarrow> (let w = cn_watch s; now = en_now e in
     now - wt_odom_at w < fl 0.3 \<and> now - wt_scan_at w < fl 0.5 \<and> console_pose e \<noteq> None \<and> wt_localized w \<and> \<not> wt_fault w \<and>
     now - wt_ready_at w < fl 0.5 \<and> now - wt_fault_at w < fl 0.5 \<and> cn_map_version s = wt_live_version w \<and> cn_map_version s \<noteq> [])"

definition perception_health :: "console_env \<Rightarrow> console \<Rightarrow> bool" where
  "perception_health e s \<longleftrightarrow> wt_perception (cn_watch s) \<and> en_now e - wt_perception_at (cn_watch s) < fl 0.3"

definition topology :: "console_params \<Rightarrow> console_env \<Rightarrow> bool" where
  "topology p e \<longleftrightarrow> cp_hardware p \<and> en_publishers e = [cp_name p]"

definition find_frame :: "64 word \<Rightarrow> console \<Rightarrow> camera_frame option" where
  "find_frame seq s = List.find (\<lambda>f. fr_sequence f = seq) (wt_frames (cn_watch s))"

definition fresh_frame :: "console_params \<Rightarrow> console_env \<Rightarrow> camera_frame \<Rightarrow> bool" where
  "fresh_frame p e f \<longleftrightarrow> en_now e - fr_received f < cp_frame_age p \<and>
     i2d (en_ros e - fr_stamp f) * fl (1 / 1000000000) < cp_frame_age p"

definition newest_frame :: "console \<Rightarrow> camera_frame option" where
  "newest_frame s = (if wt_frames (cn_watch s) = [] then None else Some (List.last (wt_frames (cn_watch s))))"

subsection \<open>Actions that may throw\<close>

type_synonym 'a act = "console \<Rightarrow> (string + 'a) \<times> console"

definition try_act :: "'a act \<Rightarrow> ('a \<Rightarrow> 'b act) \<Rightarrow> 'b act" where
  "try_act m f s = (case m s of (Inl err, s) \<Rightarrow> (Inl err, s) | (Inr a, s) \<Rightarrow> f a s)"

definition emit :: "console_output \<Rightarrow> console \<Rightarrow> console" where
  "emit out s = s\<lparr>cn_out := cn_out s @ [out]\<rparr>"

text \<open>The database refuses a write or keeps it; \<open>en_put_ok\<close> is asked with the number of the write.\<close>

definition persist_run :: "console_env \<Rightarrow> run_status \<Rightarrow> unit act" where
  "persist_run e st s = (case cn_run s of
       None \<Rightarrow> (Inr (), s)
     | Some r \<Rightarrow>
         let x = cn_executor s;
             r = r\<lparr>rn_status := st, rn_point := ex_point x, rn_approach := ex_approach x, rn_parking := ex_parking x,
               rn_missed := ex_missed x, rn_step := cn_operation s\<rparr>;
             n = cn_puts s; s = s\<lparr>cn_run := Some r, cn_puts := n + 1\<rparr>
         in if en_put_ok e n then (Inr (), emit (Saved_run st) s) else (Inl ''STORE'', s))"

definition call_service :: "console_env \<Rightarrow> bool \<Rightarrow> hardware_request \<Rightarrow> unit act" where
  "call_service e ready q s =
     (if cn_pending s \<noteq> None then (Inl ''REQUEST_PENDING'', s)
      else if \<not> ready then (Inl ''INTERFACE_NOT_READY'', s)
      else (Inr (), emit (Sent q) (s\<lparr>cn_pending := Some q, cn_pending_deadline := en_now e + Fin (3 / 2)\<rparr>)))"

definition request_hold :: "console_env \<Rightarrow> bool \<Rightarrow> hold_done \<Rightarrow> unit act" where
  "request_hold e enabled k s = call_service e (en_hold_ready e) (Hold_request enabled (cn_driver_epoch s) k) s"

definition request_servo :: "console_env \<Rightarrow> int \<Rightarrow> servo_done \<Rightarrow> unit act" where
  "request_servo e c k s = call_service e (en_servo_ready e) (Servo_request c (cn_board s) (cn_driver_epoch s) k) s"

definition halt_navigation :: "console \<Rightarrow> console" where
  "halt_navigation s =
     (let g = cn_nav s;
          s = s\<lparr>cn_manual := stop (Page_stop ''halt'') (cn_manual s), cn_depth_enabled := False,
            cn_generation := cn_generation s + 1\<rparr>;
          s = (if ng_goal g \<and> \<not> ng_terminal g \<and> \<not> ng_cancel_requested g then emit Cancel_goal s else s)
      in s\<lparr>cn_nav := g\<lparr>ng_cancel_requested := True\<rparr>\<rparr>)"

definition halt_console :: "console_params \<Rightarrow> console \<Rightarrow> console" where
  "halt_console p s = (let s = halt_navigation s in if cp_hardware p then emit (Velocity zero_twist) s else s)"

definition nav_response :: "nat \<Rightarrow> bool \<Rightarrow> console \<Rightarrow> console" where
  "nav_response generation handle s =
     (let g = cn_nav s in
      if generation \<noteq> ng_generation g then (if handle then emit Cancel_goal s else s)
      else let s = s\<lparr>cn_nav := g\<lparr>ng_waiting := False, ng_goal := handle,
             ng_terminal := (if handle then ng_terminal g else True), ng_success := (handle \<and> ng_success g)\<rparr>\<rparr>
        in if handle \<and> ng_cancel_requested g then emit Cancel_goal s else s)"

definition nav_result :: "nat \<Rightarrow> bool \<Rightarrow> console \<Rightarrow> console" where
  "nav_result generation succeeded s =
     (if generation \<noteq> ng_generation (cn_nav s) then s
      else s\<lparr>cn_nav := (cn_nav s)\<lparr>ng_terminal := True, ng_success := succeeded\<rparr>\<rparr>)"

definition start_navigation :: "console_params \<Rightarrow> console_env \<Rightarrow> stop_pose \<Rightarrow> unit act" where
  "start_navigation p e target s =
     (if \<not> (ng_terminal (cn_nav s) \<and> \<not> ng_waiting (cn_nav s)) then (Inl ''NAVIGATION_NOT_ENDED'', s)
      else if \<not> (base_health e s \<and> topology p e \<and> perception_health e s) then (Inl ''NAVIGATION_HEALTH'', s)
      else if \<not> (isfinite (po_x target) \<and> isfinite (po_y target) \<and> isfinite (po_yaw target)) then (Inl ''NUMBER'', s)
      else (Inr (), emit (Send_goal target) (s\<lparr>cn_nav := \<lparr>ng_generation = ng_generation (cn_nav s) + 1, ng_goal = False,
        ng_terminal = False, ng_waiting = True, ng_success = False, ng_cancel_requested = False\<rparr>,
        cn_nav_velocity_at := long_ago\<rparr>)))"

subsection \<open>The steps of a mission\<close>

definition step_stop :: "console_params \<Rightarrow> console_env \<Rightarrow> bt_status act" where
  "step_stop p e s =
     (if cn_pending s \<noteq> None then (Inr Bt_running, s)
      else if \<not> cn_held s then try_act (request_hold e True Hold_nothing) (\<lambda>_ s. (Inr Bt_running, s)) s
      else (Inr (if console_still p e s \<and> ng_terminal (cn_nav s) \<and> \<not> ng_waiting (cn_nav s) then Bt_success else Bt_running), s))"

definition layer_rebuilt :: "layer_id \<Rightarrow> console \<Rightarrow> bool" where
  "layer_rebuilt i s \<longleftrightarrow> (let l = wt_layers (cn_watch s) i in
     cl_current l \<and> cn_clear_stamp s < cl_stamp l \<and> cn_barrier s i < cl_sequence l)"

definition maps_rebuilt :: "console_env \<Rightarrow> console \<Rightarrow> bool" where
  "maps_rebuilt e s \<longleftrightarrow> (let w = cn_watch s; t = cn_clear_stamp s in
     en_local_cleared e \<and> en_global_cleared e \<and> t < wt_local_map_stamp w \<and> t < wt_global_map_stamp w \<and>
     perception_health e s \<and> wt_filter_ok w \<and> t < wt_obstacle_stamp w \<and> t < wt_clearing_stamp w \<and>
     layer_rebuilt Local_layer s \<and> layer_rebuilt Global_layer s)"

definition depth_returned :: "console_env \<Rightarrow> console \<Rightarrow> bool" where
  "depth_returned e s \<longleftrightarrow> (let w = cn_watch s; t = cn_depth_open_at s in
     perception_health e s \<and> t \<le> wt_perception_at w \<and> t \<le> cn_depth_forwarded_at s \<and> wt_filter_ok w \<and>
     t \<le> wt_filter_at w \<and> cn_depth_open_stamp s < wt_obstacle_stamp w \<and> cn_depth_open_stamp s < wt_clearing_stamp w)"

definition restore_depth :: "console_env \<Rightarrow> bt_status act" where
  "restore_depth e s = (case cn_stage s of
       Stage_none \<Rightarrow> (Inr Bt_running, s\<lparr>cn_depth_enabled := True, cn_depth_open_stamp := en_ros e, cn_depth_open_at := en_now e,
         cn_stage := Wait_depth\<rparr>)
     | Wait_depth \<Rightarrow>
         if \<not> depth_returned e s then (Inr Bt_running, s)
         else if \<not> en_clear_ready e then (Inl ''CLEAR_NOT_READY'', s)
         else (Inr Bt_running, (emit Clear_costmaps s)\<lparr>cn_clear_stamp := en_ros e,
           cn_barrier := (\<lambda>i. cl_sequence (wt_layers (cn_watch s) i)), cn_stage := Rebuild_maps\<rparr>)
     | Rebuild_maps \<Rightarrow>
         if \<not> maps_rebuilt e s then (Inr Bt_running, s)
         else try_act (request_hold e False (Hold_restored (cn_generation s))) (\<lambda>_ s. (Inr Bt_running, s))
           (s\<lparr>cn_stage := Releasing\<rparr>)
     | Releasing \<Rightarrow> (Inr Bt_running, s)
     | Stage_done \<Rightarrow> (Inr Bt_success, s))"

definition new_image :: "console_params \<Rightarrow> console_env \<Rightarrow> console \<Rightarrow> bool" where
  "new_image p e s \<longleftrightarrow> (case newest_frame s of
       None \<Rightarrow> False
     | Some f \<Rightarrow> fresh_frame p e f \<and> cn_last_servo_stamp s < fr_stamp f \<and> cn_last_servo_at s + cp_settle p < fr_received f)"

definition step_turn :: "console_params \<Rightarrow> console_env \<Rightarrow> bool \<Rightarrow> int \<Rightarrow> bt_status act" where
  "step_turn p e restore target s =
     (if restore \<and> cn_stage s = Stage_done then (Inr Bt_success, s)
      else if cn_pending s \<noteq> None then (Inr Bt_running, s)
      else if \<not> cn_held s then try_act (request_hold e True Hold_nothing) (\<lambda>_ s. (Inr Bt_running, s)) s
      else if \<not> console_still p e s then (Inr Bt_running, s)
      else if cn_board s \<noteq> target
      then let s = s\<lparr>cn_depth_enabled := False\<rparr> in
        if fl 0.3 \<le> en_now e - cn_last_servo_at s
        then try_act (request_servo e (cn_board s + (if cn_board s < target then 1 else - 1)) Servo_nothing)
          (\<lambda>_ s. (Inr Bt_running, s)) s
        else (Inr Bt_running, s)
      else if en_now e - cn_last_servo_at s < cp_settle p then (Inr Bt_running, s)
      else if \<not> restore
      then let s = s\<lparr>cn_depth_enabled := False\<rparr> in (Inr (if new_image p e s then Bt_success else Bt_running), s)
      else restore_depth e s)"

definition at_pose :: "console_env \<Rightarrow> stop_pose \<Rightarrow> bool" where
  "at_pose e desired \<longleftrightarrow> (case console_pose e of
       None \<Rightarrow> False
     | Some c \<Rightarrow> \<not> fl 0.10 < en_hypot e (po_x c - po_x desired) (po_y c - po_y desired) \<and>
         \<not> fl 0.15 < \<bar>en_remainder e (po_yaw c - po_yaw desired) (Fin 2 * m_pi)\<bar>)"

definition step_navigate :: "console_params \<Rightarrow> console_env \<Rightarrow> stop_pose \<Rightarrow> bool \<Rightarrow> bt_status act" where
  "step_navigate p e target start =
     try_act (\<lambda>s. if \<not> start then (Inr (), s)
       else if \<not> (\<not> cn_held s \<and> cn_depth_enabled s) then (Inl ''CAMERA_NOT_RESTORED'', s)
       else start_navigation p e target s) (\<lambda>_ s.
     if \<not> perception_health e s then (Inl ''PERCEPTION'', s)
     else if cp_navigation_timeout p \<le> en_now e - cn_operation_at s then (Inr Bt_failure, s)
     else if \<not> ng_terminal (cn_nav s) \<or> ng_waiting (cn_nav s) then (Inr Bt_running, s)
     else if \<not> ng_success (cn_nav s) then (Inr Bt_failure, s)
     else (Inr (if at_pose e target then Bt_success else Bt_failure), s))"

definition step_capture :: "console_params \<Rightarrow> console_env \<Rightarrow> mission_point option \<Rightarrow> bt_status act" where
  "step_capture p e point s =
     (if \<not> (cn_held s \<and> console_still p e s \<and> newest_frame s \<noteq> None) then (Inl ''NOT_STILL'', s)
      else if \<not> new_image p e s then (Inl ''NO_NEW_IMAGE'', s)
      else if \<not> en_photo_ok e then (Inl ''PHOTO'', s)
      else case (point, newest_frame s, cn_run s) of
        (Some q, Some f, Some r) \<Rightarrow>
          try_act (persist_run e Run_running) (\<lambda>_ s. (Inr Bt_success, s))
            (emit (Photo f (mp_id q)) (s\<lparr>cn_run := Some (r\<lparr>rn_captures := rn_captures r @ [mp_id q]\<rparr>)\<rparr>))
      | _ \<Rightarrow> (Inl ''CONTEXT'', s))"

definition already_captured :: "step_context \<Rightarrow> console \<Rightarrow> string + bool" where
  "already_captured c s = (case sx_point c of
       None \<Rightarrow> Inr False
     | Some q \<Rightarrow> (case cn_run s of None \<Rightarrow> Inl ''NO_RUN'' | Some r \<Rightarrow> Inr (mp_id q \<in> set (rn_captures r))))"

definition console_step :: "console_params \<Rightarrow> console_env \<Rightarrow> step_kind \<Rightarrow> step_context \<Rightarrow> bool \<Rightarrow> bt_status act" where
  "console_step p e kind c start s = (case already_captured c s of
       Inl err \<Rightarrow> (Inl err, s)
     | Inr captured \<Rightarrow>
         if captured \<and> kind \<noteq> Restore then (Inr Bt_success, s)
         else try_act (\<lambda>s. if start
             then persist_run e Run_running (s\<lparr>cn_operation := Some kind, cn_stage := Stage_none, cn_operation_at := en_now e,
               cn_generation := cn_generation s + 1\<rparr>)
             else (Inr (), s)) (\<lambda>_ s.
           if kind \<noteq> Navigate \<and> \<not> en_now e - cn_operation_at s < cp_operation_timeout p then (Inl ''STEP_TIMEOUT'', s)
           else if \<not> (base_health e s \<and> topology p e) then (Inl ''STEP_HEALTH'', s)
           else case kind of
             Stop \<Rightarrow> step_stop p e s
           | Restore \<Rightarrow> step_turn p e True 94 s
           | Adjust \<Rightarrow> step_turn p e False (sx_board c) s
           | Navigate \<Rightarrow> step_navigate p e (sx_pose c) start s
           | Capture \<Rightarrow> step_capture p e (sx_point c) s) s)"

subsection \<open>Answers to requests\<close>

definition watched_manual :: "console_params \<Rightarrow> console_env \<Rightarrow> bool \<Rightarrow> console \<Rightarrow> console" where
  "watched_manual p e ready s = s\<lparr>cn_manual := (cn_manual s)\<lparr>session_ready := ready, topology_ok := topology p e,
     gateway_at := en_now e, scan_at := wt_scan_at (cn_watch s), odom_at := wt_odom_at (cn_watch s)\<rparr>\<rparr>"

definition enable_manual :: "console_env \<Rightarrow> unit act" where
  "enable_manual e s = (case enable (cn_session s) [] (en_now e) (cn_manual s) of
       (ok, m) \<Rightarrow> (if ok then Inr () else Inl ''MANUAL'', s\<lparr>cn_manual := m\<rparr>))"

definition hold_answered :: "console_params \<Rightarrow> console_env \<Rightarrow> hold_done \<Rightarrow> unit act" where
  "hold_answered p e k s = (case k of
       Hold_nothing \<Rightarrow> (Inr (), s)
     | Hold_teaching revision \<Rightarrow>
         if te_revision (cn_teaching s) = revision \<and> te_phase (cn_teaching s) = Acquiring_hold
         then (case teach_acquired (cn_driver_epoch s) (cn_board s) (cn_teaching s) of
             Inl err \<Rightarrow> (Inl ''TEACHING'', s)
           | Inr t \<Rightarrow> (Inr (), s\<lparr>cn_teaching := t\<rparr>))
         else (Inr (), s)
     | Hold_manual \<Rightarrow> enable_manual e (watched_manual p e (base_health e s) s)
     | Hold_restored generation \<Rightarrow> (Inr (), if generation = cn_generation s then s\<lparr>cn_stage := Stage_done\<rparr> else s))"

definition servo_answered :: "console_env \<Rightarrow> servo_done \<Rightarrow> console \<Rightarrow> console" where
  "servo_answered e k s = (case k of
       Servo_nothing \<Rightarrow> s
     | Servo_teaching revision expected \<Rightarrow>
         if te_revision (cn_teaching s) = revision
         then s\<lparr>cn_teaching := teach_sent True (cn_board s) (if cn_board s = expected then [] else ''MISMATCH'')
           (en_now e) (cn_teaching s)\<rparr> else s)"

definition take_answer :: "console_params \<Rightarrow> console_env \<Rightarrow> hardware_request \<Rightarrow> hardware_response \<Rightarrow> unit act" where
  "take_answer p e q a s = (case q of
       Hold_request enabled _ k \<Rightarrow>
         if \<not> (rs_accepted a \<and> rs_held a = enabled) then (Inl ''HOLD_REFUSED'', s)
         else hold_answered p e k (s\<lparr>cn_driver_epoch := rs_epoch a, cn_board := rs_board a, cn_held := rs_held a\<rparr>)
     | Servo_request _ _ _ k \<Rightarrow>
         if \<not> (rs_epoch a = cn_driver_epoch s \<and> rs_sent a) then (Inl ''SERVO_REFUSED'', s)
         else (Inr (), servo_answered e k (s\<lparr>cn_board := rs_board a, cn_last_servo_at := en_now e,
           cn_last_servo_stamp := en_ros e\<rparr>)))"

definition run_pending :: "console_params \<Rightarrow> console_env \<Rightarrow> unit act" where
  "run_pending p e s = (case cn_pending s of
       None \<Rightarrow> (Inr (), s)
     | Some q \<Rightarrow> (case en_answer e of
         Some a \<Rightarrow> take_answer p e q a (s\<lparr>cn_pending := None\<rparr>)
       | None \<Rightarrow> if cn_pending_deadline s < en_now e then (Inl ''HARDWARE_TIMEOUT'', s\<lparr>cn_pending := None\<rparr>) else (Inr (), s)))"

subsection \<open>Commands of the page\<close>

text \<open>A command carries what it reads from the request and from the database.\<close>

datatype confirm_purpose = For_point | For_approach | For_navigation | Purpose_unknown

record stored_task =
  sk_version :: string
  sk_points :: "mission_point option list"
  sk_parking :: stop_pose

datatype console_command = Teach_begin | Teach_step dbl "64 word" | Teach_view "64 word" "64 word"
  | Teach_confirm "64 word" "64 word" confirm_purpose bool | Manual_enable
  | Run_start string string "string option" bool "stored_task option" | Run_pause | Run_cancel | Run_resume
  | Select_map string "string option" | Planning_floor string

definition in_run :: "console \<Rightarrow> bool" where
  "in_run s \<longleftrightarrow> ex_phase (cn_executor s) = Mission_running \<or> ex_phase (cn_executor s) = Mission_paused"

definition teach_begin_command :: "console_params \<Rightarrow> console_env \<Rightarrow> unit act" where
  "teach_begin_command p e s =
     (if \<not> cp_hardware p then (Inl ''NO_HARDWARE'', s)
      else if \<not> (\<not> in_run s \<and> cn_terminal s = None \<and> ng_terminal (cn_nav s) \<and> cn_pending s = None) then (Inl ''BUSY'', s)
      else if cn_map_id s = [] then (Inl ''NO_MAP'', s)
      else let s = s\<lparr>cn_manual := stop (Page_stop ''teach'') (cn_manual s), cn_depth_enabled := False, cn_driver_epoch := []\<rparr> in
        case teach_begin (cn_session s) (cn_teaching s) of
          Inl err \<Rightarrow> (Inl ''TEACHING'', s)
        | Inr t \<Rightarrow> request_hold e True (Hold_teaching (te_revision t)) (s\<lparr>cn_teaching := t\<rparr>))"

definition teach_step_command :: "console_params \<Rightarrow> console_env \<Rightarrow> dbl \<Rightarrow> 64 word \<Rightarrow> unit act" where
  "teach_step_command p e target revision s =
     (if \<not> (cp_hardware p \<and> te_owner (cn_teaching s) = cn_session s \<and> cn_pending s = None) then (Inl ''BUSY'', s)
      else if \<not> isfinite target then (Inl ''NUMBER'', s)
      else case teach_step target revision (console_still p e s) (wt_frame_sequence (cn_watch s)) (en_now e) (cn_teaching s) of
        (Inl err, t) \<Rightarrow> (Inl ''TEACHING'', s\<lparr>cn_teaching := t\<rparr>)
      | (Inr c, t) \<Rightarrow> request_servo e c (Servo_teaching (te_revision t) c) (s\<lparr>cn_teaching := t\<rparr>))"

definition seen_frame :: "console_params \<Rightarrow> console_env \<Rightarrow> 64 word \<Rightarrow> console \<Rightarrow> bool" where
  "seen_frame p e seq s \<longleftrightarrow> (case find_frame seq s of
       None \<Rightarrow> False | Some f \<Rightarrow> fresh_frame p e f \<and> cn_last_servo_stamp s < fr_stamp f)"

definition teach_view_command :: "console_params \<Rightarrow> console_env \<Rightarrow> 64 word \<Rightarrow> 64 word \<Rightarrow> unit act" where
  "teach_view_command p e revision seq s =
     (if te_owner (cn_teaching s) \<noteq> cn_session s then (Inl ''NOT_OWNER'', s)
      else if revision \<noteq> te_revision (cn_teaching s) then (Inl ''REVISION'', s)
      else if \<not> seen_frame p e seq s then (Inl ''OLD_IMAGE'', s)
      else (Inr (), s\<lparr>cn_teaching := teach_viewed seq (cn_teaching s)\<rparr>))"

definition teach_confirm_command ::
  "console_params \<Rightarrow> console_env \<Rightarrow> 64 word \<Rightarrow> 64 word \<Rightarrow> confirm_purpose \<Rightarrow> bool \<Rightarrow> unit act" where
  "teach_confirm_command p e revision seq purpose stored s =
     (if \<not> (te_owner (cn_teaching s) = cn_session s \<and> cn_pending s = None) then (Inl ''BUSY'', s)
      else if check_confirm revision seq (console_still p e s) (seen_frame p e seq s) (en_now e) (cp_settle p) (cn_teaching s) \<noteq> Inr ()
      then (Inl ''TEACHING'', s)
      else if \<not> (cn_map_version s = wt_live_version (cn_watch s) \<and> cn_map_version s \<noteq> []) then (Inl ''MAP_VERSION'', s)
      else if \<not> (console_pose e \<noteq> None \<and> wt_localized (cn_watch s) \<and> \<not> wt_fault (cn_watch s)) then (Inl ''LOCALIZATION'', s)
      else if purpose = Purpose_unknown then (Inl ''PURPOSE'', s)
      else if purpose \<noteq> For_navigation \<and> cn_planning s then (Inl ''PLANNING_MAP'', s)
      else if purpose = For_navigation \<and> cn_board s \<noteq> 94 then (Inl ''BOARD'', s)
      else if \<not> (en_photo_ok e \<and> stored) then (Inl ''STORE'', s)
      else let s = (if purpose = For_navigation then s\<lparr>cn_view := Some (cn_driver_epoch s, True), cn_depth_enabled := True,
            cn_depth_open_stamp := en_ros e\<rparr> else s)
        in (Inr (), s\<lparr>cn_teaching := teach_confirm (cn_teaching s)\<rparr>))"

definition manual_enable_command :: "console_params \<Rightarrow> console_env \<Rightarrow> unit act" where
  "manual_enable_command p e s =
     (if en_mapping e then (Inl ''MAPPING'', s)
      else if \<not> (cp_hardware p \<and> cn_pending s = None \<and> cn_terminal s = None \<and> ng_terminal (cn_nav s) \<and> \<not> in_run s) then (Inl ''BUSY'', s)
      else if \<not> (cn_view s = Some (cn_driver_epoch s, True) \<and> cn_board s = 94) then (Inl ''VIEW'', s)
      else if \<not> (base_health e s \<and> topology p e \<and> console_still p e s) then (Inl ''HEALTH'', s)
      else if cn_held s then request_hold e False Hold_manual s
      else enable_manual e s)"

definition run_start_command ::
  "console_params \<Rightarrow> console_env \<Rightarrow> string \<Rightarrow> string \<Rightarrow> string option \<Rightarrow> bool \<Rightarrow> stored_task option \<Rightarrow> unit act" where
  "run_start_command p e request task previous room stored s =
     (if valid_id request \<noteq> Inr () then (Inl ''ID'', s)
      else case previous of
        Some t \<Rightarrow> (if t = task then Inr () else Inl ''OTHER_TASK'', s)
      | None \<Rightarrow>
          if cn_planning s then (Inl ''PLANNING_MAP'', s)
          else if en_mapping e then (Inl ''MAPPING'', s)
          else if \<not> (cp_hardware p \<and> cp_navigation p) then (Inl ''NO_NAVIGATION'', s)
          else if \<not> (\<not> in_run s \<and> cn_terminal s = None \<and> cn_pending s = None \<and> ng_terminal (cn_nav s)) then (Inl ''BUSY'', s)
          else if \<not> (te_phase (cn_teaching s) = Teach_confirmed \<or> te_phase (cn_teaching s) = Teach_idle) then (Inl ''TEACHING'', s)
          else if \<not> (base_health e s \<and> topology p e \<and> en_nav_ready e) then (Inl ''HEALTH'', s)
          else if \<not> (case newest_frame s of None \<Rightarrow> False | Some f \<Rightarrow> fresh_frame p e f) then (Inl ''CAMERA'', s)
          else if \<not> room then (Inl ''SPACE'', s)
          else if cn_view s \<noteq> Some (cn_driver_epoch s, True) then (Inl ''VIEW'', s)
          else (case stored of None \<Rightarrow> (Inl ''TASK'', s) | Some t \<Rightarrow>
            if \<not> (sk_version t = cn_map_version s \<and> list_all (\<lambda>q. case q of None \<Rightarrow> False
              | Some q \<Rightarrow> mp_verified q \<and> mp_map_version q = cn_map_version s) (sk_points t)) then (Inl ''TASK'', s)
            else try_act (persist_run e Run_running) (\<lambda>_ s.
                case mission_start \<lparr>ms_points = map the (sk_points t), ms_parking = sk_parking t\<rparr> (cn_executor s) of
                  Inl err \<Rightarrow> (Inl ''EXECUTOR'', s)
                | Inr x \<Rightarrow> (Inr (), s\<lparr>cn_executor := x\<rparr>))
              (s\<lparr>cn_run := Some \<lparr>rn_captures = [], rn_status = Run_running, rn_parking_status = Parking_pending, rn_point = 0,
                 rn_approach = 0, rn_parking = False, rn_missed = [], rn_step = None\<rparr>,
                 cn_manual := stop (Page_stop ''run'') (cn_manual s)\<rparr>)))"

text \<open>Halting the tree calls \<open>onHalted\<close> of the step that runs, if one does (\<open>en_halted\<close>).\<close>

definition tree_halted :: "console_params \<Rightarrow> console_env \<Rightarrow> console \<Rightarrow> console" where
  "tree_halted p e s = (if en_halted e then halt_console p s else s)"

definition run_stop_command :: "console_params \<Rightarrow> console_env \<Rightarrow> bool \<Rightarrow> unit act" where
  "run_stop_command p e pause s =
     (if \<not> (cn_run s \<noteq> None \<and> in_run s) then (Inl ''NO_RUN'', s)
      else if pause
      then (case mission_pause (cn_executor s) of
          Inl err \<Rightarrow> (Inl ''EXECUTOR'', s)
        | Inr x \<Rightarrow> persist_run e Run_pausing ((tree_halted p e (s\<lparr>cn_executor := x\<rparr>))\<lparr>cn_terminal := Some Run_paused,
            cn_operation_at := en_now e\<rparr>))
      else persist_run e Run_canceling ((halt_console p (tree_halted p e (s\<lparr>cn_executor := mission_cancel (cn_executor s)\<rparr>)))
          \<lparr>cn_terminal := Some Run_canceled, cn_operation_at := en_now e\<rparr>))"

definition run_resume_command :: "console_params \<Rightarrow> console_env \<Rightarrow> unit act" where
  "run_resume_command p e s =
     (if \<not> ((case cn_run s of None \<Rightarrow> False | Some r \<Rightarrow> rn_status r = Run_paused) \<and> cn_terminal s = None
          \<and> ng_terminal (cn_nav s) \<and> cn_pending s = None \<and> cn_held s \<and> console_still p e s) then (Inl ''NOT_PAUSED'', s)
      else if \<not> (base_health e s \<and> topology p e) then (Inl ''HEALTH'', s)
      else case mission_resume (cn_executor s) of
        Inl err \<Rightarrow> (Inl ''EXECUTOR'', s)
      | Inr x \<Rightarrow> persist_run e Run_running (s\<lparr>cn_executor := x\<rparr>))"

definition map_change_allowed :: "console \<Rightarrow> bool" where
  "map_change_allowed s \<longleftrightarrow> \<not> in_run s \<and> cn_pending s = None \<and>
     (te_phase (cn_teaching s) = Teach_idle \<or> te_phase (cn_teaching s) = Teach_confirmed \<or> te_phase (cn_teaching s) = Teach_fault)"

definition map_command :: "string \<Rightarrow> string option \<Rightarrow> bool \<Rightarrow> unit act" where
  "map_command i version planning s =
     (if \<not> map_change_allowed s then (Inl ''BUSY'', s)
      else case version of
        None \<Rightarrow> (Inl ''MAP'', s)
      | Some v \<Rightarrow> (Inr (), s\<lparr>cn_map_id := i, cn_map_version := v, cn_planning := planning\<rparr>))"

definition console_command :: "console_params \<Rightarrow> console_env \<Rightarrow> console_command \<Rightarrow> unit act" where
  "console_command p e c s = (case c of
       Teach_begin \<Rightarrow> teach_begin_command p e s
     | Teach_step target revision \<Rightarrow> teach_step_command p e target revision s
     | Teach_view revision seq \<Rightarrow> teach_view_command p e revision seq s
     | Teach_confirm revision seq purpose stored \<Rightarrow> teach_confirm_command p e revision seq purpose stored s
     | Manual_enable \<Rightarrow> manual_enable_command p e s
     | Run_start request task previous room stored \<Rightarrow> run_start_command p e request task previous room stored s
     | Run_pause \<Rightarrow> run_stop_command p e True s
     | Run_cancel \<Rightarrow> run_stop_command p e False s
     | Run_resume \<Rightarrow> run_resume_command p e s
     | Select_map i version \<Rightarrow> map_command i version False s
     | Planning_floor version \<Rightarrow> map_command ''planning_200m2'' (Some version) True s)"

subsection \<open>The timer\<close>

datatype control_action = Control_release "64 word" | Control_stop | Control_drive "64 word" string dbl dbl | Control_other

datatype console_job = Page_command string console_command | Page_gone string | Page_connected string
  | Page_control string control_action

definition control :: "console_env \<Rightarrow> control_action \<Rightarrow> unit act" where
  "control e a s = (case a of
       Control_release seq \<Rightarrow> (Inr (), s\<lparr>cn_manual := snd (release (cn_session s) seq (cn_manual s))\<rparr>)
     | Control_stop \<Rightarrow> (Inr (), s\<lparr>cn_manual := stop (Page_stop ''page'') (cn_manual s)\<rparr>)
     | Control_drive seq tok x yaw \<Rightarrow>
         if in_run s \<or> cn_terminal s \<noteq> None \<or> cn_held s then (Inr (), s)
         else if \<not> (isfinite x \<and> isfinite yaw) then (Inl ''NUMBER'', s)
         else (Inr (), s\<lparr>cn_manual := snd (drive (en_hypot e) (cn_session s) seq tok x yaw [] (en_now e) (cn_manual s))\<rparr>)
     | Control_other \<Rightarrow> (Inr (), s))"

text \<open>A refused command is answered to the page; a refused control message reaches the timer.\<close>

definition run_job :: "console_params \<Rightarrow> console_env \<Rightarrow> console_job \<Rightarrow> unit act" where
  "run_job p e j s = (case j of
       Page_command who c \<Rightarrow> (Inr (), if cn_session s \<noteq> [] \<and> who = cn_session s then snd (console_command p e c s) else s)
     | Page_gone who \<Rightarrow> (Inr (), if cn_session s = who
         then s\<lparr>cn_session := [], cn_manual := disconnect who (cn_manual s), cn_teaching := teach_disconnect who (cn_teaching s)\<rparr>
         else s)
     | Page_connected who \<Rightarrow> (Inr (), s\<lparr>cn_session := who, cn_manual := connect who (cn_manual s)\<rparr>)
     | Page_control who a \<Rightarrow> if who = cn_session s then control e a s else (Inr (), s))"

fun run_jobs :: "console_params \<Rightarrow> console_env \<Rightarrow> (dbl \<times> console_job) list \<Rightarrow> unit act" where
  "run_jobs p e [] s = (Inr (), s)"
| "run_jobs p e ((limit, j) # js) s =
     (if en_now e < limit then try_act (run_job p e j) (\<lambda>_. run_jobs p e js) s else run_jobs p e js s)"

text \<open>The library calls steps; the context of a step is read just before.\<close>

fun call_steps :: "console_params \<Rightarrow> console_env \<Rightarrow> (step_kind \<times> bool) list \<Rightarrow> unit act" where
  "call_steps p e [] s = (Inr (), s)"
| "call_steps p e ((kind, start) # l) s = (case context_of (cn_executor s) of
       Inl err \<Rightarrow> (Inl ''CONTEXT'', s)
     | Inr c \<Rightarrow> try_act (console_step p e kind c start) (\<lambda>_. call_steps p e l)
         (s\<lparr>cn_executor := (cn_executor s)\<lparr>ex_last_kind := Some kind\<rparr>\<rparr>))"

definition set_parking :: "parking_status \<Rightarrow> console \<Rightarrow> console" where
  "set_parking v s = s\<lparr>cn_run := map_option (\<lambda>r. r\<lparr>rn_parking_status := v\<rparr>) (cn_run s)\<rparr>"

definition tick_mission :: "console_params \<Rightarrow> console_env \<Rightarrow> unit act" where
  "tick_mission p e s =
     (if ex_phase (cn_executor s) \<noteq> Mission_running then (Inr (), s)
      else try_act (call_steps p e (en_calls e)) (\<lambda>_ s.
        let root = mission_tick (en_root e) (map fst (en_calls e)) (cn_executor s);
            s = tree_halted p e (s\<lparr>cn_executor := snd root\<rparr>)
        in (case fst root of
            Inl err \<Rightarrow> (Inl ''EXECUTOR'', s)
          | Inr st \<Rightarrow>
              if st = Bt_success then persist_run e Run_succeeded (set_parking Parking_succeeded s)
              else if st = Bt_failure then (Inl ''STEP_FAILED'', s) else (Inr (), s))) s)"

definition watch_teaching :: "console_params \<Rightarrow> console_env \<Rightarrow> console \<Rightarrow> console" where
  "watch_teaching p e s =
     (let t = teach_stopped (console_still p e s) (cn_teaching s);
          t = (case newest_frame s of
              None \<Rightarrow> t
            | Some f \<Rightarrow> teach_image (fr_sequence f) (fresh_frame p e f \<and> cn_last_servo_stamp s < fr_stamp f) (en_now e)
                (cp_settle p) t)
      in s\<lparr>cn_teaching := t\<rparr>)"

definition tick_work :: "console_params \<Rightarrow> console_env \<Rightarrow> (dbl \<times> console_job) list \<Rightarrow> unit act" where
  "tick_work p e jobs =
     try_act (run_jobs p e jobs) (\<lambda>_.
     try_act (run_pending p e) (\<lambda>_ s. tick_mission p e (watch_teaching p e s)))"

definition tick_failed :: "console_params \<Rightarrow> console_env \<Rightarrow> string \<Rightarrow> console \<Rightarrow> console" where
  "tick_failed p e err s =
     (let s = s\<lparr>cn_manual := stop (Page_stop err) (cn_manual s), cn_depth_enabled := False\<rparr>;
          s = (if te_phase (cn_teaching s) \<noteq> Teach_idle \<and> te_phase (cn_teaching s) \<noteq> Teach_confirmed
            then s\<lparr>cn_teaching := teach_fault (Reported err) (cn_teaching s)\<rparr> else s)
      in if cn_run s \<noteq> None \<and> (ex_phase (cn_executor s) = Mission_running \<or> ex_phase (cn_executor s) = Mission_failed)
         then let s = s\<lparr>cn_alarm_color := (if cn_operation s = Some Capture \<or> cn_operation s = Some Adjust then 2 else 1),
                    cn_executor := mission_cancel (cn_executor s)\<rparr>;
                  s = halt_console p (tree_halted p e s);
                  s = s\<lparr>cn_terminal := Some Run_failed, cn_operation_at := en_now e\<rparr>;
                  s = (if ex_parking (cn_executor s) then set_parking Parking_failed s else s)
           in snd (persist_run e Run_stopping s)
         else s)"

text \<open>A run that was paused, cancelled or failed waits for the robot to be held and still.\<close>

definition settle_step :: "console_params \<Rightarrow> console_env \<Rightarrow> run_status \<Rightarrow> unit act" where
  "settle_step p e goal s =
     (if cn_held s \<and> console_still p e s \<and> ng_terminal (cn_nav s) \<and> \<not> ng_waiting (cn_nav s) \<and> cn_pending s = None
      then let s = (if goal = Run_failed \<and> cn_alarm_until s = Fin 0
          then s\<lparr>cn_alarm_until := en_now e + Fin 3, cn_alarm_trigger := True\<rparr> else s)
        in if goal \<noteq> Run_failed \<or> cn_alarm_until s \<le> en_now e
           then persist_run e goal (s\<lparr>cn_terminal := None\<rparr>) else (Inr (), s)
      else if Fin 10 < en_now e - cn_operation_at s then persist_run e Run_locked (s\<lparr>cn_terminal := None\<rparr>)
      else (Inr (), s))"

definition settle_attempt :: "console_params \<Rightarrow> console_env \<Rightarrow> run_status \<Rightarrow> unit act" where
  "settle_attempt p e goal = try_act (\<lambda>s. if cn_pending s = None \<and> \<not> cn_held s then request_hold e True Hold_nothing s
     else (Inr (), s)) (\<lambda>_. settle_step p e goal)"

definition settle_run :: "console_params \<Rightarrow> console_env \<Rightarrow> console \<Rightarrow> console" where
  "settle_run p e s = (case cn_terminal s of
       None \<Rightarrow> s
     | Some goal \<Rightarrow> (case settle_attempt p e goal s of
         (Inr _, s) \<Rightarrow> s
       | (Inl err, s) \<Rightarrow> if Fin 10 < en_now e - cn_operation_at s then s\<lparr>cn_terminal := None\<rparr> else s))"

definition watch_topology :: "console_params \<Rightarrow> console_env \<Rightarrow> console \<Rightarrow> console" where
  "watch_topology p e s =
     (let s = watched_manual p e (base_health e s \<and> cn_board s = 94) s in
      if cp_hardware p \<and> \<not> topology p e \<and> \<not> cn_held s \<and> cn_pending s = None \<and> en_hold_ready e
      then snd (request_hold e True Hold_nothing (s\<lparr>cn_manual := stop (Page_stop ''topology'') (cn_manual s)\<rparr>))
      else s)"

definition may_follow :: "console_env \<Rightarrow> console \<Rightarrow> bool" where
  "may_follow e s \<longleftrightarrow> ex_phase (cn_executor s) = Mission_running \<and> cn_operation s = Some Navigate \<and>
     \<not> ng_terminal (cn_nav s) \<and> \<not> ng_waiting (cn_nav s) \<and> base_health e s \<and> perception_health e s \<and> cn_depth_enabled s \<and>
     en_now e - cn_nav_velocity_at s < fl 0.3"

definition output_velocity :: "console_params \<Rightarrow> console_env \<Rightarrow> dbl \<times> dbl \<Rightarrow> console \<Rightarrow> twist" where
  "output_velocity p e v s =
     (if \<not> cn_held s \<and> cn_terminal s = None \<and> topology p e
      then if may_follow e s then cn_nav_velocity s
        else if \<not> in_run s \<and> cn_board s = 94 then zero_twist\<lparr>lin_x := fst v, ang_z := snd v\<rparr>
        else zero_twist
      else zero_twist)"

definition publish_velocity :: "console_params \<Rightarrow> console_env \<Rightarrow> console \<Rightarrow> console" where
  "publish_velocity p e s = (case tick (en_now e) (cn_manual s) of (v, m) \<Rightarrow>
     let s = s\<lparr>cn_manual := m\<rparr> in
     if cp_hardware p then emit (Velocity (output_velocity p e v s)) s else s)"

definition alarm_light :: "console_params \<Rightarrow> console_env \<Rightarrow> console \<Rightarrow> console" where
  "alarm_light p e s =
     (if \<not> (cp_hardware p \<and> Fin 0 < cn_alarm_until s) then s
      else let active = (en_now e < cn_alarm_until s);
               bright = (active \<and> trunc_int (en_now e * Fin 4) mod 2 = 0);
               s = emit (Light (if bright then 30 else 0) (if bright \<and> cn_alarm_color s = 2 then 30 else 0)
                 (active \<and> cn_alarm_trigger s)) s;
               s = s\<lparr>cn_alarm_trigger := False\<rparr>
        in if active then s else s\<lparr>cn_alarm_until := Fin 0\<rparr>)"

definition challenge_page :: "console_env \<Rightarrow> console \<Rightarrow> console" where
  "challenge_page e s = (if cn_session s = [] then s else s\<lparr>cn_manual := challenge (en_nonce e) (en_now e) (cn_manual s)\<rparr>)"

definition after_work :: "console_params \<Rightarrow> console_env \<Rightarrow> (dbl \<times> console_job) list \<Rightarrow> console \<Rightarrow> console" where
  "after_work p e jobs s = (case tick_work p e jobs s of
       (Inr _, s) \<Rightarrow> s | (Inl err, s) \<Rightarrow> tick_failed p e err s)"

definition console_tick :: "console_params \<Rightarrow> console_env \<Rightarrow> (dbl \<times> console_job) list \<Rightarrow> console \<Rightarrow> console" where
  "console_tick p e jobs s = challenge_page e (alarm_light p e (publish_velocity p e (watch_topology p e (settle_run p e
     (after_work p e jobs s)))))"

subsection \<open>Events\<close>

datatype console_event =
    Wheel_odom "dbl \<Rightarrow> dbl \<Rightarrow> dbl" time_ns time_ns twist | Laser_scan time_ns time_ns bool | Colour_image time_ns camera_image
  | Live_map string | Localized bool | Localization_fault bool | Perception_allowed bool
  | Obstacles time_ns | Clearing time_ns | Filter_report "filter_status list"
  | Layer_report layer_id time_ns "filter_status list" | Local_map time_ns | Global_map time_ns
  | Nav_velocity twist | Depth_cloud time_ns time_ns | Goal_response nat bool | Goal_result nat bool
  | Timer_tick console_env "(dbl \<times> console_job) list"

definition set_watch :: "(watch \<Rightarrow> watch) \<Rightarrow> console \<Rightarrow> console" where
  "set_watch f s = s\<lparr>cn_watch := f (cn_watch s)\<rparr>"

definition depth_cloud :: "time_ns \<Rightarrow> dbl \<Rightarrow> time_ns \<Rightarrow> console \<Rightarrow> console" where
  "depth_cloud ros now stamp s =
     (if cn_depth_enabled s \<and> cn_board s = 94 \<and> recent (fl 0.3) ros stamp \<and> cn_depth_open_stamp s < stamp
      then (emit (Forward_cloud stamp) s)\<lparr>cn_depth_forwarded_at := now\<rparr> else s)"

definition console_handle :: "console_params \<Rightarrow> console_event \<Rightarrow> dbl \<Rightarrow> console \<Rightarrow> console" where
  "console_handle p ev now s = (case ev of
       Wheel_odom hypot ros stamp v \<Rightarrow> set_watch (watch_odom hypot ros now stamp v) s
     | Laser_scan ros stamp nonempty \<Rightarrow> set_watch (watch_scan ros now stamp nonempty) s
     | Colour_image ros v \<Rightarrow> set_watch (watch_image p ros now v) s
     | Live_map v \<Rightarrow> set_watch (\<lambda>w. w\<lparr>wt_live_version := v\<rparr>) s
     | Localized b \<Rightarrow> set_watch (\<lambda>w. w\<lparr>wt_localized := b, wt_ready_at := now\<rparr>) s
     | Localization_fault b \<Rightarrow> set_watch (\<lambda>w. w\<lparr>wt_fault := b, wt_fault_at := now\<rparr>) s
     | Perception_allowed b \<Rightarrow> set_watch (\<lambda>w. w\<lparr>wt_perception := b, wt_perception_at := now\<rparr>) s
     | Obstacles stamp \<Rightarrow> set_watch (\<lambda>w. w\<lparr>wt_obstacle_stamp := stamp\<rparr>) s
     | Clearing stamp \<Rightarrow> set_watch (\<lambda>w. w\<lparr>wt_clearing_stamp := stamp\<rparr>) s
     | Filter_report msg \<Rightarrow> set_watch (watch_filter now msg) s
     | Layer_report i stamp msg \<Rightarrow> set_watch (watch_layer i stamp msg) s
     | Local_map stamp \<Rightarrow> set_watch (\<lambda>w. w\<lparr>wt_local_map_stamp := stamp\<rparr>) s
     | Global_map stamp \<Rightarrow> set_watch (\<lambda>w. w\<lparr>wt_global_map_stamp := stamp\<rparr>) s
     | Nav_velocity v \<Rightarrow> if cp_hardware p then s\<lparr>cn_nav_velocity := v, cn_nav_velocity_at := now\<rparr> else s
     | Depth_cloud ros stamp \<Rightarrow> if cp_hardware p then depth_cloud ros now stamp s else s
     | Goal_response generation handle \<Rightarrow> nav_response generation handle s
     | Goal_result generation succeeded \<Rightarrow> nav_result generation succeeded s
     | Timer_tick e jobs \<Rightarrow> console_tick p (e\<lparr>en_now := now\<rparr>) jobs s)"

end
