(* ===== verification/Console_Safety.thy ===== *)
theory Console_Safety
  imports Inspection_Console
begin

text \<open>
  What the console of the inspection application guarantees: where a velocity it publishes comes from,
  what a step of a mission may ask of the base, the camera and the navigation, and how a run ends.
\<close>

subsection \<open>What the work of a tick leaves alone\<close>

text \<open>No action writes what a subscription keeps, and none but the end of the tick moves the robot.\<close>

fun harmless :: "console_output \<Rightarrow> bool" where
  "harmless (Velocity v) \<longleftrightarrow> v = zero_twist"
| "harmless out \<longleftrightarrow> True"

definition calm :: "console \<Rightarrow> console \<Rightarrow> bool" where
  "calm s s' \<longleftrightarrow> cn_watch s' = cn_watch s \<and> cn_nav_velocity s' = cn_nav_velocity s \<and>
     (cn_nav_velocity_at s' = cn_nav_velocity_at s \<or> cn_nav_velocity_at s' = long_ago) \<and>
     (\<exists>out. cn_out s' = cn_out s @ out \<and> list_all harmless out)"

lemma calm_refl [simp]: "calm s s"
  by (simp add: calm_def)

lemma calm_trans: "calm a b \<Longrightarrow> calm b c \<Longrightarrow> calm a c"
  unfolding calm_def by auto

lemma calm_update [simp]:
  "calm s (s'\<lparr>cn_nav := x0\<rparr>) = calm s s'"
  "calm s (s'\<lparr>cn_held := x1\<rparr>) = calm s s'"
  "calm s (s'\<lparr>cn_board := x2\<rparr>) = calm s s'"
  "calm s (s'\<lparr>cn_driver_epoch := x3\<rparr>) = calm s s'"
  "calm s (s'\<lparr>cn_last_servo_at := x4\<rparr>) = calm s s'"
  "calm s (s'\<lparr>cn_last_servo_stamp := x5\<rparr>) = calm s s'"
  "calm s (s'\<lparr>cn_pending := x6\<rparr>) = calm s s'"
  "calm s (s'\<lparr>cn_pending_deadline := x7\<rparr>) = calm s s'"
  "calm s (s'\<lparr>cn_depth_enabled := x8\<rparr>) = calm s s'"
  "calm s (s'\<lparr>cn_depth_open_at := x9\<rparr>) = calm s s'"
  "calm s (s'\<lparr>cn_depth_open_stamp := x10\<rparr>) = calm s s'"
  "calm s (s'\<lparr>cn_depth_forwarded_at := x11\<rparr>) = calm s s'"
  "calm s (s'\<lparr>cn_clear_stamp := x12\<rparr>) = calm s s'"
  "calm s (s'\<lparr>cn_barrier := x13\<rparr>) = calm s s'"
  "calm s (s'\<lparr>cn_session := x14\<rparr>) = calm s s'"
  "calm s (s'\<lparr>cn_map_id := x15\<rparr>) = calm s s'"
  "calm s (s'\<lparr>cn_map_version := x16\<rparr>) = calm s s'"
  "calm s (s'\<lparr>cn_planning := x17\<rparr>) = calm s s'"
  "calm s (s'\<lparr>cn_teaching := x18\<rparr>) = calm s s'"
  "calm s (s'\<lparr>cn_executor := x19\<rparr>) = calm s s'"
  "calm s (s'\<lparr>cn_manual := x20\<rparr>) = calm s s'"
  "calm s (s'\<lparr>cn_operation := x21\<rparr>) = calm s s'"
  "calm s (s'\<lparr>cn_stage := x22\<rparr>) = calm s s'"
  "calm s (s'\<lparr>cn_operation_at := x23\<rparr>) = calm s s'"
  "calm s (s'\<lparr>cn_generation := x24\<rparr>) = calm s s'"
  "calm s (s'\<lparr>cn_terminal := x25\<rparr>) = calm s s'"
  "calm s (s'\<lparr>cn_run := x26\<rparr>) = calm s s'"
  "calm s (s'\<lparr>cn_puts := x27\<rparr>) = calm s s'"
  "calm s (s'\<lparr>cn_view := x28\<rparr>) = calm s s'"
  "calm s (s'\<lparr>cn_alarm_until := x29\<rparr>) = calm s s'"
  "calm s (s'\<lparr>cn_alarm_trigger := x30\<rparr>) = calm s s'"
  "calm s (s'\<lparr>cn_alarm_color := x31\<rparr>) = calm s s'"
  by (simp_all add: calm_def)

lemma calm_emit [simp]: "calm s s' \<Longrightarrow> harmless out \<Longrightarrow> calm s (emit out s')"
  by (auto simp: calm_def emit_def)

lemma calm_try [simp]:
  assumes "calm s (snd (m s'))" "\<And>a t. calm s t \<Longrightarrow> calm s (snd (f a t))"
  shows "calm s (snd (try_act m f s'))"
proof (cases "m s'")
  case (Pair r t)
  then show ?thesis using assms by (cases r) (simp_all add: try_act_def)
qed

lemma calm_persist [simp]: "calm s s' \<Longrightarrow> calm s (snd (persist_run e st s'))"
  by (simp add: persist_run_def Let_def split: option.splits)

lemma calm_call [simp]: "calm s s' \<Longrightarrow> calm s (snd (call_service e ready q s'))"
  by (simp add: call_service_def)

lemma calm_hold [simp]: "calm s s' \<Longrightarrow> calm s (snd (request_hold e b k s'))"
  by (simp add: request_hold_def)

lemma calm_servo [simp]: "calm s s' \<Longrightarrow> calm s (snd (request_servo e c k s'))"
  by (simp add: request_servo_def)

lemma calm_halt [simp]: "calm s s' \<Longrightarrow> calm s (halt_console p s')" "calm s s' \<Longrightarrow> calm s (tree_halted p e s')"
  by (simp_all add: tree_halted_def halt_console_def halt_navigation_def Let_def)

lemma calm_velocity_reset: "calm s s' \<Longrightarrow> calm s (s'\<lparr>cn_nav_velocity_at := long_ago\<rparr>)"
  by (simp add: calm_def)

lemma calm_start [simp]: "calm s s' \<Longrightarrow> calm s (snd (start_navigation p e target s'))"
  by (simp add: start_navigation_def calm_velocity_reset)

lemma calm_restore [simp]: "calm s s' \<Longrightarrow> calm s (snd (restore_depth e s'))"
  by (simp add: restore_depth_def split: restore_stage.splits)

lemma calm_step_parts [simp]:
  "calm s s' \<Longrightarrow> calm s (snd (step_stop p e s'))"
  "calm s s' \<Longrightarrow> calm s (snd (step_turn p e restore c s'))"
  "calm s s' \<Longrightarrow> calm s (snd (step_navigate p e target start s'))"
  by (simp_all add: step_stop_def step_turn_def step_navigate_def Let_def)

lemma calm_capture [simp]: "calm s s' \<Longrightarrow> calm s (snd (step_capture p e point s'))"
  by (simp add: step_capture_def split: option.splits)

lemma calm_step [simp]: "calm s s' \<Longrightarrow> calm s (snd (console_step p e kind c start s'))"
  by (simp add: console_step_def split: sum.splits step_kind.splits)

lemma calm_manual [simp]:
  "calm s s' \<Longrightarrow> calm s (watched_manual p e ready s')" "calm s s' \<Longrightarrow> calm s (snd (enable_manual e s'))"
  by (simp_all add: watched_manual_def enable_manual_def split: prod.splits)

lemma calm_answers [simp]:
  "calm s s' \<Longrightarrow> calm s (snd (hold_answered p e k s'))" "calm s s' \<Longrightarrow> calm s (servo_answered e j s')"
  by (simp_all add: hold_answered_def servo_answered_def split: hold_done.splits servo_done.splits sum.splits)

lemma calm_answer [simp]: "calm s s' \<Longrightarrow> calm s (snd (take_answer p e q a s'))"
  by (simp add: take_answer_def split: hardware_request.splits)

lemma calm_pending [simp]: "calm s s' \<Longrightarrow> calm s (snd (run_pending p e s'))"
  by (simp add: run_pending_def split: option.splits)

lemma calm_teach_commands [simp]:
  "calm s s' \<Longrightarrow> calm s (snd (teach_begin_command p e s'))"
  "calm s s' \<Longrightarrow> calm s (snd (teach_view_command p e revision seq s'))"
  "calm s s' \<Longrightarrow> calm s (snd (teach_confirm_command p e revision seq purpose stored s'))"
  by (simp_all add: teach_begin_command_def teach_view_command_def teach_confirm_command_def Let_def split: sum.splits)

lemma calm_teach_step [simp]: "calm s s' \<Longrightarrow> calm s (snd (teach_step_command p e target revision s'))"
  by (simp add: teach_step_command_def split: prod.splits sum.splits)

lemma calm_run_commands [simp]:
  "calm s s' \<Longrightarrow> calm s (snd (manual_enable_command p e s'))"
  "calm s s' \<Longrightarrow> calm s (snd (run_stop_command p e pause s'))"
  "calm s s' \<Longrightarrow> calm s (snd (run_resume_command p e s'))"
  "calm s s' \<Longrightarrow> calm s (snd (map_command i version planning s'))"
  by (simp_all add: manual_enable_command_def run_stop_command_def run_resume_command_def map_command_def
    split: sum.splits option.splits)

lemma calm_run_start [simp]:
  "calm s s' \<Longrightarrow> calm s (snd (run_start_command p e request task previous room stored s'))"
  by (simp add: run_start_command_def split: option.splits sum.splits)

lemma calm_command [simp]: "calm s s' \<Longrightarrow> calm s (snd (console_command p e c s'))"
  by (simp add: console_command_def split: console_command.splits)

lemma calm_job [simp]: "calm s s' \<Longrightarrow> calm s (snd (run_job p e j s'))"
  by (simp add: run_job_def control_def split: console_job.splits control_action.splits)

lemma calm_jobs [simp]: "calm s s' \<Longrightarrow> calm s (snd (run_jobs p e js s'))"
  by (induction js arbitrary: s') auto

lemma calm_steps [simp]: "calm s s' \<Longrightarrow> calm s (snd (call_steps p e l s'))"
  by (induction l arbitrary: s') (auto split: sum.splits)

lemma calm_mission [simp]: "calm s s' \<Longrightarrow> calm s (snd (tick_mission p e s'))"
  by (simp add: tick_mission_def Let_def set_parking_def split: sum.splits)

lemma calm_work [simp]: "calm s s' \<Longrightarrow> calm s (snd (tick_work p e jobs s'))"
  by (simp add: tick_work_def watch_teaching_def Let_def)

lemma calm_failed [simp]: "calm s s' \<Longrightarrow> calm s (tick_failed p e err s')"
  by (simp add: tick_failed_def Let_def set_parking_def)

lemma calm_after_work: "calm s (after_work p e jobs s)"
proof (cases "tick_work p e jobs s")
  case (Pair r t)
  have "calm s t" using calm_work [OF calm_refl, of s p e jobs] by (simp only: Pair snd_conv)
  then show ?thesis by (cases r) (simp_all add: after_work_def Pair)
qed

lemma calm_settle_step [simp]: "calm s s' \<Longrightarrow> calm s (snd (settle_step p e goal s'))"
  by (simp add: settle_step_def Let_def)

lemma calm_attempt: "calm s s' \<Longrightarrow> calm s (snd (settle_attempt p e goal s'))"
  by (simp add: settle_attempt_def)

lemma calm_settle: "calm s s' \<Longrightarrow> calm s (settle_run p e s')"
proof (cases "cn_terminal s'")
  case (Some goal)
  assume c: "calm s s'"
  obtain r t where a: "settle_attempt p e goal s' = (r, t)" by (cases "settle_attempt p e goal s'")
  have "calm s t" using calm_attempt [OF c, of p e goal] by (simp only: a snd_conv)
  then show ?thesis by (cases r) (simp_all add: settle_run_def Some a)
qed (simp add: settle_run_def)

lemma calm_topology: "calm s s' \<Longrightarrow> calm s (watch_topology p e s')"
  by (simp add: watch_topology_def Let_def)

text \<open>The state of a tick at the moment it publishes.\<close>

definition before_output :: "console_params \<Rightarrow> console_env \<Rightarrow> (dbl \<times> console_job) list \<Rightarrow> console \<Rightarrow> console" where
  "before_output p e jobs s = watch_topology p e (settle_run p e (after_work p e jobs s))"

lemma calm_before_output: "calm s (before_output p e jobs s)"
  by (simp add: before_output_def calm_topology calm_settle calm_after_work)

definition moved :: "console_params \<Rightarrow> console_env \<Rightarrow> console \<Rightarrow> twist" where
  "moved p e s = output_velocity p e (fst (tick (en_now e) (cn_manual s))) s"

text \<open>What follows publishing only touches the lights, the guard and the page.\<close>

definition shown :: "console \<Rightarrow> console \<Rightarrow> bool" where
  "shown s s' \<longleftrightarrow> cn_watch s' = cn_watch s \<and> cn_nav s' = cn_nav s \<and> cn_held s' = cn_held s \<and> cn_terminal s' = cn_terminal s \<and>
     cn_executor s' = cn_executor s \<and> cn_operation s' = cn_operation s \<and> cn_depth_enabled s' = cn_depth_enabled s \<and>
     cn_board s' = cn_board s \<and> cn_map_version s' = cn_map_version s \<and> cn_nav_velocity s' = cn_nav_velocity s \<and>
     cn_nav_velocity_at s' = cn_nav_velocity_at s"

definition finish_tick :: "console_params \<Rightarrow> console_env \<Rightarrow> console \<Rightarrow> console" where
  "finish_tick p e s = challenge_page e (alarm_light p e (publish_velocity p e s))"

lemma console_tick_parts: "console_tick p e jobs s = finish_tick p e (before_output p e jobs s)"
  by (simp add: console_tick_def finish_tick_def before_output_def)

lemma finish_shown: "shown s (finish_tick p e s)"
  by (simp add: shown_def finish_tick_def challenge_page_def alarm_light_def publish_velocity_def Let_def emit_def split: prod.splits)

lemma finish_manual:
  "armed (cn_manual (finish_tick p e s)) = armed (snd (tick (en_now e) (cn_manual s)))"
  "pressed (cn_manual (finish_tick p e s)) = pressed (snd (tick (en_now e) (cn_manual s)))"
  by (simp_all add: finish_tick_def challenge_page_def alarm_light_def publish_velocity_def Let_def emit_def challenge_def prune_def
    split: prod.splits)

lemma output_ignores_manual: "output_velocity p e v (s\<lparr>cn_manual := m\<rparr>) = output_velocity p e v s"
  by (simp add: output_velocity_def may_follow_def base_health_def perception_health_def in_run_def)

lemma finish_out: "\<exists>l. cn_out (finish_tick p e s) = cn_out s @ (if cp_hardware p then [Velocity (moved p e s)] else []) @ l \<and>
    list_all (\<lambda>out. \<exists>r g beep. out = Light r g beep) l"
  by (auto simp: finish_tick_def challenge_page_def alarm_light_def publish_velocity_def Let_def emit_def moved_def
    output_ignores_manual split: prod.splits)

subsection \<open>Tracing what the subscriptions keep\<close>

lemma tick_frame:
  "cn_watch (console_tick p e jobs s) = cn_watch s"
  "cn_nav_velocity (console_tick p e jobs s) = cn_nav_velocity s"
  "cn_nav_velocity_at (console_tick p e jobs s) = cn_nav_velocity_at s \<or> cn_nav_velocity_at (console_tick p e jobs s) = long_ago"
  using calm_before_output [of s p e jobs] finish_shown [of "before_output p e jobs s" p e]
  by (auto simp: console_tick_parts calm_def shown_def)

definition good_odom :: "console_event \<Rightarrow> bool" where
  "good_odom ev \<longleftrightarrow> (\<exists>hypot ros stamp v. ev = Wheel_odom hypot ros stamp v \<and> recent (fl 0.3) ros stamp)"

definition good_scan :: "console_event \<Rightarrow> bool" where
  "good_scan ev \<longleftrightarrow> (\<exists>ros stamp. ev = Laser_scan ros stamp True \<and> recent (fl 0.5) ros stamp)"

text \<open>Who writes what.\<close>

lemma watch_frame [simp]:
  "wt_scan_at (watch_odom h ros now stamp v w) = wt_scan_at w" "wt_localized (watch_odom h ros now stamp v w) = wt_localized w"
  "wt_ready_at (watch_odom h ros now stamp v w) = wt_ready_at w" "wt_fault (watch_odom h ros now stamp v w) = wt_fault w"
  "wt_fault_at (watch_odom h ros now stamp v w) = wt_fault_at w" "wt_perception (watch_odom h ros now stamp v w) = wt_perception w"
  "wt_perception_at (watch_odom h ros now stamp v w) = wt_perception_at w"
  "wt_odom_at (watch_odom h ros now stamp v w) = (if recent (fl 0.3) ros stamp then now else wt_odom_at w)"
  by (simp_all add: watch_odom_def Let_def)

definition same_signals :: "watch \<Rightarrow> watch \<Rightarrow> bool" where
  "same_signals w w' \<longleftrightarrow> wt_odom_at w' = wt_odom_at w \<and> wt_scan_at w' = wt_scan_at w \<and> wt_localized w' = wt_localized w \<and>
     wt_ready_at w' = wt_ready_at w \<and> wt_fault w' = wt_fault w \<and> wt_fault_at w' = wt_fault_at w \<and>
     wt_perception w' = wt_perception w \<and> wt_perception_at w' = wt_perception_at w"

lemma signals_filter_values: "same_signals w (foldl (watch_filter_value st) w l)"
proof (induction l arbitrary: w)
  case (Cons x l)
  show ?case using Cons [of "watch_filter_value st w x"] by (simp add: same_signals_def watch_filter_value_def)
qed (simp add: same_signals_def)

lemma signals_filter: "same_signals w (watch_filter now msg w)"
proof (induction msg arbitrary: w)
  case (Cons st msg)
  define w' where "w' = (if fs_name st = ''D435DepthFilter''
     then foldl (watch_filter_value st) (w\<lparr>wt_filter_ok := False, wt_filter_at := now\<rparr>) (fs_values st) else w)"
  have "same_signals w w'"
    using signals_filter_values [of "w\<lparr>wt_filter_ok := False, wt_filter_at := now\<rparr>" st "fs_values st"]
    by (auto simp: w'_def same_signals_def)
  then show ?case using Cons [of w'] by (simp add: same_signals_def watch_filter_def w'_def)
qed (simp add: same_signals_def watch_filter_def)

lemma signals_rest: "same_signals w (watch_layer i stamp msg w)" "same_signals w (watch_image p ros now v w)"
  by (simp_all add: same_signals_def watch_layer_def watch_image_def Let_def)

lemmas signals = signals_filter [unfolded same_signals_def] signals_rest [unfolded same_signals_def]

lemma nav_frame [simp]:
  "cn_watch (nav_response g h s) = cn_watch s" "cn_watch (nav_result g b s) = cn_watch s"
  "cn_watch (depth_cloud ros now stamp s) = cn_watch s"
  "cn_nav_velocity (nav_response g h s) = cn_nav_velocity s" "cn_nav_velocity (nav_result g b s) = cn_nav_velocity s"
  "cn_nav_velocity (depth_cloud ros now stamp s) = cn_nav_velocity s"
  "cn_nav_velocity_at (nav_response g h s) = cn_nav_velocity_at s" "cn_nav_velocity_at (nav_result g b s) = cn_nav_velocity_at s"
  "cn_nav_velocity_at (depth_cloud ros now stamp s) = cn_nav_velocity_at s"
  by (simp_all add: nav_response_def nav_result_def depth_cloud_def Let_def emit_def)

lemmas handle_watch = console_handle_def set_watch_def watch_scan_def tick_frame(1) signals

interpretation odoms: grant_log "console_handle p"
  "\<lambda>s. wt_odom_at (cn_watch s) \<noteq> long_ago" "\<lambda>s t. wt_odom_at (cn_watch s) = t" "\<lambda>ev t d. good_odom ev \<and> d = t" for p
proof
  show "wt_odom_at (cn_watch (console_handle p ev t s)) \<noteq> long_ago \<Longrightarrow> wt_odom_at (cn_watch (console_handle p ev t s)) = d \<Longrightarrow>
      good_odom ev \<and> d = t \<or> wt_odom_at (cn_watch s) \<noteq> long_ago \<and> wt_odom_at (cn_watch s) = d" for ev t s d
    by (cases ev) (auto simp: handle_watch good_odom_def split: if_splits)
qed

interpretation scans: grant_log "console_handle p"
  "\<lambda>s. wt_scan_at (cn_watch s) \<noteq> long_ago" "\<lambda>s t. wt_scan_at (cn_watch s) = t" "\<lambda>ev t d. good_scan ev \<and> d = t" for p
proof
  show "wt_scan_at (cn_watch (console_handle p ev t s)) \<noteq> long_ago \<Longrightarrow> wt_scan_at (cn_watch (console_handle p ev t s)) = d \<Longrightarrow>
      good_scan ev \<and> d = t \<or> wt_scan_at (cn_watch s) \<noteq> long_ago \<and> wt_scan_at (cn_watch s) = d" for ev t s d
    by (cases ev) (auto simp: handle_watch good_scan_def split: if_splits)
qed

interpretation readies: grant_log "console_handle p"
  "\<lambda>s. wt_localized (cn_watch s)" "\<lambda>s t. wt_ready_at (cn_watch s) = t" "\<lambda>ev t d. ev = Localized True \<and> d = t" for p
proof
  show "wt_localized (cn_watch (console_handle p ev t s)) \<Longrightarrow> wt_ready_at (cn_watch (console_handle p ev t s)) = d \<Longrightarrow>
      ev = Localized True \<and> d = t \<or> wt_localized (cn_watch s) \<and> wt_ready_at (cn_watch s) = d" for ev t s d
    by (cases ev) (auto simp: handle_watch split: if_splits)
qed

interpretation soundness: grant_log "console_handle p"
  "\<lambda>s. \<not> wt_fault (cn_watch s)" "\<lambda>s t. wt_fault_at (cn_watch s) = t" "\<lambda>ev t d. ev = Localization_fault False \<and> d = t" for p
proof
  show "\<not> wt_fault (cn_watch (console_handle p ev t s)) \<Longrightarrow> wt_fault_at (cn_watch (console_handle p ev t s)) = d \<Longrightarrow>
      ev = Localization_fault False \<and> d = t \<or> \<not> wt_fault (cn_watch s) \<and> wt_fault_at (cn_watch s) = d" for ev t s d
    by (cases ev) (auto simp: handle_watch split: if_splits)
qed

interpretation perceptions: grant_log "console_handle p"
  "\<lambda>s. wt_perception (cn_watch s)" "\<lambda>s t. wt_perception_at (cn_watch s) = t" "\<lambda>ev t d. ev = Perception_allowed True \<and> d = t" for p
proof
  show "wt_perception (cn_watch (console_handle p ev t s)) \<Longrightarrow> wt_perception_at (cn_watch (console_handle p ev t s)) = d \<Longrightarrow>
      ev = Perception_allowed True \<and> d = t \<or> wt_perception (cn_watch s) \<and> wt_perception_at (cn_watch s) = d" for ev t s d
    by (cases ev) (auto simp: handle_watch split: if_splits)
qed

interpretation velocities: grant_log "console_handle p"
  "\<lambda>s. cn_nav_velocity_at s \<noteq> long_ago" "\<lambda>s d. (cn_nav_velocity s, cn_nav_velocity_at s) = d"
  "\<lambda>ev t d. ev = Nav_velocity (fst d) \<and> snd d = t" for p
proof
  show "cn_nav_velocity_at (console_handle p ev t s) \<noteq> long_ago \<Longrightarrow>
      (cn_nav_velocity (console_handle p ev t s), cn_nav_velocity_at (console_handle p ev t s)) = d \<Longrightarrow>
      ev = Nav_velocity (fst d) \<and> snd d = t \<or> cn_nav_velocity_at s \<noteq> long_ago \<and> (cn_nav_velocity s, cn_nav_velocity_at s) = d"
    for ev t s d
  proof (cases ev)
    case (Timer_tick e jobs)
    assume "cn_nav_velocity_at (console_handle p ev t s) \<noteq> long_ago"
      "(cn_nav_velocity (console_handle p ev t s), cn_nav_velocity_at (console_handle p ev t s)) = d"
    then show ?thesis using tick_frame(2,3) [of p "e\<lparr>en_now := t\<rparr>" jobs s] by (auto simp: Timer_tick console_handle_def)
  qed (auto simp: console_handle_def set_watch_def split: if_splits)
qed

subsection \<open>Where a velocity comes from\<close>

lemma not_long_ago:
  assumes "Fin 0 \<le> now"
  shows "\<not> now - long_ago < fl 0.3" "\<not> now - long_ago < fl 0.5"
proof -
  have "Fin 1 \<le> now - long_ago"
  proof (cases now)
    case (Fin q)
    have "fl 1000000000 \<le> fl (q + 1000000000)" using assms Fin by (intro fl_mono) simp
    moreover have "Fin 1 \<le> fl 1000000000" by code_simp
    ultimately show ?thesis unfolding Fin long_ago_def by (simp add: dbl_le_trans)
  qed (use assms in \<open>simp_all add: long_ago_def minus_dbl_def\<close>)
  then have *: "x \<le> Fin 1 \<Longrightarrow> \<not> now - long_ago < x" for x by (meson dbl_le_not_less dbl_le_trans)
  have "fl 0.3 \<le> Fin 1" by code_simp
  then show "\<not> now - long_ago < fl 0.3" by (rule *)
  have "fl 0.5 \<le> Fin 1" by code_simp
  then show "\<not> now - long_ago < fl 0.5" by (rule *)
qed

lemma topology_manual:
  assumes "topology p e" "s = before_output p e jobs s0"
  shows "session_ready (cn_manual s) \<longleftrightarrow> base_health e s \<and> cn_board s = 94"
  using assms by (simp add: before_output_def watch_topology_def watched_manual_def Let_def base_health_def)

lemma manual_moves:
  assumes "tick now m = ((x, y), m')" "x \<noteq> Fin 0 \<or> y \<noteq> Fin 0"
  shows "armed m" "session_ready m" "armed m'" "pressed m'" "\<not> deadline m \<le> now"
  using assms by (auto simp: tick_def tick_safety_def health_def release_motion_def stop_def Let_def split: if_splits option.splits)

text \<open>A velocity other than zero at the moment of publishing.\<close>

lemma moved_parts:
  assumes "moved p e s \<noteq> zero_twist" "s = before_output p e jobs s0"
  shows "\<not> cn_held s" "cn_terminal s = None" "topology p e" "base_health e s"
    "may_follow e s \<and> moved p e s = cn_nav_velocity s \<or>
     \<not> in_run s \<and> cn_board s = 94 \<and> armed (snd (tick (en_now e) (cn_manual s))) \<and> pressed (snd (tick (en_now e) (cn_manual s)))"
proof -
  obtain x y m where t: "tick (en_now e) (cn_manual s) = ((x, y), m)" by (metis prod.exhaust)
  show "\<not> cn_held s" "cn_terminal s = None" and top: "topology p e"
    using assms(1) by (auto simp: moved_def output_velocity_def split: if_splits)
  have *: "may_follow e s \<and> moved p e s = cn_nav_velocity s \<or> \<not> in_run s \<and> cn_board s = 94 \<and> (x \<noteq> Fin 0 \<or> y \<noteq> Fin 0)"
    using assms(1) t by (auto simp: moved_def output_velocity_def zero_twist_def split: if_splits)
  then show "base_health e s"
    using manual_moves(2) [OF t] topology_manual [OF top assms(2)] by (auto simp: may_follow_def)
  show "may_follow e s \<and> moved p e s = cn_nav_velocity s \<or>
     \<not> in_run s \<and> cn_board s = 94 \<and> armed (snd (tick (en_now e) (cn_manual s))) \<and> pressed (snd (tick (en_now e) (cn_manual s)))"
    using * manual_moves(3,4) [OF t] t by auto
qed

lemma tick_outputs:
  assumes "Velocity v \<in> set (drop (length (cn_out s)) (cn_out (console_tick p e jobs s)))" "v \<noteq> zero_twist"
  shows "v = moved p e (before_output p e jobs s)"
proof -
  let ?b = "before_output p e jobs s"
  obtain out where o: "cn_out ?b = cn_out s @ out" "list_all harmless out"
    using calm_before_output [of s p e jobs] by (auto simp: calm_def)
  obtain l where l: "cn_out (console_tick p e jobs s) = cn_out ?b @ (if cp_hardware p then [Velocity (moved p e ?b)] else []) @ l"
    "list_all (\<lambda>out. \<exists>r g beep. out = Light r g beep) l" using finish_out [of p e ?b] by (auto simp: console_tick_parts)
  have "\<not> Velocity v \<in> set out" "\<not> Velocity v \<in> set l" using o(2) l(2) assms(2) by (auto simp: list_all_iff)
  then show ?thesis using assms(1) o(1) l(1) by (auto split: if_splits)
qed

lemma shown_facts:
  assumes "shown s s'"
  shows "base_health e s' = base_health e s" "may_follow e s' = may_follow e s" "in_run s' = in_run s"
    "perception_health e s' = perception_health e s"
  using assms by (simp_all add: shown_def base_health_def may_follow_def in_run_def perception_health_def Let_def)

text \<open>C3. The velocity interlock of the inspection node, from any state whose subscriptions have heard nothing yet: a
  tick publishes a velocity other than zero only if the robot is not held, no run is being ended, the node is the only
  publisher, the pose and the map are the ones in use, and odometry, scan and a good localisation were received within
  their limits; and the velocity is one the navigation sent, received within 0.3 s, while a mission navigates
  with the depth camera enabled and its perception reported good within 0.3 s, or no mission is active, the camera looks
  ahead and the page holds the enabled stick.\<close>
theorem console_output_traced:
  assumes "cn_watch s0 = watch_init" "cn_nav_velocity_at s0 = long_ago"
    and "s = run_events (console_handle p) es s0"
    and "s' = console_handle p (Timer_tick e jobs) now s"
    and "Velocity v \<in> set (drop (length (cn_out s)) (cn_out s'))" "v \<noteq> zero_twist" "Fin 0 \<le> now"
  shows "\<not> cn_held s' \<and> cn_terminal s' = None \<and> topology p e \<and> console_pose e \<noteq> None \<and>
     cn_map_version s' = wt_live_version (cn_watch s') \<and> cn_map_version s' \<noteq> [] \<and>
     (\<exists>ev t. (ev, t) \<in> set es \<and> good_odom ev \<and> now - t < fl 0.3) \<and>
     (\<exists>ev t. (ev, t) \<in> set es \<and> good_scan ev \<and> now - t < fl 0.5) \<and>
     (\<exists>t. (Localized True, t) \<in> set es \<and> now - t < fl 0.5) \<and>
     (\<exists>t. (Localization_fault False, t) \<in> set es \<and> now - t < fl 0.5) \<and>
     (ex_phase (cn_executor s') = Mission_running \<and> cn_operation s' = Some Navigate \<and>
        \<not> ng_terminal (cn_nav s') \<and> \<not> ng_waiting (cn_nav s') \<and> cn_depth_enabled s' \<and>
        (\<exists>t. (Perception_allowed True, t) \<in> set es \<and> now - t < fl 0.3) \<and>
        (\<exists>t. (Nav_velocity v, t) \<in> set es \<and> now - t < fl 0.3) \<or>
      \<not> in_run s' \<and> cn_board s' = 94 \<and> armed (cn_manual s') \<and> pressed (cn_manual s'))"
proof -
  let ?e = "e\<lparr>en_now := now\<rparr>"
  define b where "b = before_output p ?e jobs s"
  have s': "s' = finish_tick p ?e b" using assms(4) by (simp add: console_handle_def console_tick_parts b_def)
  have v: "v = moved p ?e b" using tick_outputs [of v s p ?e jobs] assms(4-6) by (simp add: console_handle_def b_def)
  have sh: "shown b s'" unfolding s' by (rule finish_shown)
  note m = moved_parts [of p ?e b jobs s, OF _ b_def, folded v, OF assms(6)]
  have w: "cn_watch b = cn_watch s" "cn_nav_velocity b = cn_nav_velocity s"
    "cn_nav_velocity_at b = cn_nav_velocity_at s \<or> cn_nav_velocity_at b = long_ago"
    using calm_before_output [of s p ?e jobs] by (auto simp: b_def calm_def)
  have pose: "console_pose ?e = console_pose e" by (simp add: console_pose_def Let_def split: option.splits)
  have h: "now - wt_odom_at (cn_watch s) < fl 0.3" "now - wt_scan_at (cn_watch s) < fl 0.5" "console_pose e \<noteq> None"
    "wt_localized (cn_watch s)" "\<not> wt_fault (cn_watch s)" "now - wt_ready_at (cn_watch s) < fl 0.5"
    "now - wt_fault_at (cn_watch s) < fl 0.5" "cn_map_version b = wt_live_version (cn_watch b)"
    using m(4) w(1) pose by (simp_all add: base_health_def Let_def)
  have h9: "cn_map_version b \<noteq> []" using m(4) unfolding base_health_def Let_def by (elim conjE)
  have init: "\<not> wt_odom_at (cn_watch s0) \<noteq> long_ago" "\<not> wt_scan_at (cn_watch s0) \<noteq> long_ago"
    "\<not> wt_localized (cn_watch s0)" "\<not> \<not> wt_fault (cn_watch s0)" "\<not> wt_perception (cn_watch s0)"
    "\<not> cn_nav_velocity_at s0 \<noteq> long_ago"
    using assms(2) by (simp_all add: assms(1) watch_init_def)
  have odom: "wt_odom_at (cn_watch s) \<noteq> long_ago" using h(1) not_long_ago(1) [OF assms(7)] by metis
  have scan: "wt_scan_at (cn_watch s) \<noteq> long_ago" using h(2) not_long_ago(2) [OF assms(7)] by metis
  have 1: "\<exists>ev t. (ev, t) \<in> set es \<and> good_odom ev \<and> now - t < fl 0.3"
    using odoms.traced [of p es s0, folded assms(3), OF odom refl init(1)] h(1) by metis
  have 2: "\<exists>ev t. (ev, t) \<in> set es \<and> good_scan ev \<and> now - t < fl 0.5"
    using scans.traced [of p es s0, folded assms(3), OF scan refl init(2)] h(2) by metis
  have 3: "\<exists>t. (Localized True, t) \<in> set es \<and> now - t < fl 0.5"
    using readies.traced [of p es s0, folded assms(3), OF h(4) refl init(3)] h(6) by metis
  have 4: "\<exists>t. (Localization_fault False, t) \<in> set es \<and> now - t < fl 0.5"
    using soundness.traced [of p es s0, folded assms(3), OF h(5) refl init(4)] h(7) by metis
  have 5: "(\<exists>t. (Perception_allowed True, t) \<in> set es \<and> now - t < fl 0.3) \<and> (\<exists>t. (Nav_velocity v, t) \<in> set es \<and> now - t < fl 0.3)"
    if "may_follow ?e b" "v = cn_nav_velocity b"
  proof
    have f: "wt_perception (cn_watch s)" "now - wt_perception_at (cn_watch s) < fl 0.3" "now - cn_nav_velocity_at b < fl 0.3"
      using that(1) w(1) by (simp_all add: may_follow_def perception_health_def)
    show "\<exists>t. (Perception_allowed True, t) \<in> set es \<and> now - t < fl 0.3"
      using perceptions.traced [of p es s0, folded assms(3), OF f(1) refl init(5)] f(2) by metis
    have n: "cn_nav_velocity_at s \<noteq> long_ago" "now - cn_nav_velocity_at s < fl 0.3"
      using w(3) f(3) not_long_ago(1) [OF assms(7)] by metis+
    show "\<exists>t. (Nav_velocity v, t) \<in> set es \<and> now - t < fl 0.3"
      using velocities.traced [of p es s0, folded assms(3), OF n(1) refl init(6)] n(2) w(2) that(2) by (metis fst_conv snd_conv)
  qed
  have man: "armed (cn_manual s') = armed (snd (tick now (cn_manual b)))" "pressed (cn_manual s') = pressed (snd (tick now (cn_manual b)))"
    using finish_manual [of p ?e b] by (simp_all add: s')
  have top: "topology p e" using m(3) by (simp add: topology_def)
  have st: "\<not> cn_held s'" "cn_terminal s' = None" "cn_map_version s' = wt_live_version (cn_watch s')" "cn_map_version s' \<noteq> []"
    using m(1,2) h(8) h9 sh by (simp_all add: shown_def)
  have "may_follow ?e b \<and> v = cn_nav_velocity b \<or> \<not> in_run b \<and> cn_board b = 94 \<and> armed (cn_manual s') \<and> pressed (cn_manual s')"
    using m(5) man by simp
  then have "ex_phase (cn_executor s') = Mission_running \<and> cn_operation s' = Some Navigate \<and>
        \<not> ng_terminal (cn_nav s') \<and> \<not> ng_waiting (cn_nav s') \<and> cn_depth_enabled s' \<and>
        (\<exists>t. (Perception_allowed True, t) \<in> set es \<and> now - t < fl 0.3) \<and>
        (\<exists>t. (Nav_velocity v, t) \<in> set es \<and> now - t < fl 0.3) \<or>
      \<not> in_run s' \<and> cn_board s' = 94 \<and> armed (cn_manual s') \<and> pressed (cn_manual s')"
  proof (elim disjE conjE)
    assume f: "may_follow ?e b" "v = cn_nav_velocity b"
    have "ex_phase (cn_executor s') = Mission_running" "cn_operation s' = Some Navigate"
        "\<not> ng_terminal (cn_nav s')" "\<not> ng_waiting (cn_nav s')" "cn_depth_enabled s'"
      using f(1) sh by (simp_all add: may_follow_def shown_def)
    then show ?thesis using 5 [OF f] by blast
  next
    assume f: "\<not> in_run b" "cn_board b = 94" "armed (cn_manual s')" "pressed (cn_manual s')"
    have "\<not> in_run s'" "cn_board s' = 94" using f(1,2) sh by (simp_all add: in_run_def shown_def)
    then show ?thesis using f by blast
  qed
  then show ?thesis using st top h(3) 1 2 3 4 by (intro conjI)
qed

definition demo_console_params :: console_params where
  "demo_console_params = \<lparr>cp_hardware = True, cp_navigation = True, cp_settle = Fin (3 / 4), cp_stop_seconds = Fin (1 / 2),
     cp_frame_age = Fin 1, cp_operation_timeout = Fin 30, cp_navigation_timeout = Fin 180, cp_name = ''console''\<rparr>"

definition demo_place :: stop_pose where
  "demo_place = \<lparr>po_x = Fin 0, po_y = Fin 0, po_yaw = Fin 0\<rparr>"

definition demo_env :: console_env where
  "demo_env = \<lparr>en_now = Fin 1, en_ros = 0, en_transform = Some (demo_place, 0), en_publishers = [''console''],
     en_hold_ready = True, en_servo_ready = True, en_clear_ready = True, en_nav_ready = True, en_local_cleared = False,
     en_global_cleared = False, en_answer = None, en_put_ok = (\<lambda>_. True), en_photo_ok = True, en_nonce = ''n'',
     en_mapping = False, en_hypot = (\<lambda>x y. Fin 0), en_remainder = (\<lambda>x y. Fin 0), en_calls = [], en_root = Bt_running,
     en_halted = False\<rparr>"

text \<open>A mission under way to its first point.\<close>

definition demo_driving :: console where
  "demo_driving = (console_init demo_place None)\<lparr>cn_map_version := ''m'',
     cn_executor := (executor_init demo_place)\<lparr>ex_phase := Mission_running\<rparr>, cn_operation := Some Navigate,
     cn_nav := \<lparr>ng_generation = 1, ng_goal = True, ng_terminal = False, ng_waiting = False, ng_success = False,
       ng_cancel_requested = False\<rparr>, cn_depth_enabled := True\<rparr>"

definition demo_signals :: "(console_event \<times> dbl) list" where
  "demo_signals = [(Live_map ''m'', Fin 1), (Wheel_odom (\<lambda>x y. Fin 0) 0 0 zero_twist, Fin 1), (Laser_scan 0 0 True, Fin 1),
     (Localized True, Fin 1), (Localization_fault False, Fin 1), (Perception_allowed True, Fin 1),
     (Nav_velocity (zero_twist\<lparr>lin_x := Fin 1\<rparr>), Fin 1)]"

definition demo_heard :: console where
  "demo_heard = demo_driving\<lparr>cn_watch := watch_init\<lparr>wt_live_version := ''m'', wt_odom_at := Fin 1, wt_still_since := Fin 1,
     wt_scan_at := Fin 1, wt_localized := True, wt_ready_at := Fin 1, wt_fault := False, wt_fault_at := Fin 1,
     wt_perception := True, wt_perception_at := Fin 1\<rparr>, cn_nav_velocity := zero_twist\<lparr>lin_x := Fin 1\<rparr>,
     cn_nav_velocity_at := Fin 1\<rparr>"

lemma demo_values:
  "fl (- 0.05) \<le> secs 0" "secs 0 \<le> fl 0.3" "secs 0 \<le> fl 0.5" "\<not> secs 0 < fl (- 0.05)" "\<not> fl 0.3 < secs 0" "\<not> fl 0.5 < secs 0"
  "Fin 0 < fl 0.005" "Fin 0 < fl 0.01" "Fin 0 < fl 0.3" "Fin 0 < fl 0.5"
  by (code_simp, code_simp, code_simp, code_simp, code_simp, code_simp, code_simp, code_simp, code_simp, code_simp)

lemma demo_odom: "watch_odom (\<lambda>x y. Fin 0) 0 (Fin 1) 0 zero_twist watch_init =
    watch_init\<lparr>wt_still_since := Fin 1, wt_odom_at := Fin 1\<rparr>"
  using demo_values by (simp add: watch_odom_def Let_def recent_def zero_twist_def watch_init_def)

lemma demo_history: "run_events (console_handle demo_console_params) demo_signals demo_driving = demo_heard"
  using demo_values
  by (simp add: demo_signals_def run_events_def console_handle_def set_watch_def demo_driving_def console_init_def demo_heard_def
    demo_console_params_def watch_scan_def recent_def) (simp add: watch_odom_def Let_def recent_def zero_twist_def watch_init_def)

lemma demo_work: "after_work demo_console_params demo_env [] demo_heard = demo_heard"
  by (simp add: after_work_def tick_work_def try_act_def run_pending_def demo_heard_def demo_driving_def console_init_def
    watch_teaching_def Let_def teach_stopped_def teaching_init_def newest_frame_def watch_init_def tick_mission_def
    executor_init_def demo_env_def mission_tick_def tree_halted_def)

lemma demo_topology: "topology demo_console_params demo_env"
  by (simp add: topology_def demo_console_params_def demo_env_def)

lemma demo_before: "before_output demo_console_params demo_env [] demo_heard =
    watched_manual demo_console_params demo_env (base_health demo_env demo_heard \<and> cn_board demo_heard = 94) demo_heard"
  using demo_topology by (simp add: before_output_def demo_work settle_run_def watch_topology_def Let_def)
    (simp add: demo_heard_def demo_driving_def console_init_def)

lemma demo_moved: "moved demo_console_params demo_env (before_output demo_console_params demo_env [] demo_heard) =
    zero_twist\<lparr>lin_x := Fin 1\<rparr>"
proof -
  have "may_follow demo_env demo_heard" using demo_values
    by (simp add: may_follow_def base_health_def perception_health_def demo_heard_def demo_driving_def console_init_def demo_env_def
      executor_init_def console_pose_def Let_def watch_init_def)
  then show ?thesis using demo_topology
    by (simp add: moved_def demo_before watched_manual_def output_ignores_manual)
      (simp add: output_velocity_def demo_heard_def demo_driving_def console_init_def)
qed

theorem console_output_traced_witness:
  "(\<exists>t. (Nav_velocity (zero_twist\<lparr>lin_x := Fin 1\<rparr>), t) \<in> set demo_signals \<and> Fin 1 - t < fl 0.3) \<and> topology demo_console_params demo_env"
proof -
  let ?v = "zero_twist\<lparr>lin_x := Fin 1\<rparr>"
  let ?s = "run_events (console_handle demo_console_params) demo_signals demo_driving"
  let ?s' = "console_handle demo_console_params (Timer_tick demo_env []) (Fin 1) ?s"
  let ?b = "before_output demo_console_params demo_env [] demo_heard"
  have e: "demo_env\<lparr>en_now := Fin 1\<rparr> = demo_env" by (simp add: demo_env_def)
  obtain out where o: "cn_out ?b = cn_out demo_heard @ out"
    using calm_before_output [of demo_heard demo_console_params demo_env "[]"] by (auto simp: calm_def)
  have "cp_hardware demo_console_params" by (simp add: demo_console_params_def)
  then have v: "Velocity ?v \<in> set (drop (length (cn_out ?s)) (cn_out ?s'))"
    using finish_out [of demo_console_params demo_env ?b] o
    by (auto simp: demo_history console_handle_def e console_tick_parts demo_moved)
  have w: "cn_watch demo_driving = watch_init" "cn_nav_velocity_at demo_driving = long_ago"
    by (simp_all add: demo_driving_def console_init_def)
  have n: "?v \<noteq> zero_twist" "Fin 0 \<le> Fin 1" by (simp_all add: zero_twist_def)
  have x: "cn_executor (finish_tick demo_console_params demo_env ?b) = cn_executor ?b"
    using finish_shown [of ?b demo_console_params demo_env] by (simp only: shown_def)
  have "ex_phase (cn_executor ?b) = Mission_running"
    unfolding demo_before by (simp add: watched_manual_def demo_heard_def demo_driving_def)
  then have "ex_phase (cn_executor ?s') = Mission_running"
    by (simp only: demo_history console_handle_def e console_tick_parts console_event.case x)
  then show ?thesis using console_output_traced [OF w refl refl v n] by (auto simp: in_run_def)
qed

subsection \<open>What a step may ask for\<close>

definition adds :: "(console_output \<Rightarrow> bool) \<Rightarrow> console \<Rightarrow> console \<Rightarrow> bool" where
  "adds P s s' \<longleftrightarrow> (\<exists>out. cn_out s' = cn_out s @ out \<and> list_all P out)"

lemma adds_same: "cn_out s' = cn_out s \<Longrightarrow> adds P s s'"
  by (simp add: adds_def)

lemma adds_one: "cn_out s' = cn_out s @ [out] \<Longrightarrow> P out \<Longrightarrow> adds P s s'"
  by (simp add: adds_def)

lemma adds_trans: "adds P a b \<Longrightarrow> adds P b c \<Longrightarrow> adds P a c"
  unfolding adds_def by auto

lemma adds_new: "adds P s s' \<Longrightarrow> out \<in> set (drop (length (cn_out s)) (cn_out s')) \<Longrightarrow> P out"
  by (auto simp: adds_def list_all_iff)

text \<open>\<open>toward target\<close> is one notch from the board's position to the target.\<close>

definition toward :: "int \<Rightarrow> int \<Rightarrow> int \<Rightarrow> bool" where
  "toward target board b \<longleftrightarrow> board \<noteq> target \<and> b = board + (if board < target then 1 else - 1)"

definition justified ::
  "console_params \<Rightarrow> console_env \<Rightarrow> step_kind \<Rightarrow> step_context \<Rightarrow> bool \<Rightarrow> console \<Rightarrow> console_output \<Rightarrow> bool" where
  "justified p e kind c start s out = (case out of
       Sent (Servo_request b expected epoch k) \<Rightarrow>
         cn_held s \<and> console_still p e s \<and> expected = cn_board s \<and> fl 0.3 \<le> en_now e - cn_last_servo_at s \<and>
         (kind = Restore \<and> toward 94 (cn_board s) b \<or> kind = Adjust \<and> toward (sx_board c) (cn_board s) b)
     | Sent (Hold_request enabled epoch k) \<Rightarrow> enabled \<or>
         kind = Restore \<and> \<not> start \<and> cn_held s \<and> console_still p e s \<and> cn_board s = 94 \<and>
         \<not> en_now e - cn_last_servo_at s < cp_settle p \<and> cn_stage s = Rebuild_maps \<and> maps_rebuilt e s
     | Send_goal pose \<Rightarrow> kind = Navigate \<and> start \<and> pose = sx_pose c \<and> \<not> cn_held s \<and> cn_depth_enabled s \<and>
         ng_terminal (cn_nav s) \<and> \<not> ng_waiting (cn_nav s) \<and> perception_health e s
     | Photo f point \<Rightarrow> kind = Capture \<and> cn_held s \<and> console_still p e s \<and> newest_frame s = Some f \<and> new_image p e s \<and>
         (\<exists>q. sx_point c = Some q \<and> point = mp_id q)
     | Clear_costmaps \<Rightarrow> kind = Restore \<and> \<not> start \<and> cn_held s \<and> cn_board s = 94 \<and> cn_stage s = Wait_depth \<and> depth_returned e s
     | Saved_run st \<Rightarrow> st = Run_running
     | _ \<Rightarrow> False)"

lemma hold_adds:
  assumes "enabled \<or> justified p e kind c start s (Sent (Hold_request enabled (cn_driver_epoch t) k))"
  shows "adds (justified p e kind c start s) t (snd (request_hold e enabled k t))"
  using assms by (auto simp: request_hold_def call_service_def emit_def justified_def intro: adds_same adds_one)

lemma adds_try:
  assumes "adds P s (snd (m s))" "\<And>a t. m s = (Inr a, t) \<Longrightarrow> adds P t (snd (f a t))"
  shows "adds P s (snd (try_act m f s))"
proof (cases "m s")
  case (Pair r t)
  then show ?thesis using assms adds_trans [of P s t] by (cases r) (auto simp: try_act_def)
qed

lemma adds_refl [simp]: "adds P s s"
  by (simp add: adds_def)

text \<open>What a step reads of the state that starting it leaves alone.\<close>

definition same_base :: "console \<Rightarrow> console \<Rightarrow> bool" where
  "same_base s t \<longleftrightarrow> cn_watch t = cn_watch s \<and> cn_nav t = cn_nav s \<and> cn_held t = cn_held s \<and> cn_board t = cn_board s \<and>
     cn_last_servo_at t = cn_last_servo_at s \<and> cn_last_servo_stamp t = cn_last_servo_stamp s \<and>
     cn_depth_enabled t = cn_depth_enabled s \<and> cn_depth_open_at t = cn_depth_open_at s \<and>
     cn_depth_open_stamp t = cn_depth_open_stamp s \<and> cn_depth_forwarded_at t = cn_depth_forwarded_at s \<and>
     cn_clear_stamp t = cn_clear_stamp s \<and> cn_barrier t = cn_barrier s"

lemma same_base_facts:
  assumes "same_base s t"
  shows "console_still p e t = console_still p e s" "perception_health e t = perception_health e s"
    "depth_returned e t = depth_returned e s" "maps_rebuilt e t = maps_rebuilt e s" "newest_frame t = newest_frame s"
    "new_image p e t = new_image p e s"
  using assms by (simp_all add: same_base_def console_still_def perception_health_def depth_returned_def maps_rebuilt_def
    layer_rebuilt_def newest_frame_def new_image_def Let_def)

lemma stop_adds: "adds (justified p e Stop c start s) t (snd (step_stop p e t))"
  by (auto simp: step_stop_def intro: adds_try hold_adds)

lemma servo_adds:
  assumes "justified p e kind c start s (Sent (Servo_request b (cn_board t) (cn_driver_epoch t) k))"
  shows "adds (justified p e kind c start s) t (snd (request_servo e b k t))"
  using assms by (auto simp: request_servo_def call_service_def emit_def intro: adds_same adds_one)

lemma adds_update: "cn_out t' = cn_out t \<Longrightarrow> adds P t' u \<Longrightarrow> adds P t u"
  by (simp add: adds_def)

lemma restore_adds:
  assumes "same_base s t" "cn_stage t = cn_stage s \<and> \<not> start \<or> cn_stage t = Stage_none"
    and "cn_held t" "console_still p e t" "cn_board t = 94" "\<not> en_now e - cn_last_servo_at t < cp_settle p"
  shows "adds (justified p e Restore c start s) t (snd (restore_depth e t))"
proof (cases "cn_stage t")
  case Stage_none
  then show ?thesis by (simp add: restore_depth_def adds_same)
next
  case Wait_depth
  then show ?thesis using assms same_base_facts [OF assms(1)]
    by (auto simp: restore_depth_def emit_def justified_def same_base_def intro: adds_same adds_one)
next
  case Rebuild_maps
  have "adds (justified p e Restore c start s) t (snd (try_act (request_hold e False (Hold_restored (cn_generation t)))
      (\<lambda>_ s. (Inr Bt_running, s)) (t\<lparr>cn_stage := Releasing\<rparr>)))" if "maps_rebuilt e t"
  proof (rule adds_update [of "t\<lparr>cn_stage := Releasing\<rparr>"], simp, rule adds_try, rule hold_adds)
    show "False \<or> justified p e Restore c start s (Sent (Hold_request False (cn_driver_epoch (t\<lparr>cn_stage := Releasing\<rparr>))
        (Hold_restored (cn_generation t))))"
      using assms same_base_facts [OF assms(1)] Rebuild_maps that by (auto simp: justified_def same_base_def)
  qed simp
  then show ?thesis by (simp add: restore_depth_def Rebuild_maps)
qed (simp_all add: restore_depth_def)

lemma turn_adds:
  assumes "same_base s t" "cn_stage t = cn_stage s \<and> \<not> start \<or> cn_stage t = Stage_none"
    and "kind = Restore \<and> restore \<and> target = 94 \<or> kind = Adjust \<and> \<not> restore \<and> target = sx_board c"
  shows "adds (justified p e kind c start s) t (snd (step_turn p e restore target t))"
proof -
  have servo: "adds (justified p e kind c start s) t (snd (try_act (request_servo e (cn_board t + (if cn_board t < target then 1 else - 1))
      Servo_nothing) (\<lambda>_ s. (Inr Bt_running, s)) (t\<lparr>cn_depth_enabled := False\<rparr>)))"
    if "cn_held t" "console_still p e t" "cn_board t \<noteq> target" "fl 0.3 \<le> en_now e - cn_last_servo_at t"
  proof (rule adds_update [of "t\<lparr>cn_depth_enabled := False\<rparr>"], simp, rule adds_try, rule servo_adds)
    show "justified p e kind c start s (Sent (Servo_request (cn_board t + (if cn_board t < target then 1 else - 1))
        (cn_board (t\<lparr>cn_depth_enabled := False\<rparr>)) (cn_driver_epoch (t\<lparr>cn_depth_enabled := False\<rparr>)) Servo_nothing))"
      using assms same_base_facts [OF assms(1)] that by (auto simp: justified_def same_base_def toward_def)
  qed simp
  have hold: "adds (justified p e kind c start s) t (snd (try_act (request_hold e True Hold_nothing) (\<lambda>_ s. (Inr Bt_running, s)) t))"
    by (auto intro: adds_try hold_adds)
  have rest: "adds (justified p e kind c start s) t (snd (restore_depth e t))"
    if "restore" "cn_held t" "console_still p e t" "cn_board t = target" "\<not> en_now e - cn_last_servo_at t < cp_settle p"
    using restore_adds [OF assms(1,2)] that assms(3) by auto
  show ?thesis unfolding step_turn_def Let_def
    using servo hold rest by (auto simp: adds_same)
qed

lemma navigate_adds:
  assumes "same_base s t"
  shows "adds (justified p e Navigate c start s) t (snd (step_navigate p e (sx_pose c) start t))"
  unfolding step_navigate_def
proof (rule adds_try)
  show "adds (justified p e Navigate c start s) t (snd (if \<not> start then (Inr (), t)
       else if \<not> (\<not> cn_held t \<and> cn_depth_enabled t) then (Inl ''CAMERA_NOT_RESTORED'', t)
       else start_navigation p e (sx_pose c) t))"
    using assms same_base_facts [OF assms]
    by (auto simp: start_navigation_def emit_def justified_def same_base_def intro: adds_one)
qed simp

lemma capture_adds:
  assumes "same_base s t"
  shows "adds (justified p e Capture c start s) t (snd (step_capture p e (sx_point c) t))"
proof -
  have "adds (justified p e Capture c start s) t (snd (try_act (persist_run e Run_running) (\<lambda>_ s. (Inr Bt_success, s))
            (emit (Photo f (mp_id q)) (t\<lparr>cn_run := Some r\<rparr>))))"
    if "cn_held t" "console_still p e t" "newest_frame t = Some f" "new_image p e t" "sx_point c = Some q" for f q r
  proof (rule adds_trans [of _ _ "emit (Photo f (mp_id q)) (t\<lparr>cn_run := Some r\<rparr>)"])
    show "adds (justified p e Capture c start s) t (emit (Photo f (mp_id q)) (t\<lparr>cn_run := Some r\<rparr>))"
      using assms same_base_facts [OF assms] that
      by (auto simp: emit_def justified_def same_base_def intro: adds_one)
    show "adds (justified p e Capture c start s) (emit (Photo f (mp_id q)) (t\<lparr>cn_run := Some r\<rparr>))
       (snd (try_act (persist_run e Run_running) (\<lambda>_ s. (Inr Bt_success, s)) (emit (Photo f (mp_id q)) (t\<lparr>cn_run := Some r\<rparr>))))"
      by (auto simp: try_act_def persist_run_def emit_def justified_def Let_def intro: adds_one adds_same)
  qed
  then show ?thesis by (auto simp: step_capture_def split: option.splits)
qed
lemma adds_mono: "adds P s t \<Longrightarrow> (\<And>out. P out \<Longrightarrow> Q out) \<Longrightarrow> adds Q s t"
  unfolding adds_def by (auto simp: list_all_iff)

lemma step_kinds_add:
  assumes "same_base s t" "cn_stage t = cn_stage s \<and> \<not> start \<or> cn_stage t = Stage_none"
  shows "adds (justified p e kind c start s) t (snd (case kind of
             Stop \<Rightarrow> step_stop p e t
           | Restore \<Rightarrow> step_turn p e True 94 t
           | Adjust \<Rightarrow> step_turn p e False (sx_board c) t
           | Navigate \<Rightarrow> step_navigate p e (sx_pose c) start t
           | Capture \<Rightarrow> step_capture p e (sx_point c) t))"
  using stop_adds turn_adds [OF assms] navigate_adds [OF assms(1)] capture_adds [OF assms(1)] by (cases kind) auto

text \<open>What starting a step does.\<close>

definition started :: "console_env \<Rightarrow> step_kind \<Rightarrow> bool \<Rightarrow> unit act" where
  "started e kind start s = (if start
     then persist_run e Run_running (s\<lparr>cn_operation := Some kind, cn_stage := Stage_none, cn_operation_at := en_now e,
       cn_generation := cn_generation s + 1\<rparr>)
     else (Inr (), s))"

lemma started_keeps:
  assumes "started e kind start s = (r, t)"
  shows "same_base s t" "cn_stage t = cn_stage s \<and> \<not> start \<or> cn_stage t = Stage_none" "base_health e t = base_health e s"
    "adds (\<lambda>out. out = Saved_run Run_running) s t"
  using assms by (auto simp: started_def persist_run_def same_base_def base_health_def emit_def Let_def
    intro: adds_same adds_one split: if_splits option.splits)

lemma step_adds:
  "adds (\<lambda>out. justified p e kind c start s out \<and> (base_health e s \<and> topology p e \<or> out = Saved_run Run_running)) s
     (snd (console_step p e kind c start s))"
proof (cases "already_captured c s")
  case (Inr captured)
  have "adds (\<lambda>out. justified p e kind c start s out \<and> (base_health e s \<and> topology p e \<or> out = Saved_run Run_running)) s
    (snd (try_act (started e kind start) (\<lambda>_ s.
           if kind \<noteq> Navigate \<and> \<not> en_now e - cn_operation_at s < cp_operation_timeout p then (Inl ''STEP_TIMEOUT'', s)
           else if \<not> (base_health e s \<and> topology p e) then (Inl ''STEP_HEALTH'', s)
           else case kind of
             Stop \<Rightarrow> step_stop p e s
           | Restore \<Rightarrow> step_turn p e True 94 s
           | Adjust \<Rightarrow> step_turn p e False (sx_board c) s
           | Navigate \<Rightarrow> step_navigate p e (sx_pose c) start s
           | Capture \<Rightarrow> step_capture p e (sx_point c) s) s))"
    (is "adds ?P s (snd (try_act _ ?f s))")
  proof (rule adds_try)
    obtain r t where "started e kind start s = (r, t)" by (cases "started e kind start s")
    then show "adds ?P s (snd (started e kind start s))"
      using adds_mono [OF started_keeps(4)] by (fastforce simp: justified_def)
  next
    fix a t
    assume t: "started e kind start s = (Inr a, t)"
    note k = started_keeps [OF t]
    show "adds ?P t (snd (?f a t))"
    proof (cases "base_health e t \<and> topology p e")
      case True
      then show ?thesis using adds_mono [OF step_kinds_add [OF k(1,2), of p e kind c], of ?P] k(3) by simp
    next
      case False
      then show ?thesis by simp
    qed
  qed
  then show ?thesis unfolding console_step_def Inr by (simp add: started_def [abs_def])
qed (simp add: console_step_def)

text \<open>C10. A step of a mission asks for an action only in the state that action needs, and only with base health and a
  single publisher: one notch of the camera toward its target while the robot is held and still and 0.3 s after the
  last notch; the release of the hold only at the end of a restoration, with the camera ahead and both cost maps
  rebuilt from new depth data after they were cleared; a goal only with the robot released, depth enabled, perception
  good and no goal open; a photo only of the newest fresh image taken after the last notch settled.\<close>
theorem step_actions_justified:
  assumes "out \<in> set (drop (length (cn_out s)) (cn_out (snd (console_step p e kind c start s))))"
  shows "(base_health e s \<and> topology p e \<or> out = Saved_run Run_running) \<and> (case out of
       Sent (Servo_request b expected epoch k) \<Rightarrow>
         cn_held s \<and> console_still p e s \<and> expected = cn_board s \<and> fl 0.3 \<le> en_now e - cn_last_servo_at s \<and>
         (kind = Restore \<and> toward 94 (cn_board s) b \<or> kind = Adjust \<and> toward (sx_board c) (cn_board s) b)
     | Sent (Hold_request enabled epoch k) \<Rightarrow> enabled \<or>
         kind = Restore \<and> \<not> start \<and> cn_held s \<and> console_still p e s \<and> cn_board s = 94 \<and>
         \<not> en_now e - cn_last_servo_at s < cp_settle p \<and> cn_stage s = Rebuild_maps \<and> maps_rebuilt e s
     | Send_goal pose \<Rightarrow> kind = Navigate \<and> start \<and> pose = sx_pose c \<and> \<not> cn_held s \<and> cn_depth_enabled s \<and>
         ng_terminal (cn_nav s) \<and> \<not> ng_waiting (cn_nav s) \<and> perception_health e s
     | Photo f point \<Rightarrow> kind = Capture \<and> cn_held s \<and> console_still p e s \<and> newest_frame s = Some f \<and> new_image p e s \<and>
         (\<exists>q. sx_point c = Some q \<and> point = mp_id q)
     | Clear_costmaps \<Rightarrow> kind = Restore \<and> \<not> start \<and> cn_held s \<and> cn_board s = 94 \<and> cn_stage s = Wait_depth \<and> depth_returned e s
     | Saved_run st \<Rightarrow> st = Run_running
     | _ \<Rightarrow> False)"
  using adds_new [OF step_adds assms] unfolding justified_def by blast

definition demo_ready :: console where
  "demo_ready = (console_init demo_place None)\<lparr>cn_map_version := ''m'', cn_held := True, cn_board := 90,
     cn_watch := watch_init\<lparr>wt_live_version := ''m'', wt_odom_at := Fin 1, wt_still_since := Fin (1 / 2),
       wt_scan_at := Fin 1, wt_localized := True, wt_ready_at := Fin 1, wt_fault := False, wt_fault_at := Fin 1\<rparr>\<rparr>"

definition demo_parking :: step_context where
  "demo_parking = \<lparr>sx_point = None, sx_pose = demo_place, sx_target = Fin 0, sx_board = 0, sx_approach = 0, sx_count = 0,
     sx_reference = None\<rparr>"

lemma demo_notch_values: "fl 0.3 \<le> fl 1000000001" "Fin 0 < fl (1 / 2)" "Fin (1 / 2) \<le> fl (1 / 2)" "fl (1 / 2) < fl 0.3 \<longleftrightarrow> False"
  by (code_simp, code_simp, code_simp, code_simp)

lemma demo_notch: "cn_out (snd (console_step demo_console_params demo_env Restore demo_parking True demo_ready)) =
    [Sent (Servo_request 91 90 [] Servo_nothing)]"
proof -
  let ?t = "demo_ready\<lparr>cn_operation := Some Restore, cn_stage := Stage_none, cn_operation_at := Fin 1, cn_generation := 1\<rparr>"
  have h: "base_health demo_env ?t" using demo_values
    by (simp add: base_health_def demo_ready_def console_init_def demo_env_def console_pose_def Let_def watch_init_def)
  have "console_still demo_console_params demo_env ?t" using demo_values demo_notch_values
    by (simp add: console_still_def demo_ready_def console_init_def demo_env_def demo_console_params_def watch_init_def)
  then have "snd (step_turn demo_console_params demo_env True 94 ?t) = emit (Sent (Servo_request 91 90 [] Servo_nothing))
      (?t\<lparr>cn_depth_enabled := False, cn_pending := Some (Servo_request 91 90 [] Servo_nothing),
        cn_pending_deadline := Fin 1 + Fin (3 / 2)\<rparr>)"
    using demo_notch_values
    by (simp add: step_turn_def demo_ready_def console_init_def demo_env_def long_ago_def try_act_def
      request_servo_def call_service_def emit_def)
  then show ?thesis using h demo_topology demo_values
    by (simp add: console_step_def already_captured_def demo_parking_def try_act_def persist_run_def)
      (simp add: demo_ready_def console_init_def demo_env_def demo_console_params_def emit_def)
qed

theorem step_actions_justified_witness:
  "toward 94 90 91 \<and> Sent (Servo_request 91 90 [] Servo_nothing) \<in>
     set (cn_out (snd (console_step demo_console_params demo_env Restore demo_parking True demo_ready)))"
proof -
  have o: "cn_out demo_ready = []" by (simp add: demo_ready_def console_init_def)
  have b: "cn_board demo_ready = 90" by (simp add: demo_ready_def)
  have m: "Sent (Servo_request 91 90 [] Servo_nothing) \<in> set (drop (length (cn_out demo_ready))
     (cn_out (snd (console_step demo_console_params demo_env Restore demo_parking True demo_ready))))"
    by (simp add: demo_notch o)
  show ?thesis using step_actions_justified [OF m] m by (simp add: o b)
qed

subsection \<open>The end of a run\<close>

definition confirmed_stop :: "console_params \<Rightarrow> console_env \<Rightarrow> console \<Rightarrow> bool" where
  "confirmed_stop p e s \<longleftrightarrow> cn_held s \<and> console_still p e s \<and> ng_terminal (cn_nav s) \<and> \<not> ng_waiting (cn_nav s) \<and> cn_pending s = None"

lemma persist_frame [simp]:
  "cn_terminal (snd (persist_run e st s)) = cn_terminal s" "cn_operation_at (snd (persist_run e st s)) = cn_operation_at s"
  by (simp_all add: persist_run_def emit_def Let_def split: option.splits)

lemma persist_adds: "P (Saved_run st) \<Longrightarrow> cn_out s' = cn_out s \<Longrightarrow> adds P s (snd (persist_run e st s'))"
  by (auto simp: persist_run_def emit_def Let_def intro: adds_same adds_one split: option.splits)

lemma settle_step_alt: "settle_step p e goal s = (if confirmed_stop p e s
      then let s = if goal = Run_failed \<and> cn_alarm_until s = Fin 0
          then s\<lparr>cn_alarm_until := en_now e + Fin 3, cn_alarm_trigger := True\<rparr> else s
        in if goal \<noteq> Run_failed \<or> cn_alarm_until s \<le> en_now e
           then persist_run e goal (s\<lparr>cn_terminal := None\<rparr>) else (Inr (), s)
      else if Fin 10 < en_now e - cn_operation_at s then persist_run e Run_locked (s\<lparr>cn_terminal := None\<rparr>)
      else (Inr (), s))"
  by (simp add: settle_step_def confirmed_stop_def)

lemma settle_step_adds:
  assumes "confirmed_stop p e s \<Longrightarrow> P (Saved_run goal)" "Fin 10 < en_now e - cn_operation_at s \<Longrightarrow> P (Saved_run Run_locked)"
  shows "adds P s (snd (settle_step p e goal s))"
  using assms by (simp add: settle_step_alt Let_def adds_same persist_adds)

lemma settle_step_terminal:
  "cn_terminal (snd (settle_step p e goal s)) = None \<Longrightarrow>
     cn_terminal s = None \<or> confirmed_stop p e s \<or> Fin 10 < en_now e - cn_operation_at s"
  "\<not> confirmed_stop p e s \<Longrightarrow> Fin 10 < en_now e - cn_operation_at s \<Longrightarrow> cn_terminal (snd (settle_step p e goal s)) = None"
  "cn_operation_at (snd (settle_step p e goal s)) = cn_operation_at s"
  by (simp_all add: settle_step_alt Let_def split: if_splits)

lemma hold_frame [simp]:
  "cn_terminal (snd (request_hold e b k s)) = cn_terminal s" "cn_operation_at (snd (request_hold e b k s)) = cn_operation_at s"
  "cn_held (snd (request_hold e b k s)) = cn_held s"
  by (simp_all add: request_hold_def call_service_def emit_def)

lemma hold_saves: "adds (\<lambda>out. \<exists>q. out = Sent q) s (snd (request_hold e b k s))"
  by (auto simp: request_hold_def call_service_def emit_def intro: adds_same adds_one)

text \<open>What the end of a tick does with a run that is being ended.\<close>

lemma settle_run_adds:
  assumes t: "cn_terminal s = Some goal"
    and P: "\<And>q. P (Sent q)" "confirmed_stop p e s \<Longrightarrow> P (Saved_run goal)"
      "Fin 10 < en_now e - cn_operation_at s \<Longrightarrow> P (Saved_run Run_locked)"
  shows "adds P s (settle_run p e s) \<and>
      (cn_terminal (settle_run p e s) = None \<longrightarrow> confirmed_stop p e s \<or> Fin 10 < en_now e - cn_operation_at s) \<and>
      (\<not> confirmed_stop p e s \<longrightarrow> Fin 10 < en_now e - cn_operation_at s \<longrightarrow> cn_terminal (settle_run p e s) = None)"
proof -
  define u where "u = (if cn_pending s = None \<and> \<not> cn_held s then request_hold e True Hold_nothing s else (Inr (), s))"
  obtain r s1 where u': "u = (r, s1)" by (cases u)
  have f: "cn_terminal s1 = Some goal" "cn_operation_at s1 = cn_operation_at s" "cn_held s1 = cn_held s" "adds P s s1"
  proof -
    have "cn_terminal (snd u) = Some goal \<and> cn_operation_at (snd u) = cn_operation_at s \<and> cn_held (snd u) = cn_held s"
      by (simp add: u_def t)
    moreover have "adds P s (snd (request_hold e True Hold_nothing s))"
      using adds_mono [OF hold_saves] P(1) by blast
    then have "adds P s (snd u)" by (simp add: u_def)
    ultimately show "cn_terminal s1 = Some goal" "cn_operation_at s1 = cn_operation_at s" "cn_held s1 = cn_held s" "adds P s s1"
      by (simp_all add: u')
  qed
  have c: "confirmed_stop p e s1 \<longleftrightarrow> confirmed_stop p e s" if "r = Inr a" for a
    using u' that by (auto simp: u_def request_hold_def call_service_def emit_def confirmed_stop_def split: if_splits)
  have att: "settle_attempt p e goal s = (case r of Inl err \<Rightarrow> (Inl err, s1) | Inr a \<Rightarrow> settle_step p e goal s1)"
    by (simp add: settle_attempt_def try_act_def u_def [symmetric] u' split: sum.splits)
  obtain r2 s2 where st: "settle_step p e goal s1 = (r2, s2)" by (cases "settle_step p e goal s1")
  have s2: "adds P s1 s2" if "r = Inr a" for a
    using settle_step_adds [of p e s1 P goal] P(2,3) c [OF that] f(2) st by simp
  have s2t: "cn_terminal s2 = None \<Longrightarrow> confirmed_stop p e s \<or> Fin 10 < en_now e - cn_operation_at s"
    "\<not> confirmed_stop p e s \<Longrightarrow> Fin 10 < en_now e - cn_operation_at s \<Longrightarrow> cn_terminal s2 = None" "cn_operation_at s2 = cn_operation_at s"
    if "r = Inr a" for a
    using settle_step_terminal [where p = p and e = e and goal = goal and s = s1] c [OF that] f(1,2) st by simp_all
  have run: "settle_run p e s = (case r of
      Inl err \<Rightarrow> if Fin 10 < en_now e - cn_operation_at s then s1\<lparr>cn_terminal := None\<rparr> else s1
    | Inr a \<Rightarrow> (case r2 of Inr _ \<Rightarrow> s2
        | Inl err \<Rightarrow> if Fin 10 < en_now e - cn_operation_at s then s2\<lparr>cn_terminal := None\<rparr> else s2))"
  proof (cases r)
    case (Inr a)
    show ?thesis by (cases r2) (simp_all add: settle_run_def t att st Inr s2t(3) [OF Inr])
  qed (simp add: settle_run_def t att f(2))
  have upd: "adds P s x \<Longrightarrow> adds P s (x\<lparr>cn_terminal := None\<rparr>)" for x by (simp add: adds_def)
  have all: "adds P s s2" if "r = Inr a" for a by (rule adds_trans [OF f(4) s2 [OF that]])
  show "adds P s (settle_run p e s) \<and>
      (cn_terminal (settle_run p e s) = None \<longrightarrow> confirmed_stop p e s \<or> Fin 10 < en_now e - cn_operation_at s) \<and>
      (\<not> confirmed_stop p e s \<longrightarrow> Fin 10 < en_now e - cn_operation_at s \<longrightarrow> cn_terminal (settle_run p e s) = None)"
  proof (cases r)
    case (Inl err)
    show ?thesis using f(1) upd [OF f(4)] f(4) by (simp add: run Inl)
  next
    case (Inr a)
    show ?thesis using upd [OF all [OF Inr]] all [OF Inr] s2t(1,2) [OF Inr] by (cases r2) (simp_all add: run Inr, blast)
  qed
qed

lemma hold_any: "(\<And>q. P (Sent q)) \<Longrightarrow> cn_out s' = cn_out s \<Longrightarrow> adds P s (snd (request_hold e b k s'))"
  by (auto simp: request_hold_def call_service_def emit_def intro: adds_same adds_one)

lemma topology_adds: "(\<And>q. P (Sent q)) \<Longrightarrow> adds P s (watch_topology p e s)"
  by (simp add: watch_topology_def watched_manual_def Let_def adds_same hold_any)

lemma topology_terminal [simp]: "cn_terminal (watch_topology p e s) = cn_terminal s"
  by (simp add: watch_topology_def watched_manual_def Let_def)

text \<open>C12. A run that is being ended (paused, cancelled or failed) is recorded so only when the robot is held and seen
  still, the navigation has ended and no request is open; the end is given up only after 10 s, and then always, and
  what is recorded is that it is locked; as long as it goes on, only zero velocities are published.\<close>
theorem run_end_confirmed:
  assumes "w = after_work p e jobs s" "cn_terminal w = Some goal" "s' = console_tick p e jobs s"
  shows "(\<forall>st. Saved_run st \<in> set (drop (length (cn_out w)) (cn_out s')) \<longrightarrow>
       st = goal \<and> confirmed_stop p e w \<or> st = Run_locked \<and> Fin 10 < en_now e - cn_operation_at w) \<and>
     (cn_terminal s' = None \<longrightarrow> confirmed_stop p e w \<or> Fin 10 < en_now e - cn_operation_at w) \<and>
     (\<not> confirmed_stop p e w \<and> Fin 10 < en_now e - cn_operation_at w \<longrightarrow> cn_terminal s' = None) \<and>
     (cn_terminal s' \<noteq> None \<longrightarrow> (\<forall>v. Velocity v \<in> set (drop (length (cn_out w)) (cn_out s')) \<longrightarrow> v = zero_twist))"
proof -
  define late where "late \<longleftrightarrow> Fin 10 < en_now e - cn_operation_at w"
  define b where "b = watch_topology p e (settle_run p e w)"
  define P where "P out \<longleftrightarrow> harmless out \<and> (\<forall>st. out = Saved_run st \<longrightarrow> st = goal \<and> confirmed_stop p e w \<or> st = Run_locked \<and> late)" for out
  have fin: "adds P w (settle_run p e w)" "cn_terminal (settle_run p e w) = None \<longrightarrow> confirmed_stop p e w \<or> late"
    "\<not> confirmed_stop p e w \<longrightarrow> late \<longrightarrow> cn_terminal (settle_run p e w) = None"
    using settle_run_adds [OF assms(2), of P p e] by (simp_all add: P_def late_def)
  have "adds P w b" unfolding b_def by (rule adds_trans [OF fin(1) topology_adds]) (simp add: P_def)
  then obtain out where out: "cn_out b = cn_out w @ out" "list_all P out" by (auto simp: adds_def)
  have s': "s' = finish_tick p e b" by (simp add: assms(1,3) console_tick_parts before_output_def b_def)
  obtain l where l: "cn_out s' = cn_out b @ (if cp_hardware p then [Velocity (moved p e b)] else []) @ l"
      "list_all (\<lambda>out. \<exists>r g beep. out = Light r g beep) l"
    using finish_out [of p e b] by (auto simp: s')
  let ?new = "out @ (if cp_hardware p then [Velocity (moved p e b)] else []) @ l"
  have new: "drop (length (cn_out w)) (cn_out s') = ?new" by (simp add: out(1) l(1))
  have t: "cn_terminal s' = cn_terminal (settle_run p e w)"
    using finish_shown [of b p e] by (simp add: s' shown_def b_def)
  have saved: "st = goal \<and> confirmed_stop p e w \<or> st = Run_locked \<and> late" if "Saved_run st \<in> set ?new" for st
  proof -
    have "Saved_run st \<in> set out" using that l(2) by (auto simp: list_all_iff split: if_splits)
    then have "P (Saved_run st)" using out(2) by (simp add: list_all_iff)
    then show ?thesis by (simp add: P_def)
  qed
  have zero: "v = zero_twist" if "cn_terminal s' \<noteq> None" "Velocity v \<in> set ?new" for v
  proof -
    have "moved p e b = zero_twist" using that(1) t by (auto simp: moved_def output_velocity_def b_def)
    moreover have "Velocity v \<in> set out \<Longrightarrow> v = zero_twist" using out(2) by (auto simp: list_all_iff P_def)
    ultimately show ?thesis using that(2) l(2) by (auto simp: list_all_iff split: if_splits)
  qed
  show ?thesis unfolding new late_def [symmetric]
    using saved zero fin(2,3) [folded t] by (intro conjI allI impI) blast+
qed

definition demo_ending :: console where
  "demo_ending = demo_ready\<lparr>cn_terminal := Some Run_canceled\<rparr>"

lemma demo_ending_work: "after_work demo_console_params e [] demo_ending = demo_ending"
  by (simp add: after_work_def tick_work_def try_act_def run_pending_def demo_ending_def demo_ready_def console_init_def
    watch_teaching_def Let_def teach_stopped_def teaching_init_def newest_frame_def watch_init_def tick_mission_def executor_init_def)

theorem run_end_confirmed_witness:
  "cn_terminal demo_ending = Some Run_canceled \<and>
   cn_terminal (console_tick demo_console_params (demo_env\<lparr>en_now := Fin 20\<rparr>) [] demo_ending) = None"
proof -
  let ?e = "demo_env\<lparr>en_now := Fin 20\<rparr>"
  have t: "cn_terminal demo_ending = Some Run_canceled" by (simp add: demo_ending_def)
  have late: "Fin 10 < en_now ?e - cn_operation_at demo_ending"
    unfolding demo_ending_def demo_ready_def console_init_def demo_env_def by code_simp
  have "\<not> Fin 20 - Fin 1 < fl 0.3" by code_simp
  then have "\<not> confirmed_stop demo_console_params ?e demo_ending"
    by (simp add: confirmed_stop_def console_still_def demo_ending_def demo_ready_def)
  with run_end_confirmed [OF demo_ending_work [symmetric] t refl] t late show ?thesis by blast
qed

subsection \<open>A hold that cannot be requested\<close>

text \<open>When the base's hold interface is not ready, the request of a hold throws before the step that would record the run as
  locked: the wait for the end of the run is given up after 10 s and nothing has been recorded.\<close>

lemma unready_hold_unrecorded:
  assumes "cn_terminal s = Some goal" "cn_pending s = None" "\<not> cn_held s" "\<not> en_hold_ready e"
  shows "settle_run p e s = (if Fin 10 < en_now e - cn_operation_at s then s\<lparr>cn_terminal := None\<rparr> else s)"
  using assms by (simp add: settle_run_def settle_attempt_def try_act_def request_hold_def call_service_def)

lemma unready_hold_dropped:
  "settle_run demo_console_params (demo_env\<lparr>en_now := Fin 20, en_hold_ready := False\<rparr>) (demo_ending\<lparr>cn_held := False\<rparr>) =
     demo_ending\<lparr>cn_held := False, cn_terminal := None\<rparr>"
proof -
  let ?e = "demo_env\<lparr>en_now := Fin 20, en_hold_ready := False\<rparr>" and ?s = "demo_ending\<lparr>cn_held := False\<rparr>"
  have p: "cn_terminal ?s = Some Run_canceled" "cn_pending ?s = None" "\<not> cn_held ?s" "\<not> en_hold_ready ?e"
    by (simp_all add: demo_ending_def demo_ready_def console_init_def demo_env_def)
  have "Fin 10 < en_now ?e - cn_operation_at ?s"
    unfolding demo_ending_def demo_ready_def console_init_def demo_env_def by code_simp
  then show ?thesis using unready_hold_unrecorded [OF p, of demo_console_params] by simp
qed

text \<open>A step of the teaching dialogue whose servo request cannot be sent leaves the dialogue waiting for an answer.\<close>

lemma unsent_step_stuck:
  assumes "cp_hardware p" "te_owner (cn_teaching s) = cn_session s" "cn_pending s = None" "isfinite target" "\<not> en_servo_ready e"
    and "teach_step target revision (console_still p e s) (wt_frame_sequence (cn_watch s)) (en_now e) (cn_teaching s) = (Inr c, t)"
  shows "teach_step_command p e target revision s = (Inl ''INTERFACE_NOT_READY'', s\<lparr>cn_teaching := t\<rparr>)"
    "te_phase t = Sending" "teach_begin who t = Inl Unfinished"
proof -
  show "teach_step_command p e target revision s = (Inl ''INTERFACE_NOT_READY'', s\<lparr>cn_teaching := t\<rparr>)"
    using assms by (simp add: teach_step_command_def request_servo_def call_service_def)
  show ph: "te_phase t = Sending" using step_accepted(3) [OF assms(6)] .
  show "teach_begin who t = Inl Unfinished" by (simp add: teach_begin_def ph)
qed

end
