(* ===== verification/Inspection_Store.thy ===== *)
theory Inspection_Store
  imports Console_Safety "HOL-Library.AList" "HOL-Library.List_Lexorder" "HOL-Library.Char_ord"
begin

text \<open>
  What the inspection keeps: the tables of \<open>store.cpp\<close> with their revisions, the commands of the page that write
  points and tasks (\<open>console_node.cpp\<close>), the interruption of runs at a restart, and the queue of uploads with
  the check of the receipt (\<open>upload.cpp\<close>). Outside the repository, and an argument: whether SQLite carries out a
  statement (\<open>db\<close>, asked with the number of the write), \<open>std::cos\<close> and \<open>std::sin\<close>, and the answer of the photo server.
  A transaction that fails is rolled back and leaves its table as it was.
\<close>

subsection \<open>Tables\<close>

text \<open>An identifier with its revision and body.\<close>

type_synonym 'a table = "(string \<times> int \<times> 'a) list"

datatype store_error = Refused inspection_error | Changed | Missing | Other_map | Occupied_goal | Too_many | Bad_upload
  | Bad_mark
  | Statement_failed

datatype upload_status = Upload_pending | Upload_unconfigured | Upload_confirmed

record upload_item =
  up_sha :: string
  up_path :: string
  up_status :: upload_status
  up_attempts :: int

record kept_task =
  kt_task :: inspection_task
  kt_version :: string

datatype kept_status = Kept run_status | Interrupted

record kept_run =
  kr_task :: string
  kr_status :: kept_status

record kept_view =
  kv_epoch :: string
  kv_board :: int
  kv_target :: dbl
  kv_confirmed :: bool

record store =
  so_points :: "mission_point table"
  so_tasks :: "kept_task table"
  so_runs :: "kept_run table"
  so_settings :: "kept_view table"
  so_uploads :: "(string \<times> upload_item) list"
  so_sending :: "(string \<times> string) option"
  so_writes :: nat

definition store_empty :: store where
  "store_empty = \<lparr>so_points = [], so_tasks = [], so_runs = [], so_settings = [], so_uploads = [], so_sending = None,
     so_writes = 0\<rparr>"

type_synonym 'a stored = "store \<Rightarrow> (store_error + 'a) \<times> store"

definition then_store :: "'a stored \<Rightarrow> ('a \<Rightarrow> 'b stored) \<Rightarrow> 'b stored" where
  "then_store m f st = (case m st of (Inl err, st) \<Rightarrow> (Inl err, st) | (Inr a, st) \<Rightarrow> f a st)"

definition checked :: "inspection_error + 'a \<Rightarrow> 'a stored" where
  "checked r st = (case r of Inl err \<Rightarrow> Inl (Refused err) | Inr a \<Rightarrow> Inr a, st)"

definition assure :: "bool \<Rightarrow> store_error \<Rightarrow> unit stored" where
  "assure b err st = (if b then Inr () else Inl err, st)"

definition revision_of :: "string \<Rightarrow> 'a table \<Rightarrow> int" where
  "revision_of i t = (case map_of t i of None \<Rightarrow> 0 | Some (r, _) \<Rightarrow> r)"

definition kept_value :: "string \<Rightarrow> 'a table \<Rightarrow> 'a option" where
  "kept_value i t = map_option snd (map_of t i)"

text \<open>\<open>put\<close> within its transaction: the revision read must be the one the caller saw.\<close>

definition table_put :: "bool \<Rightarrow> string \<Rightarrow> 'a \<Rightarrow> int \<Rightarrow> 'a table \<Rightarrow> (store_error + unit) \<times> 'a table" where
  "table_put ok i v expected t =
     (if revision_of i t \<noteq> expected then (Inl Changed, t)
      else if \<not> ok then (Inl Statement_failed, t)
      else (Inr (), AList.update i (revision_of i t + 1, v) t))"

definition table_erase :: "bool \<Rightarrow> string \<Rightarrow> 'a table \<Rightarrow> (store_error + unit) \<times> 'a table" where
  "table_erase ok i t =
     (if \<not> ok then (Inl Statement_failed, t) else if map_of t i = None then (Inl Missing, t) else (Inr (), AList.delete i t))"

definition ordered :: "(string \<times> 'a) list \<Rightarrow> (string \<times> 'a) list" where
  "ordered t = sort_key fst t"

definition check_point :: "mission_point \<Rightarrow> inspection_error + mission_point" where
  "check_point q = bind_res (valid_id (mp_id q)) (\<lambda>_. bind_res (normalize_point q) (\<lambda>n.
     bind_res (validate_point n) (\<lambda>_. Inr n)))"

definition put_point :: "(nat \<Rightarrow> bool) \<Rightarrow> mission_point \<Rightarrow> int \<Rightarrow> unit stored" where
  "put_point db q expected =
     then_store (checked (check_point q)) (\<lambda>n st.
     let r = table_put (db (so_writes st)) (mp_id q) n expected (so_points st)
     in (fst r, st\<lparr>so_points := snd r, so_writes := so_writes st + 1\<rparr>))"

definition put_task :: "(nat \<Rightarrow> bool) \<Rightarrow> kept_task \<Rightarrow> int \<Rightarrow> unit stored" where
  "put_task db t expected =
     then_store (checked (bind_res (valid_id (it_id (kt_task t))) (\<lambda>_. validate_task (kt_task t)))) (\<lambda>_ st.
     let r = table_put (db (so_writes st)) (it_id (kt_task t)) t expected (so_tasks st)
     in (fst r, st\<lparr>so_tasks := snd r, so_writes := so_writes st + 1\<rparr>))"

definition put_run :: "(nat \<Rightarrow> bool) \<Rightarrow> string \<Rightarrow> kept_run \<Rightarrow> int \<Rightarrow> unit stored" where
  "put_run db i run expected = then_store (checked (valid_id i)) (\<lambda>_ st.
     let r = table_put (db (so_writes st)) i run expected (so_runs st)
     in (fst r, st\<lparr>so_runs := snd r, so_writes := so_writes st + 1\<rparr>))"

definition put_setting :: "(nat \<Rightarrow> bool) \<Rightarrow> string \<Rightarrow> kept_view \<Rightarrow> int \<Rightarrow> unit stored" where
  "put_setting db i v expected = then_store (checked (valid_id i)) (\<lambda>_ st.
     let r = table_put (db (so_writes st)) i v expected (so_settings st)
     in (fst r, st\<lparr>so_settings := snd r, so_writes := so_writes st + 1\<rparr>))"

definition erase_point :: "(nat \<Rightarrow> bool) \<Rightarrow> string \<Rightarrow> unit stored" where
  "erase_point db i = then_store (checked (valid_id i)) (\<lambda>_ st.
     let r = table_erase (db (so_writes st)) i (so_points st)
     in (fst r, st\<lparr>so_points := snd r, so_writes := so_writes st + 1\<rparr>))"

definition erase_task :: "(nat \<Rightarrow> bool) \<Rightarrow> string \<Rightarrow> unit stored" where
  "erase_task db i = then_store (checked (valid_id i)) (\<lambda>_ st.
     let r = table_erase (db (so_writes st)) i (so_tasks st)
     in (fst r, st\<lparr>so_tasks := snd r, so_writes := so_writes st + 1\<rparr>))"

text \<open>A run that was under way when the program ended is not resumed.\<close>

definition live_status :: "kept_status \<Rightarrow> bool" where
  "live_status x \<longleftrightarrow> x \<in> {Kept Run_running, Kept Run_paused, Kept Run_pausing, Kept Run_canceling, Kept Run_stopping}"

fun interrupt_runs :: "(nat \<Rightarrow> bool) \<Rightarrow> kept_run table \<Rightarrow> unit stored" where
  "interrupt_runs db [] st = (Inr (), st)"
| "interrupt_runs db ((i, revision, run) # rest) st =
     (if live_status (kr_status run)
      then then_store (put_run db i (run\<lparr>kr_status := Interrupted\<rparr>) revision) (\<lambda>_. interrupt_runs db rest) st
      else interrupt_runs db rest st)"

definition reopen :: "(nat \<Rightarrow> bool) \<Rightarrow> unit stored" where
  "reopen db st = interrupt_runs db (ordered (so_runs st)) (st\<lparr>so_sending := None\<rparr>)"

subsection \<open>Commands of the page\<close>

record loaded_map =
  lm_x :: dbl
  lm_y :: dbl
  lm_yaw :: dbl
  lm_resolution :: dbl
  lm_width :: nat
  lm_height :: nat
  lm_data :: "int list"

record page_map =
  pm_id :: string
  pm_version :: string
  pm_planning :: bool
  pm_grid :: loaded_map

text \<open>A cell index outside the range of an \<open>int\<close> is undefined in C++; here no index beyond the finite ones is a cell.\<close>

definition free_cell :: "loaded_map \<Rightarrow> dbl \<Rightarrow> dbl \<Rightarrow> bool" where
  "free_cell g u v \<longleftrightarrow> (let x = \<lfloor>val u\<rfloor>; y = \<lfloor>val v\<rfloor> in isfinite u \<and> isfinite v \<and> 0 \<le> x \<and> 0 \<le> y \<and>
     x < int (lm_width g) \<and> y < int (lm_height g) \<and> lm_data g ! nat (y * int (lm_width g) + x) = 0)"

definition valid_map_pose :: "(dbl \<Rightarrow> dbl) \<Rightarrow> (dbl \<Rightarrow> dbl) \<Rightarrow> page_map \<Rightarrow> stop_pose \<Rightarrow> unit stored" where
  "valid_map_pose cosf sinf m pose =
     then_store (checked (validate_pose pose)) (\<lambda>_.
     then_store (assure (pm_id m \<noteq> []) Other_map) (\<lambda>_.
     let g = pm_grid m; c = cosf (lm_yaw g); s = sinf (lm_yaw g); dx = po_x pose - lm_x g; dy = po_y pose - lm_y g
     in assure (free_cell g ((c * dx + s * dy) / lm_resolution g) ((- s * dx + c * dy) / lm_resolution g)) Occupied_goal))"

text \<open>A point drawn on the page is never verified. \<open>mark\<close> says whether a field mark, if the point carries one, is a Boolean;
  the mark itself is for the page, nothing here reads it.\<close>

definition save_point ::
  "(nat \<Rightarrow> bool) \<Rightarrow> (dbl \<Rightarrow> dbl) \<Rightarrow> (dbl \<Rightarrow> dbl) \<Rightarrow> page_map \<Rightarrow> bool \<Rightarrow> mission_point \<Rightarrow> int \<Rightarrow> unit stored" where
  "save_point db cosf sinf m mark q expected = (case servo_command (mp_target q) of
       None \<Rightarrow> checked (Inl Bad_target)
     | Some c \<Rightarrow> then_store (assure mark Bad_mark) (\<lambda>_. then_store (valid_map_pose cosf sinf m (mp_pose q)) (\<lambda>_.
         put_point db (q\<lparr>mp_map_id := pm_id m, mp_map_version := pm_version m, mp_board := c, mp_verified := False,
           mp_approaches := map_option (map (\<lambda>a. a\<lparr>ap_verified := False\<rparr>)) (mp_approaches q), mp_reference := None\<rparr>)
           expected)))"

definition known_point :: "string \<Rightarrow> store \<Rightarrow> mission_point option" where
  "known_point i st = (if valid_id i = Inr () then kept_value i (so_points st) else None)"

text \<open>What a confirmation records: the pose, the angle taught, the image.\<close>

definition taught_approach :: "stop_pose \<Rightarrow> dbl \<Rightarrow> int \<Rightarrow> string \<Rightarrow> approach" where
  "taught_approach pose target board photo =
     \<lparr>ap_pose = pose, ap_target = target, ap_board = board, ap_verified = True, ap_reference = Some photo\<rparr>"

definition confirm_point ::
  "(nat \<Rightarrow> bool) \<Rightarrow> (dbl \<Rightarrow> dbl) \<Rightarrow> (dbl \<Rightarrow> dbl) \<Rightarrow> page_map \<Rightarrow> string \<Rightarrow> string \<Rightarrow> approach \<Rightarrow> int \<Rightarrow> unit stored" where
  "confirm_point db cosf sinf m i name a expected =
     then_store (checked (valid_id i)) (\<lambda>_. then_store (valid_map_pose cosf sinf m (ap_pose a)) (\<lambda>_.
     put_point db \<lparr>mp_id = i, mp_map_id = pm_id m, mp_name = name, mp_map_version = pm_version m, mp_views = False,
       mp_pose = ap_pose a, mp_target = ap_target a, mp_board = ap_board a, mp_verified = False, mp_reference = None,
       mp_approaches = Some [a]\<rparr> expected))"

definition confirm_approach ::
  "(nat \<Rightarrow> bool) \<Rightarrow> (dbl \<Rightarrow> dbl) \<Rightarrow> (dbl \<Rightarrow> dbl) \<Rightarrow> page_map \<Rightarrow> string \<Rightarrow> approach \<Rightarrow> unit stored" where
  "confirm_approach db cosf sinf m i a =
     then_store (checked (valid_id i)) (\<lambda>_. then_store (valid_map_pose cosf sinf m (ap_pose a)) (\<lambda>_ st.
     case known_point i st of
       None \<Rightarrow> (Inl Missing, st)
     | Some q \<Rightarrow> then_store (assure (mp_map_version q = pm_version m) Missing) (\<lambda>_.
         then_store (checked (approach_list q)) (\<lambda>l.
         then_store (assure (length l < 3) Too_many) (\<lambda>_ st.
         put_point db (q\<lparr>mp_approaches := Some (l @ [a])\<rparr>) (revision_of i (so_points st)) st))) st))"

definition confirm_view :: "(nat \<Rightarrow> bool) \<Rightarrow> string \<Rightarrow> dbl \<Rightarrow> unit stored" where
  "confirm_view db epoch target st = put_setting db ''navigation_view''
     \<lparr>kv_epoch = epoch, kv_board = 94, kv_target = target, kv_confirmed = True\<rparr>
     (revision_of ''navigation_view'' (so_settings st)) st"

definition rename_point :: "(nat \<Rightarrow> bool) \<Rightarrow> page_map \<Rightarrow> string \<Rightarrow> string \<Rightarrow> unit stored" where
  "rename_point db m i name =
     then_store (checked (valid_id i)) (\<lambda>_.
     then_store (checked (require (name \<noteq> [] \<and> length name \<le> 180) Bad_name)) (\<lambda>_ st.
     case known_point i st of
       None \<Rightarrow> (Inl Other_map, st)
     | Some q \<Rightarrow> then_store (assure (mp_map_id q = pm_id m) Other_map) (\<lambda>_ st.
         put_point db (q\<lparr>mp_name := name\<rparr>) (revision_of i (so_points st)) st) st))"

definition save_task ::
  "(nat \<Rightarrow> bool) \<Rightarrow> (dbl \<Rightarrow> dbl) \<Rightarrow> (dbl \<Rightarrow> dbl) \<Rightarrow> page_map \<Rightarrow> inspection_task \<Rightarrow> int \<Rightarrow> unit stored" where
  "save_task db cosf sinf m t expected =
     (let t = t\<lparr>it_map_id := pm_id m\<rparr> in
      then_store (valid_map_pose cosf sinf m (it_parking t)) (\<lambda>_.
      then_store (checked (validate_task t)) (\<lambda>_ st.
      if list_all (\<lambda>i. case known_point i st of None \<Rightarrow> False | Some q \<Rightarrow> mp_map_version q = pm_version m) (it_points t)
      then put_task db \<lparr>kt_task = t, kt_version = pm_version m\<rparr> expected st else (Inl Missing, st))))"

text \<open>Removing a point removes it from the tasks of the map, and the tasks it leaves empty.\<close>

fun forget_point :: "(nat \<Rightarrow> bool) \<Rightarrow> page_map \<Rightarrow> string \<Rightarrow> kept_task table \<Rightarrow> unit stored" where
  "forget_point db m i [] st = (Inr (), st)"
| "forget_point db m i ((k, revision, t) # rest) st =
     (if it_map_id (kt_task t) \<noteq> pm_id m \<or> i \<notin> set (it_points (kt_task t)) then forget_point db m i rest st
      else let ids = filter (\<lambda>j. j \<noteq> i) (it_points (kt_task t)) in
        then_store (if ids = [] then erase_task db (it_id (kt_task t))
            else put_task db (t\<lparr>kt_task := (kt_task t)\<lparr>it_points := ids\<rparr>\<rparr>) revision)
          (\<lambda>_. forget_point db m i rest) st)"

definition forget_in_tasks :: "(nat \<Rightarrow> bool) \<Rightarrow> page_map \<Rightarrow> string \<Rightarrow> unit stored" where
  "forget_in_tasks db m i st = forget_point db m i (ordered (so_tasks st)) st"

definition remove_point :: "(nat \<Rightarrow> bool) \<Rightarrow> bool \<Rightarrow> page_map \<Rightarrow> string \<Rightarrow> unit stored" where
  "remove_point db running m i =
     then_store (checked (require (\<not> running) Mission_busy)) (\<lambda>_.
     then_store (checked (valid_id i)) (\<lambda>_ st. case known_point i st of
       None \<Rightarrow> (Inl Other_map, st)
     | Some q \<Rightarrow> then_store (assure (mp_map_id q = pm_id m) Other_map) (\<lambda>_.
         then_store (forget_in_tasks db m i) (\<lambda>_. erase_point db i)) st))"

subsection \<open>Uploads\<close>

definition file_name :: "string \<Rightarrow> string" where
  "file_name path = List.rev (takeWhile (\<lambda>c. c \<noteq> CHR ''/'') (List.rev path))"

definition enqueue_upload :: "(nat \<Rightarrow> bool) \<Rightarrow> string \<Rightarrow> string \<Rightarrow> string \<Rightarrow> bool \<Rightarrow> unit stored" where
  "enqueue_upload db i sha path configured = then_store (checked (valid_id i)) (\<lambda>_.
     then_store (assure (length sha = 64 \<and> file_name path = i @ ''.jpg'') Bad_upload) (\<lambda>_ st.
     let st' = st\<lparr>so_writes := so_writes st + 1\<rparr> in
     if \<not> db (so_writes st) then (Inl Statement_failed, st')
     else if map_of (so_uploads st) i \<noteq> None then (Inr (), st')
     else (Inr (), st'\<lparr>so_uploads := AList.update i \<lparr>up_sha = sha, up_path = path,
       up_status = (if configured then Upload_pending else Upload_unconfigured), up_attempts = 0\<rparr> (so_uploads st)\<rparr>)))"

definition next_upload :: "store \<Rightarrow> (string \<times> upload_item) option" where
  "next_upload st = List.find (\<lambda>(i, u). up_status u = Upload_pending) (ordered (so_uploads st))"

definition finish_upload :: "(nat \<Rightarrow> bool) \<Rightarrow> string \<Rightarrow> upload_status \<Rightarrow> unit stored" where
  "finish_upload db i status = then_store (checked (valid_id i)) (\<lambda>_ st.
     let st' = st\<lparr>so_writes := so_writes st + 1\<rparr> in
     if \<not> db (so_writes st) then (Inl Statement_failed, st')
     else case map_of (so_uploads st) i of
       None \<Rightarrow> (Inl Missing, st')
     | Some u \<Rightarrow> (Inr (), st'\<lparr>so_uploads := AList.update i (u\<lparr>up_status := status, up_attempts := up_attempts u + 1\<rparr>)
         (so_uploads st)\<rparr>))"

text \<open>A photo is confirmed only by an answer that names it and its checksum. \<open>reply\<close> is None if the body is not an object; a field
  of it is None if it holds something other than a string, and reads as the empty string if it is missing. Reading a field
  that is not a string throws: the result then is None, and the checksum is read only after the identifier has matched.\<close>

type_synonym upload_reply = "(string option \<times> string option) option"

definition interpret_upload :: "string \<Rightarrow> string \<Rightarrow> int \<Rightarrow> upload_reply \<Rightarrow> upload_status option" where
  "interpret_upload i sha http reply =
     (if http \<noteq> 200 then Some Upload_pending
      else case reply of
        None \<Rightarrow> Some Upload_pending
      | Some (named, digest) \<Rightarrow> (case named of
          None \<Rightarrow> None
        | Some i' \<Rightarrow> if i' \<noteq> i then Some Upload_pending
            else map_option (\<lambda>sha'. if sha' \<noteq> sha then Upload_pending else Upload_confirmed) digest))"

text \<open>The upload thread takes one item, sends it, and writes what came back; other writes may come in between. If reading the
  answer throws, nothing is written and the item is taken again.\<close>

definition take_upload :: "bool \<Rightarrow> store \<Rightarrow> store" where
  "take_upload configured st =
     (if \<not> configured \<or> so_sending st \<noteq> None then st
      else st\<lparr>so_sending := map_option (\<lambda>(i, u). (i, up_sha u)) (next_upload st)\<rparr>)"

definition upload_answered :: "(nat \<Rightarrow> bool) \<Rightarrow> int \<Rightarrow> upload_reply \<Rightarrow> store \<Rightarrow> store" where
  "upload_answered db http reply st = (case so_sending st of
       None \<Rightarrow> st
     | Some (i, sha) \<Rightarrow> (case interpret_upload i sha http reply of
         None \<Rightarrow> st\<lparr>so_sending := None\<rparr>
       | Some receipt \<Rightarrow> snd (finish_upload db i
           (if receipt = Upload_confirmed then Upload_confirmed else Upload_pending) (st\<lparr>so_sending := None\<rparr>))))"

subsection \<open>Events\<close>

datatype store_event =
    Save_point page_map bool mission_point int
  | Confirm_point page_map string string stop_pose dbl int string int
  | Confirm_approach page_map string stop_pose dbl int string
  | Confirm_view string dbl
  | Rename_point page_map string string
  | Remove_point bool page_map string
  | Save_task page_map inspection_task int
  | Save_run string kept_run int
  | Queue_photo string string string bool
  | Take_upload bool
  | Upload_answer int upload_reply
  | Reopen

definition store_handle :: "(nat \<Rightarrow> bool) \<Rightarrow> (dbl \<Rightarrow> dbl) \<Rightarrow> (dbl \<Rightarrow> dbl) \<Rightarrow> store_event \<Rightarrow> unit \<Rightarrow> store \<Rightarrow> store" where
  "store_handle db cosf sinf ev u st = (case ev of
       Save_point m mark q expected \<Rightarrow> snd (save_point db cosf sinf m mark q expected st)
     | Confirm_point m i name pose target board photo expected \<Rightarrow>
         snd (confirm_point db cosf sinf m i name (taught_approach pose target board photo) expected st)
     | Confirm_approach m i pose target board photo \<Rightarrow>
         snd (confirm_approach db cosf sinf m i (taught_approach pose target board photo) st)
     | Confirm_view epoch target \<Rightarrow> snd (confirm_view db epoch target st)
     | Rename_point m i name \<Rightarrow> snd (rename_point db m i name st)
     | Remove_point running m i \<Rightarrow> snd (remove_point db running m i st)
     | Save_task m t expected \<Rightarrow> snd (save_task db cosf sinf m t expected st)
     | Save_run i run expected \<Rightarrow> snd (put_run db i run expected st)
     | Queue_photo i sha path configured \<Rightarrow> snd (enqueue_upload db i sha path configured st)
     | Take_upload configured \<Rightarrow> take_upload configured st
     | Upload_answer http reply \<Rightarrow> upload_answered db http reply st
     | Reopen \<Rightarrow> snd (reopen db st))"

text \<open>What the start of a run reads: the task and the points it names.\<close>

definition run_inputs :: "string \<Rightarrow> store \<Rightarrow> stored_task option" where
  "run_inputs i st = map_option (\<lambda>t. \<lparr>sk_version = kt_version t,
     sk_points = map (\<lambda>j. known_point j st) (it_points (kt_task t)), sk_parking = it_parking (kt_task t)\<rparr>)
     (kept_value i (so_tasks st))"

subsection \<open>What an operation leaves alone\<close>

lemma then_store_result: "then_store m f st = (case m st of (Inl err, s) \<Rightarrow> (Inl err, s) | (Inr a, s) \<Rightarrow> f a s)"
  by (simp add: then_store_def)

lemma then_checked: "then_store (checked r) f st = (case r of Inl err \<Rightarrow> (Inl (Refused err), st) | Inr a \<Rightarrow> f a st)"
  by (cases r) (simp_all add: then_store_def checked_def)

lemma then_assure: "then_store (assure b err) f st = (if b then f () st else (Inl err, st))"
  by (simp add: then_store_def assure_def)

lemma then_pair: "m st = (r, s) \<Longrightarrow> then_store m f st = (case r of Inl err \<Rightarrow> (Inl err, s) | Inr a \<Rightarrow> f a s)"
  by (simp add: then_store_def)

lemma then_done:
  assumes "then_store m f st = (Inr b, st')"
  obtains s where "m st = (Inr (), s)" "f () s = (Inr b, st')"
  using assms by (cases "m st") (auto simp: then_store_def split: sum.splits)

lemmas run_store = then_checked then_assure

text \<open>A property of the store that every step of an operation keeps.\<close>

lemma keeps_then [simp]:
  assumes "P st" "P st \<Longrightarrow> P (snd (m st))" "\<And>a s. P s \<Longrightarrow> P (snd (f a s))"
  shows "P (snd (then_store m f st))"
  using assms by (cases "m st") (auto simp: then_store_def split: sum.splits)

lemma valid_map_keeps [simp]: "snd (valid_map_pose cosf sinf m pose st) = st"
  by (simp add: valid_map_pose_def run_store Let_def split: sum.splits) (simp add: assure_def)

lemma valid_map_result: "then_store (valid_map_pose cosf sinf m pose) f st =
    (case fst (valid_map_pose cosf sinf m pose st) of Inl err \<Rightarrow> (Inl err, st) | Inr a \<Rightarrow> f a st)"
  using valid_map_keeps [of cosf sinf m pose st]
  by (cases "valid_map_pose cosf sinf m pose st") (auto simp: then_store_def)

definition same_points :: "store \<Rightarrow> store \<Rightarrow> bool" where
  "same_points st st' \<longleftrightarrow> so_points st' = so_points st"

lemma same_points_then [simp]:
  assumes "same_points st (snd (m s))" "\<And>a s. same_points st s \<Longrightarrow> same_points st (snd (f a s))"
  shows "same_points st (snd (then_store m f s))"
  using assms by (cases "m s") (auto simp: then_store_def split: sum.splits)

lemma same_points_put:
  "same_points st s \<Longrightarrow> same_points st (snd (put_task db t e s))"
  "same_points st s \<Longrightarrow> same_points st (snd (put_run db i r e s))"
  "same_points st s \<Longrightarrow> same_points st (snd (put_setting db i v e s))"
  "same_points st s \<Longrightarrow> same_points st (snd (erase_task db i s))"
  by (simp_all add: put_task_def put_run_def put_setting_def erase_task_def run_store same_points_def Let_def split: sum.splits)

lemma same_points_forget: "same_points st s \<Longrightarrow> same_points st (snd (forget_point db m i l s))"
  by (induction l arbitrary: s) (auto simp: Let_def same_points_put)

lemma same_points_interrupt: "same_points st s \<Longrightarrow> same_points st (snd (interrupt_runs db l s))"
  by (induction l arbitrary: s) (auto simp: Let_def same_points_put)

lemma same_points_other:
  "so_points (snd (confirm_view db epoch target st)) = so_points st"
  "so_points (snd (save_task db cosf sinf m t e st)) = so_points st"
  "so_points (snd (put_run db i run e st)) = so_points st"
  "so_points (snd (enqueue_upload db i sha path configured st)) = so_points st"
  "so_points (take_upload configured st) = so_points st"
  "so_points (upload_answered db http reply st) = so_points st"
  "so_points (snd (reopen db st)) = so_points st"
proof -
  have refl: "same_points st st" by (simp add: same_points_def)
  show "so_points (snd (confirm_view db epoch target st)) = so_points st"
    using same_points_put(3) [OF refl] by (simp add: confirm_view_def same_points_def)
  show "so_points (snd (put_run db i run e st)) = so_points st"
    using same_points_put(2) [OF refl] by (simp add: same_points_def)
  show "so_points (snd (save_task db cosf sinf m t e st)) = so_points st"
    using same_points_put(1) [OF refl]
    by (simp add: save_task_def Let_def valid_map_result run_store same_points_def split: sum.splits)
  show "so_points (snd (enqueue_upload db i sha path configured st)) = so_points st"
    by (simp add: enqueue_upload_def run_store Let_def split: sum.splits)
  show "so_points (take_upload configured st) = so_points st" by (simp add: take_upload_def)
  show "so_points (upload_answered db http reply st) = so_points st"
    by (simp add: upload_answered_def finish_upload_def run_store Let_def split: sum.splits option.splits prod.splits)
  show "so_points (snd (reopen db st)) = so_points st"
    using same_points_interrupt [of st "st\<lparr>so_sending := None\<rparr>"] by (simp add: reopen_def same_points_def)
qed

subsection \<open>A verified approach was taught\<close>

definition taught_in :: "(store_event \<times> unit) list \<Rightarrow> approach \<Rightarrow> bool" where
  "taught_in es a \<longleftrightarrow> (\<exists>m i photo. a = taught_approach (ap_pose a) (ap_target a) (ap_board a) photo \<and>
     ((\<exists>name e. (Confirm_point m i name (ap_pose a) (ap_target a) (ap_board a) photo e, ()) \<in> set es) \<or>
      (Confirm_approach m i (ap_pose a) (ap_target a) (ap_board a) photo, ()) \<in> set es))"

lemma taught_snoc: "taught_in es a \<Longrightarrow> taught_in (es @ [x]) a"
  unfolding taught_in_def by fastforce

definition earned :: "(store_event \<times> unit) list \<Rightarrow> mission_point \<Rightarrow> bool" where
  "earned es q \<longleftrightarrow> (\<forall>l a. approach_list q = Inr l \<longrightarrow> a \<in> set l \<longrightarrow> ap_verified a \<longrightarrow> taught_in es a)"

definition good_points :: "(store_event \<times> unit) list \<Rightarrow> mission_point table \<Rightarrow> bool" where
  "good_points es t \<longleftrightarrow> (\<forall>i r q. map_of t i = Some (r, q) \<longrightarrow>
     (\<exists>q0. normalize_point q0 = Inr q) \<and> validate_point q = Inr () \<and> mp_id q = i \<and> earned es q)"

lemma earned_snoc: "earned es q \<Longrightarrow> earned (es @ [x]) q"
  unfolding earned_def using taught_snoc by blast

lemma good_snoc: "good_points es t \<Longrightarrow> good_points (es @ [x]) t"
  unfolding good_points_def using earned_snoc by blast

lemma normal_same:
  assumes "normalize_point q = Inr n"
  shows "approach_list n = approach_list q" "mp_id n = mp_id q" "mp_map_version n = mp_map_version q"
  using assms by (auto simp: normalize_point_def bind_res_Inr approach_list_def)

lemma point_kept: "so_points (snd (put_point db q e st)) = (case check_point q of Inl err \<Rightarrow> so_points st
    | Inr n \<Rightarrow> snd (table_put (db (so_writes st)) (mp_id q) n e (so_points st)))"
  by (simp add: put_point_def run_store Let_def split: sum.splits)

lemma good_update:
  assumes "good_points es t" "\<exists>q0. normalize_point q0 = Inr n" "validate_point n = Inr ()" "mp_id n = i" "earned es n"
  shows "good_points es (snd (table_put ok i n e t))"
  using assms unfolding table_put_def good_points_def by (auto simp: update_conv' split: if_splits)

lemma good_put:
  assumes "good_points es (so_points st)" "earned es q"
  shows "good_points es (so_points (snd (put_point db q e st)))"
proof (cases "check_point q")
  case (Inr n)
  then have n: "normalize_point q = Inr n" "validate_point n = Inr ()" by (auto simp: check_point_def bind_res_Inr)
  have "earned es n" "mp_id n = mp_id q" using assms(2) normal_same [OF n(1)] by (simp_all add: earned_def)
  then show ?thesis unfolding point_kept Inr sum.case using good_update [OF assms(1) _ n(2)] n(1) by blast
qed (use assms in \<open>simp add: point_kept\<close>)

lemma good_erase: "good_points es t \<Longrightarrow> good_points es (snd (table_erase ok i t))"
  by (auto simp: table_erase_def good_points_def delete_conv' split: if_splits)

lemma good_save:
  assumes "good_points es (so_points st)"
  shows "good_points es (so_points (snd (save_point db cosf sinf m mark q e st)))"
proof -
  have "earned es (q\<lparr>mp_map_id := i, mp_map_version := v, mp_board := c, mp_verified := False,
      mp_approaches := map_option (map (\<lambda>a. a\<lparr>ap_verified := False\<rparr>)) (mp_approaches q), mp_reference := None\<rparr>)" for i v c
    by (auto simp: earned_def approach_list_def own_approach_def bind_res_Inr split: option.splits if_splits)
  then show ?thesis using assms good_put
    by (auto simp: save_point_def valid_map_result run_store checked_def split: option.splits sum.splits)
qed

lemma good_confirm_point:
  assumes "good_points es (so_points st)" "ap_verified a \<Longrightarrow> taught_in es a"
  shows "good_points es (so_points (snd (confirm_point db cosf sinf m i name a e st)))"
proof -
  have "earned es \<lparr>mp_id = i, mp_map_id = k, mp_name = name, mp_map_version = v, mp_views = False,
       mp_pose = ap_pose a, mp_target = ap_target a, mp_board = ap_board a, mp_verified = False, mp_reference = None,
       mp_approaches = Some [a]\<rparr>" for k v
    using assms(2) by (simp add: earned_def approach_list_def)
  then show ?thesis using assms(1) good_put
    by (auto simp: confirm_point_def run_store valid_map_result split: sum.splits)
qed

lemma known_entry: "known_point i st = Some q \<Longrightarrow> \<exists>r. map_of (so_points st) i = Some (r, q)"
  by (auto simp: known_point_def kept_value_def split: if_splits)

lemma known_good: "good_points es (so_points st) \<Longrightarrow> known_point i st = Some q \<Longrightarrow> earned es q"
  by (auto simp: known_point_def kept_value_def good_points_def split: if_splits)

lemma good_confirm_approach:
  assumes "good_points es (so_points st)" "ap_verified a \<Longrightarrow> taught_in es a"
  shows "good_points es (so_points (snd (confirm_approach db cosf sinf m i a st)))"
proof (cases "known_point i st")
  case (Some q)
  have "earned es (q\<lparr>mp_approaches := Some (l @ [a])\<rparr>)" if "approach_list q = Inr l" for l
    using known_good [OF assms(1) Some] that assms(2) by (auto simp: earned_def approach_list_def)
  then show ?thesis using assms(1) good_put
    by (auto simp: confirm_approach_def run_store valid_map_result Some split: sum.splits)
qed (use assms in \<open>simp add: confirm_approach_def run_store valid_map_result split: sum.splits\<close>)

lemma good_rename:
  assumes "good_points es (so_points st)"
  shows "good_points es (so_points (snd (rename_point db m i name st)))"
proof (cases "known_point i st")
  case (Some q)
  have "earned es (q\<lparr>mp_name := name\<rparr>)"
    using known_good [OF assms Some] by (simp add: earned_def approach_list_def own_approach_def cong: option.case_cong)
  then show ?thesis using assms good_put by (auto simp: rename_point_def run_store Some split: sum.splits)
qed (use assms in \<open>simp add: rename_point_def run_store split: sum.splits\<close>)

lemma good_remove:
  assumes "good_points es (so_points st)"
  shows "good_points es (so_points (snd (remove_point db running m i st)))"
proof -
  obtain r s where f: "forget_in_tasks db m i st = (r, s)" by fastforce
  have s: "so_points s = so_points st"
    using same_points_forget [of st st db m i "ordered (so_tasks st)"] by (simp add: same_points_def forget_in_tasks_def f [unfolded forget_in_tasks_def])
  have "good_points es (so_points (snd (erase_point db i s)))"
    using assms good_erase by (simp add: erase_point_def run_store Let_def s split: sum.splits)
  then show ?thesis using assms
    by (cases r) (simp_all add: remove_point_def run_store then_pair [of "forget_in_tasks db m i", OF f] s split: option.splits sum.splits)
qed

lemma store_points_good: "good_points es (so_points (run_events (store_handle db cosf sinf) es store_empty))"
proof (induction es rule: rev_induct)
  case (snoc x es)
  obtain ev u where x: "x = (ev, u)" by (cases x)
  let ?st = "run_events (store_handle db cosf sinf) es store_empty"
  have old: "good_points (es @ [x]) (so_points ?st)" using snoc good_snoc by blast
  have "good_points (es @ [x]) (so_points (store_handle db cosf sinf ev u ?st))"
  proof (cases ev)
    case (Confirm_point m i name pose target board photo e)
    have "taught_in (es @ [x]) (taught_approach pose target board photo)"
      unfolding taught_in_def x Confirm_point taught_approach_def by fastforce
    then show ?thesis using old good_confirm_point by (simp add: store_handle_def Confirm_point)
  next
    case (Confirm_approach m i pose target board photo)
    have "taught_in (es @ [x]) (taught_approach pose target board photo)"
      unfolding taught_in_def x Confirm_approach taught_approach_def by fastforce
    then show ?thesis using old good_confirm_approach by (simp add: store_handle_def Confirm_approach)
  qed (use old in \<open>simp_all add: store_handle_def good_save good_rename good_remove same_points_other\<close>)
  then show ?case by (simp add: x)
qed (simp add: store_empty_def good_points_def)

subsection \<open>A stored task was posted\<close>

definition kept_tasks :: "(kept_task \<Rightarrow> bool) \<Rightarrow> store \<Rightarrow> bool" where
  "kept_tasks P st \<longleftrightarrow> (\<forall>(k, r, t)\<in>set (so_tasks st). it_id (kt_task t) = k \<and> P t)"

lemma kept_put_task [simp]:
  assumes "kept_tasks P st" "P t"
  shows "kept_tasks P (snd (put_task db t e st))"
proof -
  have "set (AList.update i (r, v) l) \<subseteq> insert (i, r, v) (set l)" for i r v and l :: "kept_task table"
    by (induction l) auto
  then show ?thesis using assms
    by (fastforce simp: kept_tasks_def put_task_def run_store Let_def table_put_def split: sum.splits)
qed

lemma kept_tasks_ops [simp]:
  "kept_tasks P st \<Longrightarrow> kept_tasks P (snd (erase_task db i st))"
  "kept_tasks P st \<Longrightarrow> kept_tasks P (snd (put_point db q e st))"
  "kept_tasks P st \<Longrightarrow> kept_tasks P (snd (erase_point db i st))"
  "kept_tasks P st \<Longrightarrow> kept_tasks P (snd (put_run db i run e st))"
  "kept_tasks P st \<Longrightarrow> kept_tasks P (snd (put_setting db i v e st))"
  "kept_tasks P st \<Longrightarrow> kept_tasks P (snd (checked x st))"
  "kept_tasks P st \<Longrightarrow> kept_tasks P (snd (assure b err st))"
  by (auto simp: kept_tasks_def erase_task_def put_point_def erase_point_def put_run_def put_setting_def run_store Let_def
    table_erase_def AList.delete_eq checked_def assure_def split: sum.splits if_splits)

lemma kept_tasks_then [simp]:
  assumes "kept_tasks P (snd (m s))" "\<And>a s. kept_tasks P s \<Longrightarrow> kept_tasks P (snd (f a s))"
  shows "kept_tasks P (snd (then_store m f s))"
  using assms by (cases "m s") (auto simp: then_store_def split: sum.splits)

lemma kept_tasks_interrupt [simp]: "kept_tasks P st \<Longrightarrow> kept_tasks P (snd (interrupt_runs db l st))"
  by (induction l arbitrary: st) auto

lemma kept_tasks_forget:
  assumes "\<And>t i. P t \<Longrightarrow> P (t\<lparr>kt_task := (kt_task t)\<lparr>it_points := filter (\<lambda>j. j \<noteq> i) (it_points (kt_task t))\<rparr>\<rparr>)"
    and "kept_tasks P st" "\<forall>(k, r, t)\<in>set l. P t"
  shows "kept_tasks P (snd (forget_point db m i l st))"
  using assms(2,3) by (induction l arbitrary: st) (auto simp: Let_def assms(1))

lemma kept_tasks_event:
  assumes "kept_tasks P st"
    and "\<And>t i. P t \<Longrightarrow> P (t\<lparr>kt_task := (kt_task t)\<lparr>it_points := filter (\<lambda>j. j \<noteq> i) (it_points (kt_task t))\<rparr>\<rparr>)"
    and "\<And>m t rev. ev = Save_task m t rev \<Longrightarrow> fst (valid_map_pose cosf sinf m (it_parking t) st) = Inr () \<Longrightarrow>
      P \<lparr>kt_task = t\<lparr>it_map_id := pm_id m\<rparr>, kt_version = pm_version m\<rparr>"
  shows "kept_tasks P (store_handle db cosf sinf ev u st)"
proof (cases ev)
  case (Save_task m t rev)
  have "kept_tasks P (snd (save_task db cosf sinf m t rev st))" using assms(1) assms(3) [OF Save_task]
    by (auto simp: save_task_def Let_def valid_map_result run_store split: sum.splits)
  then show ?thesis by (simp add: Save_task store_handle_def)
next
  case (Remove_point b m i)
  have "kept_tasks P (snd (forget_in_tasks db m i s))" if "kept_tasks P s" for s
  proof -
    have "\<forall>(k, r, t)\<in>set (ordered (so_tasks s)). P t" using that by (auto simp: kept_tasks_def ordered_def)
    from kept_tasks_forget [OF assms(2) that this] show ?thesis by (simp add: forget_in_tasks_def)
  qed
  then show ?thesis using assms(1) by (simp add: Remove_point store_handle_def remove_point_def split: option.splits)
next
  case (Take_upload b)
  then show ?thesis using assms(1) by (simp add: store_handle_def take_upload_def kept_tasks_def)
next
  case (Upload_answer http reply)
  then show ?thesis using assms(1) by (auto simp: store_handle_def upload_answered_def finish_upload_def run_store Let_def
    kept_tasks_def split: option.splits prod.splits sum.splits)
next
  case (Queue_photo i sha path b)
  then show ?thesis using assms(1)
    by (auto simp: store_handle_def enqueue_upload_def run_store Let_def kept_tasks_def split: sum.splits)
next
  case Reopen
  have "kept_tasks P (st\<lparr>so_sending := None\<rparr>)" using assms(1) by (simp add: kept_tasks_def)
  then show ?thesis by (simp add: Reopen store_handle_def reopen_def)
qed (use assms(1) in \<open>simp_all add: store_handle_def save_point_def confirm_point_def confirm_approach_def confirm_view_def
  rename_point_def valid_map_keeps split: option.splits\<close>)

text \<open>Where a task came from: its parking pose was posted with it and lies in a free cell of the map it was posted for.\<close>

definition posted :: "(dbl \<Rightarrow> dbl) \<Rightarrow> (dbl \<Rightarrow> dbl) \<Rightarrow> (store_event \<times> unit) list \<Rightarrow> kept_task \<Rightarrow> bool" where
  "posted cosf sinf es t \<longleftrightarrow> (\<exists>m t0 rev. (Save_task m t0 rev, ()) \<in> set es \<and> it_id t0 = it_id (kt_task t) \<and>
     it_parking t0 = it_parking (kt_task t) \<and> set (it_points (kt_task t)) \<subseteq> set (it_points t0) \<and>
     pm_version m = kt_version t \<and> fst (valid_map_pose cosf sinf m (it_parking t0) store_empty) = Inr ())"

lemma valid_map_stateless: "fst (valid_map_pose cosf sinf m pose st) = fst (valid_map_pose cosf sinf m pose st')"
  by (simp add: valid_map_pose_def run_store Let_def assure_def split: sum.splits)

lemma store_tasks_posted:
  "kept_tasks (posted cosf sinf es) (run_events (store_handle db cosf sinf) es store_empty)"
proof (induction es rule: rev_induct)
  case (snoc x es)
  obtain ev where x: "x = (ev, ())" by (cases x) simp
  let ?st = "run_events (store_handle db cosf sinf) es store_empty"
  have "posted cosf sinf es t \<Longrightarrow> posted cosf sinf (es @ [x]) t" for t unfolding posted_def by fastforce
  then have old: "kept_tasks (posted cosf sinf (es @ [x])) ?st" using snoc by (fastforce simp: kept_tasks_def)
  have "kept_tasks (posted cosf sinf (es @ [x])) (store_handle db cosf sinf ev () ?st)"
  proof (rule kept_tasks_event [OF old])
    show "posted cosf sinf (es @ [x]) (t\<lparr>kt_task := (kt_task t)\<lparr>it_points := filter (\<lambda>j. j \<noteq> i) (it_points (kt_task t))\<rparr>\<rparr>)"
      if "posted cosf sinf (es @ [x]) t" for t i using that unfolding posted_def by fastforce
    show "posted cosf sinf (es @ [x]) \<lparr>kt_task = t\<lparr>it_map_id := pm_id m\<rparr>, kt_version = pm_version m\<rparr>"
      if "ev = Save_task m t rev" "fst (valid_map_pose cosf sinf m (it_parking t) ?st) = Inr ()" for m t rev
      using that valid_map_stateless [of cosf sinf m "it_parking t" ?st store_empty] unfolding posted_def x by fastforce
  qed
  then show ?case by (simp add: x)
qed (simp add: store_empty_def kept_tasks_def)

subsection \<open>A mission goes where someone confirmed\<close>

lemma started_inputs:
  assumes "run_start_command p e request task None room stored s = (Inr (), s')"
  obtains t where "stored = Some t" "sk_version t = cn_map_version s"
    "list_all (\<lambda>q. case q of None \<Rightarrow> False | Some q \<Rightarrow> mp_verified q \<and> mp_map_version q = cn_map_version s) (sk_points t)"
    "ms_points (ex_snapshot (cn_executor s')) = map the (sk_points t)"
    "ms_parking (ex_snapshot (cn_executor s')) = sk_parking t"
proof -
  obtain t where t: "stored = Some t" "sk_version t = cn_map_version s"
    "list_all (\<lambda>q. case q of None \<Rightarrow> False | Some q \<Rightarrow> mp_verified q \<and> mp_map_version q = cn_map_version s) (sk_points t)"
    using assms by (auto simp: run_start_command_def split: if_splits option.splits)
  have "ms_points (ex_snapshot (cn_executor s')) = map the (sk_points t)"
    "ms_parking (ex_snapshot (cn_executor s')) = sk_parking t"
    using assms unfolding t(1)
    by (auto simp: run_start_command_def try_act_def mission_start_def bind_res_Inr make_tree_def
      split: if_splits option.splits sum.splits prod.splits)
  with t that show ?thesis by blast
qed

text \<open>C11. A mission started from a store that any history of page commands, uploads and restarts has left inspects only where
  someone confirmed: each of its points is of the map in use and has one to three parking places, and each of these is
  valid and carries exactly the pose, the angle and the board command of a confirmation in the history. No edit on the
  page makes a place verified. Where it parks in the end nobody need have confirmed: that pose, and every point on the
  way, was posted with this task for the map in use, and it was then checked to lie in a free cell of that map.\<close>
theorem missions_only_taught:
  assumes "st = run_events (store_handle db cosf sinf) es store_empty"
    and "run_start_command p e request task None room (run_inputs task st) s = (Inr (), s')"
    and "q \<in> set (ms_points (ex_snapshot (cn_executor s')))"
  shows "mp_map_version q = cn_map_version s \<and> (\<exists>l. mp_approaches q = Some l \<and> 1 \<le> length l \<and> length l \<le> 3 \<and>
    (\<forall>a\<in>set l. validate_approach a = Inr () \<and> (\<exists>m i photo. a = taught_approach (ap_pose a) (ap_target a) (ap_board a) photo \<and>
     ((\<exists>name rev. (Confirm_point m i name (ap_pose a) (ap_target a) (ap_board a) photo rev, ()) \<in> set es) \<or>
      (Confirm_approach m i (ap_pose a) (ap_target a) (ap_board a) photo, ()) \<in> set es)))) \<and>
    (\<exists>m t rev. (Save_task m t rev, ()) \<in> set es \<and> it_id t = task \<and> pm_version m = cn_map_version s \<and>
      mp_id q \<in> set (it_points t) \<and> ms_parking (ex_snapshot (cn_executor s')) = it_parking t \<and>
      fst (valid_map_pose cosf sinf m (it_parking t) store_empty) = Inr ())"
proof -
  obtain t where t: "run_inputs task st = Some t" "sk_version t = cn_map_version s"
    "list_all (\<lambda>q. case q of None \<Rightarrow> False | Some q \<Rightarrow> mp_verified q \<and> mp_map_version q = cn_map_version s) (sk_points t)"
    "ms_points (ex_snapshot (cn_executor s')) = map the (sk_points t)"
    "ms_parking (ex_snapshot (cn_executor s')) = sk_parking t"
    using started_inputs [OF assms(2)] by metis
  obtain k where k: "kept_value task (so_tasks st) = Some k" "sk_version t = kt_version k"
    "sk_points t = map (\<lambda>j. known_point j st) (it_points (kt_task k))" "sk_parking t = it_parking (kt_task k)"
    using t(1) by (auto simp: run_inputs_def)
  obtain j where j: "known_point j st = Some q" "mp_verified q" "mp_map_version q = cn_map_version s" "j \<in> set (it_points (kt_task k))"
    using t(3,4) k(3) assms(3) by (auto simp: list_all_iff split: option.splits)
  have good: "good_points es (so_points st)" unfolding assms(1) by (rule store_points_good)
  obtain q0 where q0: "normalize_point q0 = Inr q" "mp_id q = j"
    using good known_entry [OF j(1)] unfolding good_points_def by blast
  obtain l where l: "mp_approaches q = Some l" "1 \<le> length l" "length l \<le> 3" "\<forall>a\<in>set l. validate_approach a = Inr ()"
    using normalized [OF q0(1)] by metis
  have "list_all ap_verified l" using q0(1) j(2) l(1) by (auto simp: normalize_point_def bind_res_Inr)
  then have taught: "\<forall>a\<in>set l. taught_in es a" using known_good [OF good j(1)] l(1)
    by (simp add: earned_def approach_list_def list_all_iff)
  have "it_id (kt_task k) = task \<and> posted cosf sinf es k"
    using store_tasks_posted [of cosf sinf es db] k(1) unfolding assms(1) [symmetric] kept_tasks_def kept_value_def
    by (fastforce dest: map_of_SomeD)
  then have "\<exists>m t rev. (Save_task m t rev, ()) \<in> set es \<and> it_id t = task \<and> pm_version m = cn_map_version s \<and>
      mp_id q \<in> set (it_points t) \<and> ms_parking (ex_snapshot (cn_executor s')) = it_parking t \<and>
      fst (valid_map_pose cosf sinf m (it_parking t) store_empty) = Inr ()"
    unfolding posted_def using t(2,5) k(2,4) j(4) q0(2) by (metis subsetD)
  with taught j(3) l show ?thesis unfolding taught_in_def by blast
qed

subsection \<open>No update is lost\<close>

definition grown :: "string \<Rightarrow> store \<Rightarrow> store \<Rightarrow> bool" where
  "grown i st st' \<longleftrightarrow> revision_of i (so_points st) \<le> revision_of i (so_points st')"

lemma grown_same: "so_points st' = so_points st \<Longrightarrow> grown i st st'"
  by (simp add: grown_def)

lemma grown_put: "grown i st (snd (put_point db q e st))"
  by (auto simp: grown_def point_kept table_put_def revision_of_def update_conv' split: sum.splits option.splits)

lemma grown_refl [simp]: "grown i st st"
  by (simp add: grown_def)

lemma grown_remove:
  assumes "j \<noteq> i"
  shows "grown i st (snd (remove_point db running m j st))"
proof -
  obtain r s where f: "forget_in_tasks db m j st = (r, s)" by fastforce
  have s: "so_points s = so_points st"
    using same_points_forget [of st st db m j "ordered (so_tasks st)"] by (simp add: same_points_def forget_in_tasks_def f [unfolded forget_in_tasks_def])
  have "grown i st (snd (erase_point db j s))"
    using assms by (simp add: erase_point_def run_store Let_def s grown_def table_erase_def revision_of_def delete_conv'
      split: sum.splits)
  then show ?thesis using grown_same [OF s]
    by (cases r) (simp_all add: remove_point_def run_store then_pair [of "forget_in_tasks db m j", OF f] split: option.splits sum.splits)
qed

fun removes :: "string \<Rightarrow> store_event \<Rightarrow> bool" where
  "removes i (Remove_point running m j) \<longleftrightarrow> j = i"
| "removes i ev \<longleftrightarrow> False"

lemma grown_event:
  assumes "\<not> removes i ev"
  shows "grown i st (store_handle db cosf sinf ev u st)"
proof (cases ev)
  case (Save_point m mark q e)
  show ?thesis using grown_put
    by (auto simp: Save_point store_handle_def save_point_def valid_map_result run_store checked_def split: option.splits sum.splits)
next
  case (Confirm_point m i' name pose target board photo e)
  show ?thesis using grown_put
    by (simp add: Confirm_point store_handle_def confirm_point_def run_store valid_map_result split: sum.splits)
next
  case (Confirm_approach m i' pose target board photo)
  show ?thesis using grown_put
    by (simp add: Confirm_approach store_handle_def confirm_approach_def run_store valid_map_result split: sum.splits option.splits)
next
  case (Rename_point m i' name)
  show ?thesis using grown_put
    by (simp add: Rename_point store_handle_def rename_point_def run_store split: sum.splits option.splits)
next
  case (Remove_point running m j)
  then show ?thesis using assms grown_remove by (simp add: store_handle_def)
qed (simp_all add: store_handle_def grown_same same_points_other)

lemma grown_events:
  assumes "\<forall>x\<in>set es. \<not> removes i (fst x)"
  shows "grown i st (run_events (store_handle db cosf sinf) es st)"
  using assms
proof (induction es rule: rev_induct)
  case (snoc x es)
  obtain ev u where x: "x = (ev, u)" by (cases x)
  let ?s = "run_events (store_handle db cosf sinf) es st"
  have "grown i st ?s" "grown i ?s (store_handle db cosf sinf ev u ?s)" using snoc grown_event x by auto
  then show ?case by (simp add: x grown_def)
qed simp

text \<open>C33. No update of a point is lost: once a write that saw some revision has been accepted, another write of the same
  point that saw the same revision is refused and changes nothing, after any further history that does not remove the
  point.\<close>
theorem no_lost_update:
  assumes "put_point db q seen st = (Inr (), st1)" "mp_id q' = mp_id q"
    and "\<forall>x\<in>set es. \<not> removes (mp_id q) (fst x)"
    and "st2 = run_events (store_handle db' cosf sinf) es st1"
  shows "fst (put_point db'' q' seen st2) \<noteq> Inr () \<and> so_points (snd (put_point db'' q' seen st2)) = so_points st2"
proof -
  have "revision_of (mp_id q) (so_points st1) = seen + 1"
    using assms(1) by (auto simp: put_point_def run_store Let_def table_put_def revision_of_def update_conv'
      split: sum.splits if_splits)
  then have "revision_of (mp_id q') (so_points st2) \<noteq> seen"
    using grown_events [OF assms(3), of st1 db' cosf sinf] assms(2) by (simp add: assms(4) grown_def)
  then show ?thesis by (simp add: put_point_def run_store Let_def table_put_def split: sum.splits)
qed

subsection \<open>Removing a point\<close>

definition well_keyed :: "kept_task table \<Rightarrow> bool" where
  "well_keyed t \<longleftrightarrow> distinct (map fst t) \<and> (\<forall>(k, r, v)\<in>set t. it_id (kt_task v) = k)"

definition without_point :: "page_map \<Rightarrow> string \<Rightarrow> kept_task \<Rightarrow> kept_task option" where
  "without_point m i t =
     (if it_map_id (kt_task t) \<noteq> pm_id m \<or> i \<notin> set (it_points (kt_task t)) then Some t
      else if filter (\<lambda>j. j \<noteq> i) (it_points (kt_task t)) = [] then None
      else Some (t\<lparr>kt_task := (kt_task t)\<lparr>it_points := filter (\<lambda>j. j \<noteq> i) (it_points (kt_task t))\<rparr>\<rparr>))"

lemma table_put_done: "table_put ok i v e t = (Inr (), t') \<Longrightarrow> kept_value k t' = (if k = i then Some v else kept_value k t)"
  by (auto simp: table_put_def kept_value_def update_conv' split: if_splits)

lemma table_erase_done: "table_erase ok i t = (Inr (), t') \<Longrightarrow> kept_value k t' = (if k = i then None else kept_value k t)"
  by (auto simp: table_erase_def kept_value_def delete_conv' split: if_splits)

lemma put_task_done:
  assumes "put_task db t e st = (Inr (), st')"
  shows "kept_value k (so_tasks st') = (if k = it_id (kt_task t) then Some t else kept_value k (so_tasks st))"
proof -
  obtain t' where "table_put (db (so_writes st)) (it_id (kt_task t)) t e (so_tasks st) = (Inr (), t')" "so_tasks st' = t'"
    using assms by (cases "table_put (db (so_writes st)) (it_id (kt_task t)) t e (so_tasks st)")
      (auto simp: put_task_def run_store Let_def split: sum.splits)
  then show ?thesis using table_put_done by metis
qed

lemma erase_task_done:
  assumes "erase_task db i st = (Inr (), st')"
  shows "kept_value k (so_tasks st') = (if k = i then None else kept_value k (so_tasks st))"
proof -
  obtain t' where "table_erase (db (so_writes st)) i (so_tasks st) = (Inr (), t')" "so_tasks st' = t'"
    using assms by (cases "table_erase (db (so_writes st)) i (so_tasks st)")
      (auto simp: erase_task_def run_store Let_def split: sum.splits)
  then show ?thesis using table_erase_done by metis
qed

lemma forget_done:
  assumes "forget_point db m i l st = (Inr (), st')" "distinct (map fst l)" "\<forall>(k, r, v)\<in>set l. it_id (kt_task v) = k"
    and "\<forall>(k, r, v)\<in>set l. kept_value k (so_tasks st) = Some v"
  shows "kept_value k (so_tasks st') = (case map_of l k of None \<Rightarrow> kept_value k (so_tasks st)
      | Some (r, t) \<Rightarrow> without_point m i t)"
  using assms
proof (induction l arbitrary: st)
  case (Cons x l)
  obtain k' r t where x: "x = (k', r, t)" by (cases x) auto
  have id: "it_id (kt_task t) = k'" and old: "kept_value k' (so_tasks st) = Some t"
    and rest: "distinct (map fst l)" "\<forall>(k, r, v)\<in>set l. it_id (kt_task v) = k"
    and new: "map_of l k' = None" "\<forall>(k, r, v)\<in>set l. k \<noteq> k'" using Cons.prems x by (auto simp: map_of_eq_None_iff image_iff)
  show ?case
  proof (cases "it_map_id (kt_task t) \<noteq> pm_id m \<or> i \<notin> set (it_points (kt_task t))")
    case True
    then have "forget_point db m i l st = (Inr (), st')" "without_point m i t = Some t"
      using Cons.prems(1) by (auto simp: x without_point_def)
    then show ?thesis using Cons.IH rest new old Cons.prems(4) by (auto simp: x)
  next
    case False
    let ?ids = "filter (\<lambda>j. j \<noteq> i) (it_points (kt_task t))"
    let ?t = "t\<lparr>kt_task := (kt_task t)\<lparr>it_points := ?ids\<rparr>\<rparr>"
    let ?act = "if ?ids = [] then erase_task db k' else put_task db ?t r"
    have go: "then_store ?act (\<lambda>_. forget_point db m i l) st = (Inr (), st')"
      using Cons.prems(1) by (simp only: x forget_point.simps id Let_def False if_False)
    obtain s where s: "?act st = (Inr (), s)" "forget_point db m i l s = (Inr (), st')"
      using then_done [OF go] by metis
    have v: "kept_value j (so_tasks s) = (if j = k' then without_point m i t else kept_value j (so_tasks st))" for j
    proof (cases "?ids = []")
      case True
      then have "erase_task db k' st = (Inr (), s)" using s(1) by simp
      then show ?thesis using erase_task_done False True by (simp add: without_point_def)
    next
      case ids: False
      then have "put_task db ?t r st = (Inr (), s)" using s(1) by simp
      then show ?thesis using put_task_done [of db ?t r st s j] False ids id by (simp add: without_point_def)
    qed
    have "\<forall>(k, r, v)\<in>set l. kept_value k (so_tasks s) = Some v"
      using Cons.prems(4) new(2) v by (auto simp: x)
    then show ?thesis using Cons.IH [OF s(2) rest] v new(1)
      by (cases "k = k'") (auto simp: x split: option.splits)
  qed
qed simp

lemma keyed_put: "well_keyed t \<Longrightarrow> it_id (kt_task v) = i \<Longrightarrow> well_keyed (snd (table_put ok i v e t))"
proof -
  assume w: "well_keyed t" "it_id (kt_task v) = i"
  have "set (AList.update i (r, v) t) \<subseteq> insert (i, r, v) (set t)" for r
    by (induction t) auto
  moreover have "distinct (map fst (AList.update i (r, v) t))" for r
    using w(1) distinct_update by (auto simp: well_keyed_def)
  ultimately show ?thesis using w by (fastforce simp: table_put_def well_keyed_def)
qed

lemma keyed_erase: "well_keyed t \<Longrightarrow> well_keyed (snd (table_erase ok i t))"
  by (auto simp: table_erase_def well_keyed_def AList.delete_eq distinct_map_filter)

definition keyed :: "store \<Rightarrow> bool" where
  "keyed st \<longleftrightarrow> well_keyed (so_tasks st)"

lemma keyed_ops [simp]:
  "keyed st \<Longrightarrow> keyed (snd (put_task db t e st))"
  "keyed st \<Longrightarrow> keyed (snd (erase_task db i st))"
  "keyed st \<Longrightarrow> keyed (snd (put_point db q e st))"
  "keyed st \<Longrightarrow> keyed (snd (erase_point db i st))"
  "keyed st \<Longrightarrow> keyed (snd (put_run db i r e st))"
  "keyed st \<Longrightarrow> keyed (snd (put_setting db i v e st))"
  by (simp_all add: keyed_def put_task_def erase_task_def put_point_def erase_point_def put_run_def put_setting_def run_store
    Let_def keyed_put keyed_erase split: sum.splits)

lemma keyed_then [simp]:
  assumes "keyed (snd (m s))" "\<And>a s. keyed s \<Longrightarrow> keyed (snd (f a s))"
  shows "keyed (snd (then_store m f s))"
  using assms by (cases "m s") (auto simp: then_store_def split: sum.splits)

lemma keyed_pure [simp]: "keyed st \<Longrightarrow> keyed (snd (checked r st))" "keyed st \<Longrightarrow> keyed (snd (assure b err st))"
  by (simp_all add: checked_def assure_def)

lemma keyed_forget [simp]: "keyed st \<Longrightarrow> keyed (snd (forget_point db m i l st))"
  by (induction l arbitrary: st) (auto simp: Let_def)

lemma keyed_interrupt [simp]: "keyed st \<Longrightarrow> keyed (snd (interrupt_runs db l st))"
  by (induction l arbitrary: st) auto

lemma keyed_event: "keyed st \<Longrightarrow> keyed (store_handle db cosf sinf ev u st)"
proof (cases ev)
  case (Take_upload b)
  then show "keyed st \<Longrightarrow> ?thesis" by (simp add: store_handle_def take_upload_def keyed_def)
next
  case (Upload_answer http reply)
  then show "keyed st \<Longrightarrow> ?thesis"
    by (simp add: store_handle_def upload_answered_def finish_upload_def run_store Let_def keyed_def split: option.splits prod.splits sum.splits)
next
  case (Queue_photo i sha path b)
  then show "keyed st \<Longrightarrow> ?thesis"
    by (simp add: store_handle_def enqueue_upload_def run_store Let_def keyed_def split: sum.splits)
next
  case Reopen
  have "keyed st \<Longrightarrow> keyed (st\<lparr>so_sending := None\<rparr>)" by (simp add: keyed_def)
  then show "keyed st \<Longrightarrow> ?thesis" by (simp add: Reopen store_handle_def reopen_def)
qed (simp_all add: store_handle_def save_point_def confirm_point_def confirm_approach_def confirm_view_def rename_point_def
  remove_point_def forget_in_tasks_def save_task_def Let_def valid_map_keeps split: option.splits)

lemma ordered_facts: "set (ordered t) = set t" "distinct (map fst t) \<Longrightarrow> distinct (map fst (ordered t))"
proof -
  show "set (ordered t) = set t" by (simp add: ordered_def)
  show "distinct (map fst t) \<Longrightarrow> distinct (map fst (ordered t))" by (simp add: distinct_map ordered_def)
qed

lemma store_keyed: "keyed (run_events (store_handle db cosf sinf) es store_empty)"
proof (induction es rule: rev_induct)
  case (snoc x es)
  then show ?case by (cases x) (simp add: keyed_event)
qed (simp add: keyed_def store_empty_def well_keyed_def)

text \<open>C34. Removing a point, when it succeeds, leaves no reference to it in the tasks of its map: the point is gone, no run is under
  way, and each task of the map has lost exactly this point, in order, or is gone if it had no other; every other task is
  unchanged.\<close>
theorem removed_point_forgotten:
  assumes "st = run_events (store_handle db cosf sinf) es store_empty"
    and "remove_point db' running m i st = (Inr (), st')"
  shows "\<not> running \<and> known_point i st' = None \<and>
    kept_value k (so_tasks st') = (case kept_value k (so_tasks st) of None \<Rightarrow> None | Some t \<Rightarrow> without_point m i t)"
proof -
  have w: "well_keyed (so_tasks st)" using store_keyed by (simp add: assms(1) keyed_def)
  let ?l = "ordered (so_tasks st)"
  obtain q where q: "known_point i st = Some q" "mp_map_id q = pm_id m" "\<not> running"
    and go: "then_store (forget_in_tasks db' m i) (\<lambda>_. erase_point db' i) st = (Inr (), st')"
    using assms(2) by (auto simp: remove_point_def run_store split: sum.splits option.splits if_splits)
  obtain s where s: "forget_point db' m i ?l st = (Inr (), s)" "erase_point db' i s = (Inr (), st')"
    using then_done [OF go] unfolding forget_in_tasks_def by metis
  have d: "distinct (map fst ?l)" using w by (intro ordered_facts(2)) (simp add: well_keyed_def)
  have ids: "\<forall>(k, r, v)\<in>set ?l. it_id (kt_task v) = k" using w unfolding ordered_facts(1) well_keyed_def by (rule conjunct2)
  have same: "map_of ?l = map_of (so_tasks st)"
    using w d by (simp add: map_of_inject_set ordered_facts(1) well_keyed_def)
  have "\<forall>(k, r, v)\<in>set ?l. kept_value k (so_tasks st) = Some v"
    using d by (auto simp: kept_value_def same [symmetric])
  from forget_done [OF s(1) d ids this, of k]
  have t: "kept_value k (so_tasks s) = (case kept_value k (so_tasks st) of None \<Rightarrow> None | Some t \<Rightarrow> without_point m i t)"
    by (auto simp: kept_value_def same split: option.splits)
  have e: "so_tasks st' = so_tasks s" "map_of (so_points st') i = None"
    using s(2) by (auto simp: erase_point_def run_store Let_def table_erase_def delete_conv' split: sum.splits if_splits)
  show ?thesis using q(3) t e by (simp add: known_point_def kept_value_def)
qed

subsection \<open>Uploads\<close>

definition sent_item :: "store \<Rightarrow> bool" where
  "sent_item st \<longleftrightarrow> (\<forall>i sha. so_sending st = Some (i, sha) \<longrightarrow> (\<exists>u. map_of (so_uploads st) i = Some u \<and> up_sha u = sha))"

definition echoed :: "(store_event \<times> unit) list \<Rightarrow> store \<Rightarrow> bool" where
  "echoed es st \<longleftrightarrow> sent_item st \<and> (\<forall>i u. map_of (so_uploads st) i = Some u \<longrightarrow> up_status u = Upload_confirmed \<longrightarrow>
     (Upload_answer 200 (Some (Some i, Some (up_sha u))), ()) \<in> set es)"

lemma echoed_snoc: "echoed es st \<Longrightarrow> echoed (es @ [x]) st"
  by (auto simp: echoed_def)

definition same_uploads :: "store \<Rightarrow> store \<Rightarrow> bool" where
  "same_uploads st st' \<longleftrightarrow> so_uploads st' = so_uploads st \<and> so_sending st' = so_sending st"

lemma same_uploads_then [simp]:
  assumes "same_uploads st (snd (m s))" "\<And>a s. same_uploads st s \<Longrightarrow> same_uploads st (snd (f a s))"
  shows "same_uploads st (snd (then_store m f s))"
  using assms by (cases "m s") (auto simp: then_store_def split: sum.splits)

lemma same_uploads_ops [simp]:
  "same_uploads st st"
  "same_uploads st s \<Longrightarrow> same_uploads st (snd (put_task db t e s))"
  "same_uploads st s \<Longrightarrow> same_uploads st (snd (erase_task db i s))"
  "same_uploads st s \<Longrightarrow> same_uploads st (snd (put_point db q e s))"
  "same_uploads st s \<Longrightarrow> same_uploads st (snd (erase_point db i s))"
  "same_uploads st s \<Longrightarrow> same_uploads st (snd (put_run db i r e s))"
  "same_uploads st s \<Longrightarrow> same_uploads st (snd (put_setting db i v e s))"
  "same_uploads st s \<Longrightarrow> same_uploads st (snd (checked x s))"
  "same_uploads st s \<Longrightarrow> same_uploads st (snd (assure b err s))"
  by (simp_all add: same_uploads_def put_task_def erase_task_def put_point_def erase_point_def put_run_def put_setting_def
    run_store Let_def checked_def assure_def split: sum.splits)

lemma same_uploads_loops [simp]:
  "same_uploads st s \<Longrightarrow> same_uploads st (snd (forget_point db m i l s))"
  "same_uploads st s \<Longrightarrow> same_uploads st (snd (interrupt_runs db l' s))"
proof -
  show "same_uploads st s \<Longrightarrow> same_uploads st (snd (forget_point db m i l s))"
    by (induction l arbitrary: s) (auto simp: Let_def)
  show "same_uploads st s \<Longrightarrow> same_uploads st (snd (interrupt_runs db l' s))"
    by (induction l' arbitrary: s) auto
qed

fun uploads_event :: "store_event \<Rightarrow> bool" where
  "uploads_event (Queue_photo i sha path b) \<longleftrightarrow> True"
| "uploads_event (Take_upload b) \<longleftrightarrow> True"
| "uploads_event (Upload_answer http reply) \<longleftrightarrow> True"
| "uploads_event Reopen \<longleftrightarrow> True"
| "uploads_event ev \<longleftrightarrow> False"

lemma same_uploads_event: "\<not> uploads_event ev \<Longrightarrow> same_uploads st (store_handle db cosf sinf ev u st)"
  by (cases ev) (simp_all add: store_handle_def save_point_def confirm_point_def confirm_approach_def confirm_view_def
    rename_point_def remove_point_def forget_in_tasks_def save_task_def Let_def valid_map_keeps split: option.splits)

lemma next_upload_kept: "next_upload st = Some (i, u) \<Longrightarrow> (i, u) \<in> set (so_uploads st)"
  unfolding next_upload_def by (metis find_Some_iff nth_mem ordered_facts(1))

definition one_each :: "store \<Rightarrow> bool" where
  "one_each st \<longleftrightarrow> distinct (map fst (so_uploads st))"

lemma echoed_event:
  assumes "echoed es st" "one_each st"
  shows "echoed (es @ [(ev, ())]) (store_handle db cosf sinf ev () st) \<and> one_each (store_handle db cosf sinf ev () st)"
proof (cases "uploads_event ev")
  case False
  then show ?thesis using same_uploads_event [of ev st db cosf sinf "()"] echoed_snoc [OF assms(1), of "(ev, ())"] assms(2)
    by (simp add: same_uploads_def echoed_def sent_item_def one_each_def)
next
  case True
  note old = echoed_snoc [OF assms(1), of "(ev, ())"]
  show ?thesis
  proof (cases ev)
    case (Queue_photo i sha path b)
    have "echoed (es @ [(ev, ())]) (snd (enqueue_upload db i sha path b st))" using old
      by (auto simp: enqueue_upload_def run_store Let_def echoed_def sent_item_def update_conv' split: sum.splits)
    moreover have "one_each (snd (enqueue_upload db i sha path b st))" using assms(2)
      by (simp add: enqueue_upload_def run_store Let_def one_each_def distinct_update split: sum.splits)
    ultimately show ?thesis by (simp add: Queue_photo store_handle_def)
  next
    case (Take_upload b)
    have "map_of (so_uploads st) i = Some u" if "next_upload st = Some (i, u)" for i u
      using next_upload_kept [OF that] assms(2) by (simp add: one_each_def)
    then show ?thesis using old assms(2) unfolding Take_upload
      by (auto simp: store_handle_def take_upload_def echoed_def sent_item_def one_each_def)
  next
    case (Upload_answer http reply)
    show ?thesis
    proof (cases "so_sending st")
      case None
      then show ?thesis using old assms(2) unfolding Upload_answer by (simp add: store_handle_def upload_answered_def)
    next
      case (Some x)
      obtain i sha where x: "x = (i, sha)" by (cases x)
      obtain u where u: "map_of (so_uploads st) i = Some u" "up_sha u = sha"
        using assms(1) Some x by (auto simp: echoed_def sent_item_def)
      have c: "interpret_upload i sha http reply = Some Upload_confirmed \<longleftrightarrow> http = 200 \<and> reply = Some (Some i, Some sha)"
        by (auto simp: interpret_upload_def split: option.splits)
      have "echoed (es @ [(ev, ())]) (upload_answered db http reply st)" using old u c unfolding Upload_answer
        by (auto simp: upload_answered_def Some x finish_upload_def run_store Let_def echoed_def sent_item_def
          update_conv' split: sum.splits if_splits option.splits)
      moreover have "one_each (upload_answered db http reply st)" using assms(2) u(1)
        by (simp add: upload_answered_def Some x finish_upload_def run_store Let_def one_each_def distinct_update
          split: sum.splits option.splits)
      ultimately show ?thesis by (simp add: Upload_answer store_handle_def)
    qed
  next
    case Reopen
    have "same_uploads (st\<lparr>so_sending := None\<rparr>) (snd (reopen db st))" by (simp add: reopen_def)
    then show ?thesis using old assms(2) unfolding Reopen
      by (simp add: store_handle_def same_uploads_def echoed_def sent_item_def one_each_def)
  qed (use True in simp_all)
qed

lemma store_echoed:
  "echoed es (run_events (store_handle db cosf sinf) es store_empty) \<and> one_each (run_events (store_handle db cosf sinf) es store_empty)"
proof (induction es rule: rev_induct)
  case (snoc x es)
  obtain ev where x: "x = (ev, ())" by (cases x) simp
  show ?case unfolding x run_events_snoc using echoed_event snoc by blast
qed (simp add: echoed_def sent_item_def store_empty_def one_each_def)

text \<open>C35. After any history a photo counts as confirmed only if the server answered 200 and echoed its identifier and the
  checksum recorded when it was taken, even when other photos were queued while it was being sent.\<close>
theorem upload_confirmed_echoed:
  assumes "st = run_events (store_handle db cosf sinf) es store_empty"
    and "map_of (so_uploads st) i = Some u" "up_status u = Upload_confirmed"
  shows "(Upload_answer 200 (Some (Some i, Some (up_sha u))), ()) \<in> set es"
  using store_echoed [of es db cosf sinf] assms by (simp add: echoed_def)

subsection \<open>A store in use\<close>

definition demo_page :: page_map where
  "demo_page = \<lparr>pm_id = ''m'', pm_version = ''m'', pm_planning = False,
     pm_grid = \<lparr>lm_x = Fin 0, lm_y = Fin 0, lm_yaw = Fin 0, lm_resolution = Fin 1, lm_width = 1, lm_height = 1, lm_data = [0]\<rparr>\<rparr>"

definition demo_round :: inspection_task where
  "demo_round = \<lparr>it_id = ''t'', it_map_id = [], it_name = ''round'', it_points = [''a''], it_parking = demo_place\<rparr>"

definition demo_writes :: "(store_event \<times> unit) list" where
  "demo_writes = [(Confirm_point demo_page ''a'' ''door'' demo_place (Fin 90) 60 ''photo'' 0, ()),
     (Save_task demo_page demo_round 0, ())]"

text \<open>A map without rotation: its cosine is 1, its sine 0.\<close>

definition demo_kept :: "(store_event \<times> unit) list \<Rightarrow> store" where
  "demo_kept es = run_events (store_handle (\<lambda>_. True) (\<lambda>_. Fin 1) (\<lambda>_. Fin 0)) es store_empty"

definition demo_taught :: mission_point where
  "demo_taught = \<lparr>mp_id = ''a'', mp_map_id = ''m'', mp_name = ''door'', mp_map_version = ''m'', mp_views = False,
     mp_pose = demo_place, mp_target = Fin 90, mp_board = 60, mp_verified = True, mp_reference = None,
     mp_approaches = Some [taught_approach demo_place (Fin 90) 60 ''photo'']\<rparr>"

definition demo_start :: console where
  "demo_start = demo_ready\<lparr>cn_view := Some ([], True),
     cn_watch := (cn_watch demo_ready)\<lparr>wt_frames := [\<lparr>fr_sequence = 1, fr_received = Fin 1, fr_stamp = 0\<rparr>]\<rparr>\<rparr>"

lemma demo_run_start:
  "fst (run_start_command demo_console_params demo_env ''r'' ''t'' None True (run_inputs ''t'' (demo_kept demo_writes)) demo_start) = Inr ()"
  "ms_points (ex_snapshot (cn_executor (snd (run_start_command demo_console_params demo_env ''r'' ''t'' None True
     (run_inputs ''t'' (demo_kept demo_writes)) demo_start)))) = [demo_taught]"
  by (code_simp, code_simp)

theorem missions_only_taught_witness:
  "mp_map_version demo_taught = cn_map_version demo_start \<and> (\<exists>l. mp_approaches demo_taught = Some l \<and> 1 \<le> length l \<and> length l \<le> 3) \<and>
   (\<exists>m t rev. (Save_task m t rev, ()) \<in> set demo_writes \<and> pm_version m = cn_map_version demo_start \<and> ''a'' \<in> set (it_points t) \<and>
     fst (valid_map_pose (\<lambda>_. Fin 1) (\<lambda>_. Fin 0) m (it_parking t) store_empty) = Inr ())"
proof -
  let ?r = "run_start_command demo_console_params demo_env ''r'' ''t'' None True (run_inputs ''t'' (demo_kept demo_writes)) demo_start"
  have r: "?r = (Inr (), snd ?r)" using demo_run_start(1) by (metis prod.collapse)
  have q: "demo_taught \<in> set (ms_points (ex_snapshot (cn_executor (snd ?r))))" by (simp add: demo_run_start(2))
  show ?thesis using missions_only_taught [OF demo_kept_def r q] by (auto simp: demo_taught_def)
qed

lemma demo_put: "fst (put_point (\<lambda>_. True) demo_taught 0 store_empty) = Inr ()"
  by code_simp

theorem no_lost_update_witness:
  "fst (put_point (\<lambda>_. True) demo_taught 0 (run_events (store_handle (\<lambda>_. True) (\<lambda>_. Fin 1) (\<lambda>_. Fin 0))
     [(Rename_point demo_page ''a'' ''gate'', ())] (snd (put_point (\<lambda>_. True) demo_taught 0 store_empty)))) \<noteq> Inr ()"
proof -
  have "put_point (\<lambda>_. True) demo_taught 0 store_empty = (Inr (), snd (put_point (\<lambda>_. True) demo_taught 0 store_empty))"
    using demo_put by (metis prod.collapse)
  moreover have "\<forall>x\<in>set [(Rename_point demo_page ''a'' ''gate'', ())]. \<not> removes (mp_id demo_taught) (fst x)" by simp
  ultimately show ?thesis using no_lost_update [OF _ refl _ refl] by blast
qed

lemma demo_removed: "fst (remove_point (\<lambda>_. True) False demo_page ''a'' (demo_kept demo_writes)) = Inr ()"
  by code_simp

theorem removed_point_forgotten_witness:
  "known_point ''a'' (snd (remove_point (\<lambda>_. True) False demo_page ''a'' (demo_kept demo_writes))) = None"
proof -
  have "remove_point (\<lambda>_. True) False demo_page ''a'' (demo_kept demo_writes) =
      (Inr (), snd (remove_point (\<lambda>_. True) False demo_page ''a'' (demo_kept demo_writes)))"
    using demo_removed by (metis prod.collapse)
  from removed_point_forgotten [OF demo_kept_def this] show ?thesis by blast
qed

definition demo_sum :: string where
  "demo_sum = replicate 64 CHR ''0''"

definition demo_photos :: "(store_event \<times> unit) list" where
  "demo_photos = [(Queue_photo ''p'' demo_sum ''/media/p.jpg'' True, ()), (Take_upload True, ()),
     (Upload_answer 200 (Some (Some ''p'', Some demo_sum)), ())]"

lemma demo_uploaded: "map_of (so_uploads (demo_kept demo_photos)) ''p'' =
    Some \<lparr>up_sha = demo_sum, up_path = ''/media/p.jpg'', up_status = Upload_confirmed, up_attempts = 1\<rparr>"
  by code_simp

theorem upload_confirmed_echoed_witness: "(Upload_answer 200 (Some (Some ''p'', Some demo_sum)), ()) \<in> set demo_photos"
  using upload_confirmed_echoed [OF demo_kept_def demo_uploaded] by simp

text \<open>A point drawn with parking places of its own is checked against the map only at its outer pose, which the first of
  the places then replaces.\<close>

lemma unchecked_approach:
  "fst (save_point (\<lambda>_. True) (\<lambda>_. Fin 1) (\<lambda>_. Fin 0) demo_page True (demo_taught\<lparr>mp_approaches :=
     Some [taught_approach \<lparr>po_x = Fin 50, po_y = Fin 0, po_yaw = Fin 0\<rparr> (Fin 90) 60 ''photo'']\<rparr>) 0 store_empty) = Inr ()"
  "fst (valid_map_pose (\<lambda>_. Fin 1) (\<lambda>_. Fin 0) demo_page \<lparr>po_x = Fin 50, po_y = Fin 0, po_yaw = Fin 0\<rparr> store_empty) =
     Inl Occupied_goal"
  by (code_simp, code_simp)

end
