(* ===== verification/Mapping_Gateway.thy ===== *)
theory Mapping_Gateway
  imports Prelude Teleop_Safety
begin

text \<open>
  The gateway of the mapping console, \<open>web_gateway.cpp\<close>: which scans reach the SLAM process, the phases of a new and of a
  resumed map, saving a map, and starting, restarting and ending a mapping task. Callbacks, requests of the page and the
  job thread share the state under one lock; every locked section is one event here, so that a job is a sequence of
  steps (\<open>gw_job\<close>) between which anything else may happen. The server handles one request at a time, and a
  request that waits for the previous job holds it up: its own job is \<open>gw_next\<close>, and no other request is handled
  meanwhile. Outside the repository, and arguments: clocks, the files and processes (\<open>je_ok\<close>), \<open>std::cos\<close>, \<open>std::sin\<close>,
  \<open>std::remainder\<close>, \<open>std::atan2\<close>, the SLAM services, and whether the inspection reports a run. Maps are numbers, and so are their pictures.
\<close>

subsection \<open>State\<close>

datatype gw_mode = Mode_new | Mode_resume | Mode_standby

datatype gw_phase = Phase_standby | Phase_waiting | Phase_reference | Phase_loading | Phase_trial | Phase_candidate
  | Phase_current | Phase_saving | Phase_stopping | Phase_failed

datatype gw_task = Task_standby | Task_starting | Task_running | Task_stopping | Task_fault

record slam_pose =
  mq_x :: dbl
  mq_y :: dbl
  mq_yaw :: dbl

record rotation =
  ro_x :: dbl
  ro_y :: dbl
  ro_z :: dbl
  ro_w :: dbl

text \<open>What is read of a map message, but for its cells.\<close>

record grid_info =
  gi_map_frame :: bool
  gi_width :: nat
  gi_height :: nat
  gi_resolution :: dbl
  gi_x :: dbl
  gi_y :: dbl
  gi_rotation :: rotation
  gi_cells :: nat

record old_map =
  om_x :: dbl
  om_y :: dbl
  om_yaw :: dbl
  om_resolution :: dbl
  om_width :: nat
  om_height :: nat
  om_data :: "int list"

record guard_seen =
  sg_session :: string
  sg_armed :: bool
  sg_x :: dbl
  sg_yaw :: dbl

text \<open>What a job does after the robot has been seen standing.\<close>

datatype stop_goal = Goal_save bool | Goal_resume

datatype save_step = Make_directory | First_manifest | Save_grid | Grid_manifest | Save_graph | Check_files | Read_parameters
  | Complete_manifest | Validate_bundle

datatype gw_job = Job_begin stop_goal | Job_wait stop_goal dbl dbl | Job_check bool | Job_map bool dbl nat
  | Job_write bool string "save_step list" | Job_saved bool string | Job_spoil bool string
  | Job_restore | Job_restored
  | Job_start gw_mode string | Job_clear gw_mode string "old_map option" | Job_spawn gw_mode string | Job_open gw_mode
  | Job_close | Job_closed | Job_video bool | Job_filmed bool

datatype gw_output = Relay time_ns | Guard_request string string | Ready bool | Start_backend gw_mode string | Stop_backend
  | Saved string

record gw_params =
  gp_managed :: bool
  gp_hardware :: bool
  gp_candidate_slam :: bool

record gateway =
  gw_mode :: gw_mode
  gw_bundle :: string
  gw_phase :: gw_phase
  gw_task :: gw_task
  gw_controller :: string
  gw_guard :: guard_seen
  gw_backend_started :: bool
  gw_accepting :: bool
  gw_forward :: bool
  gw_one_scan :: bool
  gw_have_pose :: bool
  gw_dirty :: bool
  gw_save_failed :: bool
  gw_video :: bool
  gw_busy :: bool
  gw_expected :: time_ns
  gw_restore_ros :: time_ns
  gw_scan_at :: dbl
  gw_map_at :: dbl
  gw_odom_at :: dbl
  gw_control_at :: dbl
  gw_start_at :: dbl
  gw_trial_at :: dbl
  gw_map :: "nat option"
  gw_map_pending :: "nat option"
  gw_encoding :: "nat option"
  gw_encoded :: "nat option"
  gw_reference :: "old_map option"
  gw_odom :: "(dbl \<times> dbl) option"
  gw_hint :: slam_pose
  gw_candidate :: slam_pose
  gw_operation :: nat
  gw_completed :: nat
  gw_last_saved :: string
  gw_disk :: "(string \<times> bool) list"
  gw_job :: "gw_job option"
  gw_next :: "gw_job option"
  gw_out :: "gw_output list"

definition gw_never :: dbl where
  "gw_never = Fin (- 1000000000)"

definition no_guard :: guard_seen where
  "no_guard = \<lparr>sg_session = [], sg_armed = True, sg_x = Fin 1, sg_yaw = Fin 1\<rparr>"

definition no_pose :: slam_pose where
  "no_pose = \<lparr>mq_x = Fin 0, mq_y = Fin 0, mq_yaw = Fin 0\<rparr>"

text \<open>A resumed map is read before the node runs; the standing service starts with none.\<close>

definition gateway_init :: "gw_mode \<Rightarrow> string \<Rightarrow> old_map option \<Rightarrow> dbl \<Rightarrow> gateway" where
  "gateway_init mode bundle reference now = \<lparr>gw_mode = mode, gw_bundle = bundle,
     gw_phase = (if mode = Mode_resume then Phase_reference else if mode = Mode_standby then Phase_standby else Phase_waiting),
     gw_task = Task_standby, gw_controller = [], gw_guard = no_guard, gw_backend_started = False,
     gw_accepting = (mode \<noteq> Mode_standby), gw_forward = (mode = Mode_new), gw_one_scan = False, gw_have_pose = False,
     gw_dirty = False, gw_save_failed = False, gw_video = False, gw_busy = False, gw_expected = 0, gw_restore_ros = 0,
     gw_scan_at = gw_never, gw_map_at = gw_never, gw_odom_at = gw_never, gw_control_at = gw_never,
     gw_start_at = now, gw_trial_at = Fin 0, gw_map = None, gw_map_pending = None, gw_encoding = None, gw_encoded = None,
     gw_reference = (if mode = Mode_resume then reference else None), gw_odom = None, gw_hint = no_pose, gw_candidate = no_pose,
     gw_operation = 0, gw_completed = 0, gw_last_saved = [], gw_disk = [], gw_job = None, gw_next = None, gw_out = []\<rparr>"

definition gw_emit :: "gw_output \<Rightarrow> gateway \<Rightarrow> gateway" where
  "gw_emit out s = s\<lparr>gw_out := gw_out s @ [out]\<rparr>"

subsection \<open>Subscriptions\<close>

definition timely :: "time_ns \<Rightarrow> time_ns \<Rightarrow> bool" where
  "timely ros stamp \<longleftrightarrow> fl (- 0.1) \<le> secs (ros - stamp) \<and> secs (ros - stamp) \<le> fl 0.5"

record gw_libm =
  gl_cos :: "dbl \<Rightarrow> dbl"
  gl_sin :: "dbl \<Rightarrow> dbl"
  gl_wrap :: "dbl \<Rightarrow> dbl"
  gl_atan2 :: "dbl \<Rightarrow> dbl \<Rightarrow> dbl"

definition valid_rotation :: "rotation \<Rightarrow> bool" where
  "valid_rotation q \<longleftrightarrow>
     (let norm = ro_x q * ro_x q + ro_y q * ro_y q + ro_z q * ro_z q + ro_w q * ro_w q
      in isfinite norm \<and> Fin (1 / 2) < norm \<and> norm < Fin (3 / 2))"

definition gw_yaw :: "gw_libm \<Rightarrow> rotation \<Rightarrow> dbl" where
  "gw_yaw lib q = gl_atan2 lib (Fin 2 * (ro_w q * ro_z q + ro_x q * ro_y q))
     (Fin 1 - Fin 2 * (ro_y q * ro_y q + ro_z q * ro_z q))"

definition seen_pose :: "gw_libm \<Rightarrow> dbl \<Rightarrow> dbl \<Rightarrow> rotation \<Rightarrow> slam_pose" where
  "seen_pose lib x y q = \<lparr>mq_x = x, mq_y = y, mq_yaw = gw_yaw lib q\<rparr>"

definition valid_map :: "grid_info \<Rightarrow> bool" where
  "valid_map m \<longleftrightarrow> gi_map_frame m \<and> gi_width m \<noteq> 0 \<and> gi_height m \<noteq> 0 \<and> Fin 0 < gi_resolution m \<and>
     isfinite (gi_resolution m) \<and> isfinite (gi_x m) \<and> isfinite (gi_y m) \<and> valid_rotation (gi_rotation m) \<and>
     gi_width m * gi_height m = gi_cells m \<and> gi_cells m \<le> 100000000"

definition gw_scan :: "time_ns \<Rightarrow> time_ns \<Rightarrow> bool \<Rightarrow> dbl \<Rightarrow> gateway \<Rightarrow> gateway" where
  "gw_scan ros stamp nonempty now s =
     (if \<not> timely ros stamp \<or> \<not> nonempty \<or> \<not> gw_accepting s then s
      else let s = s\<lparr>gw_scan_at := now\<rparr> in
        if gw_one_scan s then gw_emit (Relay stamp) (s\<lparr>gw_expected := stamp, gw_one_scan := False\<rparr>)
        else if gw_forward s then gw_emit (Relay stamp) s else s)"

definition gw_new_map :: "bool \<Rightarrow> nat \<Rightarrow> dbl \<Rightarrow> gateway \<Rightarrow> gateway" where
  "gw_new_map valid m now s = (if valid \<and> gw_accepting s
     then s\<lparr>gw_map := Some m, gw_map_at := now, gw_map_pending := Some m\<rparr> else s)"

definition gw_pose :: "bool \<Rightarrow> bool \<Rightarrow> time_ns \<Rightarrow> slam_pose \<Rightarrow> gateway \<Rightarrow> gateway" where
  "gw_pose map_frame finite_pose stamp q s =
     (if \<not> gw_accepting s \<or> \<not> map_frame then s
      else if \<not> finite_pose
      then s\<lparr>gw_phase := Phase_failed, gw_forward := False, gw_one_scan := False, gw_expected := 0\<rparr>
      else let s = (if gw_phase s = Phase_trial \<and> gw_expected s \<noteq> 0 \<and> stamp = gw_expected s
            then s\<lparr>gw_candidate := q, gw_phase := Phase_candidate, gw_expected := 0\<rparr> else s);
          s = (if gw_phase s = Phase_waiting then s\<lparr>gw_have_pose := True\<rparr> else s)
        in if gw_phase s = Phase_current \<and> gw_forward s then s\<lparr>gw_dirty := True\<rparr> else s)"

definition gw_wheel :: "time_ns \<Rightarrow> time_ns \<Rightarrow> dbl \<Rightarrow> dbl \<Rightarrow> dbl \<Rightarrow> gateway \<Rightarrow> gateway" where
  "gw_wheel ros stamp x yaw now s = (if timely ros stamp \<and> gw_accepting s
     then s\<lparr>gw_odom := Some (x, yaw), gw_odom_at := now\<rparr> else s)"

definition gw_guard_state :: "guard_seen \<Rightarrow> dbl \<Rightarrow> gateway \<Rightarrow> gateway" where
  "gw_guard_state g now s = s\<lparr>gw_guard := g, gw_control_at := now\<rparr>"

definition gw_slam_error :: "time_ns \<Rightarrow> gateway \<Rightarrow> gateway" where
  "gw_slam_error stamp s =
     (if gw_phase s \<in> {Phase_loading, Phase_trial, Phase_candidate} \<and> gw_restore_ros s \<le> stamp
      then s\<lparr>gw_phase := Phase_failed, gw_forward := False, gw_one_scan := False\<rparr> else s)"

text \<open>The encoder thread takes the newest map, and keeps its picture only if the map is still the newest.\<close>

definition gw_encode_take :: "gateway \<Rightarrow> gateway" where
  "gw_encode_take s = (if gw_encoding s \<noteq> None then s else s\<lparr>gw_encoding := gw_map_pending s, gw_map_pending := None\<rparr>)"

definition gw_encode_done :: "bool \<Rightarrow> gateway \<Rightarrow> gateway" where
  "gw_encode_done ok s =
     (let t = s\<lparr>gw_encoding := None\<rparr> in
      if ok \<and> gw_encoding s \<noteq> None \<and> gw_encoding s = gw_map s then t\<lparr>gw_encoded := gw_encoding s\<rparr> else t)"

subsection \<open>The timer\<close>

definition gw_task_lost :: "bool \<Rightarrow> dbl \<Rightarrow> gateway \<Rightarrow> bool" where
  "gw_task_lost alive now s \<longleftrightarrow>
     gw_backend_started s \<and> \<not> alive \<or>
     gw_task s = Task_starting \<and> Fin 45 < now - gw_start_at s \<or>
     gw_task s = Task_running \<and> (Fin 2 < now - gw_control_at s \<or> Fin 2 < now - gw_scan_at s \<or> Fin 2 < now - gw_odom_at s \<or>
       gw_phase s = Phase_current \<and> Fin 15 < now - gw_map_at s)"

definition gw_watch_task :: "gw_params \<Rightarrow> bool \<Rightarrow> bool \<Rightarrow> dbl \<Rightarrow> gateway \<Rightarrow> gateway" where
  "gw_watch_task p alive service now s =
     (if \<not> (gp_managed p \<and> (gw_task s = Task_starting \<or> gw_task s = Task_running)) then s
      else let s = (if gw_task_lost alive now s
          then gw_emit (Guard_request ''stop'' (gw_controller s)) (s\<lparr>gw_task := Task_fault, gw_phase := Phase_failed,
            gw_accepting := False, gw_forward := False, gw_one_scan := False, gw_busy := False, gw_completed := gw_operation s\<rparr>)
          else if gw_task s = Task_starting \<and> now - gw_control_at s < fl 0.3 \<and> now - gw_scan_at s < fl 0.5 \<and>
            now - gw_odom_at s < fl 0.5 \<and> service \<and> (gw_phase s = Phase_current \<or> gw_phase s = Phase_reference)
          then s\<lparr>gw_task := Task_running, gw_busy := False, gw_completed := gw_operation s\<rparr>
          else s)
        in if now - gw_control_at s < fl 0.3 \<and> gw_controller s \<noteq> [] \<and> sg_session (gw_guard s) \<noteq> gw_controller s
          then gw_emit (Guard_request ''connect'' (gw_controller s)) s else s)"

definition gw_ready :: "gw_params \<Rightarrow> dbl \<Rightarrow> gateway \<Rightarrow> bool" where
  "gw_ready p now s \<longleftrightarrow> gw_phase s = Phase_current \<and> \<not> gw_busy s \<and> \<not> gw_save_failed s \<and> gw_encoded s \<noteq> None \<and>
     now - gw_map_at s < Fin 10 \<and> (gp_managed p \<longrightarrow> gw_task s = Task_running)"

definition gw_timer :: "gw_params \<Rightarrow> bool \<Rightarrow> bool \<Rightarrow> dbl \<Rightarrow> gateway \<Rightarrow> gateway" where
  "gw_timer p alive service now s =
     (let s = gw_watch_task p alive service now s;
          s = (if gw_phase s = Phase_waiting \<and> gw_have_pose s \<and> gw_map s \<noteq> None \<and> gw_encoded s \<noteq> None
            then s\<lparr>gw_phase := Phase_current\<rparr> else s);
          s = (if gw_phase s = Phase_trial \<and> Fin 6 < now - gw_trial_at s
            then s\<lparr>gw_phase := Phase_failed, gw_one_scan := False\<rparr> else s)
      in gw_emit (Ready (gw_ready p now s)) s)"

subsection \<open>Messages of the page\<close>

definition forwarded :: "string \<Rightarrow> bool" where
  "forwarded action \<longleftrightarrow> action \<in> {''connect'', ''enable'', ''intent'', ''drive'', ''heartbeat'', ''release'', ''stop'', ''gear''}"

definition gw_page_gone :: "string \<Rightarrow> gateway \<Rightarrow> gateway" where
  "gw_page_gone i s = gw_emit (Guard_request ''disconnect'' i)
     (if gw_controller s = i then s\<lparr>gw_controller := []\<rparr> else s)"

text \<open>A message that cannot be parsed stops the robot; the session of a request is always the page's own.\<close>

text \<open>A message is None if it cannot be read as far as its action. Otherwise it has the action, and says whether a field read after
  the action throws (one of the wrong type); every exception becomes a stop.\<close>

definition gw_page_message :: "bool \<Rightarrow> string \<Rightarrow> (string \<times> bool) option \<Rightarrow> gateway \<Rightarrow> gateway" where
  "gw_page_message inspecting i message s = (case message of
       None \<Rightarrow> gw_emit (Guard_request ''stop'' i) s
     | Some (action, throws) \<Rightarrow>
         let s = (if action = ''connect'' then s\<lparr>gw_controller := i\<rparr> else s) in
         if action = ''client_event'' then if throws \<and> gw_controller s = i then gw_emit (Guard_request ''stop'' i) s else s
         else if \<not> forwarded action \<or> action \<in> {''enable'', ''drive'', ''intent''} \<and> inspecting then s
         else if throws \<and> action \<in> {''drive'', ''intent'', ''heartbeat''} then gw_emit (Guard_request ''stop'' i) s
         else gw_emit (Guard_request action i) s)"

subsection \<open>Requests\<close>

datatype gw_request = Post_confirm | Post_save | Post_finish | Post_resume "dbl list" | Post_start gw_mode string
  | Post_restart bool | Post_end bool | Post_video bool

definition free_hint ::
  "(dbl \<Rightarrow> dbl) \<Rightarrow> (dbl \<Rightarrow> dbl) \<Rightarrow> old_map \<Rightarrow> dbl \<Rightarrow> dbl \<Rightarrow> bool" where
  "free_hint cosf sinf m x y \<longleftrightarrow>
     (let c = cosf (om_yaw m); d = sinf (om_yaw m); dx = x - om_x m; dy = y - om_y m;
          gx = (c * dx + d * dy) / om_resolution m; gy = (- d * dx + c * dy) / om_resolution m;
          cell = om_data m ! nat (\<lfloor>val gy\<rfloor> * int (om_width m) + \<lfloor>val gx\<rfloor>)
      in isfinite gx \<and> isfinite gy \<and> Fin 0 \<le> gx \<and> Fin 0 \<le> gy \<and> gx < Fin (of_nat (om_width m)) \<and>
         gy < Fin (of_nat (om_height m)) \<and> 0 \<le> cell \<and> cell < 50)"

text \<open>A job runs at once, or after the one before it.\<close>

definition spawn_job :: "gw_job \<Rightarrow> gateway \<Rightarrow> gateway" where
  "spawn_job j s = (if gw_job s = None then s\<lparr>gw_job := Some j\<rparr> else s\<lparr>gw_next := Some j\<rparr>)"

definition accept_request :: "string \<Rightarrow> gw_job \<Rightarrow> gateway \<Rightarrow> gateway" where
  "accept_request who j s = spawn_job j (gw_emit (Guard_request ''stop'' who)
     (s\<lparr>gw_busy := True, gw_operation := gw_operation s + 1\<rparr>))"

fun is_end :: "gw_request \<Rightarrow> bool" where
  "is_end (Post_end discard) \<longleftrightarrow> True"
| "is_end r \<longleftrightarrow> False"

definition gw_lifecycle :: "gw_params \<Rightarrow> bool \<Rightarrow> bool \<Rightarrow> string \<Rightarrow> gw_request \<Rightarrow> dbl \<Rightarrow> gateway \<Rightarrow> gateway" where
  "gw_lifecycle p inspecting bundle_ok who r now s =
     (if \<not> gp_managed p \<or> gw_controller s = [] \<or> who \<noteq> gw_controller s then s
      else if gw_busy s \<and> \<not> (is_end r \<and> gw_task s = Task_starting) then s
      else case r of
        Post_start mode bundle \<Rightarrow>
          if inspecting \<or> gw_task s \<noteq> Task_standby \<or> mode = Mode_standby \<or> mode = Mode_resume \<and> (gp_candidate_slam p \<or> \<not> bundle_ok)
          then s
          else accept_request who (Job_start mode (if mode = Mode_resume then bundle else []))
            (s\<lparr>gw_task := Task_starting, gw_start_at := now\<rparr>)
      | Post_restart acknowledged \<Rightarrow>
          let mode = (if gw_last_saved s = [] then gw_mode s else Mode_resume);
              bundle = (if gw_last_saved s = [] then gw_bundle s else gw_last_saved s) in
          if gw_task s = Task_standby \<or> gw_dirty s \<and> \<not> acknowledged \<or> mode = Mode_resume \<and> gp_candidate_slam p then s
          else accept_request who (Job_start mode bundle)
            (s\<lparr>gw_task := Task_stopping, gw_accepting := False, gw_forward := False, gw_one_scan := False\<rparr>)
      | Post_end discard \<Rightarrow>
          if gw_dirty s \<and> \<not> discard then s
          else accept_request who Job_close
            (s\<lparr>gw_task := Task_stopping, gw_accepting := False, gw_forward := False, gw_one_scan := False\<rparr>)
      | Post_video enabled \<Rightarrow>
          if gw_task s \<noteq> Task_running \<or> \<not> gp_hardware p then s else accept_request who (Job_video enabled) s
      | _ \<Rightarrow> s)"

definition gw_mapping_request :: "gw_params \<Rightarrow> gw_libm \<Rightarrow> time_ns \<Rightarrow> string \<Rightarrow> gw_request \<Rightarrow> gateway \<Rightarrow> gateway" where
  "gw_mapping_request p lib ros who r s =
     (if gw_controller s = [] \<or> who \<noteq> gw_controller s \<or> gw_busy s then s
      else case r of
        Post_confirm \<Rightarrow> if gw_phase s \<noteq> Phase_candidate then s else s\<lparr>gw_phase := Phase_current, gw_forward := True\<rparr>
      | Post_save \<Rightarrow>
          if gw_phase s \<noteq> Phase_current \<or> gw_map s = None then s
          else accept_request who (Job_begin (Goal_save False)) (s\<lparr>gw_phase := Phase_saving, gw_forward := False\<rparr>)
      | Post_finish \<Rightarrow>
          if \<not> gp_managed p \<or> gw_phase s \<noteq> Phase_current \<or> gw_map s = None then s
          else accept_request who (Job_begin (Goal_save True)) (s\<lparr>gw_phase := Phase_saving, gw_forward := False\<rparr>)
      | Post_resume hint \<Rightarrow> (case (hint, gw_reference s) of
          ([x, y, yaw], Some m) \<Rightarrow>
            if gw_mode s \<noteq> Mode_resume \<or> gw_phase s \<notin> {Phase_reference, Phase_candidate} \<or>
              \<not> (isfinite x \<and> isfinite y \<and> isfinite yaw) \<or> \<not> free_hint (gl_cos lib) (gl_sin lib) m x y then s
            else accept_request who (Job_begin Goal_resume) (s\<lparr>gw_hint := \<lparr>mq_x = x, mq_y = y, mq_yaw = gl_wrap lib yaw\<rparr>,
              gw_phase := Phase_loading, gw_forward := False, gw_one_scan := False, gw_expected := 0, gw_restore_ros := ros\<rparr>)
        | _ \<Rightarrow> s)
      | _ \<Rightarrow> s)"

definition gw_http ::
  "gw_params \<Rightarrow> gw_libm \<Rightarrow> bool \<Rightarrow> bool \<Rightarrow> time_ns \<Rightarrow> string \<Rightarrow> gw_request \<Rightarrow> dbl \<Rightarrow> gateway \<Rightarrow> gateway" where
  "gw_http p lib inspecting bundle_ok ros who r now s =
     (if gw_next s \<noteq> None then s
      else case r of
        Post_start mode bundle \<Rightarrow> gw_lifecycle p inspecting bundle_ok who r now s
      | Post_restart b \<Rightarrow> gw_lifecycle p inspecting bundle_ok who r now s
      | Post_end b \<Rightarrow> gw_lifecycle p inspecting bundle_ok who r now s
      | Post_video b \<Rightarrow> gw_lifecycle p inspecting bundle_ok who r now s
      | _ \<Rightarrow> gw_mapping_request p lib ros who r s)"

subsection \<open>Jobs\<close>

record job_env =
  je_ok :: bool
  je_name :: string
  je_reference :: "old_map option"

definition job_to :: "gw_job \<Rightarrow> gateway \<Rightarrow> gateway" where
  "job_to j s = s\<lparr>gw_job := Some j\<rparr>"

definition job_ended :: "gateway \<Rightarrow> gateway" where
  "job_ended s = s\<lparr>gw_job := gw_next s, gw_next := None\<rparr>"

definition operation_over :: "gateway \<Rightarrow> gateway" where
  "operation_over s = s\<lparr>gw_busy := False, gw_completed := gw_operation s\<rparr>"

definition save_failed_end :: "gateway \<Rightarrow> gateway" where
  "save_failed_end s = job_ended (operation_over
     (if gw_phase s = Phase_saving then s\<lparr>gw_phase := Phase_current, gw_forward := False, gw_save_failed := True\<rparr>
      else s\<lparr>gw_phase := Phase_failed, gw_forward := False, gw_one_scan := False\<rparr>))"

definition resume_failed_end :: "gateway \<Rightarrow> gateway" where
  "resume_failed_end s = job_ended (operation_over
     (s\<lparr>gw_phase := Phase_failed, gw_forward := False, gw_one_scan := False\<rparr>))"

definition goal_failed :: "stop_goal \<Rightarrow> gateway \<Rightarrow> gateway" where
  "goal_failed goal s = (case goal of Goal_save finish \<Rightarrow> save_failed_end s | Goal_resume \<Rightarrow> resume_failed_end s)"

definition start_failed_end :: "gateway \<Rightarrow> gateway" where
  "start_failed_end s = job_ended (operation_over (gw_emit Stop_backend
     (s\<lparr>gw_task := Task_fault, gw_phase := Phase_failed, gw_accepting := False, gw_forward := False\<rparr>)))"

definition robot_stands :: "dbl \<Rightarrow> gateway \<Rightarrow> bool" where
  "robot_stands now s \<longleftrightarrow> (case gw_odom s of
       None \<Rightarrow> False
     | Some (x, yaw) \<Rightarrow> now - gw_odom_at s < fl 0.5 \<and> \<bar>x\<bar> < fl 0.015 \<and> \<bar>yaw\<bar> < fl 0.03 \<and>
         now - gw_control_at s < fl 0.3 \<and> \<not> sg_armed (gw_guard s) \<and> \<bar>sg_x (gw_guard s)\<bar> < fl (1 / 1000000) \<and>
         \<bar>sg_yaw (gw_guard s)\<bar> < fl (1 / 1000000))"

definition clear_inputs :: "gateway \<Rightarrow> gateway" where
  "clear_inputs s = s\<lparr>gw_accepting := False, gw_forward := False, gw_one_scan := False, gw_have_pose := False, gw_expected := 0,
     gw_map := None, gw_map_pending := None, gw_encoded := None, gw_reference := None, gw_odom := None, gw_guard := no_guard,
     gw_scan_at := gw_never, gw_odom_at := gw_never, gw_map_at := gw_never, gw_control_at := gw_never\<rparr>"

definition save_steps :: "save_step list" where
  "save_steps = [Make_directory, First_manifest, Save_grid, Grid_manifest, Save_graph, Check_files, Read_parameters,
     Complete_manifest, Validate_bundle]"

definition write_manifest :: "string \<Rightarrow> bool \<Rightarrow> gateway \<Rightarrow> gateway" where
  "write_manifest name whole s = s\<lparr>gw_disk := (name, whole) # filter (\<lambda>(n, _). n \<noteq> name) (gw_disk s)\<rparr>"

definition save_effect :: "string \<Rightarrow> save_step \<Rightarrow> gateway \<Rightarrow> gateway" where
  "save_effect name k s = (case k of
       First_manifest \<Rightarrow> write_manifest name False s
     | Grid_manifest \<Rightarrow> write_manifest name False s
     | Complete_manifest \<Rightarrow> write_manifest name True s
     | _ \<Rightarrow> s)"

definition write_step :: "job_env \<Rightarrow> bool \<Rightarrow> string \<Rightarrow> save_step list \<Rightarrow> gateway \<Rightarrow> gateway" where
  "write_step e finish name l s = (case l of
       [] \<Rightarrow> job_to (Job_saved finish name) s
     | k # rest \<Rightarrow>
         if je_ok e then job_to (Job_write finish name rest) (save_effect name k s)
         else if k = Make_directory \<or> k = First_manifest then save_failed_end s
         else job_to (Job_spoil finish name) s)"

definition map_saved :: "bool \<Rightarrow> string \<Rightarrow> gateway \<Rightarrow> gateway" where
  "map_saved finish name s =
     (if gw_phase s \<noteq> Phase_saving then job_to (Job_spoil finish name) s
      else let s = gw_emit (Saved name) (s\<lparr>gw_phase := (if finish then Phase_stopping else Phase_current),
             gw_forward := \<not> finish, gw_busy := finish, gw_task := (if finish then Task_stopping else gw_task s),
             gw_save_failed := False, gw_dirty := False, gw_last_saved := name, gw_completed := gw_operation s\<rparr>)
        in if finish then job_to Job_close s else job_ended s)"

definition begin_task :: "gw_mode \<Rightarrow> string \<Rightarrow> old_map option \<Rightarrow> dbl \<Rightarrow> gateway \<Rightarrow> gateway" where
  "begin_task mode bundle reference now s = job_to (Job_spawn mode bundle) ((clear_inputs s)\<lparr>gw_mode := mode, gw_bundle := bundle,
     gw_reference := reference, gw_phase := (if mode = Mode_resume then Phase_reference else Phase_waiting),
     gw_task := Task_starting, gw_backend_started := False, gw_start_at := now, gw_dirty := False, gw_save_failed := False,
     gw_video := False, gw_last_saved := []\<rparr>)"

definition end_task :: "gateway \<Rightarrow> gateway" where
  "end_task s = job_ended (operation_over ((clear_inputs s)\<lparr>gw_phase := Phase_standby, gw_task := Task_standby,
     gw_mode := Mode_standby, gw_bundle := [], gw_dirty := False, gw_save_failed := False, gw_video := False,
     gw_backend_started := False\<rparr>))"

definition job_step :: "job_env \<Rightarrow> dbl \<Rightarrow> gateway \<Rightarrow> gateway" where
  "job_step e now s = (case gw_job s of
       None \<Rightarrow> s
     | Some j \<Rightarrow> (case j of
         Job_begin goal \<Rightarrow> job_to (Job_wait goal (now + Fin 5) (Fin (- 1))) s
       | Job_wait goal until since \<Rightarrow>
           if \<not> now < until then goal_failed goal s
           else if \<not> robot_stands now s then job_to (Job_wait goal until (Fin (- 1))) s
           else let since = (if since < Fin 0 then now else since) in
             if fl 0.3 < now - since
             then job_to (case goal of Goal_save finish \<Rightarrow> Job_check finish | Goal_resume \<Rightarrow> Job_restore) s
             else job_to (Job_wait goal until since) s
       | Job_check finish \<Rightarrow> if gw_phase s \<noteq> Phase_saving then save_failed_end s else job_to (Job_map finish now 400) s
       | Job_map finish cutoff n \<Rightarrow>
           if n = 0 then save_failed_end s
           else if gw_map s \<noteq> None \<and> cutoff + fl 3.05 < gw_map_at s then job_to (Job_write finish (je_name e) save_steps) s
           else job_to (Job_map finish cutoff (n - 1)) s
       | Job_write finish name l \<Rightarrow> write_step e finish name l s
       | Job_saved finish name \<Rightarrow> map_saved finish name s
       | Job_spoil finish name \<Rightarrow> save_failed_end (if je_ok e then write_manifest name False s else s)
       | Job_restore \<Rightarrow> if je_ok e then job_to Job_restored s else resume_failed_end s
       | Job_restored \<Rightarrow>
           if gw_phase s \<noteq> Phase_loading then resume_failed_end s
           else job_ended (operation_over (s\<lparr>gw_phase := Phase_trial, gw_one_scan := True, gw_trial_at := now\<rparr>))
       | Job_start mode bundle \<Rightarrow>
           if je_ok e then job_to (Job_clear mode bundle (if mode = Mode_resume then je_reference e else None))
             (gw_emit Stop_backend s)
           else start_failed_end s
       | Job_clear mode bundle reference \<Rightarrow> begin_task mode bundle reference now s
       | Job_spawn mode bundle \<Rightarrow>
           if je_ok e then job_to (Job_open mode) (gw_emit (Start_backend mode bundle) s) else start_failed_end s
       | Job_open mode \<Rightarrow> job_ended (s\<lparr>gw_backend_started := True, gw_accepting := True, gw_forward := (mode = Mode_new)\<rparr>)
       | Job_close \<Rightarrow> job_to (Job_closed) (s\<lparr>gw_accepting := False, gw_forward := False, gw_one_scan := False,
           gw_task := Task_stopping, gw_phase := Phase_stopping\<rparr>)
       | Job_closed \<Rightarrow> end_task (gw_emit Stop_backend s)
       | Job_video enabled \<Rightarrow>
           if je_ok e then job_to (Job_filmed enabled) s else job_ended (operation_over (s\<lparr>gw_video := False\<rparr>))
       | Job_filmed enabled \<Rightarrow> job_ended (operation_over (s\<lparr>gw_video := enabled\<rparr>))))"

subsection \<open>Events\<close>

datatype gw_event =
    Scan_event time_ns time_ns bool
  | Map_event grid_info nat
  | Pose_event bool dbl dbl rotation time_ns
  | Wheel_event time_ns time_ns dbl dbl
  | Guard_event guard_seen
  | Slam_error time_ns
  | Encode_take
  | Encode_done bool
  | Timer_event bool bool
  | Page_left string
  | Page_message bool string "(string \<times> bool) option"
  | Request_event bool bool time_ns string gw_request
  | Job_event job_env

definition gw_handle :: "gw_params \<Rightarrow> gw_libm \<Rightarrow> gw_event \<Rightarrow> dbl \<Rightarrow> gateway \<Rightarrow> gateway" where
  "gw_handle p lib ev now s = (case ev of
       Scan_event ros stamp nonempty \<Rightarrow> gw_scan ros stamp nonempty now s
     | Map_event g m \<Rightarrow> gw_new_map (valid_map g) m now s
     | Pose_event map_frame x y q stamp \<Rightarrow>
         gw_pose map_frame (isfinite x \<and> isfinite y \<and> valid_rotation q) stamp (seen_pose lib x y q) s
     | Wheel_event ros stamp x yaw \<Rightarrow> gw_wheel ros stamp x yaw now s
     | Guard_event g \<Rightarrow> gw_guard_state g now s
     | Slam_error stamp \<Rightarrow> gw_slam_error stamp s
     | Encode_take \<Rightarrow> gw_encode_take s
     | Encode_done ok \<Rightarrow> gw_encode_done ok s
     | Timer_event alive service \<Rightarrow> gw_timer p alive service now s
     | Page_left i \<Rightarrow> gw_page_gone i s
     | Page_message inspecting i message \<Rightarrow> gw_page_message inspecting i message s
     | Request_event inspecting bundle_ok ros who r \<Rightarrow> gw_http p lib inspecting bundle_ok ros who r now s
     | Job_event e \<Rightarrow> job_step e now s)"

end
