(* ===== verification/Gateway_Safety.thy ===== *)
theory Gateway_Safety
  imports Mapping_Gateway
begin

text \<open>
  Which scans the gateway of the mapping console lets through to the SLAM process (\<open>relay_inv\<close>), that a resumed map is
  driven on only after the operator confirmed a match of it (\<open>resume_inv\<close>), that a map is reported as saved only when its
  bundle is complete (\<open>save_inv\<close>), and what a failed start and a fault during a save leave behind.
\<close>

subsection \<open>Which scans reach the SLAM process\<close>

fun starts_new :: "gw_job option \<Rightarrow> bool" where
  "starts_new (Some (Job_spawn Mode_new b)) \<longleftrightarrow> True"
| "starts_new (Some (Job_open Mode_new)) \<longleftrightarrow> True"
| "starts_new j \<longleftrightarrow> False"

text \<open>A fault found, or an end asked for, while a task was starting.\<close>

definition overtaken :: "gateway \<Rightarrow> bool" where
  "overtaken s \<longleftrightarrow> gw_phase s = Phase_failed \<and> (gw_task s = Task_fault \<or> gw_task s = Task_stopping)"

fun fresh_job :: "gw_job \<Rightarrow> bool" where
  "fresh_job (Job_begin goal) \<longleftrightarrow> True"
| "fresh_job (Job_start mode b) \<longleftrightarrow> True"
| "fresh_job Job_close \<longleftrightarrow> True"
| "fresh_job (Job_video b) \<longleftrightarrow> True"
| "fresh_job j \<longleftrightarrow> False"

lemma fresh_not_new: "fresh_job j \<Longrightarrow> \<not> starts_new (Some j)"
  by (cases j) auto

definition relay_inv :: "gateway \<Rightarrow> bool" where
  "relay_inv s \<longleftrightarrow> (gw_one_scan s \<longrightarrow> gw_phase s = Phase_trial \<and> gw_expected s = 0 \<or> overtaken s) \<and>
     (gw_phase s = Phase_loading \<longrightarrow> gw_expected s = 0) \<and>
     (gw_forward s \<longrightarrow> gw_phase s = Phase_waiting \<or> gw_phase s = Phase_current \<or> overtaken s) \<and>
     (gw_phase s = Phase_waiting \<longrightarrow> gw_mode s \<noteq> Mode_resume) \<and>
     (starts_new (gw_job s) \<longrightarrow> gw_mode s = Mode_new \<and> \<not> gw_accepting s \<and> \<not> gw_have_pose s \<and>
       (gw_phase s = Phase_waiting \<and> gw_task s \<in> {Task_starting, Task_fault, Task_stopping} \<or> overtaken s)) \<and>
     (\<forall>j. gw_next s = Some j \<longrightarrow> fresh_job j)"

lemma inv_scan: "relay_inv s \<Longrightarrow> relay_inv (gw_scan ros stamp nonempty now s)"
  by (auto simp: relay_inv_def overtaken_def gw_scan_def Let_def gw_emit_def)

lemma inv_quiet:
  "relay_inv s \<Longrightarrow> relay_inv (gw_new_map valid m now s)"
  "relay_inv s \<Longrightarrow> relay_inv (gw_wheel ros stamp x yaw now s)"
  "relay_inv s \<Longrightarrow> relay_inv (gw_guard_state g now s)"
  "relay_inv s \<Longrightarrow> relay_inv (gw_encode_take s)"
  "relay_inv s \<Longrightarrow> relay_inv (gw_encode_done ok s)"
  "relay_inv s \<Longrightarrow> relay_inv (gw_page_gone i s)"
  "relay_inv s \<Longrightarrow> relay_inv (gw_page_message inspecting i message s)"
  by (auto simp: relay_inv_def overtaken_def gw_new_map_def gw_wheel_def gw_guard_state_def gw_encode_take_def
    gw_encode_done_def gw_page_gone_def gw_page_message_def Let_def gw_emit_def split: option.splits)

lemma inv_pose: "relay_inv s \<Longrightarrow> relay_inv (gw_pose map_frame finite_pose stamp q s)"
  by (auto simp: relay_inv_def overtaken_def gw_pose_def Let_def)

lemma inv_slam_error: "relay_inv s \<Longrightarrow> relay_inv (gw_slam_error stamp s)"
  by (auto simp: relay_inv_def overtaken_def gw_slam_error_def)

lemma inv_over: "relay_inv (operation_over s) = relay_inv s" "relay_inv (write_manifest name whole s) = relay_inv s"
  "relay_inv (gw_emit out s) = relay_inv s" "relay_inv (save_effect name k s) = relay_inv s"
  by (simp_all add: relay_inv_def overtaken_def operation_over_def write_manifest_def gw_emit_def save_effect_def
    split: save_step.splits)

lemma inv_watch: "relay_inv s \<Longrightarrow> relay_inv (gw_watch_task p alive service now s)"
proof -
  assume a: "relay_inv s"
  have "relay_inv (s\<lparr>gw_task := Task_fault, gw_phase := Phase_failed, gw_accepting := False, gw_forward := False,
      gw_one_scan := False, gw_busy := False, gw_completed := gw_operation s\<rparr>)"
    using a by (auto simp: relay_inv_def overtaken_def)
  moreover have "relay_inv (s\<lparr>gw_task := Task_running, gw_busy := False, gw_completed := gw_operation s\<rparr>)"
    if "gw_task s = Task_starting" "gw_phase s = Phase_current \<or> gw_phase s = Phase_reference"
    using a that by (auto simp: relay_inv_def overtaken_def)
  ultimately show ?thesis using a by (simp add: gw_watch_task_def Let_def inv_over)
qed

lemma inv_timer: "relay_inv s \<Longrightarrow> relay_inv (gw_timer p alive service now s)"
proof -
  assume "relay_inv s"
  then have "relay_inv (gw_watch_task p alive service now s)" by (rule inv_watch)
  then show ?thesis unfolding gw_timer_def
    by (auto simp: relay_inv_def overtaken_def Let_def gw_emit_def)
qed

lemma inv_spawn: "relay_inv s \<Longrightarrow> fresh_job j \<Longrightarrow> gw_next s = None \<Longrightarrow> relay_inv (accept_request who j s)"
  using fresh_not_new by (auto simp: relay_inv_def overtaken_def accept_request_def spawn_job_def gw_emit_def)

lemma inv_hold: "relay_inv s \<Longrightarrow> relay_inv (s\<lparr>gw_task := Task_stopping, gw_accepting := False, gw_forward := False, gw_one_scan := False\<rparr>)"
  by (auto simp: relay_inv_def overtaken_def)

lemma inv_lifecycle: "relay_inv s \<Longrightarrow> gw_next s = None \<Longrightarrow> relay_inv (gw_lifecycle p inspecting bundle_ok who r now s)"
proof (cases r)
  case (Post_start mode b)
  assume a: "relay_inv s" "gw_next s = None"
  have "relay_inv (s\<lparr>gw_task := Task_starting, gw_start_at := now\<rparr>)" if "gw_task s = Task_standby"
    using a that by (auto simp: relay_inv_def overtaken_def)
  then show ?thesis using a by (simp add: Post_start gw_lifecycle_def inv_spawn)
qed (simp_all add: gw_lifecycle_def Let_def inv_spawn inv_hold)

lemma inv_mapping: "relay_inv s \<Longrightarrow> gw_next s = None \<Longrightarrow> relay_inv (gw_mapping_request p lib ros who r s)"
proof -
  assume a: "relay_inv s" "gw_next s = None"
  have c: "relay_inv (s\<lparr>gw_phase := Phase_current, gw_forward := True\<rparr>)" if "gw_phase s = Phase_candidate"
    using a that by (auto simp: relay_inv_def overtaken_def)
  have v: "relay_inv (s\<lparr>gw_phase := Phase_saving, gw_forward := False\<rparr>)" if "gw_phase s = Phase_current"
    using a that by (auto simp: relay_inv_def overtaken_def)
  have l: "relay_inv (s\<lparr>gw_hint := h, gw_phase := Phase_loading, gw_forward := False, gw_one_scan := False, gw_expected := 0, gw_restore_ros := ros\<rparr>)"
    if "gw_phase s = Phase_reference \<or> gw_phase s = Phase_candidate" for h
    using a that by (auto simp: relay_inv_def overtaken_def)
  show ?thesis
  proof (cases r)
    case (Post_resume hint)
    then show ?thesis using a l by (simp add: gw_mapping_request_def inv_spawn split: option.splits list.splits)
  qed (simp_all add: gw_mapping_request_def inv_spawn a c v)
qed

lemma inv_http: "relay_inv s \<Longrightarrow> relay_inv (gw_http p lib inspecting bundle_ok ros who r now s)"
  by (simp add: gw_http_def inv_lifecycle inv_mapping split: gw_request.splits)

lemma inv_job_to: "relay_inv s \<Longrightarrow> \<not> starts_new (Some j) \<Longrightarrow> relay_inv (job_to j s)"
  by (simp add: relay_inv_def overtaken_def job_to_def)

lemma inv_ended: "relay_inv s \<Longrightarrow> relay_inv (job_ended s)"
  using fresh_not_new by (cases "gw_next s") (auto simp: relay_inv_def overtaken_def job_ended_def)

lemma inv_fail:
  assumes "relay_inv s" "\<not> starts_new (gw_job s)"
  shows "relay_inv (save_failed_end s)" "relay_inv (resume_failed_end s)"
proof -
  have "relay_inv (s\<lparr>gw_phase := Phase_current, gw_forward := False, gw_save_failed := True\<rparr>)" if "gw_phase s = Phase_saving"
    using assms that by (auto simp: relay_inv_def overtaken_def)
  moreover have f: "relay_inv (s\<lparr>gw_phase := Phase_failed, gw_forward := False, gw_one_scan := False\<rparr>)"
    using assms by (auto simp: relay_inv_def overtaken_def)
  ultimately show "relay_inv (save_failed_end s)" by (simp add: save_failed_end_def inv_ended inv_over)
  show "relay_inv (resume_failed_end s)" using f by (simp add: resume_failed_end_def inv_ended inv_over)
qed

lemma inv_start_failed: "relay_inv s \<Longrightarrow> relay_inv (start_failed_end s)"
proof -
  assume "relay_inv s"
  then have "relay_inv (s\<lparr>gw_task := Task_fault, gw_phase := Phase_failed, gw_accepting := False, gw_forward := False\<rparr>)"
    by (auto simp: relay_inv_def overtaken_def)
  then show ?thesis by (simp add: start_failed_end_def inv_ended inv_over)
qed

lemma inv_begin: "relay_inv s \<Longrightarrow> relay_inv (begin_task mode b reference now s)"
  by (cases mode) (simp_all add: relay_inv_def overtaken_def begin_task_def clear_inputs_def job_to_def)

lemma inv_closing:
  "relay_inv s \<Longrightarrow> \<not> starts_new (gw_job s) \<Longrightarrow> relay_inv (s\<lparr>gw_accepting := False, gw_forward := False, gw_one_scan := False,
     gw_task := Task_stopping, gw_phase := Phase_stopping\<rparr>)"
  "relay_inv s \<Longrightarrow> \<not> starts_new (gw_job s) \<Longrightarrow> relay_inv (end_task s)"
proof -
  assume a: "relay_inv s" "\<not> starts_new (gw_job s)"
  show "relay_inv (s\<lparr>gw_accepting := False, gw_forward := False, gw_one_scan := False,
     gw_task := Task_stopping, gw_phase := Phase_stopping\<rparr>)" using a by (simp add: relay_inv_def overtaken_def)
  have "relay_inv ((clear_inputs s)\<lparr>gw_phase := Phase_standby, gw_task := Task_standby,
     gw_mode := Mode_standby, gw_bundle := [], gw_dirty := False, gw_save_failed := False, gw_video := False,
     gw_backend_started := False\<rparr>)" using a by (simp add: relay_inv_def overtaken_def clear_inputs_def)
  then show "relay_inv (end_task s)" by (simp add: end_task_def inv_ended inv_over)
qed

lemma inv_saved: "relay_inv s \<Longrightarrow> \<not> starts_new (gw_job s) \<Longrightarrow> relay_inv (map_saved finish name s)"
proof -
  assume a: "relay_inv s" "\<not> starts_new (gw_job s)"
  let ?t = "s\<lparr>gw_phase := (if finish then Phase_stopping else Phase_current),
             gw_forward := \<not> finish, gw_busy := finish, gw_task := (if finish then Task_stopping else gw_task s),
             gw_save_failed := False, gw_dirty := False, gw_last_saved := name, gw_completed := gw_operation s\<rparr>"
  have "relay_inv ?t" if "gw_phase s = Phase_saving" using a that by (simp add: relay_inv_def overtaken_def)
  then have "relay_inv (gw_emit (Saved name) ?t)" if "gw_phase s = Phase_saving" using that by (simp only: inv_over)
  then show ?thesis using a(1) by (cases finish) (simp_all add: map_saved_def Let_def inv_job_to inv_ended)
qed

lemma inv_open: "relay_inv s \<Longrightarrow> gw_job s = Some (Job_open mode) \<Longrightarrow>
    relay_inv (s\<lparr>gw_job := gw_next s, gw_next := None, gw_backend_started := True, gw_accepting := True, gw_forward := (mode = Mode_new)\<rparr>)"
  using fresh_not_new by (cases mode; cases "gw_next s") (auto simp: relay_inv_def overtaken_def)

lemma inv_job: "relay_inv s \<Longrightarrow> relay_inv (job_step e now s)"
proof (cases "gw_job s")
  case (Some j)
  assume a: "relay_inv s"
  show ?thesis
  proof (cases j)
    case (Job_open mode)
    have "job_ended (s\<lparr>gw_backend_started := True, gw_accepting := True, gw_forward := (mode = Mode_new)\<rparr>) =
        s\<lparr>gw_job := gw_next s, gw_next := None, gw_backend_started := True, gw_accepting := True, gw_forward := (mode = Mode_new)\<rparr>"
      by (simp add: job_ended_def)
    then show ?thesis using inv_open [OF a] Some by (simp add: job_step_def Job_open)
  next
    case (Job_spawn mode b)
    have "relay_inv (job_to (Job_open mode) s)" using a Some Job_spawn
      by (cases mode) (simp_all add: relay_inv_def overtaken_def job_to_def)
    then have "relay_inv (job_to (Job_open mode) (gw_emit (Start_backend mode b) s))"
      by (simp add: relay_inv_def overtaken_def job_to_def gw_emit_def)
    then show ?thesis using a by (simp add: job_step_def Some Job_spawn inv_start_failed)
  next
    case (Job_wait goal until since)
    then show ?thesis using a Some
      by (simp add: job_step_def goal_failed_def inv_fail inv_job_to Let_def split: stop_goal.splits)
  next
    case (Job_write finish name l)
    then show ?thesis using a Some
      by (simp add: job_step_def write_step_def inv_fail inv_job_to inv_over split: list.splits)
  next
    case Job_restored
    have "relay_inv (s\<lparr>gw_phase := Phase_trial, gw_one_scan := True, gw_trial_at := now\<rparr>)" if "gw_phase s = Phase_loading"
      using a that Some Job_restored by (simp add: relay_inv_def overtaken_def)
    then show ?thesis using a Some by (simp add: job_step_def Job_restored inv_fail inv_ended inv_over)
  next
    case (Job_spoil finish name)
    have "relay_inv (write_manifest name False s)" "gw_job (write_manifest name False s) = gw_job s"
      using a by (simp only: inv_over, simp add: write_manifest_def)
    then show ?thesis using a Some by (simp add: job_step_def Job_spoil inv_fail)
  next
    case (Job_video b)
    have "relay_inv (s\<lparr>gw_video := False\<rparr>)" using a by (simp add: relay_inv_def overtaken_def)
    then show ?thesis using a Some by (simp add: job_step_def Job_video inv_job_to inv_ended inv_over)
  next
    case (Job_filmed b)
    have "relay_inv (s\<lparr>gw_video := b\<rparr>)" using a by (simp add: relay_inv_def overtaken_def)
    then show ?thesis using a Some by (simp add: job_step_def Job_filmed inv_ended inv_over)
  next
    case Job_closed
    have "relay_inv (gw_emit Stop_backend s)" using a by (simp only: inv_over)
    moreover have "\<not> starts_new (gw_job (gw_emit Stop_backend s))" by (simp add: gw_emit_def Some Job_closed)
    ultimately show ?thesis using inv_closing(2) by (simp add: job_step_def Some Job_closed)
  next
    case (Job_start mode b)
    then show ?thesis using a Some by (simp add: job_step_def inv_start_failed inv_job_to inv_over)
  qed (use a Some in \<open>simp_all add: job_step_def inv_job_to inv_fail inv_closing inv_saved inv_begin\<close>)
qed (simp add: job_step_def)

lemma gw_handle_inv: "relay_inv s \<Longrightarrow> relay_inv (gw_handle p lib ev now s)"
  by (cases ev) (simp_all add: gw_handle_def inv_scan inv_quiet inv_pose inv_slam_error inv_timer inv_http inv_job)

lemma init_inv: "relay_inv (gateway_init mode b reference now)"
  by (cases mode) (simp_all add: relay_inv_def gateway_init_def overtaken_def)

interpretation gw_relay: invariant "gw_handle p lib" relay_inv for p lib
  by unfold_locales (rule gw_handle_inv)

lemma gateway_inv: "relay_inv (run_events (gw_handle p lib) es (gateway_init mode b reference now))"
  by (rule gw_relay.always [OF init_inv])

lemma quiet_outputs:
  "gw_out (save_failed_end t) = gw_out t" "gw_out (resume_failed_end t) = gw_out t" "gw_out (job_ended t) = gw_out t"
  "gw_out (job_to j t) = gw_out t" "gw_out (operation_over t) = gw_out t" "gw_out (save_effect name k t) = gw_out t"
  "gw_out (write_manifest name whole t) = gw_out t" "gw_out (begin_task mode b r now t) = gw_out t" "gw_out (end_task t) = gw_out t"
  "gw_out (goal_failed goal t) = gw_out t" "gw_out (accept_request who j t) = gw_out t @ [Guard_request ''stop'' who]"
  by (simp_all add: save_failed_end_def resume_failed_end_def job_ended_def job_to_def operation_over_def save_effect_def
    write_manifest_def begin_task_def end_task_def clear_inputs_def goal_failed_def accept_request_def spawn_job_def gw_emit_def
    split: save_step.splits stop_goal.splits)

text \<open>What an event adds to the outputs, for the two that matter here.\<close>

lemma new_outputs:
  "\<exists>l. gw_out (gw_handle p lib ev now s) = gw_out s @ l \<and> (\<forall>stamp. Relay stamp \<in> set l \<longrightarrow>
     (\<exists>ros. ev = Scan_event ros stamp True \<and> timely ros stamp \<and> gw_accepting s \<and> (gw_one_scan s \<or> gw_forward s))) \<and>
     (\<forall>n. Saved n \<in> set l \<longrightarrow>
     (\<exists>e finish. ev = Job_event e \<and> gw_job s = Some (Job_saved finish n) \<and> gw_phase s = Phase_saving))"
proof (cases ev)
  case (Scan_event ros stamp nonempty)
  then show ?thesis by (simp add: gw_handle_def gw_scan_def Let_def gw_emit_def)
next
  case (Job_event e)
  show ?thesis unfolding Job_event gw_handle_def gw_event.case job_step_def
    by (simp add: quiet_outputs write_step_def map_saved_def start_failed_end_def gw_emit_def Let_def
      split: option.splits gw_job.splits list.splits)
next
  case (Request_event inspecting bundle_ok ros who r)
  show ?thesis unfolding Request_event gw_handle_def gw_event.case gw_http_def gw_lifecycle_def gw_mapping_request_def
    by (simp add: quiet_outputs Let_def split: gw_request.splits list.splits option.splits)
qed (simp_all add: gw_handle_def gw_new_map_def gw_pose_def gw_wheel_def gw_guard_state_def gw_slam_error_def gw_encode_take_def
  gw_encode_done_def gw_timer_def gw_watch_task_def gw_page_gone_def gw_page_message_def gw_emit_def Let_def split: option.splits)

text \<open>C15. Safety of the map: whatever has happened before, the gateway passes a laser scan to the SLAM process only when that
  scan has just arrived, is timely and the task accepts input, and either a trial of a resumed map waits for exactly this scan,
  whose stamp it remembers, or mapping is under way (a new map waiting for its first pose, or a map that is current and
  released), or the task has already failed or is being stopped. In particular no scan reaches a map that is loaded, being
  saved, or matched and not yet confirmed.\<close>

theorem scan_relay_gated:
  assumes "s = run_events (gw_handle p lib) es (gateway_init mode b reference start)"
    and "Relay stamp \<in> set (drop (length (gw_out s)) (gw_out (gw_handle p lib ev now s)))"
  shows "(\<exists>ros. ev = Scan_event ros stamp True \<and> timely ros stamp) \<and> gw_accepting s \<and>
    (gw_one_scan s \<and> gw_phase s = Phase_trial \<and> gw_expected (gw_handle p lib ev now s) = stamp \<or>
     gw_forward s \<and> (gw_phase s = Phase_waiting \<and> gw_mode s \<noteq> Mode_resume \<or> gw_phase s = Phase_current) \<or>
     gw_phase s = Phase_failed \<and> (gw_task s = Task_fault \<or> gw_task s = Task_stopping))"
proof -
  obtain ros where r: "ev = Scan_event ros stamp True" "timely ros stamp" "gw_accepting s" "gw_one_scan s \<or> gw_forward s"
    using new_outputs [of p lib ev now s] assms(2) by auto
  have i: "relay_inv s" unfolding assms(1) by (rule gateway_inv)
  have "gw_expected (gw_handle p lib ev now s) = stamp" if "gw_one_scan s"
    using r that by (simp add: gw_handle_def gw_scan_def Let_def gw_emit_def)
  then show ?thesis using i r unfolding relay_inv_def overtaken_def by blast
qed

subsection \<open>A resumed map is driven on only after its match was confirmed\<close>

lemma plain_fields [simp]:
  "gw_phase (job_ended s) = gw_phase s" "gw_phase (operation_over s) = gw_phase s" "gw_phase (job_to j s) = gw_phase s"
  "gw_phase (gw_emit out s) = gw_phase s" "gw_phase (write_manifest name whole s) = gw_phase s" "gw_phase (save_effect name k s) = gw_phase s"
  "gw_mode (job_ended s) = gw_mode s" "gw_mode (operation_over s) = gw_mode s" "gw_mode (job_to j s) = gw_mode s"
  "gw_mode (gw_emit out s) = gw_mode s" "gw_mode (write_manifest name whole s) = gw_mode s" "gw_mode (save_effect name k s) = gw_mode s"
  "gw_expected (job_ended s) = gw_expected s" "gw_expected (operation_over s) = gw_expected s" "gw_expected (job_to j s) = gw_expected s"
  "gw_expected (gw_emit out s) = gw_expected s" "gw_expected (write_manifest name whole s) = gw_expected s" "gw_expected (save_effect name k s) = gw_expected s"
  "gw_candidate (job_ended s) = gw_candidate s" "gw_candidate (operation_over s) = gw_candidate s" "gw_candidate (job_to j s) = gw_candidate s"
  "gw_candidate (gw_emit out s) = gw_candidate s" "gw_candidate (write_manifest name whole s) = gw_candidate s" "gw_candidate (save_effect name k s) = gw_candidate s"
  by (simp_all add: job_ended_def operation_over_def job_to_def gw_emit_def write_manifest_def save_effect_def split: save_step.splits)

text \<open>What a step may do to the phase of a map being resumed.\<close>

definition phase_step :: "gateway \<Rightarrow> gateway \<Rightarrow> bool" where
  "phase_step s s' \<longleftrightarrow> (gw_phase s' = Phase_trial \<longrightarrow> gw_expected s' \<noteq> 0 \<longrightarrow> gw_phase s = Phase_trial \<and> gw_expected s' = gw_expected s) \<and>
     (gw_phase s' = Phase_candidate \<longrightarrow> gw_phase s = Phase_candidate \<and> gw_candidate s' = gw_candidate s) \<and>
     ((gw_phase s' = Phase_current \<or> gw_phase s' = Phase_saving) \<and> gw_mode s' = Mode_resume \<longrightarrow>
       (gw_phase s = Phase_current \<or> gw_phase s = Phase_saving) \<and> gw_mode s = Mode_resume)"

lemma phase_same: "gw_phase s' = gw_phase s \<Longrightarrow> gw_mode s' = gw_mode s \<Longrightarrow> gw_expected s' = gw_expected s \<Longrightarrow>
    gw_candidate s' = gw_candidate s \<Longrightarrow> phase_step s s'"
  by (simp add: phase_step_def)

lemma phase_wrap: "phase_step s (job_ended t) = phase_step s t" "phase_step s (operation_over t) = phase_step s t"
  "phase_step s (gw_emit out t) = phase_step s t"
  by (simp_all add: phase_step_def)

lemma phase_fails:
  "phase_step s (save_failed_end s)" "phase_step s (resume_failed_end s)" "phase_step s (start_failed_end s)"
  "phase_step s (goal_failed goal s)" "phase_step s (begin_task mode b r now s)" "phase_step s (end_task s)"
  "phase_step s (map_saved finish name s)"
  by (simp_all add: phase_step_def save_failed_end_def resume_failed_end_def start_failed_end_def goal_failed_def begin_task_def
    end_task_def map_saved_def Let_def split: stop_goal.splits)

lemma phase_job: "relay_inv s \<Longrightarrow> phase_step s (job_step e now s)"
proof (cases "gw_job s")
  case (Some j)
  assume a: "relay_inv s"
  show ?thesis
  proof (cases j)
    case Job_restored
    have "phase_step s (s\<lparr>gw_phase := Phase_trial, gw_one_scan := True, gw_trial_at := now\<rparr>)" if "gw_phase s = Phase_loading"
      using a that by (simp add: phase_step_def relay_inv_def)
    then show ?thesis by (simp add: job_step_def Some Job_restored phase_wrap phase_fails)
  next
    case (Job_write finish name l)
    then show ?thesis using phase_fails by (simp add: job_step_def Some write_step_def phase_same split: list.splits)
  next
    case (Job_spoil finish name)
    have "phase_step s (save_failed_end (write_manifest name False s))"
      by (simp add: phase_step_def save_failed_end_def)
    then show ?thesis using phase_fails by (simp add: job_step_def Some Job_spoil)
  next
    case Job_closed
    have "phase_step s (end_task (gw_emit Stop_backend s))" by (simp add: phase_step_def end_task_def)
    then show ?thesis by (simp add: job_step_def Some Job_closed)
  next
    case Job_close
    then show ?thesis by (simp add: job_step_def Some phase_step_def)
  qed (simp_all add: job_step_def Some phase_fails phase_same Let_def)
qed (simp add: job_step_def phase_same)

lemma phase_quiet:
  "phase_step s (gw_new_map valid m now s)" "phase_step s (gw_wheel ros stamp x yaw now s)" "phase_step s (gw_guard_state g now s)"
  "phase_step s (gw_encode_take s)" "phase_step s (gw_encode_done ok s)" "phase_step s (gw_page_gone i s)"
  "phase_step s (gw_page_message inspecting i message s)" "phase_step s (gw_slam_error stamp s)"
  by (simp_all add: phase_step_def gw_new_map_def gw_wheel_def gw_guard_state_def gw_encode_take_def gw_encode_done_def
    gw_page_gone_def gw_page_message_def gw_slam_error_def Let_def split: option.splits)

lemma phase_timer: "relay_inv s \<Longrightarrow> phase_step s (gw_timer p alive service now s)"
proof -
  assume a: "relay_inv s"
  have i: "relay_inv (gw_watch_task p alive service now s)" using a by (rule inv_watch)
  have w: "phase_step s (gw_watch_task p alive service now s)" "gw_mode (gw_watch_task p alive service now s) = gw_mode s"
    by (simp_all add: phase_step_def gw_watch_task_def Let_def)
  define t where "t = gw_watch_task p alive service now s"
  have "gw_mode t \<noteq> Mode_resume" if "gw_phase t = Phase_waiting" using i that by (simp add: relay_inv_def t_def)
  then show ?thesis using w unfolding gw_timer_def t_def [symmetric] by (simp add: phase_wrap Let_def) (simp add: phase_step_def)
qed

lemma accept_fields [simp]:
  "gw_phase (accept_request who j s) = gw_phase s" "gw_mode (accept_request who j s) = gw_mode s"
  "gw_expected (accept_request who j s) = gw_expected s" "gw_candidate (accept_request who j s) = gw_candidate s"
  by (simp_all add: accept_request_def spawn_job_def)

definition confirms :: "gateway \<Rightarrow> gw_event \<Rightarrow> bool" where
  "confirms s ev \<longleftrightarrow> (\<exists>inspecting b ros. ev = Request_event inspecting b ros (gw_controller s) Post_confirm) \<and>
     gw_controller s \<noteq> [] \<and> gw_phase s = Phase_candidate"

lemma phase_http:
  "confirms s (Request_event inspecting b ros who r) \<or> phase_step s (gw_http p lib inspecting b ros who r now s)"
proof (cases r)
  case Post_confirm
  then show ?thesis by (auto simp: confirms_def gw_http_def gw_mapping_request_def phase_same)
next
  case (Post_resume hint)
  then show ?thesis by (simp add: gw_http_def gw_mapping_request_def phase_same split: list.splits option.splits)
    (simp add: phase_step_def)
qed (simp_all add: gw_http_def gw_mapping_request_def gw_lifecycle_def Let_def phase_step_def)

text \<open>The scan a trial relayed, and the pose SLAM answered it with.\<close>

definition gw_run :: "gw_params \<Rightarrow> gw_libm \<Rightarrow> gateway \<Rightarrow> (gw_event \<times> dbl) list \<Rightarrow> gateway" where
  "gw_run p lib s0 es = run_events (gw_handle p lib) es s0"

definition tried :: "gw_params \<Rightarrow> gw_libm \<Rightarrow> gateway \<Rightarrow> (gw_event \<times> dbl) list \<Rightarrow> time_ns \<Rightarrow> bool" where
  "tried p lib s0 es stamp \<longleftrightarrow> (\<exists>es1 ros t es2. es = es1 @ (Scan_event ros stamp True, t) # es2 \<and> timely ros stamp \<and>
     gw_phase (gw_run p lib s0 es1) = Phase_trial \<and> gw_one_scan (gw_run p lib s0 es1))"

definition matched :: "gw_params \<Rightarrow> gw_libm \<Rightarrow> gateway \<Rightarrow> (gw_event \<times> dbl) list \<Rightarrow> slam_pose \<Rightarrow> bool" where
  "matched p lib s0 es q \<longleftrightarrow> (\<exists>es1 x y r stamp t es2. es = es1 @ (Pose_event True x y r stamp, t) # es2 \<and> isfinite x \<and> isfinite y \<and>
     valid_rotation r \<and> q = seen_pose lib x y r \<and> tried p lib s0 es1 stamp)"

definition confirmed_match :: "gw_params \<Rightarrow> gw_libm \<Rightarrow> gateway \<Rightarrow> (gw_event \<times> dbl) list \<Rightarrow> bool" where
  "confirmed_match p lib s0 es \<longleftrightarrow> (\<exists>es1 ev t es2. es = es1 @ (ev, t) # es2 \<and> confirms (gw_run p lib s0 es1) ev \<and>
     matched p lib s0 es1 (gw_candidate (gw_run p lib s0 es1)))"

lemma traced_snoc:
  "tried p lib s0 es stamp \<Longrightarrow> tried p lib s0 (es @ [x]) stamp" "matched p lib s0 es q \<Longrightarrow> matched p lib s0 (es @ [x]) q"
  "confirmed_match p lib s0 es \<Longrightarrow> confirmed_match p lib s0 (es @ [x])"
  unfolding tried_def matched_def confirmed_match_def by (metis append.assoc append_Cons)+

definition resume_inv :: "gw_params \<Rightarrow> gw_libm \<Rightarrow> gateway \<Rightarrow> (gw_event \<times> dbl) list \<Rightarrow> bool" where
  "resume_inv p lib s0 es \<longleftrightarrow> (let s = gw_run p lib s0 es in
     (gw_phase s = Phase_trial \<longrightarrow> gw_expected s \<noteq> 0 \<longrightarrow> tried p lib s0 es (gw_expected s)) \<and>
     (gw_phase s = Phase_candidate \<longrightarrow> matched p lib s0 es (gw_candidate s)) \<and>
     ((gw_phase s = Phase_current \<or> gw_phase s = Phase_saving) \<and> gw_mode s = Mode_resume \<longrightarrow> confirmed_match p lib s0 es))"

lemma resume_by_step:
  assumes "resume_inv p lib s0 es" "phase_step (gw_run p lib s0 es) (gw_run p lib s0 (es @ [x]))"
  shows "resume_inv p lib s0 (es @ [x])"
  using assms traced_snoc unfolding resume_inv_def phase_step_def Let_def by metis
lemma gw_run_snoc: "gw_run p lib s0 (es @ [(ev, now)]) = gw_handle p lib ev now (gw_run p lib s0 es)"
  by (simp add: gw_run_def)

lemma resume_scan:
  assumes "resume_inv p lib s0 es"
  shows "resume_inv p lib s0 (es @ [(Scan_event ros stamp nonempty, now)])"
proof -
  let ?s = "gw_run p lib s0 es" and ?x = "(Scan_event ros stamp nonempty, now)"
  have s': "gw_run p lib s0 (es @ [?x]) = gw_scan ros stamp nonempty now ?s"
    by (simp add: gw_run_snoc gw_handle_def)
  show ?thesis
  proof (cases "gw_phase ?s = Phase_trial \<and> gw_one_scan ?s \<and> timely ros stamp \<and> nonempty \<and> gw_accepting ?s")
    case True
    then have "tried p lib s0 (es @ [?x]) stamp" unfolding tried_def by fastforce
    then show ?thesis using True unfolding resume_inv_def s' Let_def
      by (simp add: gw_scan_def Let_def)
  next
    case False
    then have "phase_step ?s (gw_scan ros stamp nonempty now ?s)"
      by (simp add: gw_scan_def Let_def phase_wrap) (auto simp: phase_step_def)
    then show ?thesis using resume_by_step [OF assms, of ?x] s' by simp
  qed
qed

lemma resume_pose:
  assumes "resume_inv p lib s0 es"
  shows "resume_inv p lib s0 (es @ [(Pose_event map_frame x y r stamp, now)])"
proof -
  let ?s = "gw_run p lib s0 es" and ?x = "(Pose_event map_frame x y r stamp, now)" and ?q = "seen_pose lib x y r"
  let ?ok = "isfinite x \<and> isfinite y \<and> valid_rotation r"
  have s': "gw_run p lib s0 (es @ [?x]) = gw_pose map_frame ?ok stamp ?q ?s"
    by (simp add: gw_run_snoc gw_handle_def)
  show ?thesis
  proof (cases "gw_phase ?s = Phase_trial \<and> gw_expected ?s \<noteq> 0 \<and> stamp = gw_expected ?s \<and> gw_accepting ?s \<and> map_frame \<and> ?ok")
    case True
    then have "tried p lib s0 es stamp" using assms by (simp add: resume_inv_def Let_def)
    then have "matched p lib s0 (es @ [?x]) ?q" unfolding matched_def using True by blast
    then show ?thesis using True unfolding resume_inv_def s' Let_def by (simp add: gw_pose_def Let_def)
  next
    case False
    then have "phase_step ?s (gw_pose map_frame ?ok stamp ?q ?s)"
      by (auto simp: gw_pose_def Let_def phase_step_def)
    then show ?thesis using resume_by_step [OF assms, of ?x] s' by simp
  qed
qed

lemma resume_request:
  assumes "resume_inv p lib s0 es"
  shows "resume_inv p lib s0 (es @ [(Request_event inspecting b ros who r, now)])"
proof -
  let ?s = "gw_run p lib s0 es" and ?ev = "Request_event inspecting b ros who r"
  have s': "gw_run p lib s0 (es @ [(?ev, now)]) = gw_http p lib inspecting b ros who r now ?s"
    by (simp add: gw_run_snoc gw_handle_def)
  show ?thesis
  proof (cases "phase_step ?s (gw_http p lib inspecting b ros who r now ?s)")
    case True
    then show ?thesis using resume_by_step [OF assms, of "(?ev, now)"] s' by simp
  next
    case False
    then have c: "confirms ?s ?ev" using phase_http [of ?s inspecting b ros who r p lib now] by blast
    then have "matched p lib s0 es (gw_candidate ?s)" using assms by (simp add: resume_inv_def Let_def confirms_def)
    with c have m: "confirmed_match p lib s0 (es @ [(?ev, now)])" unfolding confirmed_match_def by blast
    have "r = Post_confirm" "gw_phase ?s = Phase_candidate" using c by (simp_all add: confirms_def)
    then have "gw_phase (gw_http p lib inspecting b ros who r now ?s) = Phase_current \<or>
        gw_http p lib inspecting b ros who r now ?s = ?s"
      by (simp add: gw_http_def gw_mapping_request_def)
    then show ?thesis using m False unfolding resume_inv_def s' Let_def by (auto simp: phase_same)
  qed
qed

lemma resume_step:
  assumes "resume_inv p lib s0 es" "relay_inv (gw_run p lib s0 es)"
  shows "resume_inv p lib s0 (es @ [(ev, now)])"
proof (cases ev)
  case (Scan_event ros stamp nonempty)
  then show ?thesis using resume_scan assms(1) by simp
next
  case (Pose_event map_frame x y r stamp)
  then show ?thesis using resume_pose assms(1) by simp
next
  case (Request_event inspecting b ros who r)
  then show ?thesis using resume_request assms(1) by simp
qed (use assms in \<open>auto intro!: resume_by_step simp: gw_run_snoc gw_handle_def phase_quiet phase_timer phase_job\<close>)

lemma resume_always: "resume_inv p lib (gateway_init mode b reference start) es"
proof (induction es rule: rev_induct)
  case Nil
  show ?case by (cases mode) (simp_all add: resume_inv_def gw_run_def gateway_init_def Let_def)
next
  case (snoc x es)
  have "relay_inv (gw_run p lib (gateway_init mode b reference start) es)" unfolding gw_run_def by (rule gateway_inv)
  then show ?case using resume_step [OF snoc] by (cases x) simp
qed

text \<open>C16. When the gateway reports that mapping is ready, the map is current, no operation runs, the last save did not
  fail, there is a picture and a map less than ten seconds old, and a managed task is running. If the map was resumed, the
  operator has confirmed, as the page in control and while a candidate was shown, a pose that SLAM had answered to the one scan
  the trial let through.\<close>

theorem resumed_ready_confirmed:
  assumes "s0 = gateway_init mode b reference start" "s = run_events (gw_handle p lib) es s0"
    and "s' = gw_handle p lib (Timer_event alive service) now s" "Ready True \<in> set (drop (length (gw_out s)) (gw_out s'))"
  shows "gw_phase s' = Phase_current \<and> \<not> gw_busy s' \<and> \<not> gw_save_failed s' \<and> gw_encoded s' \<noteq> None \<and>
    now - gw_map_at s' < Fin 10 \<and> (gp_managed p \<longrightarrow> gw_task s' = Task_running) \<and>
    (gw_mode s' = Mode_resume \<longrightarrow> confirmed_match p lib s0 es)"
proof -
  have i: "relay_inv s" unfolding assms(1,2) by (rule gateway_inv)
  have s': "s' = gw_timer p alive service now s" by (simp add: assms(3) gw_handle_def)
  obtain t where t: "s' = gw_emit (Ready (gw_ready p now t)) t" "set (drop (length (gw_out s)) (gw_out t)) \<subseteq>
      {Guard_request ''stop'' (gw_controller s), Guard_request ''connect'' (gw_controller s)}"
    "length (gw_out s) \<le> length (gw_out t)"
    unfolding s' gw_timer_def gw_watch_task_def Let_def by (auto simp: gw_emit_def)
  then have "gw_ready p now t" using assms(4) by (auto simp: gw_emit_def)
  then have r: "gw_ready p now s'" by (simp add: t(1) gw_ready_def gw_emit_def)
  have "confirmed_match p lib s0 es" if "gw_mode s' = Mode_resume"
  proof -
    have "gw_phase s' = Phase_current" using r by (simp add: gw_ready_def)
    then have "(gw_phase s = Phase_current \<or> gw_phase s = Phase_saving) \<and> gw_mode s = Mode_resume"
      using phase_timer [OF i, of p alive service now] that by (simp add: phase_step_def s')
    then show ?thesis using resume_always [of p lib mode b reference start es] assms(1,2)
      by (simp add: resume_inv_def gw_run_def Let_def)
  qed
  then show ?thesis using r by (simp add: gw_ready_def)
qed

subsection \<open>A map is reported as saved only when its bundle is complete\<close>

text \<open>The steps of saves that have succeeded in a history, with the name they wrote under, in the order in which they did.\<close>

definition step_done :: "gateway \<Rightarrow> gw_event \<Rightarrow> (string \<times> save_step) list" where
  "step_done s ev = (case ev of
       Job_event e \<Rightarrow> (case gw_job s of
           Some (Job_write finish n (k # rest)) \<Rightarrow> if je_ok e then [(n, k)] else []
         | _ \<Rightarrow> [])
     | _ \<Rightarrow> [])"

fun steps_done :: "gw_params \<Rightarrow> gw_libm \<Rightarrow> (gw_event \<times> dbl) list \<Rightarrow> gateway \<Rightarrow> (string \<times> save_step) list" where
  "steps_done p lib [] s = []"
| "steps_done p lib ((ev, now) # es) s = step_done s ev @ steps_done p lib es (gw_handle p lib ev now s)"

lemma steps_done_snoc: "steps_done p lib (es @ [(ev, now)]) s = steps_done p lib es s @ step_done (run_events (gw_handle p lib) es s) ev"
  by (induction es arbitrary: s) (auto simp: run_events_def)

text \<open>How far a save has come: what it has done is logged, and the whole manifest is the last but one thing it writes.\<close>

fun on_disk :: "(string \<times> save_step) list \<Rightarrow> (string \<times> bool) list \<Rightarrow> gw_job option \<Rightarrow> bool" where
  "on_disk did d (Some (Job_write finish n l)) \<longleftrightarrow> (\<exists>past before. before @ l = save_steps \<and> did = past @ map (Pair n) before) \<and>
     (l = [] \<or> l = [Validate_bundle] \<longrightarrow> (n, True) \<in> set d)"
| "on_disk did d (Some (Job_saved finish n)) \<longleftrightarrow> (n, True) \<in> set d \<and> (\<exists>past. did = past @ map (Pair n) save_steps)"
| "on_disk did d j \<longleftrightarrow> True"

definition save_inv :: "(string \<times> save_step) list \<Rightarrow> gateway \<Rightarrow> bool" where
  "save_inv did s \<longleftrightarrow> on_disk did (gw_disk s) (gw_job s) \<and> (\<forall>j. gw_next s = Some j \<longrightarrow> fresh_job j)"

lemma fresh_on_disk: "fresh_job j \<Longrightarrow> on_disk did d (Some j)"
  by (cases j) auto

definition job_kept :: "gateway \<Rightarrow> gateway \<Rightarrow> bool" where
  "job_kept s s' \<longleftrightarrow> gw_disk s' = gw_disk s \<and> (gw_job s' = gw_job s \<or> (\<exists>j. gw_job s' = Some j \<and> fresh_job j)) \<and>
     (gw_next s' = gw_next s \<or> (\<exists>j. gw_next s' = Some j \<and> fresh_job j))"

lemma kept_save: "save_inv did s \<Longrightarrow> job_kept s s' \<Longrightarrow> save_inv did s'"
  by (auto simp: save_inv_def job_kept_def fresh_on_disk)

lemma kept_same: "gw_disk s' = gw_disk s \<Longrightarrow> gw_job s' = gw_job s \<Longrightarrow> gw_next s' = gw_next s \<Longrightarrow> job_kept s s'"
  by (simp add: job_kept_def)

lemma kept_accept:
  "gw_disk t = gw_disk s \<Longrightarrow> gw_job t = gw_job s \<Longrightarrow> gw_next t = gw_next s \<Longrightarrow> fresh_job j \<Longrightarrow> job_kept s (accept_request who j t)"
  by (simp add: job_kept_def accept_request_def spawn_job_def gw_emit_def)

lemma kept_request: "job_kept s (gw_http p lib inspecting b ros who r now s)"
proof (cases r)
  case (Post_resume hint)
  then show ?thesis
    by (simp add: gw_http_def gw_mapping_request_def kept_same kept_accept split: list.splits option.splits)
qed (simp_all add: gw_http_def gw_mapping_request_def gw_lifecycle_def Let_def kept_same kept_accept)

lemma kept_timer: "job_kept s (gw_timer p alive service now s)"
  by (rule kept_same) (simp_all add: gw_timer_def gw_watch_task_def gw_emit_def Let_def)

lemma kept_other: "\<nexists>e. ev = Job_event e \<Longrightarrow> job_kept s (gw_handle p lib ev now s)"
  by (cases ev) (simp_all add: gw_handle_def kept_request kept_timer kept_same gw_scan_def gw_new_map_def gw_pose_def gw_wheel_def
    gw_guard_state_def gw_slam_error_def gw_encode_take_def gw_encode_done_def gw_page_gone_def gw_page_message_def gw_emit_def
    Let_def split: option.splits)

lemma save_wrap:
  "save_inv did (operation_over s) = save_inv did s" "save_inv did (gw_emit out s) = save_inv did s"
  by (simp_all add: save_inv_def operation_over_def gw_emit_def)

lemma save_ended: "save_inv did s \<Longrightarrow> save_inv did (job_ended s)"
  using fresh_on_disk by (cases "gw_next s") (simp_all add: save_inv_def job_ended_def)

lemma save_to: "save_inv did s \<Longrightarrow> on_disk did (gw_disk s) (Some j) \<Longrightarrow> save_inv did (job_to j s)"
  by (simp add: save_inv_def job_to_def)

lemma save_fields [simp]:
  "save_inv did (s\<lparr>gw_phase := ph\<rparr>) = save_inv did s" "save_inv did (s\<lparr>gw_forward := b\<rparr>) = save_inv did s"
  "save_inv did (s\<lparr>gw_one_scan := b\<rparr>) = save_inv did s" "save_inv did (s\<lparr>gw_save_failed := b\<rparr>) = save_inv did s"
  "save_inv did (s\<lparr>gw_task := tk\<rparr>) = save_inv did s" "save_inv did (s\<lparr>gw_accepting := b\<rparr>) = save_inv did s"
  "save_inv did (s\<lparr>gw_trial_at := t\<rparr>) = save_inv did s" "save_inv did (s\<lparr>gw_busy := b\<rparr>) = save_inv did s"
  "save_inv did (s\<lparr>gw_dirty := b\<rparr>) = save_inv did s" "save_inv did (s\<lparr>gw_last_saved := n\<rparr>) = save_inv did s"
  "save_inv did (s\<lparr>gw_completed := o'\<rparr>) = save_inv did s" "save_inv did (s\<lparr>gw_video := b\<rparr>) = save_inv did s"
  "save_inv did (s\<lparr>gw_backend_started := b\<rparr>) = save_inv did s" "save_inv did (s\<lparr>gw_mode := m\<rparr>) = save_inv did s"
  "save_inv did (s\<lparr>gw_bundle := n\<rparr>) = save_inv did s" "save_inv did (s\<lparr>gw_reference := rf\<rparr>) = save_inv did s"
  "save_inv did (s\<lparr>gw_start_at := t\<rparr>) = save_inv did s" "save_inv did (clear_inputs s) = save_inv did s"
  by (simp_all add: save_inv_def clear_inputs_def)

lemma save_over:
  "save_inv did s \<Longrightarrow> save_inv did (save_failed_end s)" "save_inv did s \<Longrightarrow> save_inv did (resume_failed_end s)"
  "save_inv did s \<Longrightarrow> save_inv did (goal_failed goal s)" "save_inv did s \<Longrightarrow> save_inv did (start_failed_end s)"
  "save_inv did s \<Longrightarrow> save_inv did (end_task s)" "save_inv did s \<Longrightarrow> save_inv did (begin_task mode b rf now s)"
  "save_inv did s \<Longrightarrow> save_inv did (map_saved finish n s)"
  by (simp_all add: save_failed_end_def resume_failed_end_def goal_failed_def start_failed_end_def end_task_def begin_task_def
    map_saved_def Let_def save_ended save_wrap save_to split: stop_goal.splits)

lemma written: "(n, True) \<in> set (gw_disk (write_manifest n True s))"
  by (simp add: write_manifest_def)

lemma next_save_step:
  assumes "before @ x # l = save_steps"
  shows "l = [] \<Longrightarrow> x = Validate_bundle" "l = [Validate_bundle] \<Longrightarrow> x = Complete_manifest"
proof -
  have l: "x # l = drop (length before) save_steps" by (simp add: assms [symmetric])
  have "length before < 9" using arg_cong [OF assms, of length] by (simp add: save_steps_def)
  then have "length before = 0 \<or> length before = 1 \<or> length before = 2 \<or> length before = 3 \<or> length before = 4 \<or>
      length before = 5 \<or> length before = 6 \<or> length before = 7 \<or> length before = 8"
    by linarith
  with l show "l = [] \<Longrightarrow> x = Validate_bundle" "l = [Validate_bundle] \<Longrightarrow> x = Complete_manifest"
    by (auto simp: save_steps_def)
qed

lemma save_write:
  assumes "save_inv did s" "gw_job s = Some (Job_write finish n l)"
  shows "save_inv (did @ step_done s (Job_event e)) (write_step e finish n l s)"
proof (cases l)
  case Nil
  then show ?thesis using assms by (simp add: write_step_def step_done_def save_inv_def job_to_def)
next
  case (Cons x rest)
  obtain past before where b: "before @ x # rest = save_steps" "did = past @ map (Pair n) before"
    using assms by (auto simp: save_inv_def Cons)
  show ?thesis
  proof (cases "je_ok e")
    case True
    have "on_disk (did @ [(n, x)]) (gw_disk (save_effect n x s)) (Some (Job_write finish n rest))"
    proof -
      have "(n, True) \<in> set (gw_disk (save_effect n x s))" if "rest = [] \<or> rest = [Validate_bundle]"
        using that next_save_step [OF b(1)] assms written by (auto simp: save_effect_def save_inv_def Cons)
      moreover have "(before @ [x]) @ rest = save_steps \<and> did @ [(n, x)] = past @ map (Pair n) (before @ [x])"
        using b by simp
      ultimately show ?thesis unfolding on_disk.simps by blast
    qed
    then show ?thesis using assms True by (simp add: write_step_def Cons step_done_def save_inv_def job_to_def
      save_effect_def write_manifest_def split: save_step.splits)
  next
    case False
    then show ?thesis using assms by (simp add: write_step_def Cons step_done_def save_over save_to)
  qed
qed

lemma save_begins: "on_disk did d (Some (Job_map finish cutoff n))" "on_disk did d (Some (Job_write finish name save_steps))"
  by (simp_all add: save_steps_def)

lemma save_spoil: "save_inv did s \<Longrightarrow> gw_job s = Some (Job_spoil finish n) \<Longrightarrow> save_inv did (write_manifest n' whole s)"
  by (simp add: save_inv_def write_manifest_def)

lemma save_job: "save_inv did s \<Longrightarrow> save_inv (did @ step_done s (Job_event e)) (job_step e now s)"
proof (cases "gw_job s")
  case (Some j)
  assume a: "save_inv did s"
  show ?thesis
  proof (cases j)
    case (Job_map finish cutoff n)
    then show ?thesis using a Some by (simp add: job_step_def step_done_def save_over save_to save_begins del: on_disk.simps)
  next
    case (Job_write finish n l)
    then show ?thesis using save_write [OF a] Some by (simp add: job_step_def)
  next
    case (Job_wait goal until since)
    then show ?thesis using a Some by (simp add: job_step_def step_done_def save_over save_to Let_def split: stop_goal.splits)
  next
    case (Job_spoil finish n)
    then show ?thesis using a Some save_spoil by (simp add: job_step_def step_done_def save_over)
  qed (use a Some in \<open>simp_all add: job_step_def step_done_def save_over save_to save_ended save_wrap\<close>)
qed (simp add: job_step_def step_done_def)

lemma gw_handle_save: "save_inv did s \<Longrightarrow> save_inv (did @ step_done s ev) (gw_handle p lib ev now s)"
proof (cases "\<exists>e. ev = Job_event e")
  case True
  assume "save_inv did s"
  then show ?thesis using True save_job by (auto simp: gw_handle_def)
next
  case False
  assume "save_inv did s"
  moreover have "step_done s ev = []" using False by (cases ev) (simp_all add: step_done_def)
  ultimately show ?thesis using kept_other [OF False] by (simp add: kept_save)
qed

lemma save_logged:
  assumes "s0 = gateway_init mode b reference start"
  shows "save_inv (steps_done p lib es s0) (run_events (gw_handle p lib) es s0)"
proof (induction es rule: rev_induct)
  case Nil
  then show ?case by (simp add: assms save_inv_def gateway_init_def)
next
  case (snoc x es)
  obtain ev now where x: "x = (ev, now)" by (cases x)
  show ?case unfolding x steps_done_snoc run_events_snoc by (rule gw_handle_save [OF snoc])
qed

lemma saved_now:
  "gw_phase s = Phase_saving \<Longrightarrow> gw_last_saved (map_saved finish n s) = n \<and> gw_dirty (map_saved finish n s) = False \<and>
     gw_save_failed (map_saved finish n s) = False \<and> gw_disk (map_saved finish n s) = gw_disk s"
  by (simp add: map_saved_def Let_def job_to_def job_ended_def gw_emit_def)

text \<open>C40. When the gateway reports a map as saved, the last nine steps of saves that succeeded are the nine of this save, all under
  its name and in the order of the code: none of them has failed, and none of another save came between. The bundle's
  manifest on disk says that the bundle is complete. The session was still saving, the bundle is the one a restart will
  load, and the mark of unsaved progress is gone.\<close>

theorem saved_bundle_complete:
  assumes "s = run_events (gw_handle p lib) es (gateway_init mode b reference start)" "s' = gw_handle p lib ev now s"
    and "Saved name \<in> set (drop (length (gw_out s)) (gw_out s'))"
  shows "(\<exists>past. steps_done p lib es (gateway_init mode b reference start) = past @ map (Pair name) [Make_directory, First_manifest,
      Save_grid, Grid_manifest, Save_graph, Check_files, Read_parameters, Complete_manifest, Validate_bundle]) \<and>
    (name, True) \<in> set (gw_disk s') \<and> gw_phase s = Phase_saving \<and> gw_last_saved s' = name \<and> \<not> gw_dirty s' \<and>
    \<not> gw_save_failed s'"
proof -
  obtain e finish where j: "ev = Job_event e" "gw_job s = Some (Job_saved finish name)" "gw_phase s = Phase_saving"
    using new_outputs [of p lib ev now s] assms(2,3) by auto
  have "save_inv (steps_done p lib es (gateway_init mode b reference start)) s" unfolding assms(1) by (rule save_logged [OF refl])
  then have "(name, True) \<in> set (gw_disk s)"
    "\<exists>past. steps_done p lib es (gateway_init mode b reference start) = past @ map (Pair name) save_steps"
    by (simp_all add: save_inv_def j)
  moreover have "s' = map_saved finish name s" by (simp add: assms(2) j gw_handle_def job_step_def)
  ultimately show ?thesis using saved_now [OF j(3), of finish name] j(3) by (simp add: save_steps_def)
qed

subsection \<open>Concrete histories\<close>

definition demo_lib :: gw_libm where
  "demo_lib = \<lparr>gl_cos = (\<lambda>a. Fin 1), gl_sin = (\<lambda>a. Fin 0), gl_wrap = (\<lambda>a. a), gl_atan2 = (\<lambda>a b. Fin 0)\<rparr>"

definition demo_params :: "bool \<Rightarrow> gw_params" where
  "demo_params managed = \<lparr>gp_managed = managed, gp_hardware = True, gp_candidate_slam = False\<rparr>"

definition demo_map :: old_map where
  "demo_map = \<lparr>om_x = Fin 0, om_y = Fin 0, om_yaw = Fin 0, om_resolution = Fin 1, om_width = 2, om_height = 1,
     om_data = [0, 100]\<rparr>"

definition demo_ahead :: rotation where
  "demo_ahead = \<lparr>ro_x = Fin 0, ro_y = Fin 0, ro_z = Fin 0, ro_w = Fin 1\<rparr>"

definition demo_grid :: grid_info where
  "demo_grid = \<lparr>gi_map_frame = True, gi_width = 2, gi_height = 1, gi_resolution = Fin 1, gi_x = Fin 0, gi_y = Fin 0,
     gi_rotation = demo_ahead, gi_cells = 2\<rparr>"

definition demo_resume :: gateway where
  "demo_resume = gateway_init Mode_resume ''b'' (Some demo_map) (Fin 0)"

definition demo_job :: "bool \<Rightarrow> gw_event" where
  "demo_job ok = Job_event \<lparr>je_ok = ok, je_name = ''n'', je_reference = None\<rparr>"

definition demo_still :: "rat \<Rightarrow> (gw_event \<times> dbl) list" where
  "demo_still t = [(Guard_event \<lparr>sg_session = ''a'', sg_armed = False, sg_x = Fin 0, sg_yaw = Fin 0\<rparr>, Fin t),
     (Wheel_event 1000 1000 (Fin 0) (Fin 0), Fin t)]"

text \<open>A history is unrolled before its steps are evaluated.\<close>

lemma demo_upright: "valid_rotation demo_ahead"
  by code_simp

lemma demo_valid: "valid_rotation demo_ahead" "valid_map demo_grid" "seen_pose demo_lib (Fin 0) (Fin 0) demo_ahead = no_pose"
  by (simp_all add: demo_upright valid_map_def demo_grid_def seen_pose_def gw_yaw_def demo_lib_def no_pose_def)

lemmas unroll = run_events_def demo_still_def demo_job_def append.simps foldl.simps prod.case gw_handle_def gw_event.case
  demo_valid isfinite.simps simp_thms

text \<open>The operator points at the free cell of the old map.\<close>

definition demo_ask :: "(gw_event \<times> dbl) list" where
  "demo_ask = [(Page_message False ''a'' (Some (''connect'', False)), Fin 0)] @ demo_still 0 @
     [(Request_event False True 0 ''a'' (Post_resume [Fin 0, Fin 0, Fin 0]), Fin 0), (demo_job True, Fin 0),
      (demo_job True, Fin 0)] @ demo_still 1 @ [(demo_job True, Fin 1), (demo_job True, Fin 1), (demo_job True, Fin 1)]"

text \<open>Then the robot stands, SLAM has loaded the old map, and one scan is awaited.\<close>

definition demo_tried :: gateway where
  "demo_tried = demo_resume\<lparr>gw_phase := Phase_trial, gw_controller := ''a'', gw_one_scan := True,
     gw_guard := \<lparr>sg_session = ''a'', sg_armed = False, sg_x = Fin 0, sg_yaw = Fin 0\<rparr>, gw_odom := Some (Fin 0, Fin 0),
     gw_odom_at := Fin 1, gw_control_at := Fin 1, gw_trial_at := Fin 1, gw_operation := 1, gw_completed := 1,
     gw_out := [Guard_request ''connect'' ''a'', Guard_request ''stop'' ''a'']\<rparr>"

lemma demo_asked: "run_events (gw_handle (demo_params False) demo_lib) demo_ask demo_resume = demo_tried"
  by (simp only: unroll demo_ask_def, code_simp)

definition demo_match :: "(gw_event \<times> dbl) list" where
  "demo_match = [(Scan_event 2000 2000 True, Fin 1), (Pose_event True (Fin 0) (Fin 0) demo_ahead 2000, Fin 1),
     (Map_event demo_grid 7, Fin 1), (Encode_take, Fin 1), (Encode_done True, Fin 1),
     (Request_event False True 0 ''a'' Post_confirm, Fin 1)]"

text \<open>A new map, current and standing, is asked to be saved; the wait for a map of the frozen graph has begun.\<close>

definition demo_new :: gateway where
  "demo_new = gateway_init Mode_new [] None (Fin 0)"

definition demo_freeze :: "(gw_event \<times> dbl) list" where
  "demo_freeze = [(Page_message False ''a'' (Some (''connect'', False)), Fin 0), (Pose_event True (Fin 0) (Fin 0) demo_ahead 2000, Fin 0),
     (Map_event demo_grid 7, Fin 0), (Encode_take, Fin 0), (Encode_done True, Fin 0), (Timer_event True True, Fin 0)] @ demo_still 0 @
     [(Request_event False True 0 ''a'' Post_save, Fin 0), (demo_job True, Fin 0), (demo_job True, Fin 0)] @ demo_still 1 @
     [(demo_job True, Fin 1), (demo_job True, Fin 1)]"

definition demo_frozen :: gateway where
  "demo_frozen = demo_new\<lparr>gw_phase := Phase_saving, gw_controller := ''a'', gw_forward := False, gw_have_pose := True,
     gw_guard := \<lparr>sg_session = ''a'', sg_armed = False, sg_x = Fin 0, sg_yaw = Fin 0\<rparr>, gw_odom := Some (Fin 0, Fin 0),
     gw_odom_at := Fin 1, gw_control_at := Fin 1, gw_map_at := Fin 0, gw_map := Some 7, gw_encoded := Some 7, gw_busy := True,
     gw_operation := 1, gw_job := Some (Job_map False (Fin 1) 400),
     gw_out := [Guard_request ''connect'' ''a'', Ready True, Guard_request ''stop'' ''a'']\<rparr>"

lemma demo_freezes: "run_events (gw_handle (demo_params False) demo_lib) demo_freeze demo_new = demo_frozen"
  by (simp only: unroll demo_freeze_def, code_simp)

definition demo_write :: "(gw_event \<times> dbl) list" where
  "demo_write = [(Map_event demo_grid 8, Fin 5)] @ replicate 11 (demo_job True, Fin 5)"

lemma demo_written:
  "run_events (gw_handle (demo_params False) demo_lib) demo_write demo_frozen =
   run_events (gw_handle (demo_params False) demo_lib) (demo_freeze @ demo_write) demo_new"
  by (simp add: run_events_append demo_freezes)

lemma last_output:
  "gw_out (gw_handle p lib ev now s) \<noteq> gw_out s \<Longrightarrow> last (gw_out (gw_handle p lib ev now s)) = r \<Longrightarrow>
     r \<in> set (drop (length (gw_out s)) (gw_out (gw_handle p lib ev now s)))"
  using new_outputs [of p lib ev now s] by (auto simp: last_append)

lemma demo_relayed:
  "Relay 2000 \<in> set (drop (length (gw_out demo_tried))
     (gw_out (gw_handle (demo_params False) demo_lib (Scan_event 2000 2000 True) (Fin 1) demo_tried)))"
  by code_simp

lemma demo_trying: "gw_forward demo_tried = False" "gw_phase demo_tried = Phase_trial"
  by (code_simp, code_simp)

theorem scan_relay_gated_witness:
  "gw_accepting demo_tried \<and> gw_one_scan demo_tried \<and>
   gw_expected (gw_handle (demo_params False) demo_lib (Scan_event 2000 2000 True) (Fin 1) demo_tried) = 2000"
  using scan_relay_gated [OF demo_asked [symmetric, unfolded demo_resume_def] demo_relayed] by (simp add: demo_trying)

lemma timer_speaks: "gw_out (gw_handle p lib (Timer_event alive service) now s) \<noteq> gw_out s"
proof -
  have "length (gw_out s) < length (gw_out (gw_handle p lib (Timer_event alive service) now s))"
    by (simp add: gw_handle_def gw_timer_def gw_watch_task_def gw_emit_def Let_def)
  then show ?thesis by auto
qed

lemma demo_ready:
  "last (gw_out (gw_handle (demo_params False) demo_lib (Timer_event True True) (Fin 1)
       (run_events (gw_handle (demo_params False) demo_lib) demo_match demo_tried))) = Ready True"
  by (simp only: unroll demo_match_def, code_simp)

lemma demo_matched:
  "run_events (gw_handle (demo_params False) demo_lib) demo_match demo_tried =
   run_events (gw_handle (demo_params False) demo_lib) (demo_ask @ demo_match) demo_resume"
  by (simp add: run_events_append demo_asked)

lemma demo_resumed:
  "gw_mode (gw_handle (demo_params False) demo_lib (Timer_event True True) (Fin 1)
       (run_events (gw_handle (demo_params False) demo_lib) demo_match demo_tried)) = Mode_resume"
  by (simp only: unroll demo_match_def, code_simp)

theorem resumed_ready_confirmed_witness:
  "gw_phase (gw_handle (demo_params False) demo_lib (Timer_event True True) (Fin 1)
       (run_events (gw_handle (demo_params False) demo_lib) demo_match demo_tried)) = Phase_current \<and>
   confirmed_match (demo_params False) demo_lib demo_resume (demo_ask @ demo_match)"
  using resumed_ready_confirmed [OF demo_resume_def demo_matched refl last_output [OF timer_speaks demo_ready]] demo_resumed
  by blast

lemma demo_mapped:
  "run_events (gw_handle p demo_lib) [(Map_event demo_grid 8, t)] s = gw_new_map True 8 t s"
  by (simp only: unroll)

lemma demo_saved:
  "Saved ''n'' \<in> set (drop (length (gw_out (run_events (gw_handle (demo_params False) demo_lib) demo_write demo_frozen)))
     (gw_out (gw_handle (demo_params False) demo_lib (demo_job True) (Fin 5)
       (run_events (gw_handle (demo_params False) demo_lib) demo_write demo_frozen))))"
  by (simp only: demo_write_def run_events_append demo_mapped, code_simp)

theorem saved_bundle_complete_witness:
  "(''n'', True) \<in> set (gw_disk (gw_handle (demo_params False) demo_lib (demo_job True) (Fin 5)
     (run_events (gw_handle (demo_params False) demo_lib) demo_write demo_frozen)))"
  using saved_bundle_complete [OF demo_written [unfolded demo_new_def] refl demo_saved] by blast

subsection \<open>What a failed start and a fault during a save leave behind\<close>

text \<open>
  A first start fails before the task has begun, because the old map cannot be read. The state is then a fault for which the
  page offers a restart, and the mode is still the one of the standing service: the restart is accepted and starts the backend
  in a mode that \<open>prepare.cpp\<close> refuses.
\<close>

lemma restart_of_failed_start:
  "gw_task (run_events (gw_handle (demo_params True) demo_lib)
     [(Page_message False ''a'' (Some (''connect'', False)), Fin 0),
      (Request_event False True 0 ''a'' (Post_start Mode_resume ''b''), Fin 0), (demo_job False, Fin 0)]
     (gateway_init Mode_standby [] None (Fin 0))) = Task_fault"
  "Start_backend Mode_standby [] \<in> set (gw_out (run_events (gw_handle (demo_params True) demo_lib)
     [(Page_message False ''a'' (Some (''connect'', False)), Fin 0),
      (Request_event False True 0 ''a'' (Post_start Mode_resume ''b''), Fin 0), (demo_job False, Fin 0),
      (Request_event False True 0 ''a'' (Post_restart False), Fin 0), (demo_job True, Fin 0), (demo_job True, Fin 0),
      (demo_job True, Fin 0)] (gateway_init Mode_standby [] None (Fin 0))))"
  by (code_simp, code_simp)

text \<open>
  The backend dies while a save waits for the robot to stand. The fault declares the operation over, so a restart is accepted
  behind the save; when the save then gives up, it declares the newest operation over, which is the restart that has not begun.
\<close>

definition demo_interrupted :: "(gw_event \<times> dbl) list" where
  "demo_interrupted = [(Page_message False ''a'' (Some (''connect'', False)), Fin 0),
     (Request_event False True 0 ''a'' (Post_start Mode_new []), Fin 0), (demo_job True, Fin 0),
     (demo_job True, Fin 0), (demo_job True, Fin 0), (demo_job True, Fin 0)] @ demo_still 0 @
     [(Scan_event 0 0 True, Fin 0), (Pose_event True (Fin 0) (Fin 0) demo_ahead 2000, Fin 0), (Map_event demo_grid 7, Fin 0), (Encode_take, Fin 0),
      (Encode_done True, Fin 0), (Timer_event True True, Fin 0), (Timer_event True True, Fin 0),
      (Request_event False True 0 ''a'' Post_save, Fin 0), (demo_job True, Fin 0), (Timer_event False True, Fin 0),
      (Request_event False True 0 ''a'' (Post_restart True), Fin 0), (demo_job True, Fin 6)]"

definition early_report :: "gateway \<Rightarrow> bool" where
  "early_report s \<longleftrightarrow> gw_job s = Some (Job_start Mode_new []) \<and> gw_completed s = gw_operation s \<and> \<not> gw_busy s"

lemma restart_reported_early:
  "early_report (run_events (gw_handle (demo_params True) demo_lib) demo_interrupted (gateway_init Mode_standby [] None (Fin 0)))"
  by (simp only: unroll demo_interrupted_def, code_simp)

end
