(* ===== verification/Spec2Isabelle.thy ===== *)
theory Spec2Isabelle
  imports Rosmaster_System Motion_Gate Teleop_Safety Indicator_Logic Recovery_Supervisor Localization_Monitor
    Localization_Recovery Protected_Backup Depth_Filter Depth_Supervision Inspection Inspection_Store Gateway_Safety
begin

text \<open>
  Verification development for Nav2\_car, the control software of an indoor inspection robot: a
  two-wheel base driven over a serial board, a laser scanner, a depth camera, and navigation on
  Nav2 with its own safety and recovery logic. Modelled is the C++ code under \<open>src/src/\<close> that
  decides whether and how the robot moves, from the bytes on the serial line up to the inspection
  mission.

  \<^bold>\<open>The program's parts and how they interact.\<close> Velocities reach the wheels through a chain in which
  every link may only take permission away:

  \<^item> \<open>carcar_inspection\<close> (mission, teaching of the camera angle) sends goals to the navigation;
  \<^item> the behaviour tree of \<open>carcar_navigation\<close> plans, follows and recovers: \<open>nav012_nodes.cpp\<close> with the
    shared \<open>RecoveryRuntime\<close>, the bounded action client and the plugin \<open>protected_backup.cpp\<close>; it
    publishes motion permits (\<open>/navigation/motion_permit\<close>);
  \<^item> \<open>localization_monitor.cpp\<close> says whether the pose can be trusted; \<open>depth_cloud_filter.cpp\<close>, the layer
    \<open>monitored_stvl_layer.cpp\<close> and \<open>depth_layer_supervisor.cpp\<close> say whether the depth camera can;
  \<^item> \<open>navigation_motion_gate.hpp\<close> lets a command through only under a live permit and a live perception
    heartbeat; \<open>teleop_guard.cpp\<close> does the same for manual driving from the web page, whose requests
    \<open>web_gateway.cpp\<close> passes on while it decides which laser scans a map is built from;
  \<^item> \<open>rosmaster_system.cpp\<close> (with \<open>differential_drive.cpp\<close> and \<open>rosmaster_protocol.cpp\<close>) turns wheel
    commands into frames, only with fresh encoder feedback; \<open>navigation_indicator.cpp\<close> shows the state.

  \<^bold>\<open>Theories.\<close>

  \<^item> \<open>Prelude\<close>: exceptions as sums, histories of events (\<open>run_events\<close>), and the locales \<open>invariant\<close>,
    \<open>grant_log\<close> and \<open>flag_log\<close>: a permission held after a history was granted by an event of it.
  \<^item> \<open>Ieee_Double\<close>, \<open>Ieee_Single\<close>: binary64 and binary32 as rationals with rounding, infinities and NaN, so
    that every comparison and overflow of the code is the code's. The laws a rounding must have are a locale,
    interpreted for the model's rounding.
  \<^item> \<open>Rosmaster_Protocol\<close> (\<open>rosmaster_protocol.cpp\<close>): the parser fed with any chunking of the stream equals the
    parser fed with the whole, decodes well-formed frames and resynchronises (locale \<open>incremental_decoder\<close>);
    the command builders with their ranges and errors.
  \<^item> \<open>Differential_Drive\<close>, \<open>Rosmaster_System\<close>: kinematics, the plugin's parameters, lifecycle, \<open>read\<close> and \<open>write\<close>;
    what may reach the port, which hardware descriptions are accepted, encoder unwrapping, the refused limit.
  \<^item> \<open>Motion_Gate\<close>, \<open>Teleop_Safety\<close>: the dead-man rules, as tracing of a non-zero output to the events
    that allow it.
  \<^item> \<open>Indicator_Logic\<close>: classification, colours and the sound state machine.
  \<^item> \<open>Bounded_Action\<close> (\<open>bounded_action.hpp\<close>): the client as an inductive step relation over the events of the action
    library; after a cancellation no goal is sent, and every goal with a known handle is asked to stop unless the
    library refuses the call; the watchdog cancels.
  \<^item> \<open>Recovery_Geometry\<close>, \<open>Swept_Clearance\<close>, \<open>Recovery_Runtime\<close> (\<open>recovery_runtime.hpp/.cpp\<close>): headings, progress,
    choice of backup and turn, the sweep of the outline, configuration, readiness, permit, budget, stillness.
  \<^item> \<open>Recovery_Nodes\<close>, \<open>Progress_Guard\<close>, \<open>Recovery_Supervisor\<close> (\<open>nav012_nodes.cpp\<close>): the leaves, the guard of
    progress, and the root. The locales \<open>quiet_class\<close>, \<open>quiet_decorated\<close> and \<open>quiet_children\<close> say that what runs below
    only withdraws the permit; they are interpreted on the robot's own leaves, guard and tree, which
    composes the four theories into the properties of a whole tick.
  \<^item> \<open>Localization_Monitor\<close>, \<open>Localization_Recovery\<close>: when readiness is earned; how often and how long a
    lost localisation is restored.
  \<^item> \<open>Protected_Backup\<close>: every reverse command is backed by fresh, clear sensors.
  \<^item> \<open>Depth_Filter\<close>, \<open>Stvl_Health\<close>, \<open>Depth_Supervision\<close>: selection and confirmation of obstacle points, health of the
    depth layers, and the permission for motion in both modes of the supervisor.
  \<^item> \<open>Inspection\<close> (\<open>domain.hpp\<close>, \<open>teaching.hpp\<close>, \<open>executor.cpp\<close>): validation, the teaching dialogue, the mission.
  \<^item> \<open>Inspection_Console\<close> (\<open>console_node.cpp\<close>): the node that runs them. Its subscriptions write the record \<open>watch\<close>;
    requests to the base (\<open>request_hold\<close>, \<open>request_servo\<close>) are answered in a later tick (\<open>run_pending\<close>); \<open>console_step\<close> is
    one step of a mission, \<open>console_command\<close> a command of the page, \<open>console_tick\<close> the timer with its \<open>try\<close> and \<open>catch\<close>.
    \<open>Console_Safety\<close>: no action but the end of the tick moves the robot (\<open>calm\<close>), a velocity is traced to the messages that
    allow it, every request of a step is justified, a run ends only at a confirmed stop; and two flaws of the code (a hold and a
    servo step that cannot be requested).
  \<^item> \<open>Inspection_Store\<close> (\<open>store.cpp\<close>, \<open>upload.cpp\<close>, the commands of \<open>console_node.cpp\<close> that write points and tasks): tables
    with revisions as association lists (\<open>table_put\<close>), one definition per command (\<open>save_point\<close>, \<open>confirm_approach\<close>,
    \<open>remove_point\<close>, ...), the interruption of runs at a restart, the queue of uploads. A mission inspects only where the
    teaching dialogue confirmed and parks where its task was posted with, no write overtakes another, and a photo is done only when the server echoed it.
  \<^item> \<open>Mapping_Gateway\<close>, \<open>Gateway_Safety\<close> (\<open>web_gateway.cpp\<close>): the tablet's gateway as a record of its members; a job thread is
    the sequence of its locked sections (\<open>gw_job\<close>, \<open>job_step\<close>), between which any callback or request may come. Which scans
    reach SLAM, that a resumed map was matched and confirmed before it counts as ready, that every step of a reported save
    has succeeded; and two flaws of restarting.

  \<^bold>\<open>Conventions.\<close> A C++ class is a record of its members, a callback or a method a function on it with the
  clock reading as argument; a timer's or callback's clock is read once per call. A handler per node
  (\<open>gate_handle\<close>, \<open>guard_handle\<close>, \<open>monitor_handle\<close>, \<open>depth_handle\<close>, \<open>backup_handle\<close>, \<open>teach_handle\<close>,
  \<open>mission_handle\<close>, \<open>console_handle\<close>, \<open>store_handle\<close>, \<open>gw_handle\<close>) gives the effect of one event, and properties are about every history of events. What a node
  publishes or asks of a service is appended to a list in its state. A throw is \<open>Inl\<close> or \<open>None\<close>. Integers are
  words where the code relies on their width (bytes, checksums, counters on the wire, sequence
  numbers, tokens) and unbounded otherwise; a conversion of a double that C++ leaves undefined is unbounded here.
  Doubles are not contracted into fused operations. Texts for people are left out or are constructors.

  \<^bold>\<open>Parameters of the model.\<close> Code outside the repository is an argument of the definitions that use it: the
  functions of libm, \<open>std::sqrt\<close> and \<open>std::hypot\<close> (\<open>libm\<close>), the transform buffer (\<open>tf_env\<close>), Nav2's cost map classes
  (\<open>nav2_env\<close>), PCL's voxel grid, the JSON library, \<open>std::stod\<close>, the operating system's answers to \<open>read\<close> and
  \<open>write\<close> (a script), the action and service libraries (events and answers), and the behaviour-tree library (the records
  \<open>children\<close>, \<open>decorated\<close>, the answers of \<open>mission_tick\<close>, the calls of steps in \<open>console_env\<close>), and the database of the
  inspection (the argument \<open>db\<close> of a command, \<open>en_put_ok\<close> of the console's, say which writes are kept), and the files, processes and
  SLAM services of the gateway (\<open>je_ok\<close>). The witnesses instantiate them by concrete functions.

  \<^bold>\<open>Bounds and fuel.\<close> Loops are structural recursions over the lists the code iterates over. The search for the
  free way ahead (\<open>forward_clear\<close>) has fuel 8, one more than the steps its loop condition admits. A call of the serial port
  that would wait for ever is \<open>None\<close>: its script has ended. The parser's loop terminates by its measure,
  the length of the buffer, and holds at most 65 bytes between calls.

  \<^bold>\<open>What is not modelled.\<close> The tools that only observe or record (event logger, log tool, audits and calibration of
  the camera, link checks), hardware test programs, the web servers and shells around the modelled
  cores (HTTP, WebRTC, SQLite, curl, child processes, hotspot), telemetry and pictures for the pages, setting the
  initial pose from the inspection page, the vendored lidar driver and STVL sources, launch
  files, and Python packages. Their reasons are in the list of components. \<open>escape_policy.hpp\<close>, \<open>wheel_imu_ekf.hpp\<close>
  and the class \<open>HealthStateMachine\<close> of \<open>depth_logic.hpp\<close> are compiled into no program of the robot.
\<close>

end
